(* ===== verification/Gateway_Prelude.thy ===== *)
theory Gateway_Prelude
  imports Complex_Main "HOL-Library.Word" "HOL-Library.AList" "HOL-Library.Multiset"
begin

text \<open>
  The prelude of the gateway development. It fixes the conventions every component theory
  shares:

  \<^item> Go's \<open>int\<close> and \<open>int64\<close> are HOL integers kept in range by \<open>w64\<close>, the two's
    complement wrap-around at 64 bits: \<open>x += y\<close> becomes \<open>add64 x y\<close>;
  \<^item> a Go map with string keys is an association list with distinct keys
    (\<open>AList.update\<close>, \<open>AList.delete\<close>, \<open>map_of\<close>). The order in which a \<open>range\<close>
    statement visits a Go map is not determined by the map, so every operation that ranges
    over a map takes the order as an argument: a function that permutes the list of keys
    (\<open>is_order\<close>);
  \<^item> objects that several components reach through pointers (backends, API keys) live in a
    store indexed by addresses (\<open>addr\<close>); a pointer is an address, and a method call through
    the pointer updates the object at that address;
  \<^item> a \<open>time.Time\<close> is the number of nanoseconds since the Unix epoch, and \<open>time.Now()\<close>
    is an argument of the operations that read the clock.
\<close>

named_theorems go_arith "facts about 64-bit arithmetic"
named_theorems slot_simps "what an operation does to the in-flight counters"

section \<open>64-bit integers\<close>

definition w64 :: "int \<Rightarrow> int" where
  "w64 x = (x + 2 ^ 63) mod 2 ^ 64 - 2 ^ 63"

definition add64 :: "int \<Rightarrow> int \<Rightarrow> int" where
  "add64 x y = w64 (x + y)"

definition sub64 :: "int \<Rightarrow> int \<Rightarrow> int" where
  "sub64 x y = w64 (x - y)"

abbreviation max_int64 :: int where
  "max_int64 \<equiv> 9223372036854775807"

abbreviation in_int64 :: "int \<Rightarrow> bool" where
  "in_int64 x \<equiv> - 9223372036854775808 \<le> x \<and> x \<le> max_int64"

lemma w64_id [go_arith]: "in_int64 x \<Longrightarrow> w64 x = x"
  by (simp add: w64_def)

lemma w64_range: "in_int64 (w64 x)"
proof -
  have "0 \<le> (x + 2 ^ 63) mod 2 ^ 64" and "(x + 2 ^ 63) mod 2 ^ 64 < 2 ^ 64"
    by simp_all
  then show ?thesis by (simp add: w64_def)
qed

lemma add64_id [go_arith]: "in_int64 (x + y) \<Longrightarrow> add64 x y = x + y"
  by (simp add: add64_def w64_id)

lemma sub64_id [go_arith]: "in_int64 (x - y) \<Longrightarrow> sub64 x y = x - y"
  by (simp add: sub64_def w64_id)

lemma add64_range: "in_int64 (add64 x y)"
  unfolding add64_def by (rule w64_range)

lemma add64_overflow:
  assumes "in_int64 x" and "in_int64 y" and "max_int64 < x + y"
  shows "add64 x y = x + y - 2 ^ 64"
proof -
  have "(x + y + 2 ^ 63) mod 2 ^ 64 = (x + y + 2 ^ 63 - 2 ^ 64) mod (2 ^ 64 :: int)"
    by (rule minus_mod_self2 [symmetric])
  also have "\<dots> = x + y + 2 ^ 63 - 2 ^ 64"
    using assms by (intro mod_pos_pos_trivial) simp_all
  finally show ?thesis by (simp add: add64_def w64_def)
qed

section \<open>Go maps and the order of iteration\<close>

type_synonym 'v gomap = "(string \<times> 'v) list"
type_synonym order = "string list \<Rightarrow> string list"
type_synonym time = int
type_synonym addr = nat

declare map_of_eq_Some_iff [simp del]

abbreviation keys_of :: "'v gomap \<Rightarrow> string list" where
  "keys_of m \<equiv> map fst m"

definition is_order :: "order \<Rightarrow> bool" where
  "is_order ord \<longleftrightarrow> (\<forall>ks. mset (ord ks) = mset ks)"

definition range_map :: "order \<Rightarrow> 'v gomap \<Rightarrow> 'v list" where
  "range_map ord m = List.map_filter (map_of m) (ord (keys_of m))"

lemma is_order_set: "is_order ord \<Longrightarrow> set (ord ks) = set ks"
  by (metis is_order_def set_mset_mset)

lemma is_order_distinct: "is_order ord \<Longrightarrow> distinct (ord ks) = distinct ks"
  by (metis is_order_def mset_eq_imp_distinct_iff)

lemma is_order_id [simp]: "is_order id" and is_order_rev [simp]: "is_order rev"
  by (simp_all add: is_order_def)

lemma set_range_map:
  assumes "is_order ord"
  shows "set (range_map ord m) = ran (map_of m)"
proof -
  have "set (range_map ord m) = {v. \<exists>k \<in> set (keys_of m). map_of m k = Some v}"
    by (force simp: range_map_def List.map_filter_def is_order_set [OF assms] image_iff)
  also have "\<dots> = ran (map_of m)"
  proof (intro set_eqI iffI)
    fix v
    assume "v \<in> ran (map_of m)"
    then obtain k where k: "map_of m k = Some v" by (auto simp: ran_def)
    from map_of_SomeD [OF k] have "k \<in> set (keys_of m)" by force
    with k show "v \<in> {v. \<exists>k \<in> set (keys_of m). map_of m k = Some v}" by blast
  qed (auto simp: ran_def)
  finally show ?thesis .
qed

lemma mset_map_filter: "mset (List.map_filter f xs) = image_mset the (filter_mset (\<lambda>y. y \<noteq> None) (image_mset f (mset xs)))"
  by (induction xs) (auto simp: List.map_filter_def)

lemma mset_range_map:
  assumes "is_order ord"
  shows "mset (range_map ord m) = mset (range_map id m)"
  using assms by (simp add: range_map_def mset_map_filter is_order_def)

lemma range_map_id:
  assumes "distinct (keys_of m)"
  shows "range_map id m = map snd m"
  using assms
proof (induction m)
  case Nil
  then show ?case by (simp add: range_map_def List.map_filter_def)
next
  case (Cons kv m)
  obtain k v where kv: "kv = (k, v)" by (cases kv)
  have eq: "List.map_filter (map_of ((k, v) # m)) (keys_of m) = List.map_filter (map_of m) (keys_of m)"
    unfolding List.map_filter_def using Cons.prems kv by (intro map_cong filter_cong) auto
  have "range_map id (kv # m) = v # List.map_filter (map_of ((k, v) # m)) (keys_of m)"
    by (simp add: range_map_def List.map_filter_def kv)
  also have "\<dots> = v # range_map id m"
    unfolding eq by (simp add: range_map_def)
  finally have "range_map id (kv # m) = v # range_map id m" .
  then show ?case using Cons.IH Cons.prems unfolding kv by (metis distinct.simps(2) list.simps(9) snd_conv)
qed

lemma length_range_map:
  assumes "is_order ord" and "distinct (keys_of m)"
  shows "length (range_map ord m) = length m"
  by (metis assms length_map mset_range_map range_map_id size_mset)

lemma in_range_map:
  "is_order ord \<Longrightarrow> v \<in> set (range_map ord m) \<longleftrightarrow> (\<exists>k. map_of m k = Some v)"
  by (auto simp: set_range_map ran_def)

lemma map_of_update [simp]: "map_of (AList.update k v m) = (map_of m)(k \<mapsto> v)"
  by (rule update_conv')

lemma map_of_delete [simp]: "map_of (AList.delete k m) = (map_of m)(k := None)"
  by (rule AList.delete_conv')

section \<open>Choosing from a list\<close>

text \<open>
  Several operations scan a list and keep the best element seen so far. \<open>argmax\<close> is that
  scan with a strict comparison (the first of several best elements wins).
\<close>

fun argmax_from :: "('a \<Rightarrow> 'b::linorder) \<Rightarrow> 'a option \<Rightarrow> 'b \<Rightarrow> 'a list \<Rightarrow> 'a option" where
  "argmax_from f best s [] = best"
| "argmax_from f best s (x # xs) =
     (if s < f x then argmax_from f (Some x) (f x) xs else argmax_from f best s xs)"

lemma argmax_from_mem:
  "argmax_from f best s xs = Some y \<Longrightarrow> best = Some y \<or> y \<in> set xs"
  by (induction xs arbitrary: best s) (auto split: if_splits)

lemma argmax_from_some:
  "best \<noteq> None \<or> (\<exists>x \<in> set xs. s < f x) \<Longrightarrow> argmax_from f best s xs \<noteq> None"
proof (induction xs arbitrary: best s)
  case (Cons x xs)
  show ?case
  proof (cases "s < f x")
    case True
    then show ?thesis using Cons.IH [of "Some x" "f x"] by simp
  next
    case False
    with Cons.prems have "best \<noteq> None \<or> (\<exists>x \<in> set xs. s < f x)" by auto
    with False show ?thesis using Cons.IH by simp
  qed
qed simp

lemma argmax_from_best:
  "argmax_from f best s xs = Some y \<Longrightarrow> (\<And>b. best = Some b \<Longrightarrow> f b = s)
     \<Longrightarrow> x \<in> set xs \<Longrightarrow> f x \<le> f y"
proof (induction xs arbitrary: best s)
  case Nil
  then show ?case by simp
next
  case (Cons z zs)
  have mono: "s' \<le> f y" if "argmax_from f b' s' ws = Some y" "\<And>b. b' = Some b \<Longrightarrow> f b = s'" for b' s' ws
    using that
  proof (induction ws arbitrary: b' s')
    case (Cons w ws)
    then show ?case by (auto split: if_splits) (metis less_imp_le option.inject order_trans)
  qed auto
  show ?case
  proof (cases "s < f z")
    case True
    with Cons.prems have r: "argmax_from f (Some z) (f z) zs = Some y" by simp
    with mono [OF r] Cons.IH [OF r] Cons.prems(3) show ?thesis by auto
  next
    case False
    with Cons.prems have r: "argmax_from f best s zs = Some y" by simp
    from mono [OF r] Cons.prems(2) False have "f z \<le> f y" by fastforce
    with Cons.IH [OF r] Cons.prems(2,3) show ?thesis by auto
  qed
qed

end
