(* ===== verification/Go_Strings.thy ===== *)
theory Go_Strings
  imports Gateway_Prelude
begin

text \<open>
  The part of Go's \<open>strings\<close> and \<open>bytes\<close> packages the gateway calls, on byte strings (a Go
  string is a sequence of bytes, a HOL \<open>string\<close> a list of 8-bit characters). Every function
  here computes what the library function of the same name computes.
\<close>

definition HasPrefix :: "string \<Rightarrow> string \<Rightarrow> bool" where
  "HasPrefix s p \<longleftrightarrow> take (length p) s = p"

definition HasSuffix :: "string \<Rightarrow> string \<Rightarrow> bool" where
  "HasSuffix s p \<longleftrightarrow> length p \<le> length s \<and> drop (length s - length p) s = p"

fun Index :: "string \<Rightarrow> string \<Rightarrow> nat option" where
  "Index [] sub = (if sub = [] then Some 0 else None)"
| "Index (c # s) sub =
     (if HasPrefix (c # s) sub then Some 0 else map_option Suc (Index s sub))"

definition Contains :: "string \<Rightarrow> string \<Rightarrow> bool" where
  "Contains s sub \<longleftrightarrow> Index s sub \<noteq> None"

text \<open>\<open>strings.Split\<close> with a one-byte separator.\<close>

fun Split :: "string \<Rightarrow> char \<Rightarrow> string list" where
  "Split [] c = [[]]"
| "Split (x # xs) c =
     (if x = c then [] # Split xs c
      else (case Split xs c of [] \<Rightarrow> [[x]] | p # ps \<Rightarrow> (x # p) # ps))"

text \<open>\<open>strings.TrimRight\<close> with a one-byte cutset, \<open>strings.TrimPrefix\<close>.\<close>

definition TrimRight :: "string \<Rightarrow> char \<Rightarrow> string" where
  "TrimRight s c = rev (dropWhile (\<lambda>x. x = c) (rev s))"

definition TrimPrefix :: "string \<Rightarrow> string \<Rightarrow> string" where
  "TrimPrefix s p = (if HasPrefix s p then drop (length p) s else s)"

text \<open>
  \<open>strings.TrimSpace\<close> removes Unicode white space at both ends. The list holds the UTF-8
  encodings of the code points with the White\_Space property; UTF-8 is self-synchronising,
  so a code point of the list starts (ends) the string exactly when its encoding is a prefix
  (suffix) of it.
\<close>

definition white_space :: "string list" where
  "white_space =
     [[char_of (9::nat)], [char_of (10::nat)], [char_of (11::nat)], [char_of (12::nat)],
      [char_of (13::nat)], [char_of (32::nat)],
      map char_of [194, 133::nat], map char_of [194, 160::nat],
      map char_of [225, 154, 128::nat]]
     @ map (\<lambda>b. map char_of [226, 128, b]) ([128 ..< 139] @ [168, 169, 175::nat])
     @ [map char_of [226, 129, 159::nat], map char_of [227, 128, 128::nat]]"

fun trim_left_by :: "string list \<Rightarrow> nat \<Rightarrow> string \<Rightarrow> string" where
  "trim_left_by ws 0 s = s"
| "trim_left_by ws (Suc n) s =
     (case find (HasPrefix s) ws of
        None \<Rightarrow> s
      | Some w \<Rightarrow> trim_left_by ws n (drop (length w) s))"

definition TrimSpace :: "string \<Rightarrow> string" where
  "TrimSpace s =
     (let l = trim_left_by white_space (length s) s
      in rev (trim_left_by (map rev white_space) (length l) (rev l)))"

text \<open>\<open>strings.ToLower\<close> on ASCII text.\<close>

definition lower_char :: "char \<Rightarrow> char" where
  "lower_char c = (let n = (of_char c :: nat) in if 65 \<le> n \<and> n \<le> 90 then char_of (n + 32) else c)"

definition ToLower :: "string \<Rightarrow> string" where
  "ToLower s = map lower_char s"

text \<open>
  \<open>strings.EqualFold s t\<close> for an ASCII string \<open>t\<close>. Beyond the ASCII letters, simple case
  folding identifies the Kelvin sign (U+212A) with \<open>k\<close> and the long s (U+017F) with \<open>s\<close>.
\<close>

fun fold_ascii :: "string \<Rightarrow> string" where
  "fold_ascii [] = []"
| "fold_ascii [c] = [lower_char c]"
| "fold_ascii [c, d] =
     (if c = char_of (197::nat) \<and> d = char_of (191::nat) then ''s''
      else lower_char c # fold_ascii [d])"
| "fold_ascii (c # d # e # s) =
     (if c = char_of (197::nat) \<and> d = char_of (191::nat) then CHR ''s'' # fold_ascii (e # s)
      else if c = char_of (226::nat) \<and> d = char_of (132::nat) \<and> e = char_of (170::nat)
      then CHR ''k'' # fold_ascii s
      else lower_char c # fold_ascii (d # e # s))"

definition EqualFold :: "string \<Rightarrow> string \<Rightarrow> bool" where
  "EqualFold s t \<longleftrightarrow> fold_ascii s = ToLower t"

text \<open>Decimal notation: \<open>strconv.Itoa\<close> and the verb \<open>%d\<close>.\<close>

fun digits :: "nat \<Rightarrow> string" where
  "digits n = (if n < 10 then [char_of (48 + n)] else digits (n div 10) @ [char_of (48 + n mod 10)])"

declare digits.simps [simp del]

definition Itoa :: "int \<Rightarrow> string" where
  "Itoa i = (if i < 0 then CHR ''-'' # digits (nat (- i)) else digits (nat i))"

text \<open>\<open>strconv.Atoi\<close>: an optional sign and decimal digits, within 64 bits.\<close>

definition digit_value :: "char \<Rightarrow> int option" where
  "digit_value c = (let n = (of_char c :: nat) in if 48 \<le> n \<and> n \<le> 57 then Some (int n - 48) else None)"

fun parse_digits :: "int \<Rightarrow> string \<Rightarrow> int option" where
  "parse_digits acc [] = Some acc"
| "parse_digits acc (c # s) = (case digit_value c of None \<Rightarrow> None | Some d \<Rightarrow> parse_digits (acc * 10 + d) s)"

definition Atoi :: "string \<Rightarrow> int option" where
  "Atoi s =
     (case s of
        [] \<Rightarrow> None
      | c # t \<Rightarrow>
          let neg = (c = CHR ''-''); ds = (if c = CHR ''-'' \<or> c = CHR ''+'' then t else s)
          in if ds = [] then None
             else (case parse_digits 0 ds of
                     None \<Rightarrow> None
                   | Some n \<Rightarrow> let v = (if neg then - n else n) in if in_int64 v then Some v else None))"

section \<open>Facts\<close>

lemma HasPrefix_append [simp]: "HasPrefix (p @ s) p"
  by (simp add: HasPrefix_def)

lemma HasPrefix_Nil [simp]: "HasPrefix s []"
  by (simp add: HasPrefix_def)

lemma HasPrefix_iff: "HasPrefix s p \<longleftrightarrow> (\<exists>r. s = p @ r)"
  by (auto simp: HasPrefix_def) (metis append_take_drop_id)

lemma HasSuffix_iff: "HasSuffix s p \<longleftrightarrow> (\<exists>r. s = r @ p)"
  by (auto simp: HasSuffix_def) (metis append_take_drop_id)

lemma HasPrefix_Cons [simp]: "HasPrefix (x # s) (y # p) \<longleftrightarrow> x = y \<and> HasPrefix s p"
  by (auto simp: HasPrefix_def)

lemma HasPrefix_NilD [simp]: "HasPrefix [] (y # p) = False"
  by (simp add: HasPrefix_def)

lemma HasPrefix_length: "HasPrefix s p \<Longrightarrow> length p \<le> length s"
  by (auto simp: HasPrefix_iff)

lemma Index_Some:
  "Index s sub = Some i \<Longrightarrow> HasPrefix (drop i s) sub \<and> i \<le> length s"
  by (induction s sub arbitrary: i rule: Index.induct) (auto split: if_splits)

lemma Index_least:
  "Index s sub = Some i \<Longrightarrow> HasPrefix (drop j s) sub \<Longrightarrow> i \<le> j"
proof (induction s sub arbitrary: i j rule: Index.induct)
  case (1 sub)
  then show ?case by (auto split: if_splits)
next
  case (2 c s sub)
  show ?case
  proof (cases "HasPrefix (c # s) sub")
    case True
    with "2.prems" show ?thesis by simp
  next
    case False
    with "2.prems" obtain i' where i': "Index s sub = Some i'" "i = Suc i'" by auto
    from False "2.prems"(2) obtain j' where j': "j = Suc j'" by (cases j) auto
    with "2.prems"(2) have "HasPrefix (drop j' s) sub" by simp
    with "2.IH" [OF False i'(1)] i'(2) j' show ?thesis by simp
  qed
qed

lemma Index_None:
  "Index s sub = None \<Longrightarrow> \<not> HasPrefix (drop j s) sub"
proof (induction s sub arbitrary: j rule: Index.induct)
  case (1 sub)
  then show ?case by (cases sub) (auto split: if_splits)
next
  case (2 c s sub)
  then show ?case by (cases j) (auto split: if_splits)
qed

lemma Contains_iff: "Contains s sub \<longleftrightarrow> (\<exists>j. HasPrefix (drop j s) sub)"
  unfolding Contains_def using Index_Some Index_None by fastforce

lemma Split_not_Nil [simp]: "Split s c \<noteq> []"
  by (induction s c rule: Split.induct) (auto split: list.splits)

lemma Split_no_sep: "c \<notin> set s \<Longrightarrow> Split s c = [s]"
  by (induction s c rule: Split.induct) auto

lemma Split_cons: "c \<notin> set s \<Longrightarrow> Split (s @ c # t) c = s # Split t c"
  by (induction s) auto

lemma Split_sep: "c \<in> set s \<Longrightarrow> 2 \<le> length (Split s c)"
proof (induction s c rule: Split.induct)
  case (2 x xs c)
  then show ?case by (cases "x = c") (auto split: list.splits simp: Suc_le_eq)
qed simp

lemma Split_parts: "p \<in> set (Split s c) \<Longrightarrow> c \<notin> set p"
  by (induction s c arbitrary: p rule: Split.induct) (auto split: list.splits if_splits)

lemma TrimRight_no_suffix: "TrimRight s c = [] \<or> last (TrimRight s c) \<noteq> c"
proof -
  let ?d = "dropWhile (\<lambda>x. x = c) (rev s)"
  have "?d = [] \<or> hd ?d \<noteq> c" using hd_dropWhile [of "\<lambda>x. x = c" "rev s"] by blast
  then show ?thesis by (simp add: TrimRight_def last_rev)
qed

lemma TrimRight_idem: "TrimRight (TrimRight s c) c = TrimRight s c"
  by (simp add: TrimRight_def dropWhile_idem)

lemma HasPrefix_TrimPrefix [simp]: "TrimPrefix (p @ s) p = s"
  by (simp add: TrimPrefix_def)

text \<open>Text that starts and ends with a printing ASCII character has nothing to trim.\<close>

definition printing :: "char \<Rightarrow> bool" where
  "printing c \<longleftrightarrow> 33 \<le> (of_char c :: nat) \<and> (of_char c :: nat) \<le> 126"

lemma white_space_ends: "\<forall>w \<in> set white_space. w \<noteq> [] \<and> \<not> printing (hd w) \<and> \<not> printing (last w)"
  by (simp add: white_space_def printing_def upt_rec)

lemma trim_left_by_id:
  assumes "s \<noteq> []" and "\<forall>w \<in> set ws. w \<noteq> [] \<and> hd w \<noteq> hd s"
  shows "trim_left_by ws n s = s"
proof -
  have "\<not> HasPrefix s w" if "w \<in> set ws" for w
    using assms that by (cases s; cases w) (auto simp: HasPrefix_def)
  then have "find (HasPrefix s) ws = None" by (auto simp: find_None_iff)
  then show ?thesis by (cases n) simp_all
qed

lemma TrimSpace_id:
  assumes "s \<noteq> []" "printing (hd s)" "printing (last s)"
  shows "TrimSpace s = s"
proof -
  have "trim_left_by white_space (length s) s = s"
    using assms white_space_ends by (intro trim_left_by_id) auto
  moreover have "trim_left_by (map rev white_space) (length s) (rev s) = rev s"
    using assms white_space_ends by (intro trim_left_by_id) (auto simp: hd_rev)
  ultimately show ?thesis by (simp add: TrimSpace_def)
qed

text \<open>Reading back a printed number.\<close>

lemma digit_value_digit: "n < 10 \<Longrightarrow> digit_value (char_of (48 + n)) = Some (int n)" for n :: nat
  by (simp add: digit_value_def Let_def)

lemma parse_digits_append:
  "parse_digits acc (s @ t) = (case parse_digits acc s of None \<Rightarrow> None | Some a \<Rightarrow> parse_digits a t)"
  by (induction s arbitrary: acc) (auto split: option.split)

lemma parse_digits_digits: "parse_digits 0 (digits n) = Some (int n)"
proof (induction n rule: digits.induct)
  case (1 n)
  show ?case
  proof (cases "n < 10")
    case True
    then show ?thesis by (simp add: digits.simps [of n] digit_value_digit)
  next
    case False
    have "int (n div 10) * 10 + int (n mod 10) = int n" by presburger
    then show ?thesis using False 1 by (simp add: digits.simps [of n] parse_digits_append digit_value_digit)
  qed
qed

lemma digits_sign: "\<exists>c s. digits n = c # s \<and> c \<noteq> CHR ''-'' \<and> c \<noteq> CHR ''+''"
proof (induction n rule: digits.induct)
  case (1 n)
  have sign: "digit_value (CHR ''-'') = None" "digit_value (CHR ''+'') = None" by (simp_all add: digit_value_def)
  have "char_of (48 + n) \<noteq> CHR ''-'' \<and> char_of (48 + n) \<noteq> CHR ''+''" if "n < 10"
    using digit_value_digit [OF that] sign by (metis option.distinct(1))
  then show ?case using 1 by (cases "n < 10") (auto simp: digits.simps [of n])
qed

lemma Atoi_Itoa: "in_int64 n \<Longrightarrow> Atoi (Itoa n) = Some n"
  using digits_sign [of "nat n"] digits_sign [of "nat (- n)"] parse_digits_digits [of "nat n"] parse_digits_digits [of "nat (- n)"]
  by (auto simp: Atoi_def Itoa_def Let_def)

end
