(* ===== verification/Gateway_Config.thy ===== *)
theory Gateway_Config
  imports Go_Strings
begin

text \<open>
  The configuration of the gateway (\<^verbatim>\<open>internal/config/config.go\<close>): one record per struct,
  the defaults, and \<open>Validate\<close> with every check and every default it fills in. A pointer
  field is an \<open>option\<close>. The three \<open>float64\<close> tuning values of the orchestration section are
  rationals: rounding and the IEEE special values are not modelled. The YAML decoder is code
  of another package and is an argument of \<open>Load\<close>; so is the file system.
\<close>

section \<open>The structs\<close>

record EmailNotifierConfig =
  em_Enabled :: bool
  em_SMTPHost :: string
  em_SMTPPort :: int
  em_Username :: string
  em_Password :: string
  em_From :: string
  em_To :: "string list"
  em_UseTLS :: bool
  em_StartTLS :: bool
  em_CooldownMS :: int
  em_NotifyOn :: "string list"

record NotificationsConfig =
  nc_Email :: EmailNotifierConfig

record ServerConfig =
  sc_Host :: string
  sc_Port :: int
  sc_RequestBodyLimitMB :: int
  sc_DefaultTimeoutMS :: int
  sc_StreamIdleTimeoutMS :: int
  sc_ReadHeaderTimeoutMS :: int
  sc_ShutdownTimeoutMS :: int
  sc_TrustedProxies :: "string list"

record AuthConfig =
  ac_APIKeyHeader :: string
  ac_APIKeyPrefix :: string
  ac_HashAlgorithm :: string
  ac_HashSecret :: string

record RoutingConfig =
  rc_DefaultPolicy :: string
  rc_ModelAliasEnabled :: bool
  rc_UnknownFieldPolicy :: string
  rc_AllowDegradedBackends :: bool

record HealthCheckConfig =
  hc_Enabled :: "bool option"
  hc_Type :: string
  hc_IntervalMS :: int
  hc_TimeoutMS :: int
  hc_FailureThreshold :: int
  hc_SuccessThreshold :: int
  hc_Path :: string
  hc_Method :: string
  hc_Body :: string

record RateLimitConfig =
  rl_Backend :: string
  rl_DefaultRequestsPerMinute :: int
  rl_DefaultConcurrentReq :: int
  rl_RedisURL :: string
  rl_RedisPrefix :: string

record LoggingConfig =
  lg_Level :: string
  lg_DefaultLogMetadata :: bool
  lg_DefaultLogInput :: bool
  lg_DefaultLogOutput :: bool
  lg_DefaultLogRawRequest :: bool
  lg_DefaultLogRawResponse :: bool
  lg_DefaultLogStreamChunks :: bool

record MetricsConfig =
  mt_PrometheusEnabled :: bool
  mt_PrometheusPath :: string

record AdminConfig =
  ad_Enabled :: bool
  ad_Username :: string
  ad_Password :: string
  ad_BindToken :: string

record AdminUserConfig =
  au_Username :: string
  au_Password :: string
  au_PasswordHash :: string
  au_Role :: string
  au_Email :: string

record StorageConfig =
  st_Driver :: string
  st_DSN :: string
  st_LogRetentionDays :: int

record QueueConfig =
  qc_Enabled :: bool
  qc_MaxQueueSize :: int
  qc_QueueTimeoutMS :: int
  qc_PerModelLimit :: int

record TracingConfig =
  tc_Enabled :: bool
  tc_Endpoint :: string
  tc_Service :: string
  tc_SampleRatio :: rat

record DashboardConfig =
  db_Enabled :: bool
  db_BaseURL :: string

record OrchestrationWorker =
  w_ID :: string
  w_Model :: string
  w_Tasks :: "string list"
  w_Strength :: rat
  w_Cost :: rat
  w_SecretMaxLevel :: int
  w_Tags :: "string list"

record OrchestrationConfig =
  o_Enabled :: bool
  o_RouterModel :: string
  o_ConductorModel :: string
  o_ConfidenceThreshold :: rat
  o_MaxSteps :: int
  o_CostPenalty :: rat
  o_RequestTimeoutMS :: int
  o_SecretLevelHeader :: string
  o_Workers :: "OrchestrationWorker list"

record BackendConfig =
  bc_ID :: string
  bc_Name :: string
  bc_BaseURL :: string
  bc_APIKey :: string
  bc_Enabled :: bool
  bc_Models :: "string list"
  bc_Weight :: int
  bc_MaxConcurrentRequests :: int
  bc_TimeoutMS :: int
  bc_StreamIdleTimeoutMS :: int
  bc_HealthCheck :: "HealthCheckConfig option"
  bc_Tags :: "string list"

record ModelConfig =
  mc_Name :: string
  mc_Type :: string
  mc_Enabled :: bool
  mc_ContextLength :: int
  mc_CapabilityMode :: string
  mc_Capabilities :: "bool gomap"
  mc_RoutingPolicy :: string

record ModelAliasConfig =
  mac_Alias :: string
  mac_InternalModel :: string
  mac_ForwardingMode :: string
  mac_Enabled :: bool

record APIKeyRateLimit =
  krl_Enabled :: bool
  krl_RequestsPerMinute :: int
  krl_TokensPerMinute :: int
  krl_RequestsPerDay :: int
  krl_TokensPerDay :: int
  krl_ConcurrentRequests :: int

record APIKeyQuota =
  kq_DailyRequests :: int
  kq_DailyTokens :: int
  kq_MonthlyRequests :: int
  kq_MonthlyTokens :: int

record APIKeyLogging =
  kl_LogMetadata :: bool
  kl_LogInput :: bool
  kl_LogOutput :: bool
  kl_LogRawRequest :: bool
  kl_LogRawResponse :: bool
  kl_LogStreamChunks :: bool

record APIKeyConfig =
  kc_ID :: string
  kc_Name :: string
  kc_Key :: string
  kc_KeyPrefix :: string
  kc_KeyHash :: string
  kc_Enabled :: bool
  kc_AllowedModels :: "string list"
  kc_DeniedModels :: "string list"
  kc_AllowedClientIPs :: "string list"
  kc_DeniedClientIPs :: "string list"
  kc_RateLimit :: "APIKeyRateLimit option"
  kc_Quota :: "APIKeyQuota option"
  kc_DelayMS :: int
  kc_Logging :: "APIKeyLogging option"
  kc_ExpiresAt :: string

record Config =
  c_Server :: ServerConfig
  c_Auth :: AuthConfig
  c_Routing :: RoutingConfig
  c_HealthCheck :: HealthCheckConfig
  c_RateLimit :: RateLimitConfig
  c_Logging :: LoggingConfig
  c_Metrics :: MetricsConfig
  c_Admin :: AdminConfig
  c_Storage :: StorageConfig
  c_Queue :: QueueConfig
  c_Tracing :: TracingConfig
  c_Dashboard :: DashboardConfig
  c_Notifications :: NotificationsConfig
  c_Orchestration :: OrchestrationConfig
  c_Backends :: "BackendConfig list"
  c_Models :: "ModelConfig list"
  c_ModelAliases :: "ModelAliasConfig list"
  c_APIKeys :: "APIKeyConfig list"
  c_AdminUsers :: "AdminUserConfig list"

section \<open>Defaults\<close>

definition Default :: Config where
  "Default = \<lparr>
     c_Server = \<lparr>sc_Host = ''0.0.0.0'', sc_Port = 8080, sc_RequestBodyLimitMB = 50,
       sc_DefaultTimeoutMS = 120000, sc_StreamIdleTimeoutMS = 30000,
       sc_ReadHeaderTimeoutMS = 30000, sc_ShutdownTimeoutMS = 30000, sc_TrustedProxies = []\<rparr>,
     c_Auth = \<lparr>ac_APIKeyHeader = ''Authorization'', ac_APIKeyPrefix = ''Bearer '',
       ac_HashAlgorithm = ''hmac_sha256'', ac_HashSecret = []\<rparr>,
     c_Routing = \<lparr>rc_DefaultPolicy = ''weighted_round_robin'', rc_ModelAliasEnabled = True,
       rc_UnknownFieldPolicy = ''passthrough'', rc_AllowDegradedBackends = False\<rparr>,
     c_HealthCheck = \<lparr>hc_Enabled = None, hc_Type = [], hc_IntervalMS = 5000, hc_TimeoutMS = 2000,
       hc_FailureThreshold = 3, hc_SuccessThreshold = 2, hc_Path = ''/models'', hc_Method = [],
       hc_Body = []\<rparr>,
     c_RateLimit = \<lparr>rl_Backend = ''memory'', rl_DefaultRequestsPerMinute = 60,
       rl_DefaultConcurrentReq = 10, rl_RedisURL = [], rl_RedisPrefix = []\<rparr>,
     c_Logging = \<lparr>lg_Level = ''info'', lg_DefaultLogMetadata = True, lg_DefaultLogInput = False,
       lg_DefaultLogOutput = False, lg_DefaultLogRawRequest = False,
       lg_DefaultLogRawResponse = False, lg_DefaultLogStreamChunks = False\<rparr>,
     c_Metrics = \<lparr>mt_PrometheusEnabled = True, mt_PrometheusPath = ''/metrics''\<rparr>,
     c_Admin = \<lparr>ad_Enabled = True, ad_Username = [], ad_Password = [], ad_BindToken = []\<rparr>,
     c_Storage = \<lparr>st_Driver = ''memory'', st_DSN = [], st_LogRetentionDays = 30\<rparr>,
     c_Queue = \<lparr>qc_Enabled = False, qc_MaxQueueSize = 1000, qc_QueueTimeoutMS = 30000,
       qc_PerModelLimit = 0\<rparr>,
     c_Tracing = \<lparr>tc_Enabled = False, tc_Endpoint = [], tc_Service = ''llmgateway'',
       tc_SampleRatio = 1\<rparr>,
     c_Dashboard = \<lparr>db_Enabled = True, db_BaseURL = []\<rparr>,
     c_Notifications = \<lparr>nc_Email = \<lparr>em_Enabled = False, em_SMTPHost = [], em_SMTPPort = 0,
       em_Username = [], em_Password = [], em_From = [], em_To = [], em_UseTLS = False,
       em_StartTLS = False, em_CooldownMS = 0, em_NotifyOn = []\<rparr>\<rparr>,
     c_Orchestration = \<lparr>o_Enabled = False, o_RouterModel = [], o_ConductorModel = [],
       o_ConfidenceThreshold = 55 / 100, o_MaxSteps = 5, o_CostPenalty = 0,
       o_RequestTimeoutMS = 120000, o_SecretLevelHeader = ''X-Secret-Level'', o_Workers = []\<rparr>,
     c_Backends = [], c_Models = [], c_ModelAliases = [], c_APIKeys = [], c_AdminUsers = []\<rparr>"

section \<open>Validation\<close>

datatype config_error =
    ReadFailed
  | ParseFailed
  | InvalidPort int
  | BackendMissingID
  | BackendMissingBaseURL string
  | BackendNoModels string
  | InvalidCapabilityMode string string
  | InvalidForwardingMode string string
  | OrchNoVirtualModel
  | OrchSameVirtualModel
  | OrchNoWorkers
  | OrchThreshold rat
  | OrchMaxSteps int
  | WorkerMissingID nat
  | WorkerMissingModel string
  | WorkerDuplicateID string
  | VirtualModelCollides string string
  | WorkerModelUnserved string string

fun check_backends :: "BackendConfig list \<Rightarrow> config_error option" where
  "check_backends [] = None"
| "check_backends (b # bs) =
     (if bc_ID b = [] then Some BackendMissingID
      else if bc_BaseURL b = [] then Some (BackendMissingBaseURL (bc_ID b))
      else if bc_Models b = [] then Some (BackendNoModels (bc_ID b))
      else check_backends bs)"

fun check_models :: "ModelConfig list \<Rightarrow> config_error option" where
  "check_models [] = None"
| "check_models (m # ms) =
     (if mc_CapabilityMode m \<in> {[], ''passthrough'', ''declared'', ''strict''}
      then check_models ms
      else Some (InvalidCapabilityMode (mc_Name m) (mc_CapabilityMode m)))"

fun check_aliases :: "ModelAliasConfig list \<Rightarrow> config_error option" where
  "check_aliases [] = None"
| "check_aliases (a # as) =
     (if mac_ForwardingMode a \<in> {[], ''use_internal'', ''keep_external''}
      then check_aliases as
      else Some (InvalidForwardingMode (mac_Alias a) (mac_ForwardingMode a)))"

fun check_workers :: "nat \<Rightarrow> string list \<Rightarrow> OrchestrationWorker list \<Rightarrow> config_error option" where
  "check_workers i ids [] = None"
| "check_workers i ids (w # ws) =
     (if w_ID w = [] then Some (WorkerMissingID i)
      else if w_Model w = [] then Some (WorkerMissingModel (w_ID w))
      else if w_ID w \<in> set ids then Some (WorkerDuplicateID (w_ID w))
      else check_workers (Suc i) (w_ID w # ids) ws)"

definition validate_orchestration :: "OrchestrationConfig \<Rightarrow> config_error + OrchestrationConfig" where
  "validate_orchestration o1 =
     (if \<not> o_Enabled o1 then Inr o1
      else if o_RouterModel o1 = [] \<and> o_ConductorModel o1 = [] then Inl OrchNoVirtualModel
      else if o_RouterModel o1 \<noteq> [] \<and> o_RouterModel o1 = o_ConductorModel o1
        then Inl OrchSameVirtualModel
      else if o_Workers o1 = [] then Inl OrchNoWorkers
      else if o_ConfidenceThreshold o1 < 0 \<or> 1 < o_ConfidenceThreshold o1
        then Inl (OrchThreshold (o_ConfidenceThreshold o1))
      else
        let o2 = (if o_MaxSteps o1 \<le> 0 then o1\<lparr>o_MaxSteps := 5\<rparr> else o1) in
        if 5 < o_MaxSteps o2 then Inl (OrchMaxSteps (o_MaxSteps o2))
        else
          let o3 = (if o_RequestTimeoutMS o2 \<le> 0 then o2\<lparr>o_RequestTimeoutMS := 120000\<rparr> else o2);
              o4 = (if o_SecretLevelHeader o3 = [] then o3\<lparr>o_SecretLevelHeader := ''X-Secret-Level''\<rparr> else o3)
          in (case check_workers 0 [] (o_Workers o4) of
                Some e \<Rightarrow> Inl e
              | None \<Rightarrow> Inr o4))"

fun check_virtual :: "string list \<Rightarrow> (string \<times> string) list \<Rightarrow> config_error option" where
  "check_virtual realModels [] = None"
| "check_virtual realModels ((kind, name) # vms) =
     (if name = [] then check_virtual realModels vms
      else if name \<in> set realModels then Some (VirtualModelCollides kind name)
      else check_virtual realModels vms)"

fun check_worker_models :: "string list \<Rightarrow> OrchestrationWorker list \<Rightarrow> config_error option" where
  "check_worker_models served [] = None"
| "check_worker_models served (w # ws) =
     (if w_Model w \<in> set served then check_worker_models served ws
      else Some (WorkerModelUnserved (w_ID w) (w_Model w)))"

definition validateOrchestrationRefs :: "Config \<Rightarrow> config_error option" where
  "validateOrchestrationRefs c =
     (let orch = c_Orchestration c in
      if \<not> o_Enabled orch then None
      else
        let backendModels = concat (map bc_Models (c_Backends c));
            realModels = map mc_Name (c_Models c) @ map mac_Alias (c_ModelAliases c) @ backendModels
        in (case check_virtual realModels
                   [(''router_model'', o_RouterModel orch), (''conductor_model'', o_ConductorModel orch)] of
              Some e \<Rightarrow> Some e
            | None \<Rightarrow> check_worker_models backendModels (o_Workers orch)))"

definition Validate :: "Config \<Rightarrow> config_error + Config" where
  "Validate c0 =
     (if sc_Port (c_Server c0) \<le> 0 \<or> 65535 < sc_Port (c_Server c0)
      then Inl (InvalidPort (sc_Port (c_Server c0)))
      else
        let c1 = (if sc_RequestBodyLimitMB (c_Server c0) \<le> 0
                  then c0\<lparr>c_Server := (c_Server c0)\<lparr>sc_RequestBodyLimitMB := 50\<rparr>\<rparr> else c0)
        in (case check_backends (c_Backends c1) of Some e \<Rightarrow> Inl e | None \<Rightarrow>
           (case check_models (c_Models c1) of Some e \<Rightarrow> Inl e | None \<Rightarrow>
           (case check_aliases (c_ModelAliases c1) of Some e \<Rightarrow> Inl e | None \<Rightarrow>
           (case validate_orchestration (c_Orchestration c1) of Inl e \<Rightarrow> Inl e | Inr o' \<Rightarrow>
             let c2 = c1\<lparr>c_Orchestration := o'\<rparr>
             in (case validateOrchestrationRefs c2 of Some e \<Rightarrow> Inl e | None \<Rightarrow> Inr c2))))))"

definition Load :: "(string \<Rightarrow> string option) \<Rightarrow> (string \<Rightarrow> Config \<Rightarrow> Config option)
    \<Rightarrow> string \<Rightarrow> config_error + Config" where
  "Load read_file yaml_unmarshal path =
     (if path = [] then Inr Default
      else (case read_file path of
              None \<Rightarrow> Inl ReadFailed
            | Some data \<Rightarrow>
                (case yaml_unmarshal data Default of
                   None \<Rightarrow> Inl ParseFailed
                 | Some cfg \<Rightarrow> Validate cfg)))"

text \<open>Timeouts as durations, in nanoseconds.\<close>

definition ReadHeaderTimeout :: "ServerConfig \<Rightarrow> int" where
  "ReadHeaderTimeout s =
     (if sc_ReadHeaderTimeoutMS s \<le> 0 then 30 * 10 ^ 9
      else w64 (sc_ReadHeaderTimeoutMS s * 10 ^ 6))"

definition ShutdownTimeout :: "ServerConfig \<Rightarrow> int" where
  "ShutdownTimeout s =
     (if sc_ShutdownTimeoutMS s \<le> 0 then 30 * 10 ^ 9
      else w64 (sc_ShutdownTimeoutMS s * 10 ^ 6))"

section \<open>What a valid configuration guarantees\<close>

definition backend_ok :: "BackendConfig \<Rightarrow> bool" where
  "backend_ok b \<longleftrightarrow> bc_ID b \<noteq> [] \<and> bc_BaseURL b \<noteq> [] \<and> bc_Models b \<noteq> []"

definition orchestration_ok :: "Config \<Rightarrow> bool" where
  "orchestration_ok c \<longleftrightarrow>
     (let orch = c_Orchestration c;
          backendModels = set (concat (map bc_Models (c_Backends c)));
          realModels = set (map mc_Name (c_Models c)) \<union> set (map mac_Alias (c_ModelAliases c)) \<union> backendModels
      in (o_RouterModel orch \<noteq> [] \<or> o_ConductorModel orch \<noteq> [])
       \<and> o_RouterModel orch \<noteq> o_ConductorModel orch
       \<and> o_Workers orch \<noteq> []
       \<and> 0 \<le> o_ConfidenceThreshold orch \<and> o_ConfidenceThreshold orch \<le> 1
       \<and> 1 \<le> o_MaxSteps orch \<and> o_MaxSteps orch \<le> 5
       \<and> 0 < o_RequestTimeoutMS orch \<and> o_SecretLevelHeader orch \<noteq> []
       \<and> distinct (map w_ID (o_Workers orch))
       \<and> (\<forall>w \<in> set (o_Workers orch). w_ID w \<noteq> [] \<and> w_Model w \<in> backendModels)
       \<and> (o_RouterModel orch \<noteq> [] \<longrightarrow> o_RouterModel orch \<notin> realModels)
       \<and> (o_ConductorModel orch \<noteq> [] \<longrightarrow> o_ConductorModel orch \<notin> realModels))"

definition config_ok :: "Config \<Rightarrow> bool" where
  "config_ok c \<longleftrightarrow>
     0 < sc_Port (c_Server c) \<and> sc_Port (c_Server c) \<le> 65535
   \<and> 0 < sc_RequestBodyLimitMB (c_Server c)
   \<and> (\<forall>b \<in> set (c_Backends c). backend_ok b)
   \<and> (\<forall>m \<in> set (c_Models c). mc_CapabilityMode m \<in> {[], ''passthrough'', ''declared'', ''strict''})
   \<and> (\<forall>a \<in> set (c_ModelAliases c). mac_ForwardingMode a \<in> {[], ''use_internal'', ''keep_external''})
   \<and> (o_Enabled (c_Orchestration c) \<longrightarrow> orchestration_ok c)"

lemma check_backends_iff: "check_backends bs = None \<longleftrightarrow> (\<forall>b \<in> set bs. backend_ok b)"
  by (induction bs) (auto simp: backend_ok_def)

lemma check_models_iff:
  "check_models ms = None \<longleftrightarrow>
     (\<forall>m \<in> set ms. mc_CapabilityMode m \<in> {[], ''passthrough'', ''declared'', ''strict''})"
  by (induction ms) auto

lemma check_aliases_iff:
  "check_aliases as = None \<longleftrightarrow>
     (\<forall>a \<in> set as. mac_ForwardingMode a \<in> {[], ''use_internal'', ''keep_external''})"
  by (induction as) auto

lemma check_workers_iff:
  "check_workers i ids ws = None \<longleftrightarrow>
     (\<forall>w \<in> set ws. w_ID w \<noteq> [] \<and> w_Model w \<noteq> [] \<and> w_ID w \<notin> set ids) \<and> distinct (map w_ID ws)"
  by (induction i ids ws rule: check_workers.induct) (auto simp: image_iff)

lemma check_virtual_iff:
  "check_virtual realModels vms = None \<longleftrightarrow> (\<forall>(k, n) \<in> set vms. n \<noteq> [] \<longrightarrow> n \<notin> set realModels)"
  by (induction realModels vms rule: check_virtual.induct) auto

lemma check_worker_models_iff:
  "check_worker_models served ws = None \<longleftrightarrow> (\<forall>w \<in> set ws. w_Model w \<in> set served)"
  by (induction ws) auto

lemmas check_iffs = check_backends_iff check_models_iff check_aliases_iff check_workers_iff
  check_virtual_iff check_worker_models_iff

lemma validate_orchestration_Inr:
  assumes "validate_orchestration o1 = Inr o2" and "o_Enabled o1"
  shows "(o_RouterModel o1 \<noteq> [] \<or> o_ConductorModel o1 \<noteq> [])"
    and "o_RouterModel o1 = [] \<or> o_RouterModel o1 \<noteq> o_ConductorModel o1"
    and "o_Workers o1 \<noteq> []"
    and "0 \<le> o_ConfidenceThreshold o1 \<and> o_ConfidenceThreshold o1 \<le> 1"
    and "o_MaxSteps o1 \<le> 5" and "check_workers 0 [] (o_Workers o1) = None"
    and "o2 = o1\<lparr>o_MaxSteps := if o_MaxSteps o1 \<le> 0 then 5 else o_MaxSteps o1,
           o_RequestTimeoutMS := if o_RequestTimeoutMS o1 \<le> 0 then 120000 else o_RequestTimeoutMS o1,
           o_SecretLevelHeader := if o_SecretLevelHeader o1 = [] then ''X-Secret-Level''
             else o_SecretLevelHeader o1\<rparr>"
proof -
  have *: "o_RouterModel o1 \<noteq> [] \<or> o_ConductorModel o1 \<noteq> []"
    "o_RouterModel o1 = [] \<or> o_RouterModel o1 \<noteq> o_ConductorModel o1" "o_Workers o1 \<noteq> []"
    "0 \<le> o_ConfidenceThreshold o1 \<and> o_ConfidenceThreshold o1 \<le> 1"
    using assms unfolding validate_orchestration_def by (auto split: if_splits)
  then show "o_RouterModel o1 \<noteq> [] \<or> o_ConductorModel o1 \<noteq> []"
    and "o_RouterModel o1 = [] \<or> o_RouterModel o1 \<noteq> o_ConductorModel o1" and "o_Workers o1 \<noteq> []"
    and "0 \<le> o_ConfidenceThreshold o1 \<and> o_ConfidenceThreshold o1 \<le> 1"
    by blast+
  from * assms(2) have eq: "validate_orchestration o1 =
     (if 5 < o_MaxSteps o1 then Inl (OrchMaxSteps (o_MaxSteps o1))
      else case check_workers 0 [] (o_Workers o1) of Some e \<Rightarrow> Inl e
           | None \<Rightarrow> Inr (o1\<lparr>o_MaxSteps := if o_MaxSteps o1 \<le> 0 then 5 else o_MaxSteps o1,
           o_RequestTimeoutMS := if o_RequestTimeoutMS o1 \<le> 0 then 120000 else o_RequestTimeoutMS o1,
           o_SecretLevelHeader := if o_SecretLevelHeader o1 = [] then ''X-Secret-Level''
             else o_SecretLevelHeader o1\<rparr>))"
    unfolding validate_orchestration_def Let_def by (auto simp: not_less split: option.split)
  from eq assms(1) show "o_MaxSteps o1 \<le> 5" by (simp split: if_splits)
  with eq assms(1) show "check_workers 0 [] (o_Workers o1) = None"
    and "o2 = o1\<lparr>o_MaxSteps := if o_MaxSteps o1 \<le> 0 then 5 else o_MaxSteps o1,
           o_RequestTimeoutMS := if o_RequestTimeoutMS o1 \<le> 0 then 120000 else o_RequestTimeoutMS o1,
           o_SecretLevelHeader := if o_SecretLevelHeader o1 = [] then ''X-Secret-Level''
             else o_SecretLevelHeader o1\<rparr>"
    by (simp_all split: option.splits)
qed

lemma validate_orchestration_disabled [simp]:
  "\<not> o_Enabled o1 \<Longrightarrow> validate_orchestration o1 = Inr o1"
  by (simp add: validate_orchestration_def)

lemma validate_orchestration_fix:
  assumes "validate_orchestration o1 = Inr o2"
  shows "validate_orchestration o2 = Inr o2"
proof (cases "o_Enabled o1")
  case True
  note * = validate_orchestration_Inr [OF assms True]
  from True *(1-6) show ?thesis unfolding *(7)
    by (auto simp: validate_orchestration_def Let_def)
next
  case False
  with assms show ?thesis by simp
qed

lemma validate_orchestration_sound:
  assumes "validate_orchestration o1 = Inr o2" and "o_Enabled o2"
  shows "(o_RouterModel o2 \<noteq> [] \<or> o_ConductorModel o2 \<noteq> []) \<and> o_RouterModel o2 \<noteq> o_ConductorModel o2
    \<and> o_Workers o2 \<noteq> [] \<and> 0 \<le> o_ConfidenceThreshold o2 \<and> o_ConfidenceThreshold o2 \<le> 1
    \<and> 1 \<le> o_MaxSteps o2 \<and> o_MaxSteps o2 \<le> 5
    \<and> 0 < o_RequestTimeoutMS o2 \<and> o_SecretLevelHeader o2 \<noteq> []
    \<and> distinct (map w_ID (o_Workers o2)) \<and> (\<forall>w \<in> set (o_Workers o2). w_ID w \<noteq> [])"
proof -
  have en: "o_Enabled o1" using assms by (cases "o_Enabled o1") simp_all
  note * = validate_orchestration_Inr [OF assms(1) en]
  from *(6) have "distinct (map w_ID (o_Workers o1))" "\<forall>w \<in> set (o_Workers o1). w_ID w \<noteq> []"
    by (simp_all add: check_workers_iff)
  with *(1-5) show ?thesis unfolding *(7) by auto
qed

lemma validateOrchestrationRefs_None:
  assumes "validateOrchestrationRefs c = None" and "o_Enabled (c_Orchestration c)"
  shows "let orch = c_Orchestration c; served = set (concat (map bc_Models (c_Backends c)));
             reals = set (map mc_Name (c_Models c)) \<union> set (map mac_Alias (c_ModelAliases c)) \<union> served
         in (\<forall>w \<in> set (o_Workers orch). w_Model w \<in> served)
          \<and> (o_RouterModel orch \<noteq> [] \<longrightarrow> o_RouterModel orch \<notin> reals)
          \<and> (o_ConductorModel orch \<noteq> [] \<longrightarrow> o_ConductorModel orch \<notin> reals)"
  using assms unfolding validateOrchestrationRefs_def Let_def
  by (auto simp del: check_virtual.simps simp: check_virtual_iff check_worker_models_iff
      split: if_splits option.splits)

lemma Validate_Inr:
  assumes "Validate c0 = Inr c"
  obtains c1 o' where "sc_Port (c_Server c0) > 0" "sc_Port (c_Server c0) \<le> 65535"
    "c1 = (if sc_RequestBodyLimitMB (c_Server c0) \<le> 0
           then c0\<lparr>c_Server := (c_Server c0)\<lparr>sc_RequestBodyLimitMB := 50\<rparr>\<rparr> else c0)"
    "check_backends (c_Backends c1) = None" "check_models (c_Models c1) = None"
    "check_aliases (c_ModelAliases c1) = None"
    "validate_orchestration (c_Orchestration c1) = Inr o'" "c = c1\<lparr>c_Orchestration := o'\<rparr>"
    "validateOrchestrationRefs c = None"
  using assms unfolding Validate_def Let_def
  by (auto split: if_splits option.splits sum.splits)

text \<open>
  A configuration that \<open>Validate\<close> accepts is well formed: the port is a TCP port, the body
  limit is positive, every backend has an id, a URL and a model, capability and forwarding modes
  are known; and when orchestration is on, its virtual names exist, differ and shadow no real
  model, alias or backend model, its step budget is between 1 and 5, its threshold is in
  \<open>[0,1]\<close>, worker ids are distinct and every worker's model is served by a configured backend.
\<close>

theorem Validate_sound:
  assumes "Validate c0 = Inr c"
  shows "config_ok c"
proof -
  from assms obtain c1 o' where *: "sc_Port (c_Server c0) > 0" "sc_Port (c_Server c0) \<le> 65535"
    "c1 = (if sc_RequestBodyLimitMB (c_Server c0) \<le> 0
           then c0\<lparr>c_Server := (c_Server c0)\<lparr>sc_RequestBodyLimitMB := 50\<rparr>\<rparr> else c0)"
    "check_backends (c_Backends c1) = None" "check_models (c_Models c1) = None"
    "check_aliases (c_ModelAliases c1) = None"
    "validate_orchestration (c_Orchestration c1) = Inr o'" "c = c1\<lparr>c_Orchestration := o'\<rparr>"
    "validateOrchestrationRefs c = None"
    by (rule Validate_Inr)
  have "orchestration_ok c" if en: "o_Enabled (c_Orchestration c)"
    using validate_orchestration_sound [OF *(7)] validateOrchestrationRefs_None [OF *(9) en] en *(8)
    unfolding orchestration_ok_def by (simp add: Let_def)
  with * show ?thesis
    unfolding config_ok_def by (auto simp: check_backends_iff check_models_iff check_aliases_iff)
qed

definition example_config :: Config where
  "example_config = Default\<lparr>
     c_Server := (c_Server Default)\<lparr>sc_RequestBodyLimitMB := 0\<rparr>,
     c_Backends := [\<lparr>bc_ID = ''b1'', bc_Name = [], bc_BaseURL = ''http://h'', bc_APIKey = [],
       bc_Enabled = True, bc_Models = [''m1''], bc_Weight = 1, bc_MaxConcurrentRequests = 0,
       bc_TimeoutMS = 0, bc_StreamIdleTimeoutMS = 0, bc_HealthCheck = None, bc_Tags = []\<rparr>],
     c_Orchestration := (c_Orchestration Default)\<lparr>o_Enabled := True, o_RouterModel := ''fugu'',
       o_MaxSteps := 0,
       o_Workers := [\<lparr>w_ID = ''w1'', w_Model = ''m1'', w_Tasks = [''code''], w_Strength = 1/2,
         w_Cost = 1, w_SecretMaxLevel = 0, w_Tags = []\<rparr>]\<rparr>\<rparr>"

theorem Validate_sound_witness:
  "\<exists>c. Validate example_config = Inr c \<and> o_Enabled (c_Orchestration c)
     \<and> o_MaxSteps (c_Orchestration c) = 5 \<and> config_ok c"
proof -
  have eq: "Validate example_config =
      Inr (example_config\<lparr>c_Server := (c_Server Default)\<lparr>sc_RequestBodyLimitMB := 50\<rparr>,
        c_Orchestration := (c_Orchestration example_config)\<lparr>o_MaxSteps := 5\<rparr>\<rparr>)"
    by (simp add: Validate_def example_config_def Default_def validate_orchestration_def
        validateOrchestrationRefs_def Let_def)
  show ?thesis
    using Validate_sound [OF eq] eq by (auto simp: example_config_def)
qed

text \<open>
  Validation is idempotent: what \<open>Validate\<close> returns is accepted again unchanged, so the
  defaults it fills in never themselves need a default or fail a check.
\<close>

theorem Validate_idem:
  assumes "Validate c0 = Inr c"
  shows "Validate c = Inr c"
proof -
  from assms obtain c1 o' where *: "sc_Port (c_Server c0) > 0" "sc_Port (c_Server c0) \<le> 65535"
    "c1 = (if sc_RequestBodyLimitMB (c_Server c0) \<le> 0
           then c0\<lparr>c_Server := (c_Server c0)\<lparr>sc_RequestBodyLimitMB := 50\<rparr>\<rparr> else c0)"
    "check_backends (c_Backends c1) = None" "check_models (c_Models c1) = None"
    "check_aliases (c_ModelAliases c1) = None"
    "validate_orchestration (c_Orchestration c1) = Inr o'" "c = c1\<lparr>c_Orchestration := o'\<rparr>"
    "validateOrchestrationRefs c = None"
    by (rule Validate_Inr)
  have "c\<lparr>c_Orchestration := o'\<rparr> = c" using *(8) by simp
  with * validate_orchestration_fix [OF *(7)] show ?thesis
    by (simp add: Validate_def)
qed

theorem Validate_idem_witness:
  "Validate Default = Inr Default \<and> Validate Default = Inr Default"
proof -
  have eq: "Validate Default = Inr Default"
    by (simp add: Validate_def Default_def validate_orchestration_def
        validateOrchestrationRefs_def Let_def)
  show ?thesis using Validate_idem [OF eq] eq by simp
qed

end
