(* ===== verification/Slot_Pool.thy ===== *)
theory Slot_Pool
  imports Gateway_Prelude
begin

text \<open>
  The contract of a bounded counter of requests in flight. Three parts of the gateway promise
  it: the slots of a backend, the per-key concurrency table and the semaphore of a queue scope.
  Clients take a slot with \<open>acquire\<close> and give it back with \<open>release\<close>; \<open>pool_run\<close> replays
  any interleaving of such calls and counts the slots that are held. The lemmas of the locale
  are proved once and used through the interpretations in the theories of the three components.
\<close>

datatype slot_event = Acq | Rel

fun pool_run :: "('s \<Rightarrow> 's \<times> bool) \<Rightarrow> ('s \<Rightarrow> 's) \<Rightarrow> 's \<Rightarrow> nat \<Rightarrow> slot_event list \<Rightarrow> 's \<times> nat" where
  "pool_run acq rel s n [] = (s, n)"
| "pool_run acq rel s n (Acq # es) =
     (case acq s of (s', granted) \<Rightarrow> pool_run acq rel s' (if granted then Suc n else n) es)"
| "pool_run acq rel s n (Rel # es) =
     (if n = 0 then pool_run acq rel s n es else pool_run acq rel (rel s) (n - 1) es)"

locale slot_pool =
  fixes acquire :: "'s \<Rightarrow> 's \<times> bool"
    and release :: "'s \<Rightarrow> 's"
    and used :: "'s \<Rightarrow> int"
    and cap :: "'s \<Rightarrow> int"
    and inv :: "'s \<Rightarrow> bool"
  assumes grant: "inv s \<Longrightarrow> acquire s = (s', True) \<Longrightarrow>
      used s < cap s \<and> used s' = used s + 1 \<and> cap s' = cap s \<and> inv s'"
    and refuse: "inv s \<Longrightarrow> acquire s = (s', False) \<Longrightarrow> s' = s \<and> cap s \<le> used s"
    and release: "inv s \<Longrightarrow> 0 < used s \<Longrightarrow>
      used (release s) = used s - 1 \<and> cap (release s) = cap s \<and> inv (release s)"
    and bounded: "inv s \<Longrightarrow> 0 \<le> used s \<and> used s \<le> cap s"
begin

lemma run_counts:
  assumes "inv s" and "used s = int n" and "pool_run acquire release s n es = (s', n')"
  shows "inv s' \<and> used s' = int n' \<and> cap s' = cap s"
  using assms
proof (induction es arbitrary: s n)
  case Nil
  then show ?case by simp
next
  case (Cons e es)
  show ?case
  proof (cases e)
    case Acq
    obtain t g where acq: "acquire s = (t, g)" by (cases "acquire s")
    show ?thesis
    proof (cases g)
      case True
      with acq grant Cons.prems(1) have "used t = used s + 1" "inv t" "cap t = cap s" by auto
      with Cons.IH [of t "Suc n"] Cons.prems acq Acq True show ?thesis by simp
    next
      case False
      with acq have "acquire s = (t, False)" by simp
      with refuse Cons.prems(1) have "t = s" by blast
      with Cons.IH [of s n] Cons.prems acq Acq False show ?thesis by simp
    qed
  next
    case Rel
    show ?thesis
    proof (cases n)
      case 0
      with Cons Rel show ?thesis by simp
    next
      case (Suc m)
      with release Cons.prems(1,2)
      have "used (release s) = int m" "inv (release s)" "cap (release s) = cap s" by auto
      with Cons.IH [of "release s" m] Cons.prems Rel Suc show ?thesis by simp
    qed
  qed
qed

lemma run_bounded:
  assumes "inv s" and "used s = int n" and "pool_run acquire release s n es = (s', n')"
  shows "int n' \<le> cap s"
  using run_counts [OF assms] bounded by fastforce

lemma granted_iff:
  assumes "inv s"
  shows "snd (acquire s) \<longleftrightarrow> used s < cap s"
  using grant [OF assms] refuse [OF assms] by (cases "acquire s") (cases "snd (acquire s)"; fastforce)

lemma release_frees:
  assumes "inv s" and "0 < used s"
  shows "snd (acquire (release s))"
  using release [OF assms] bounded [OF assms(1)] granted_iff by fastforce

end

end
