(* ===== verification/Backend_Model.thy ===== *)
theory Backend_Model
  imports Gateway_Config Slot_Pool
begin

text \<open>
  One backend of the catalog: the \<open>Backend\<close> struct of \<^verbatim>\<open>internal/store/store.go\<close> with its
  health state machine (\<open>RecordHealthCheck\<close>, \<open>MarkDegraded\<close>, \<open>MarkMaintenance\<close>), its
  concurrency slots and \<open>FilterRoutable\<close>, the rule that decides which backends may receive a
  request. Every method runs under the backend's mutex, so each is one atomic function on the
  record. The clock is an argument; the zero \<open>time.Time\<close> is \<open>None\<close>.
\<close>

datatype BackendStatus =
    StatusHealthy | StatusDegraded | StatusUnhealthy | StatusDisabled | StatusMaintenance
  | StatusUnknown
  | StatusZero  \<comment> \<open>the empty string, the zero value of the field\<close>

text \<open>A status is a string in Go.\<close>

definition status_text :: "BackendStatus \<Rightarrow> string" where
  "status_text st = (case st of
     StatusHealthy \<Rightarrow> ''healthy'' | StatusDegraded \<Rightarrow> ''degraded'' | StatusUnhealthy \<Rightarrow> ''unhealthy''
   | StatusDisabled \<Rightarrow> ''disabled'' | StatusMaintenance \<Rightarrow> ''maintenance'' | StatusUnknown \<Rightarrow> ''unknown''
   | StatusZero \<Rightarrow> [])"

record Backend =
  b_ID :: string
  b_Name :: string
  b_BaseURL :: string
  b_APIKey :: string
  b_Enabled :: bool
  b_Models :: "string list"
  b_Weight :: int
  b_MaxConcurrentRequests :: int
  b_TimeoutMS :: int
  b_StreamIdleTimeoutMS :: int
  b_HealthCheck :: "HealthCheckConfig option"
  b_Tags :: "string list"
  b_status :: BackendStatus
  b_failureStreak :: int
  b_successStreak :: int
  b_activeRequests :: int
  b_totalRequests :: int
  b_totalErrors :: int
  b_lastHealthCheckAt :: "time option"
  b_lastError :: string
  b_lastLatencyMS :: int

definition Status :: "Backend \<Rightarrow> BackendStatus" where
  "Status b =
     (if \<not> b_Enabled b then StatusDisabled
      else if b_status b = StatusZero then StatusUnknown
      else b_status b)"

definition SetStatus :: "BackendStatus \<Rightarrow> Backend \<Rightarrow> Backend" where
  "SetStatus s b = b\<lparr>b_status := s\<rparr>"

definition MarkDegraded :: "time \<Rightarrow> int \<Rightarrow> string \<Rightarrow> Backend \<Rightarrow> Backend" where
  "MarkDegraded now latencyMS reason b =
     b\<lparr>b_status := StatusDegraded, b_lastHealthCheckAt := Some now, b_lastLatencyMS := latencyMS,
       b_lastError := reason, b_failureStreak := 0, b_successStreak := 0\<rparr>"

definition MarkMaintenance :: "bool \<Rightarrow> Backend \<Rightarrow> Backend" where
  "MarkMaintenance on b =
     (if on then b\<lparr>b_status := StatusMaintenance\<rparr>
      else b\<lparr>b_status := StatusUnknown, b_failureStreak := 0, b_successStreak := 0\<rparr>)"

definition threshFail :: "Backend \<Rightarrow> int" where
  "threshFail b =
     (case b_HealthCheck b of
        None \<Rightarrow> 3
      | Some hc \<Rightarrow> if 0 < hc_FailureThreshold hc then hc_FailureThreshold hc else 3)"

definition threshSucc :: "Backend \<Rightarrow> int" where
  "threshSucc b =
     (case b_HealthCheck b of
        None \<Rightarrow> 2
      | Some hc \<Rightarrow> if 0 < hc_SuccessThreshold hc then hc_SuccessThreshold hc else 2)"

definition RecordHealthCheck ::
    "time \<Rightarrow> bool \<Rightarrow> int \<Rightarrow> string \<Rightarrow> Backend \<Rightarrow> Backend \<times> bool \<times> BackendStatus" where
  "RecordHealthCheck now success latencyMS errMsg b0 =
     (let b1 = b0\<lparr>b_lastHealthCheckAt := Some now, b_lastLatencyMS := latencyMS\<rparr>;
          prev = b_status b1;
          b' = (if success then
                  let b2 = b1\<lparr>b_successStreak := add64 (b_successStreak b1) 1,
                              b_failureStreak := 0, b_lastError := []\<rparr>
                  in if prev \<noteq> StatusHealthy \<and> threshSucc b0 \<le> b_successStreak b2
                     then b2\<lparr>b_status := StatusHealthy\<rparr> else b2
                else
                  let b2 = b1\<lparr>b_failureStreak := add64 (b_failureStreak b1) 1,
                              b_successStreak := 0, b_lastError := errMsg\<rparr>;
                      b3 = (if prev \<noteq> StatusUnhealthy \<and> threshFail b0 \<le> b_failureStreak b2
                            then b2\<lparr>b_status := StatusUnhealthy\<rparr> else b2)
                  in if prev = StatusZero \<or> prev = StatusUnknown
                     then (if threshFail b0 \<le> b_failureStreak b3
                           then b3\<lparr>b_status := StatusUnhealthy\<rparr> else b3)
                     else b3)
      in (b', prev \<noteq> b_status b', b_status b'))"

definition AcquireSlot :: "Backend \<Rightarrow> Backend \<times> bool" where
  "AcquireSlot b =
     (if 0 < b_MaxConcurrentRequests b \<and> b_MaxConcurrentRequests b \<le> b_activeRequests b
      then (b, False)
      else (b\<lparr>b_activeRequests := add64 (b_activeRequests b) 1,
              b_totalRequests := add64 (b_totalRequests b) 1\<rparr>, True))"

definition ReleaseSlot :: "bool \<Rightarrow> Backend \<Rightarrow> Backend" where
  "ReleaseSlot success b =
     (let b1 = (if 0 < b_activeRequests b
                then b\<lparr>b_activeRequests := sub64 (b_activeRequests b) 1\<rparr> else b)
      in if \<not> success then b1\<lparr>b_totalErrors := add64 (b_totalErrors b1) 1\<rparr> else b1)"

definition ActiveRequests :: "Backend \<Rightarrow> int" where
  "ActiveRequests b = b_activeRequests b"

definition backend_Stats :: "Backend \<Rightarrow> int \<times> int \<times> int \<times> string \<times> int \<times> time option" where
  "backend_Stats b = (b_activeRequests b, b_totalRequests b, b_totalErrors b, b_lastError b,
     b_lastLatencyMS b, b_lastHealthCheckAt b)"

fun SupportsModel_loop :: "string list \<Rightarrow> string \<Rightarrow> bool" where
  "SupportsModel_loop [] model = False"
| "SupportsModel_loop (m # ms) model = (if m = model then True else SupportsModel_loop ms model)"

definition SupportsModel :: "Backend \<Rightarrow> string \<Rightarrow> bool" where
  "SupportsModel b model = SupportsModel_loop (b_Models b) model"

fun FilterRoutable :: "(addr \<Rightarrow> Backend) \<Rightarrow> bool \<Rightarrow> addr list \<Rightarrow> addr list" where
  "FilterRoutable heap allowDegraded [] = []"
| "FilterRoutable heap allowDegraded (p # ps) =
     (let b = heap p; rest = FilterRoutable heap allowDegraded ps in
      if \<not> b_Enabled b then rest
      else if (case Status b of
                 StatusHealthy \<Rightarrow> False
               | StatusUnknown \<Rightarrow> False
               | StatusDegraded \<Rightarrow> \<not> allowDegraded
               | _ \<Rightarrow> True) then rest
      else if b_Weight b = 0 then rest
      else if 0 < b_MaxConcurrentRequests b \<and> b_MaxConcurrentRequests b \<le> ActiveRequests b
        then rest
      else p # rest)"

section \<open>Routability\<close>

text \<open>The documented rule: which backends may receive new traffic.\<close>

definition routable :: "bool \<Rightarrow> Backend \<Rightarrow> bool" where
  "routable allowDegraded b \<longleftrightarrow>
     b_Enabled b
   \<and> (b_status b \<in> {StatusHealthy, StatusUnknown, StatusZero}
      \<or> b_status b = StatusDegraded \<and> allowDegraded)
   \<and> b_Weight b \<noteq> 0
   \<and> (0 < b_MaxConcurrentRequests b \<longrightarrow> b_activeRequests b < b_MaxConcurrentRequests b)"

lemma SupportsModel_iff [simp]: "SupportsModel b model \<longleftrightarrow> model \<in> set (b_Models b)"
proof -
  have "SupportsModel_loop ms model \<longleftrightarrow> model \<in> set ms" for ms by (induction ms) auto
  then show ?thesis by (simp add: SupportsModel_def)
qed

lemma FilterRoutable_filter: "FilterRoutable heap ad ps = filter (\<lambda>p. routable ad (heap p)) ps"
proof (induction ps)
  case (Cons p ps)
  then show ?case
    by (cases "b_status (heap p)") (auto simp: routable_def Status_def ActiveRequests_def Let_def)
qed simp

lemma routable_mono: "routable False b \<Longrightarrow> routable ad b"
  by (auto simp: routable_def)

lemma routable_Status:
  "routable ad b \<Longrightarrow> Status b \<in> {StatusHealthy, StatusUnknown, StatusDegraded}"
  by (auto simp: routable_def Status_def)

lemma routable_AcquireSlot: "routable ad b \<Longrightarrow> snd (AcquireSlot b)"
  by (auto simp: routable_def AcquireSlot_def)

section \<open>Slots\<close>

definition slots_inv :: "Backend \<Rightarrow> bool" where
  "slots_inv b \<longleftrightarrow> 0 < b_MaxConcurrentRequests b \<and> b_MaxConcurrentRequests b \<le> max_int64
     \<and> 0 \<le> b_activeRequests b \<and> b_activeRequests b \<le> b_MaxConcurrentRequests b"

interpretation bslots: slot_pool AcquireSlot "ReleaseSlot ok" b_activeRequests
    b_MaxConcurrentRequests slots_inv for ok
proof (unfold_locales, goal_cases)
  case (1 s s')
  then show ?case by (auto simp: AcquireSlot_def slots_inv_def add64_id split: if_splits)
next
  case (2 s s')
  then show ?case by (auto simp: AcquireSlot_def split: if_splits)
next
  case (3 s)
  then show ?case by (auto simp: ReleaseSlot_def slots_inv_def sub64_id Let_def)
next
  case (4 s)
  then show ?case by (simp add: slots_inv_def)
qed

lemma AcquireSlot_frame [slot_simps]:
  "AcquireSlot b = (b', g) \<Longrightarrow> b_ID b' = b_ID b \<and> b_status b' = b_status b \<and> b_Models b' = b_Models b
     \<and> b_MaxConcurrentRequests b' = b_MaxConcurrentRequests b \<and> b_Enabled b' = b_Enabled b
     \<and> b_Weight b' = b_Weight b"
  by (auto simp: AcquireSlot_def split: if_splits)

lemma Release_Acquire [slot_simps]:
  assumes "AcquireSlot b = (b', True)" and "0 \<le> b_activeRequests b" and "b_activeRequests b < max_int64"
  shows "b_activeRequests (ReleaseSlot ok b') = b_activeRequests b"
  using assms by (auto simp: AcquireSlot_def ReleaseSlot_def Let_def add64_id sub64_id split: if_splits)

text \<open>
  C6. The concurrency cap of a backend holds under every interleaving: starting from a backend
  with a positive cap and no request in flight, after any sequence of acquisition attempts and
  releases of held slots the counter equals the number of slots held and never exceeds the cap.
\<close>

theorem backend_slots_bounded:
  assumes "0 < b_MaxConcurrentRequests b" and "b_MaxConcurrentRequests b \<le> max_int64"
    and "b_activeRequests b = 0"
    and "pool_run AcquireSlot (ReleaseSlot ok) b 0 es = (b', held)"
  shows "b_activeRequests b' = int held \<and> int held \<le> b_MaxConcurrentRequests b"
proof -
  have inv: "slots_inv b" using assms by (simp add: slots_inv_def)
  with assms bslots.run_counts [OF inv _ assms(4)] bslots.run_bounded [OF inv _ assms(4)]
  show ?thesis by simp
qed

definition example_backend :: Backend where
  "example_backend = \<lparr>b_ID = ''b1'', b_Name = [], b_BaseURL = ''http://h'', b_APIKey = [],
     b_Enabled = True, b_Models = [''m1''], b_Weight = 1, b_MaxConcurrentRequests = 2,
     b_TimeoutMS = 0, b_StreamIdleTimeoutMS = 0, b_HealthCheck = None, b_Tags = [],
     b_status = StatusUnknown, b_failureStreak = 0, b_successStreak = 0, b_activeRequests = 0,
     b_totalRequests = 0, b_totalErrors = 0, b_lastHealthCheckAt = None, b_lastError = [],
     b_lastLatencyMS = 0\<rparr>"

theorem backend_slots_bounded_witness:
  "\<exists>b' held. pool_run AcquireSlot (ReleaseSlot True) example_backend 0 [Acq, Acq, Acq, Rel, Acq] = (b', held)
     \<and> held = 2 \<and> b_activeRequests b' = int held"
proof -
  obtain b' held where run:
    "pool_run AcquireSlot (ReleaseSlot True) example_backend 0 [Acq, Acq, Acq, Rel, Acq] = (b', held)"
    by (cases "pool_run AcquireSlot (ReleaseSlot True) example_backend 0 [Acq, Acq, Acq, Rel, Acq]")
  have "held = 2" using run
    by (simp add: AcquireSlot_def ReleaseSlot_def example_backend_def add64_def sub64_def w64_def Let_def)
  moreover have "b_activeRequests b' = int held"
    using backend_slots_bounded [OF _ _ _ run] by (simp add: example_backend_def)
  ultimately show ?thesis using run by blast
qed

section \<open>The health state machine\<close>

text \<open>
  A history of the calls that drive the state machine: probes with their outcome, degradation,
  and the maintenance switch of the admin API.
\<close>

datatype health_event =
    Probe time bool int string
  | Degrade time int string
  | Maintenance bool

fun health_step :: "Backend \<Rightarrow> health_event \<Rightarrow> Backend" where
  "health_step b (Probe now ok lat err) = fst (RecordHealthCheck now ok lat err b)"
| "health_step b (Degrade now lat reason) = MarkDegraded now lat reason b"
| "health_step b (Maintenance on) = MarkMaintenance on b"

definition health_run :: "Backend \<Rightarrow> health_event list \<Rightarrow> Backend" where
  "health_run b es = foldl health_step b es"

text \<open>
  The successes (failures) since the last event that resets the streak, read from the history,
  latest event first.
\<close>

fun succ_since :: "health_event list \<Rightarrow> nat" where
  "succ_since [] = 0"
| "succ_since (Probe now ok lat err # h) = (if ok then Suc (succ_since h) else 0)"
| "succ_since (Degrade now lat reason # h) = 0"
| "succ_since (Maintenance on # h) = (if on then succ_since h else 0)"

fun fail_since :: "health_event list \<Rightarrow> nat" where
  "fail_since [] = 0"
| "fail_since (Probe now ok lat err # h) = (if ok then 0 else Suc (fail_since h))"
| "fail_since (Degrade now lat reason # h) = 0"
| "fail_since (Maintenance on # h) = (if on then fail_since h else 0)"

lemma succ_since_le: "succ_since h \<le> length h"
  by (induction h rule: succ_since.induct) (auto intro: le_SucI)

lemma fail_since_le: "fail_since h \<le> length h"
  by (induction h rule: fail_since.induct) (auto intro: le_SucI)

lemma RecordHealthCheck_streaks:
  "b_successStreak (fst (RecordHealthCheck now ok lat err b)) =
     (if ok then add64 (b_successStreak b) 1 else 0)"
  "b_failureStreak (fst (RecordHealthCheck now ok lat err b)) =
     (if ok then 0 else add64 (b_failureStreak b) 1)"
  "b_HealthCheck (fst (RecordHealthCheck now ok lat err b)) = b_HealthCheck b"
  by (auto simp: RecordHealthCheck_def Let_def)

lemma RecordHealthCheck_status:
  "b_status (fst (RecordHealthCheck now ok lat err b)) =
     (if ok then (if threshSucc b \<le> add64 (b_successStreak b) 1 then StatusHealthy else b_status b)
      else (if threshFail b \<le> add64 (b_failureStreak b) 1 then StatusUnhealthy else b_status b))"
  by (auto simp: RecordHealthCheck_def Let_def)

lemma RecordHealthCheck_result:
  "snd (RecordHealthCheck now ok lat err b) =
     (b_status b \<noteq> b_status (fst (RecordHealthCheck now ok lat err b)),
      b_status (fst (RecordHealthCheck now ok lat err b)))"
  by (simp add: RecordHealthCheck_def Let_def)

lemma RecordHealthCheck_frame:
  "b_Enabled (fst (RecordHealthCheck now ok lat err b)) = b_Enabled b"
  "b_Weight (fst (RecordHealthCheck now ok lat err b)) = b_Weight b"
  "b_activeRequests (fst (RecordHealthCheck now ok lat err b)) = b_activeRequests b"
  "b_MaxConcurrentRequests (fst (RecordHealthCheck now ok lat err b)) = b_MaxConcurrentRequests b"
  "b_ID (fst (RecordHealthCheck now ok lat err b)) = b_ID b"
  by (auto simp: RecordHealthCheck_def Let_def)

lemmas record_simps = RecordHealthCheck_streaks RecordHealthCheck_status RecordHealthCheck_frame

lemma thresholds_cong:
  assumes "b_HealthCheck b' = b_HealthCheck b"
  shows "threshSucc b' = threshSucc b" and "threshFail b' = threshFail b"
  using assms by (simp_all add: threshSucc_def threshFail_def)

lemma health_step_frame:
  "b_HealthCheck (health_step b e) = b_HealthCheck b \<and> b_Enabled (health_step b e) = b_Enabled b
   \<and> b_Weight (health_step b e) = b_Weight b \<and> b_activeRequests (health_step b e) = b_activeRequests b
   \<and> b_MaxConcurrentRequests (health_step b e) = b_MaxConcurrentRequests b"
  by (cases e) (auto simp: record_simps MarkDegraded_def MarkMaintenance_def)

lemma health_run_frame:
  "b_HealthCheck (health_run b es) = b_HealthCheck b \<and> b_Enabled (health_run b es) = b_Enabled b
   \<and> b_Weight (health_run b es) = b_Weight b \<and> b_activeRequests (health_run b es) = b_activeRequests b
   \<and> b_MaxConcurrentRequests (health_run b es) = b_MaxConcurrentRequests b"
  unfolding health_run_def by (induction es arbitrary: b) (auto simp: health_step_frame)

lemma health_run_streaks:
  assumes "b_successStreak b = 0" and "b_failureStreak b = 0" and "int (length es) \<le> max_int64"
  shows "b_successStreak (health_run b es) = int (succ_since (rev es))
       \<and> b_failureStreak (health_run b es) = int (fail_since (rev es))"
  using assms
proof (induction es rule: rev_induct)
  case Nil
  then show ?case by (simp add: health_run_def)
next
  case (snoc e es)
  let ?b = "health_run b es"
  from snoc have IH: "b_successStreak ?b = int (succ_since (rev es))"
    "b_failureStreak ?b = int (fail_since (rev es))" by simp_all
  have "int (Suc (succ_since (rev es))) \<le> max_int64" "int (Suc (fail_since (rev es))) \<le> max_int64"
    using snoc.prems(3) succ_since_le [of "rev es"] fail_since_le [of "rev es"] by simp_all
  with IH show ?case
    by (cases e) (auto simp: health_run_def record_simps MarkDegraded_def MarkMaintenance_def add64_id)
qed

lemma probes_heal:
  assumes "\<And>e. e \<in> set ps \<Longrightarrow> \<exists>now lat err. e = Probe now True lat err"
    and "b_status b = StatusHealthy \<or> threshSucc b \<le> b_successStreak b + int (length ps) \<and> ps \<noteq> []"
    and "0 \<le> b_successStreak b" and "b_successStreak b + int (length ps) \<le> max_int64"
  shows "b_status (health_run b ps) = StatusHealthy"
  using assms
proof (induction ps arbitrary: b)
  case Nil
  then show ?case by (simp add: health_run_def)
next
  case (Cons e ps)
  obtain now lat err where e: "e = Probe now True lat err" using Cons.prems(1) [of e] by auto
  let ?b = "health_step b e"
  have streak: "b_successStreak ?b = b_successStreak b + 1"
    using Cons.prems(3,4) by (simp add: e record_simps add64_id)
  moreover have "threshSucc ?b = threshSucc b" using health_step_frame thresholds_cong by blast
  moreover have "b_status ?b = StatusHealthy" if "b_status b = StatusHealthy \<or> ps = []"
    using that Cons.prems(2,3,4) by (auto simp: e record_simps add64_id)
  ultimately have "b_status (health_run ?b ps) = StatusHealthy"
    using Cons.prems by (intro Cons.IH) auto
  then show ?case by (simp add: health_run_def)
qed

lemma threshSucc_pos: "0 < threshSucc b"
  by (auto simp: threshSucc_def split: option.split)

lemma health_status_step:
  assumes "b_successStreak b = 0" and "b_failureStreak b = 0" and "int (length es) < max_int64"
  shows "b_status (health_run b (es @ [e])) =
     (case e of
        Probe now ok lat err \<Rightarrow>
          if ok then (if threshSucc b \<le> int (Suc (succ_since (rev es))) then StatusHealthy else b_status (health_run b es))
          else (if threshFail b \<le> int (Suc (fail_since (rev es))) then StatusUnhealthy else b_status (health_run b es))
      | Degrade now lat reason \<Rightarrow> StatusDegraded
      | Maintenance on \<Rightarrow> if on then StatusMaintenance else StatusUnknown)"
proof -
  let ?c = "health_run b es"
  have s: "b_successStreak ?c = int (succ_since (rev es))" "b_failureStreak ?c = int (fail_since (rev es))"
    using health_run_streaks [of b es] assms by simp_all
  have "add64 (b_successStreak ?c) 1 = int (Suc (succ_since (rev es)))"
    "add64 (b_failureStreak ?c) 1 = int (Suc (fail_since (rev es)))"
    using s assms(3) succ_since_le [of "rev es"] fail_since_le [of "rev es"] by (simp_all add: add64_id)
  moreover have "threshSucc ?c = threshSucc b" "threshFail ?c = threshFail b"
    using health_run_frame thresholds_cong by blast+
  moreover have "health_run b (es @ [e]) = health_step ?c e" by (simp add: health_run_def)
  ultimately show ?thesis by (cases e) (auto simp: RecordHealthCheck_status MarkDegraded_def MarkMaintenance_def)
qed

lemma maintenance_ends:
  assumes "b_successStreak b = 0" and "b_failureStreak b = 0" and "int (length es + length ps) < max_int64"
    and "\<forall>e \<in> set ps. \<exists>now lat err. e = Probe now True lat err" and "threshSucc b \<le> int (length ps)"
  shows "b_status (health_run b (es @ Maintenance True # ps)) = StatusHealthy"
proof -
  let ?c = "health_run b es" and ?m = "MarkMaintenance True (health_run b es)"
  have c: "b_successStreak ?c = int (succ_since (rev es))" using health_run_streaks [of b es] assms by simp
  have m: "threshSucc ?m = threshSucc b" "b_successStreak ?m = b_successStreak ?c"
    using health_run_frame [of b es] by (simp_all add: MarkMaintenance_def threshSucc_def)
  have "ps \<noteq> []" using threshSucc_pos [of b] assms(5) by auto
  moreover have "b_successStreak ?m + int (length ps) \<le> max_int64" using m(2) c succ_since_le [of "rev es"] assms(3) by simp
  ultimately have "b_status (health_run ?m ps) = StatusHealthy" using assms(4,5) m c by (intro probes_heal) auto
  then show ?thesis by (simp add: health_run_def)
qed

text \<open>
  C16. How the health state machine moves, from a backend with no streak and through any history of
  probe results, degradations and maintenance switches. A successful probe makes the backend healthy
  exactly when the successes since the last reset reach the success threshold, a failed one makes it
  unhealthy exactly when the failures reach the failure threshold, and otherwise a probe result keeps
  the status; a probe is reported as a change exactly when the status differs. A degradation and a
  maintenance switch set the status at once. The thresholds are those of the backend's own
  \<open>health_check\<close> block, and 2 and 3 without one, whatever the global section says. Maintenance is no
  exception: as many successful probes as the threshold asks for end it.
\<close>

theorem health_hysteresis:
  assumes "b_successStreak b = 0" and "b_failureStreak b = 0" and "int (length es) < max_int64"
  shows "b_status (health_run b (es @ [e])) =
     (case e of
        Probe now ok lat err \<Rightarrow>
          if ok then (if threshSucc b \<le> int (Suc (succ_since (rev es))) then StatusHealthy else b_status (health_run b es))
          else (if threshFail b \<le> int (Suc (fail_since (rev es))) then StatusUnhealthy else b_status (health_run b es))
      | Degrade now lat reason \<Rightarrow> StatusDegraded
      | Maintenance on \<Rightarrow> if on then StatusMaintenance else StatusUnknown)
   \<and> snd (RecordHealthCheck now ok lat err (health_run b es)) =
       (b_status (health_run b (es @ [Probe now ok lat err])) \<noteq> b_status (health_run b es), b_status (health_run b (es @ [Probe now ok lat err])))
   \<and> (b_HealthCheck b = None \<longrightarrow> threshSucc b = 2 \<and> threshFail b = 3)
   \<and> (\<forall>hc. b_HealthCheck b = Some hc \<longrightarrow>
        threshSucc b = (if 0 < hc_SuccessThreshold hc then hc_SuccessThreshold hc else 2)
        \<and> threshFail b = (if 0 < hc_FailureThreshold hc then hc_FailureThreshold hc else 3))
   \<and> (\<forall>ps. (\<forall>p \<in> set ps. \<exists>now lat err. p = Probe now True lat err) \<and> threshSucc b \<le> int (length ps) \<and> int (length es + length ps) < max_int64 \<longrightarrow>
        b_status (health_run b (es @ Maintenance True # ps)) = StatusHealthy)"
proof (intro conjI allI impI)
  show "snd (RecordHealthCheck now ok lat err (health_run b es)) =
       (b_status (health_run b (es @ [Probe now ok lat err])) \<noteq> b_status (health_run b es), b_status (health_run b (es @ [Probe now ok lat err])))"
    by (simp add: RecordHealthCheck_result) (auto simp: health_run_def)
qed (use health_status_step [OF assms] maintenance_ends [OF assms(1,2)] in \<open>simp_all add: threshSucc_def threshFail_def\<close>)

theorem health_hysteresis_witness:
  "b_status (health_run example_backend ([Probe 5 True 3 []] @ [Probe 7 True 3 []])) = StatusHealthy
   \<and> b_status (health_run example_backend ([] @ [Maintenance True])) = StatusMaintenance"
proof -
  have e: "b_successStreak example_backend = 0" "b_failureStreak example_backend = 0" by (simp_all add: example_backend_def)
  have t: "threshSucc example_backend = 2" by (simp add: threshSucc_def example_backend_def)
  have "int (length [Probe 5 True 3 []]) < max_int64" "int (length []) < max_int64" by simp_all
  from health_hysteresis [OF e this(1), of "Probe 7 True 3 []", THEN conjunct1]
    health_hysteresis [OF e this(2), of "Maintenance True", THEN conjunct1] t
  show ?thesis by simp
qed

text \<open>
  Maintenance mode is undone by the health checker: putting an enabled backend into
  maintenance and then observing as many successful probes as the success threshold asks for
  makes the backend routable again, although nobody cleared the maintenance state. (The comment
  on \<open>MarkMaintenance\<close> says that the state persists until cleared through the admin API.)
\<close>

theorem maintenance_undone_by_probes:
  assumes "routable False b" and "0 \<le> b_successStreak b"
    and "\<forall>e \<in> set ps. \<exists>now lat err. e = Probe now True lat err"
    and "threshSucc b \<le> int (length ps)" and "b_successStreak b + int (length ps) \<le> max_int64"
  shows "\<not> routable ad (health_run b [Maintenance True])
       \<and> routable False (health_run b (Maintenance True # ps))"
proof -
  let ?m = "MarkMaintenance True b"
  have "ps \<noteq> []" using assms(4) threshSucc_pos [of b] by auto
  moreover have "threshSucc ?m = threshSucc b" "b_successStreak ?m = b_successStreak b"
    by (simp_all add: MarkMaintenance_def threshSucc_def)
  ultimately have "b_status (health_run ?m ps) = StatusHealthy"
    using assms by (intro probes_heal) auto
  moreover have "health_run b (Maintenance True # ps) = health_run ?m ps"
    by (simp add: health_run_def)
  ultimately show ?thesis
    using assms(1) health_run_frame [of ?m ps]
    by (auto simp: routable_def health_run_def MarkMaintenance_def)
qed

theorem maintenance_undone_by_probes_witness:
  "\<not> routable True (health_run example_backend [Maintenance True])
   \<and> routable False (health_run example_backend [Maintenance True, Probe 1 True 2 [], Probe 2 True 2 []])"
  using maintenance_undone_by_probes [of example_backend "[Probe 1 True 2 [], Probe 2 True 2 []]" True]
  by (simp add: example_backend_def routable_def threshSucc_def)

end
