(* ===== verification/Pattern_Match.thy ===== *)
theory Pattern_Match
  imports Go_Strings
begin

text \<open>
  The wildcard patterns of the model allow and deny lists: \<open>matchPattern\<close> of
  \<^verbatim>\<open>internal/store/store.go\<close>. The code splits the pattern at its stars and scans the value
  once, taking the leftmost occurrence of every middle segment. \<open>glob\<close> is the meaning of a
  pattern, with backtracking; the theory shows that the scan decides it.
\<close>

fun match_middle :: "string list \<Rightarrow> string \<Rightarrow> nat \<Rightarrow> nat option" where
  "match_middle [] v pos = Some pos"
| "match_middle (seg # segs) v pos =
     (if seg = [] then match_middle segs v pos
      else (case Index (drop pos v) seg of
              None \<Rightarrow> None
            | Some idx \<Rightarrow> match_middle segs v (pos + idx + length seg)))"

definition matchPattern :: "string \<Rightarrow> string \<Rightarrow> bool" where
  "matchPattern pattern v =
     (if pattern = [] then False
      else if pattern = ''*'' \<or> pattern = v then True
      else if CHR ''*'' \<notin> set pattern then False
      else
        let parts = Split pattern (CHR ''*'') in
        if hd parts \<noteq> [] \<and> \<not> HasPrefix v (hd parts) then False
        else (case match_middle (butlast (tl parts)) v (length (hd parts)) of
                None \<Rightarrow> False
              | Some pos \<Rightarrow> last parts = [] \<or> HasSuffix (drop pos v) (last parts)))"

text \<open>The meaning of a pattern: a star stands for any string, another byte for itself.\<close>

fun glob :: "string \<Rightarrow> string \<Rightarrow> bool" where
  "glob [] v = (v = [])"
| "glob (c # p) [] = (c = CHR ''*'' \<and> glob p [])"
| "glob (c # p) (x # v) =
     (if c = CHR ''*'' then glob p (x # v) \<or> glob (c # p) v else c = x \<and> glob p v)"

text \<open>The same meaning, segment by segment: what the segments after the first star require.\<close>

fun segments :: "string list \<Rightarrow> string \<Rightarrow> bool" where
  "segments [] v = True"
| "segments [l] v = HasSuffix v l"
| "segments (s # t # ss) v =
     (\<exists>k \<le> length v. HasPrefix (drop k v) s \<and> segments (t # ss) (drop (length s) (drop k v)))"

section \<open>Segments and backtracking agree\<close>

lemma HasSuffix_drop: "HasSuffix (drop k v) l \<Longrightarrow> HasSuffix v l"
  unfolding HasSuffix_iff by (metis append_assoc append_take_drop_id)

lemma HasSuffix_le: "(\<exists>k \<le> length v. drop k v = l) \<longleftrightarrow> HasSuffix v l"
proof
  assume "\<exists>k \<le> length v. drop k v = l"
  then show "HasSuffix v l" by (metis HasSuffix_iff append_take_drop_id)
next
  assume "HasSuffix v l"
  then show "\<exists>k \<le> length v. drop k v = l"
    unfolding HasSuffix_def by (intro exI [of _ "length v - length l"]) simp
qed

lemma segments_drop: "segments ss (drop k v) \<Longrightarrow> segments ss v"
proof (induction ss v rule: segments.induct)
  case (3 s t ss v)
  from "3.prems" obtain j where j: "j \<le> length (drop k v)" "HasPrefix (drop j (drop k v)) s"
    "segments (t # ss) (drop (length s) (drop j (drop k v)))" by auto
  define i where "i = (if k \<le> length v then j + k else length v)"
  have "i \<le> length v" and "drop j (drop k v) = drop i v"
    using j(1) by (auto simp: i_def)
  with j(2,3) show ?case by (auto simp del: drop_drop)
qed (auto intro: HasSuffix_drop)

lemma glob_star: "glob (CHR ''*'' # p) v \<longleftrightarrow> (\<exists>k \<le> length v. glob p (drop k v))"
proof (induction v)
  case Nil
  then show ?case by simp
next
  case (Cons x v)
  have "(\<exists>k \<le> length (x # v). glob p (drop k (x # v))) \<longleftrightarrow>
        glob p (x # v) \<or> (\<exists>k \<le> length v. glob p (drop k v))"
  proof
    assume "\<exists>k \<le> length (x # v). glob p (drop k (x # v))"
    then obtain k where "k \<le> length (x # v)" "glob p (drop k (x # v))" by blast
    then show "glob p (x # v) \<or> (\<exists>k \<le> length v. glob p (drop k v))" by (cases k) auto
  next
    assume "glob p (x # v) \<or> (\<exists>k \<le> length v. glob p (drop k v))"
    then show "\<exists>k \<le> length (x # v). glob p (drop k (x # v))"
      by (metis Suc_le_mono drop0 drop_Suc_Cons le0 length_Cons)
  qed
  with Cons show ?case by simp
qed

lemma glob_segments:
  "glob p v \<longleftrightarrow>
     (case Split p (CHR ''*'') of
        [] \<Rightarrow> False
      | [l] \<Rightarrow> v = l
      | s # ss \<Rightarrow> HasPrefix v s \<and> segments ss (drop (length s) v))"
proof (induction p arbitrary: v)
  case Nil
  then show ?case by simp
next
  case (Cons c p)
  note IH = Cons.IH
  obtain q qs where split: "Split p (CHR ''*'') = q # qs"
    by (cases "Split p (CHR ''*'')") simp_all
  show ?case
  proof (cases "c = CHR ''*''")
    case True
    have "glob (c # p) v \<longleftrightarrow> (\<exists>k \<le> length v. glob p (drop k v))"
      using glob_star True by simp
    also have "\<dots> \<longleftrightarrow> segments (q # qs) v"
    proof (cases qs)
      case Nil
      then show ?thesis using split Cons.IH HasSuffix_le by simp
    next
      case (Cons r rs)
      then show ?thesis using split IH by (simp del: drop_drop)
    qed
    finally show ?thesis using True split by simp
  next
    case False
    have "Split (c # p) (CHR ''*'') = (c # q) # qs" using False split by simp
    moreover have "glob (c # p) v \<longleftrightarrow> (\<exists>v'. v = c # v' \<and> glob p v')"
      using False by (cases v) auto
    ultimately show ?thesis
      using Cons.IH split by (cases v) (auto split: list.splits)
  qed
qed

section \<open>The leftmost scan decides the segments\<close>

lemma segments_Nil_seg: "ss \<noteq> [] \<Longrightarrow> segments ([] # ss) v \<longleftrightarrow> segments ss v"
proof (cases ss)
  case (Cons t ts)
  have "segments ([] # ss) v \<longleftrightarrow> (\<exists>k \<le> length v. segments ss (drop k v))"
    using Cons by simp
  also have "\<dots> \<longleftrightarrow> segments ss v"
    using segments_drop by (metis drop0 le0)
  finally show ?thesis .
qed simp

lemma segments_leftmost:
  assumes idx: "Index v s = Some i" and "ss \<noteq> []"
  shows "segments (s # ss) v \<longleftrightarrow> segments ss (drop (i + length s) v)"
proof -
  obtain t ts where ss: "ss = t # ts" using assms(2) by (cases ss) auto
  have "segments ss (drop (i + length s) v)"
    if "HasPrefix (drop k v) s" and "segments ss (drop (length s) (drop k v))" for k
  proof -
    have "i \<le> k" using Index_least [OF idx that(1)] .
    then have "drop (length s) (drop k v) = drop (k - i) (drop (i + length s) v)"
      by (simp add: add.commute add.left_commute)
    with that(2) segments_drop show ?thesis by metis
  qed
  moreover have "HasPrefix (drop i v) s" and "i \<le> length v"
    using Index_Some [OF idx] by auto
  ultimately show ?thesis unfolding ss by (auto simp: add.commute)
qed

lemma match_middle_correct:
  "segments (ms @ [l]) (drop pos v) \<longleftrightarrow>
     (case match_middle ms v pos of None \<Rightarrow> False | Some pos' \<Rightarrow> HasSuffix (drop pos' v) l)"
proof (induction ms arbitrary: pos)
  case Nil
  then show ?case by simp
next
  case (Cons seg segs)
  show ?case
  proof (cases "seg = []")
    case True
    then show ?thesis using Cons.IH segments_Nil_seg [of "segs @ [l]"] by simp
  next
    case False
    show ?thesis
    proof (cases "Index (drop pos v) seg")
      case None
      obtain t ts where "segs @ [l] = t # ts" by (cases segs) auto
      with None False Index_None [OF None] show ?thesis by (auto simp: add.commute)
    next
      case (Some i)
      have "segments ((seg # segs) @ [l]) (drop pos v) \<longleftrightarrow>
            segments (segs @ [l]) (drop (pos + i + length seg) v)"
        using segments_leftmost [OF Some, of "segs @ [l]"]
        by (simp add: add.commute add.left_commute)
      with False Some Cons.IH show ?thesis by simp
    qed
  qed
qed

lemma glob_refl: "glob p p"
proof (induction p)
  case (Cons c p)
  then show ?case by (cases "c = CHR ''*''") (auto simp: glob_star intro: exI [of _ 1])
qed simp

lemma glob_only_star: "glob ''*'' v"
  unfolding glob_star by (intro exI [of _ "length v"]) simp

lemma glob_no_star: "CHR ''*'' \<notin> set p \<Longrightarrow> glob p v \<longleftrightarrow> v = p"
  unfolding glob_segments by (simp add: Split_no_sep)

lemma matchPattern_scan:
  assumes "CHR ''*'' \<in> set p"
  defines "parts \<equiv> Split p (CHR ''*'')"
  shows "glob p v \<longleftrightarrow>
     (HasPrefix v (hd parts) \<and>
      (case match_middle (butlast (tl parts)) v (length (hd parts)) of
         None \<Rightarrow> False
       | Some pos \<Rightarrow> HasSuffix (drop pos v) (last parts)))"
proof -
  have "2 \<le> length parts" unfolding parts_def by (rule Split_sep [OF assms(1)])
  then obtain s t ts where parts: "parts = s # t # ts"
    by (cases parts; cases "tl parts") auto
  then have tl: "t # ts = butlast (tl parts) @ [last parts]" by simp
  have "glob p v \<longleftrightarrow> HasPrefix v s \<and> segments (t # ts) (drop (length s) v)"
    unfolding glob_segments using parts parts_def by simp
  also have "segments (t # ts) (drop (length s) v) \<longleftrightarrow>
      (case match_middle (butlast (tl parts)) v (length s) of
         None \<Rightarrow> False
       | Some pos \<Rightarrow> HasSuffix (drop pos v) (last parts))"
    unfolding tl by (rule match_middle_correct)
  finally show ?thesis using parts by simp
qed

lemma HasSuffix_Nil [simp]: "HasSuffix v []"
  by (simp add: HasSuffix_def)

lemma matchPattern_iff: "matchPattern p v \<longleftrightarrow> p \<noteq> [] \<and> glob p v"
proof (cases "p = [] \<or> p = ''*'' \<or> p = v \<or> CHR ''*'' \<notin> set p")
  case True
  then show ?thesis
    using glob_refl glob_only_star glob_no_star by (auto simp: matchPattern_def)
next
  case False
  then show ?thesis
    using matchPattern_scan [of p v] by (auto simp: matchPattern_def Let_def split: option.splits)
qed

text \<open>
  C15. The wildcard matcher of the allow and deny lists decides the meaning of a pattern: for
  every pattern and every model name, the single left-to-right scan of \<open>matchPattern\<close>
  accepts exactly when the pattern is not empty and some choice of strings for its stars turns
  it into the name. In particular the greedy choice of the leftmost occurrence of each segment
  never rejects a name that another choice would accept.
\<close>

theorem matchPattern_glob: "matchPattern p v \<longleftrightarrow> p \<noteq> [] \<and> glob p v"
  by (rule matchPattern_iff)

end
