(* ===== verification/Store_Model.thy ===== *)
theory Store_Model
  imports Backend_Model Pattern_Match
begin

text \<open>
  The in-memory catalog: the rest of \<^verbatim>\<open>internal/store/store.go\<close>. Backends and API keys are
  shared through pointers, so they live in two object stores (\<open>s_bheap\<close>, \<open>s_kheap\<close>) and the
  maps of the \<open>Store\<close> hold addresses; models and aliases are reached through their map only
  and are stored by value. Each method holds the store's mutex and is one function on the
  record. The keyed hash (HMAC-SHA256, hex encoded) and the RFC 3339 time parser are arguments.
\<close>

record Model =
  m_Name :: string
  m_Type :: string
  m_Enabled :: bool
  m_ContextLength :: int
  m_CapabilityMode :: string
  m_Capabilities :: "bool gomap"
  m_RoutingPolicy :: string

record ModelAlias =
  a_Alias :: string
  a_InternalModel :: string
  a_ForwardingMode :: string
  a_Enabled :: bool

record APIKey =
  k_ID :: string
  k_Name :: string
  k_KeyPrefix :: string
  k_KeyHash :: string
  k_Enabled :: bool
  k_AllowedModels :: "string list"
  k_DeniedModels :: "string list"
  k_AllowedClientIPs :: "string list"
  k_DeniedClientIPs :: "string list"
  k_RateLimit :: "APIKeyRateLimit option"
  k_Quota :: "APIKeyQuota option"
  k_DelayMS :: int
  k_Logging :: "APIKeyLogging option"
  k_ExpiresAt :: "time option"
  k_lastUsedAt :: "time option"
  k_totalRequests :: int
  k_totalTokens :: int

section \<open>API keys\<close>

definition TouchRequest :: "time \<Rightarrow> APIKey \<Rightarrow> APIKey" where
  "TouchRequest now k = k\<lparr>k_lastUsedAt := Some now, k_totalRequests := add64 (k_totalRequests k) 1\<rparr>"

definition key_AddTokens :: "time \<Rightarrow> int \<Rightarrow> APIKey \<Rightarrow> APIKey" where
  "key_AddTokens now tokens k =
     (if tokens \<le> 0 then k
      else k\<lparr>k_lastUsedAt := Some now, k_totalTokens := add64 (k_totalTokens k) tokens\<rparr>)"

definition Touch :: "time \<Rightarrow> int \<Rightarrow> APIKey \<Rightarrow> APIKey" where
  "Touch now tokens k =
     k\<lparr>k_lastUsedAt := Some now, k_totalRequests := add64 (k_totalRequests k) 1,
       k_totalTokens := add64 (k_totalTokens k) tokens\<rparr>"

definition key_Stats :: "APIKey \<Rightarrow> time option \<times> int \<times> int" where
  "key_Stats k = (k_lastUsedAt k, k_totalRequests k, k_totalTokens k)"

fun any_match :: "string list \<Rightarrow> string \<Rightarrow> bool" where
  "any_match [] v = False"
| "any_match (p # ps) v = (if matchPattern p v then True else any_match ps v)"

definition ModelAllowed :: "APIKey \<Rightarrow> string \<Rightarrow> bool" where
  "ModelAllowed k model =
     (if any_match (k_DeniedModels k) model then False
      else if k_AllowedModels k = [] then True
      else any_match (k_AllowedModels k) model)"

fun any_match_either :: "string list \<Rightarrow> string \<Rightarrow> string \<Rightarrow> bool" where
  "any_match_either [] requested internal = False"
| "any_match_either (p # ps) requested internal =
     (if matchPattern p requested \<or> (internal \<noteq> requested \<and> matchPattern p internal) then True
      else any_match_either ps requested internal)"

definition ModelAllowedResolved :: "APIKey \<Rightarrow> string \<Rightarrow> string \<Rightarrow> bool" where
  "ModelAllowedResolved k requested internal =
     (if any_match_either (k_DeniedModels k) requested internal then False
      else if k_AllowedModels k = [] then True
      else any_match_either (k_AllowedModels k) requested internal)"

section \<open>The store\<close>

record Store =
  s_backends :: "addr gomap"
  s_models :: "Model gomap"
  s_modelAliases :: "ModelAlias gomap"
  s_apiKeys :: "addr gomap"
  s_keyByHash :: "addr gomap"
  s_hashSecret :: string
  s_bheap :: "addr \<Rightarrow> Backend"
  s_kheap :: "addr \<Rightarrow> APIKey"
  s_next :: addr

definition zero_backend :: Backend where
  "zero_backend = \<lparr>b_ID = [], b_Name = [], b_BaseURL = [], b_APIKey = [], b_Enabled = False,
     b_Models = [], b_Weight = 0, b_MaxConcurrentRequests = 0, b_TimeoutMS = 0,
     b_StreamIdleTimeoutMS = 0, b_HealthCheck = None, b_Tags = [], b_status = StatusZero,
     b_failureStreak = 0, b_successStreak = 0, b_activeRequests = 0, b_totalRequests = 0,
     b_totalErrors = 0, b_lastHealthCheckAt = None, b_lastError = [], b_lastLatencyMS = 0\<rparr>"

definition zero_key :: APIKey where
  "zero_key = \<lparr>k_ID = [], k_Name = [], k_KeyPrefix = [], k_KeyHash = [], k_Enabled = False,
     k_AllowedModels = [], k_DeniedModels = [], k_AllowedClientIPs = [], k_DeniedClientIPs = [],
     k_RateLimit = None, k_Quota = None, k_DelayMS = 0, k_Logging = None, k_ExpiresAt = None,
     k_lastUsedAt = None, k_totalRequests = 0, k_totalTokens = 0\<rparr>"

definition store_New :: "string \<Rightarrow> Store" where
  "store_New hashSecret = \<lparr>s_backends = [], s_models = [], s_modelAliases = [], s_apiKeys = [],
     s_keyByHash = [], s_hashSecret = hashSecret, s_bheap = (\<lambda>_. zero_backend),
     s_kheap = (\<lambda>_. zero_key), s_next = 0\<rparr>"

text \<open>Taking the address of a new object: \<open>&Backend{...}\<close>, \<open>&APIKey{...}\<close>.\<close>

definition new_backend :: "Backend \<Rightarrow> Store \<Rightarrow> addr \<times> Store" where
  "new_backend b s = (s_next s, s\<lparr>s_bheap := (s_bheap s)(s_next s := b), s_next := Suc (s_next s)\<rparr>)"

definition new_key :: "APIKey \<Rightarrow> Store \<Rightarrow> addr \<times> Store" where
  "new_key k s = (s_next s, s\<lparr>s_kheap := (s_kheap s)(s_next s := k), s_next := Suc (s_next s)\<rparr>)"

text \<open>A method call through a pointer.\<close>

definition upd_backend :: "addr \<Rightarrow> (Backend \<Rightarrow> Backend) \<Rightarrow> Store \<Rightarrow> Store" where
  "upd_backend p f s = s\<lparr>s_bheap := (s_bheap s)(p := f (s_bheap s p))\<rparr>"

definition upd_key :: "addr \<Rightarrow> (APIKey \<Rightarrow> APIKey) \<Rightarrow> Store \<Rightarrow> Store" where
  "upd_key p f s = s\<lparr>s_kheap := (s_kheap s)(p := f (s_kheap s p))\<rparr>"

definition default_hash_secret :: string where
  "default_hash_secret = ''llmgateway-default-hmac-secret-replace-via-LLMGATEWAY_HASH_SECRET''"

definition HashKey :: "(string \<Rightarrow> string \<Rightarrow> string) \<Rightarrow> Store \<Rightarrow> string \<Rightarrow> string" where
  "HashKey hmac s key =
     (let secret = (if s_hashSecret s = [] then default_hash_secret else s_hashSecret s)
      in hmac secret key)"

definition HasExplicitHashSecret :: "Store \<Rightarrow> bool" where
  "HasExplicitHashSecret s \<longleftrightarrow> s_hashSecret s \<noteq> []"

definition load_backend :: "BackendConfig \<Rightarrow> Store \<Rightarrow> Store" where
  "load_backend bc s =
     (let b0 = zero_backend\<lparr>b_ID := bc_ID bc, b_Name := bc_Name bc,
                 b_BaseURL := TrimRight (bc_BaseURL bc) (CHR ''/''), b_APIKey := bc_APIKey bc,
                 b_Enabled := bc_Enabled bc, b_Models := bc_Models bc, b_Weight := bc_Weight bc,
                 b_MaxConcurrentRequests := bc_MaxConcurrentRequests bc,
                 b_TimeoutMS := bc_TimeoutMS bc, b_StreamIdleTimeoutMS := bc_StreamIdleTimeoutMS bc,
                 b_HealthCheck := bc_HealthCheck bc, b_Tags := bc_Tags bc,
                 b_status := StatusUnknown\<rparr>;
          b = (if b_Weight b0 < 0 then b0\<lparr>b_Weight := 1\<rparr> else b0)
      in case new_backend b s of (p, s1) \<Rightarrow>
           s1\<lparr>s_backends := AList.update (b_ID b) p (s_backends s1)\<rparr>)"

definition load_model :: "ModelConfig \<Rightarrow> Store \<Rightarrow> Store" where
  "load_model mc s =
     (let m0 = \<lparr>m_Name = mc_Name mc, m_Type = mc_Type mc, m_Enabled = mc_Enabled mc,
                m_ContextLength = mc_ContextLength mc, m_CapabilityMode = mc_CapabilityMode mc,
                m_Capabilities = mc_Capabilities mc, m_RoutingPolicy = mc_RoutingPolicy mc\<rparr>;
          m1 = (if m_Type m0 = [] then m0\<lparr>m_Type := ''chat''\<rparr> else m0);
          m2 = (if m_CapabilityMode m1 = [] then m1\<lparr>m_CapabilityMode := ''passthrough''\<rparr> else m1)
      in s\<lparr>s_models := AList.update (m_Name m2) m2 (s_models s)\<rparr>)"

definition load_alias :: "ModelAliasConfig \<Rightarrow> Store \<Rightarrow> Store" where
  "load_alias mac s =
     (let a0 = \<lparr>a_Alias = mac_Alias mac, a_InternalModel = mac_InternalModel mac,
                a_ForwardingMode = mac_ForwardingMode mac, a_Enabled = mac_Enabled mac\<rparr>;
          a1 = (if a_ForwardingMode a0 = [] then a0\<lparr>a_ForwardingMode := ''use_internal''\<rparr> else a0)
      in s\<lparr>s_modelAliases := AList.update (a_Alias a1) a1 (s_modelAliases s)\<rparr>)"

text \<open>Entering a key object under its id and, when it has one, under its hash.\<close>

definition index_key :: "addr \<Rightarrow> Store \<Rightarrow> Store" where
  "index_key p s =
     (let k = s_kheap s p;
          s1 = s\<lparr>s_apiKeys := AList.update (k_ID k) p (s_apiKeys s)\<rparr>
      in if k_KeyHash k \<noteq> [] then s1\<lparr>s_keyByHash := AList.update (k_KeyHash k) p (s_keyByHash s1)\<rparr>
         else s1)"

definition config_key :: "(string \<Rightarrow> string \<Rightarrow> string) \<Rightarrow> (string \<Rightarrow> time option) \<Rightarrow> APIKeyConfig \<Rightarrow> Store \<Rightarrow> APIKey" where
  "config_key hmac parse_time kc s =
     (let k0 = zero_key\<lparr>k_ID := kc_ID kc, k_Name := kc_Name kc, k_KeyPrefix := kc_KeyPrefix kc,
                 k_KeyHash := kc_KeyHash kc, k_Enabled := kc_Enabled kc,
                 k_AllowedModels := kc_AllowedModels kc, k_DeniedModels := kc_DeniedModels kc,
                 k_AllowedClientIPs := kc_AllowedClientIPs kc,
                 k_DeniedClientIPs := kc_DeniedClientIPs kc, k_RateLimit := kc_RateLimit kc,
                 k_Quota := kc_Quota kc, k_DelayMS := kc_DelayMS kc, k_Logging := kc_Logging kc\<rparr>;
          k1 = (if kc_Key kc \<noteq> [] then
                  let k = k0\<lparr>k_KeyHash := HashKey hmac s (kc_Key kc)\<rparr>
                  in if k_KeyPrefix k = [] \<and> 8 \<le> length (kc_Key kc)
                     then k\<lparr>k_KeyPrefix := take 8 (kc_Key kc)\<rparr> else k
                else k0);
          k2 = (if kc_ExpiresAt kc \<noteq> [] then
                  (case parse_time (kc_ExpiresAt kc) of
                     None \<Rightarrow> k1
                   | Some t \<Rightarrow> k1\<lparr>k_ExpiresAt := Some t\<rparr>)
                else k1)
      in if k_ID k2 = [] then k2\<lparr>k_ID := k_KeyPrefix k2\<rparr> else k2)"

definition load_key :: "(string \<Rightarrow> string \<Rightarrow> string) \<Rightarrow> (string \<Rightarrow> time option) \<Rightarrow> APIKeyConfig \<Rightarrow> Store \<Rightarrow> Store" where
  "load_key hmac parse_time kc s = (case new_key (config_key hmac parse_time kc s) s of (p, s1) \<Rightarrow> index_key p s1)"

definition LoadFromConfig :: "(string \<Rightarrow> string \<Rightarrow> string) \<Rightarrow> (string \<Rightarrow> time option) \<Rightarrow> Config \<Rightarrow> Store \<Rightarrow> Store" where
  "LoadFromConfig hmac parse_time cfg s =
     fold (load_key hmac parse_time) (c_APIKeys cfg)
       (fold load_alias (c_ModelAliases cfg)
         (fold load_model (c_Models cfg)
           (fold load_backend (c_Backends cfg) s)))"

section \<open>Backends\<close>

definition Backends :: "order \<Rightarrow> Store \<Rightarrow> addr list" where
  "Backends ord s = range_map ord (s_backends s)"

definition store_Backend :: "string \<Rightarrow> Store \<Rightarrow> addr option" where
  "store_Backend bid s = map_of (s_backends s) bid"

definition UpsertBackend :: "addr \<Rightarrow> Store \<Rightarrow> Store" where
  "UpsertBackend p s =
     (let s1 = upd_backend p (\<lambda>b. if b_Weight b < 0 then b\<lparr>b_Weight := 1\<rparr> else b) s;
          s2 = upd_backend p (\<lambda>b. b\<lparr>b_BaseURL := TrimRight (b_BaseURL b) (CHR ''/'')\<rparr>) s1
      in s2\<lparr>s_backends := AList.update (b_ID (s_bheap s2 p)) p (s_backends s2)\<rparr>)"

definition DeleteBackend :: "string \<Rightarrow> Store \<Rightarrow> Store" where
  "DeleteBackend bid s = s\<lparr>s_backends := AList.delete bid (s_backends s)\<rparr>"

definition BackendsForModel :: "order \<Rightarrow> string \<Rightarrow> Store \<Rightarrow> addr list" where
  "BackendsForModel ord model s =
     filter (\<lambda>p. SupportsModel (s_bheap s p) model) (range_map ord (s_backends s))"

section \<open>Models and aliases\<close>

definition Models :: "order \<Rightarrow> Store \<Rightarrow> Model list" where
  "Models ord s = range_map ord (s_models s)"

definition store_Model :: "string \<Rightarrow> Store \<Rightarrow> Model option" where
  "store_Model name s = map_of (s_models s) name"

definition UpsertModel :: "Model \<Rightarrow> Store \<Rightarrow> Store" where
  "UpsertModel m s = s\<lparr>s_models := AList.update (m_Name m) m (s_models s)\<rparr>"

definition DeleteModel :: "string \<Rightarrow> Store \<Rightarrow> Store" where
  "DeleteModel name s = s\<lparr>s_models := AList.delete name (s_models s)\<rparr>"

definition maxAliasHops :: nat where
  "maxAliasHops = 8"

function resolve_loop :: "ModelAlias gomap \<Rightarrow> nat \<Rightarrow> string list \<Rightarrow> string \<Rightarrow> bool \<Rightarrow> string \<times> bool" where
  "resolve_loop aliases i seen current keepExternal =
     (if maxAliasHops \<le> i then (current, keepExternal)
      else (case map_of aliases current of
              None \<Rightarrow> (current, keepExternal)
            | Some a \<Rightarrow>
                if \<not> a_Enabled a then (current, keepExternal)
                else if current \<in> set seen then (current, keepExternal)
                else resolve_loop aliases (Suc i) (current # seen) (a_InternalModel a)
                       (if i = 0 \<and> a_ForwardingMode a = ''keep_external'' then True else keepExternal)))"
  by pat_completeness auto
termination
  by (relation "measure (\<lambda>(al, i, _). maxAliasHops - i)") auto

declare resolve_loop.simps [simp del]

definition ResolveAlias :: "string \<Rightarrow> Store \<Rightarrow> string \<times> string" where
  "ResolveAlias name s =
     (case resolve_loop (s_modelAliases s) 0 [] name False of
        (current, keepExternal) \<Rightarrow> if keepExternal then (current, name) else (current, current))"

definition ModelAliases :: "order \<Rightarrow> Store \<Rightarrow> ModelAlias list" where
  "ModelAliases ord s = range_map ord (s_modelAliases s)"

definition UpsertModelAlias :: "ModelAlias \<Rightarrow> Store \<Rightarrow> Store" where
  "UpsertModelAlias a s =
     (let a1 = (if a_ForwardingMode a = [] then a\<lparr>a_ForwardingMode := ''use_internal''\<rparr> else a)
      in s\<lparr>s_modelAliases := AList.update (a_Alias a1) a1 (s_modelAliases s)\<rparr>)"

definition DeleteModelAlias :: "string \<Rightarrow> Store \<Rightarrow> Store" where
  "DeleteModelAlias alias s = s\<lparr>s_modelAliases := AList.delete alias (s_modelAliases s)\<rparr>"

section \<open>The key table\<close>

definition APIKeys :: "order \<Rightarrow> Store \<Rightarrow> addr list" where
  "APIKeys ord s = range_map ord (s_apiKeys s)"

definition store_APIKey :: "string \<Rightarrow> Store \<Rightarrow> addr option" where
  "store_APIKey kid s = map_of (s_apiKeys s) kid"

definition APIKeyByRaw :: "(string \<Rightarrow> string \<Rightarrow> string) \<Rightarrow> string \<Rightarrow> Store \<Rightarrow> addr option" where
  "APIKeyByRaw hmac raw s = map_of (s_keyByHash s) (HashKey hmac s raw)"

definition UpsertAPIKey :: "(string \<Rightarrow> string \<Rightarrow> string) \<Rightarrow> addr \<Rightarrow> string \<Rightarrow> Store \<Rightarrow> Store" where
  "UpsertAPIKey hmac p rawKey s =
     (let s1 = (if rawKey \<noteq> [] then
                  upd_key p (\<lambda>k. let k' = k\<lparr>k_KeyHash := HashKey hmac s rawKey\<rparr>
                                 in if k_KeyPrefix k' = [] \<and> 8 \<le> length rawKey
                                    then k'\<lparr>k_KeyPrefix := take 8 rawKey\<rparr> else k') s
                else s);
          s2 = (if k_ID (s_kheap s1 p) = []
                then upd_key p (\<lambda>k. k\<lparr>k_ID := k_KeyPrefix k\<rparr>) s1 else s1)
      in index_key p s2)"

definition DeleteAPIKey :: "string \<Rightarrow> Store \<Rightarrow> Store" where
  "DeleteAPIKey kid s =
     (let s1 = (case map_of (s_apiKeys s) kid of
                  None \<Rightarrow> s
                | Some p \<Rightarrow> s\<lparr>s_keyByHash := AList.delete (k_KeyHash (s_kheap s p)) (s_keyByHash s)\<rparr>)
      in s1\<lparr>s_apiKeys := AList.delete kid (s_apiKeys s1)\<rparr>)"

section \<open>Permissions\<close>

lemma any_match_iff: "any_match ps v \<longleftrightarrow> (\<exists>p \<in> set ps. matchPattern p v)"
  by (induction ps) auto

lemma any_match_either_iff:
  "any_match_either ps r i \<longleftrightarrow> (\<exists>p \<in> set ps. matchPattern p r \<or> matchPattern p i)"
  by (induction ps) auto

lemma ModelAllowedResolved_same [simp]: "ModelAllowedResolved k m m = ModelAllowed k m"
  by (simp add: ModelAllowedResolved_def ModelAllowed_def any_match_iff any_match_either_iff)

lemma ModelAllowedResolved_spec:
  "ModelAllowedResolved k r i \<longleftrightarrow>
     \<not> (\<exists>d \<in> set (k_DeniedModels k). d \<noteq> [] \<and> (glob d r \<or> glob d i))
   \<and> (k_AllowedModels k = [] \<or> (\<exists>a \<in> set (k_AllowedModels k). a \<noteq> [] \<and> (glob a r \<or> glob a i)))"
  by (auto simp: ModelAllowedResolved_def any_match_either_iff matchPattern_iff)

text \<open>
  An API key may use a model exactly when no deny pattern matches the name the client asked
  for or the model it resolves to, and the allow list is empty or one of its patterns matches
  one of the two names. A deny pattern therefore cannot be avoided through an alias, and deny
  wins over allow.
\<close>

theorem ModelAllowedResolved_meaning:
  "ModelAllowedResolved k r i \<longleftrightarrow>
     \<not> (\<exists>d \<in> set (k_DeniedModels k). d \<noteq> [] \<and> (glob d r \<or> glob d i))
   \<and> (k_AllowedModels k = [] \<or> (\<exists>a \<in> set (k_AllowedModels k). a \<noteq> [] \<and> (glob a r \<or> glob a i)))"
  by (rule ModelAllowedResolved_spec)

section \<open>Alias chains\<close>

definition alias_next :: "ModelAlias gomap \<Rightarrow> string \<Rightarrow> string option" where
  "alias_next al x =
     (case map_of al x of
        None \<Rightarrow> None
      | Some a \<Rightarrow> if a_Enabled a then Some (a_InternalModel a) else None)"

text \<open>\<open>alias_chain al x n t\<close>: following enabled aliases from \<open>x\<close> ends after \<open>n\<close> hops in \<open>t\<close>.\<close>

inductive alias_chain :: "ModelAlias gomap \<Rightarrow> string \<Rightarrow> nat \<Rightarrow> string \<Rightarrow> bool" for al where
  chain_end: "alias_next al x = None \<Longrightarrow> alias_chain al x 0 x"
| chain_hop: "alias_next al x = Some y \<Longrightarrow> alias_chain al y n t \<Longrightarrow> alias_chain al x (Suc n) t"

inductive_cases chain_0E: "alias_chain al x 0 t"
inductive_cases chain_SucE: "alias_chain al x (Suc n) t"

lemma alias_chain_unique:
  "alias_chain al x n t \<Longrightarrow> alias_chain al x m u \<Longrightarrow> n = m \<and> t = u"
proof (induction arbitrary: m u rule: alias_chain.induct)
  case (chain_end x)
  from chain_end.prems chain_end.hyps show ?case by (cases rule: alias_chain.cases) auto
next
  case (chain_hop x y n t)
  note hyp = chain_hop.hyps(1) and IH = chain_hop.IH
  from chain_hop.prems show ?case
  proof (cases rule: alias_chain.cases)
    case chain_end
    with hyp show ?thesis by simp
  next
    case (chain_hop y' n')
    with hyp have "alias_chain al y n' u" by simp
    from IH [OF this] \<open>m = Suc n'\<close> show ?thesis by simp
  qed
qed

lemma resolve_loop_chain:
  assumes "alias_chain al x n t" and "i + n \<le> maxAliasHops" and "0 < i \<or> keep"
    and "\<forall>y \<in> set seen. \<exists>m > n. alias_chain al y m t"
  shows "resolve_loop al i seen x keep = (t, keep)"
  using assms
proof (induction arbitrary: i seen rule: alias_chain.induct)
  case (chain_end x)
  then show ?case
    by (subst resolve_loop.simps) (auto simp: alias_next_def split: option.splits if_splits)
next
  case (chain_hop x y n t)
  from chain_hop.hyps have xt: "alias_chain al x (Suc n) t" by (rule alias_chain.chain_hop)
  have fresh: "x \<notin> set seen"
  proof
    assume "x \<in> set seen"
    with chain_hop.prems(3) obtain m where "m > Suc n" "alias_chain al x m t" by blast
    with alias_chain_unique [OF xt] show False by blast
  qed
  from chain_hop.hyps(1) obtain a where a: "map_of al x = Some a" "a_Enabled a" "a_InternalModel a = y"
    by (auto simp: alias_next_def split: option.splits if_splits)
  have "resolve_loop al i seen x keep = resolve_loop al (Suc i) (x # seen) y keep"
    using a fresh chain_hop.prems(1,2) by (subst resolve_loop.simps) auto
  also have "\<dots> = (t, keep)"
  proof (rule chain_hop.IH)
    show "\<forall>z \<in> set (x # seen). \<exists>m > n. alias_chain al z m t"
      using chain_hop.prems(3) xt by (auto dest: Suc_lessD)
  qed (use chain_hop.prems in auto)
  finally show ?case .
qed

definition keeps_external :: "ModelAlias gomap \<Rightarrow> string \<Rightarrow> bool" where
  "keeps_external al x \<longleftrightarrow>
     (\<exists>a. map_of al x = Some a \<and> a_Enabled a \<and> a_ForwardingMode a = ''keep_external'')"

lemma ResolveAlias_chain:
  assumes "alias_chain (s_modelAliases s) x n t" and "n \<le> maxAliasHops"
  shows "ResolveAlias x s = (t, if keeps_external (s_modelAliases s) x then x else t)"
  using assms(1)
proof (cases rule: alias_chain.cases)
  case chain_end
  then have "\<not> keeps_external (s_modelAliases s) x"
    by (auto simp: keeps_external_def alias_next_def)
  moreover have "resolve_loop (s_modelAliases s) 0 [] x False = (x, False)"
    using chain_end by (subst resolve_loop.simps) (auto simp: alias_next_def split: option.splits if_splits)
  ultimately show ?thesis using chain_end by (simp add: ResolveAlias_def)
next
  case (chain_hop y m)
  let ?al = "s_modelAliases s"
  obtain a where a: "map_of ?al x = Some a" "a_Enabled a" "a_InternalModel a = y"
    using chain_hop by (auto simp: alias_next_def split: option.splits if_splits)
  define keep where "keep \<longleftrightarrow> a_ForwardingMode a = ''keep_external''"
  have "resolve_loop ?al 0 [] x False = resolve_loop ?al 1 [x] y keep"
    using a by (subst resolve_loop.simps) (auto simp: keep_def maxAliasHops_def)
  also have "\<dots> = (t, keep)"
    using chain_hop assms by (intro resolve_loop_chain [of _ _ m]) auto
  finally show ?thesis using a by (simp add: ResolveAlias_def keeps_external_def keep_def)
qed

text \<open>
  Alias resolution follows the chain to its end: if following enabled aliases from a name
  ends in \<open>t\<close> after at most eight hops (the limit of the code), the internal model is \<open>t\<close>, and
  the name sent upstream is the requested name exactly when the first alias asks for
  \<open>keep_external\<close>, and \<open>t\<close> otherwise. The cycle guard never cuts such a chain short.
\<close>

theorem ResolveAlias_follows_chain:
  assumes "alias_chain (s_modelAliases s) x n t" and "n \<le> maxAliasHops"
  shows "ResolveAlias x s = (t, if keeps_external (s_modelAliases s) x then x else t)"
  using assms by (rule ResolveAlias_chain)

definition example_aliases :: Store where
  "example_aliases = (store_New [])\<lparr>s_modelAliases :=
     [(''fast'', \<lparr>a_Alias = ''fast'', a_InternalModel = ''small'', a_ForwardingMode = ''keep_external'', a_Enabled = True\<rparr>),
      (''small'', \<lparr>a_Alias = ''small'', a_InternalModel = ''llama-8b'', a_ForwardingMode = ''use_internal'', a_Enabled = True\<rparr>)]\<rparr>"

theorem ResolveAlias_follows_chain_witness:
  "alias_chain (s_modelAliases example_aliases) ''fast'' 2 ''llama-8b''
   \<and> ResolveAlias ''fast'' example_aliases = (''llama-8b'', ''fast'')"
proof -
  have "alias_chain (s_modelAliases example_aliases) ''llama-8b'' 0 ''llama-8b''"
    by (rule chain_end) (simp add: example_aliases_def alias_next_def)
  then have "alias_chain (s_modelAliases example_aliases) ''small'' (Suc 0) ''llama-8b''"
    by (rule chain_hop [rotated]) (simp add: example_aliases_def alias_next_def)
  then have c: "alias_chain (s_modelAliases example_aliases) ''fast'' (Suc (Suc 0)) ''llama-8b''"
    by (rule chain_hop [rotated]) (simp add: example_aliases_def alias_next_def)
  have k: "keeps_external (s_modelAliases example_aliases) ''fast''"
    by (simp add: keeps_external_def example_aliases_def)
  from ResolveAlias_follows_chain [OF c] c k show ?thesis
    by (simp add: maxAliasHops_def numeral_2_eq_2)
qed

end
