(* ===== verification/Store_Invariant.thy ===== *)
theory Store_Invariant
  imports Store_Model
begin

text \<open>
  The well-formedness of the catalog and its preservation by every operation of the store, and
  the behaviour of the key table: what a credential lookup returns after keys were created,
  updated, rotated and deleted.
\<close>

section \<open>Well-formedness\<close>

definition backend_entry_ok :: "Backend \<Rightarrow> bool" where
  "backend_entry_ok b \<longleftrightarrow> 0 \<le> b_Weight b \<and> (b_BaseURL b = [] \<or> last (b_BaseURL b) \<noteq> CHR ''/'')"

definition backends_wf :: "Store \<Rightarrow> bool" where
  "backends_wf s \<longleftrightarrow> distinct (keys_of (s_backends s)) \<and>
     (\<forall>i p. map_of (s_backends s) i = Some p \<longrightarrow>
        p < s_next s \<and> b_ID (s_bheap s p) = i \<and> backend_entry_ok (s_bheap s p))"

definition models_wf :: "Store \<Rightarrow> bool" where
  "models_wf s \<longleftrightarrow> distinct (keys_of (s_models s)) \<and> distinct (keys_of (s_modelAliases s)) \<and>
     (\<forall>n m. map_of (s_models s) n = Some m \<longrightarrow> m_Name m = n) \<and>
     (\<forall>n a. map_of (s_modelAliases s) n = Some a \<longrightarrow> a_Alias a = n \<and> a_ForwardingMode a \<noteq> [])"

definition keys_wf :: "Store \<Rightarrow> bool" where
  "keys_wf s \<longleftrightarrow> distinct (keys_of (s_apiKeys s)) \<and> distinct (keys_of (s_keyByHash s)) \<and>
     (\<forall>i p. map_of (s_apiKeys s) i = Some p \<longrightarrow> p < s_next s \<and> k_ID (s_kheap s p) = i) \<and>
     (\<forall>h p. map_of (s_keyByHash s) h = Some p \<longrightarrow>
        p < s_next s \<and> k_KeyHash (s_kheap s p) = h \<and> h \<noteq> [])"

definition store_wf :: "Store \<Rightarrow> bool" where
  "store_wf s \<longleftrightarrow> backends_wf s \<and> models_wf s \<and> keys_wf s"

lemmas wf_defs = store_wf_def backends_wf_def models_wf_def keys_wf_def

lemma TrimRight_entry: "TrimRight u (CHR ''/'') = [] \<or> last (TrimRight u (CHR ''/'')) \<noteq> CHR ''/''"
  by (rule TrimRight_no_suffix)

lemma wf_fresh:
  assumes "store_wf s"
  shows "map_of (s_backends s) i \<noteq> Some (s_next s)" and "map_of (s_apiKeys s) i \<noteq> Some (s_next s)"
    and "map_of (s_keyByHash s) i \<noteq> Some (s_next s)" and "map_of (s_keyByHash s) [] = None"
proof -
  have b: "p < s_next s" if "map_of (s_backends s) i = Some p" for i p
    using assms that by (simp add: wf_defs)
  have k: "p < s_next s" if "map_of (s_apiKeys s) i = Some p" for i p
    using assms that by (simp add: wf_defs)
  have h: "p < s_next s" "h \<noteq> []" if "map_of (s_keyByHash s) h = Some p" for h p
    using assms that by (auto simp: wf_defs)
  show "map_of (s_backends s) i \<noteq> Some (s_next s)" "map_of (s_apiKeys s) i \<noteq> Some (s_next s)"
    "map_of (s_keyByHash s) i \<noteq> Some (s_next s)"
    using b k h(1) by blast+
  show "map_of (s_keyByHash s) [] = None"
    using h(2) by (cases "map_of (s_keyByHash s) []") auto
qed

lemma store_New_wf: "store_wf (store_New secret)"
  by (simp add: wf_defs store_New_def)

lemma load_backend_wf:
  assumes "store_wf s"
  shows "store_wf (load_backend bc s)"
proof -
  have "models_wf (load_backend bc s)" "keys_wf (load_backend bc s)"
    using assms by (auto simp: wf_defs load_backend_def new_backend_def Let_def less_SucI)
  moreover have "backends_wf (load_backend bc s)"
    using assms TrimRight_entry wf_fresh [OF assms]
    by (auto simp: wf_defs load_backend_def new_backend_def Let_def distinct_update
        backend_entry_ok_def zero_backend_def less_SucI split: if_splits)
  ultimately show ?thesis by (simp add: store_wf_def)
qed

lemma load_model_wf: "store_wf s \<Longrightarrow> store_wf (load_model mc s)"
  by (auto simp: wf_defs load_model_def Let_def distinct_update split: if_splits)

lemma load_alias_wf: "store_wf s \<Longrightarrow> store_wf (load_alias mac s)"
  by (auto simp: wf_defs load_alias_def Let_def distinct_update split: if_splits)

lemma index_key_wf:
  assumes "store_wf s" and "p < s_next s"
  shows "store_wf (index_key p s)"
proof -
  have "backends_wf (index_key p s)" "models_wf (index_key p s)"
    using assms by (auto simp: wf_defs index_key_def Let_def)
  moreover have "keys_wf (index_key p s)"
    using assms wf_fresh(4) [OF assms(1)]
    by (auto simp: wf_defs index_key_def Let_def distinct_update split: if_splits)
  ultimately show ?thesis by (simp add: store_wf_def)
qed

lemma new_key_wf:
  assumes "store_wf s" and "new_key k s = (p, s')"
  shows "store_wf s' \<and> p < s_next s' \<and> s_kheap s' p = k \<and> p = s_next s"
  using assms wf_fresh [OF assms(1)] by (auto simp: wf_defs new_key_def less_SucI)

lemma load_key_wf: "store_wf s \<Longrightarrow> store_wf (load_key hmac pt kc s)"
  unfolding load_key_def Let_def
  by (auto split: prod.split intro!: index_key_wf dest: new_key_wf)

lemma fold_wf:
  assumes "\<And>x s. store_wf s \<Longrightarrow> store_wf (f x s)" and "store_wf s"
  shows "store_wf (fold f xs s)"
  using assms(2) by (induction xs arbitrary: s) (auto intro: assms(1))

lemma LoadFromConfig_wf: "store_wf s \<Longrightarrow> store_wf (LoadFromConfig hmac pt cfg s)"
  unfolding LoadFromConfig_def
  by (intro fold_wf load_key_wf load_alias_wf load_model_wf load_backend_wf)

lemma UpsertBackend_wf:
  assumes "store_wf s" and "p < s_next s"
    and "\<And>i. map_of (s_backends s) i = Some p \<Longrightarrow> i = b_ID (s_bheap s p)"
  shows "store_wf (UpsertBackend p s)"
proof -
  have "models_wf (UpsertBackend p s)" "keys_wf (UpsertBackend p s)"
    using assms(1) by (auto simp: wf_defs UpsertBackend_def upd_backend_def Let_def)
  moreover have "backends_wf (UpsertBackend p s)"
    using assms TrimRight_entry
    by (auto simp: wf_defs UpsertBackend_def upd_backend_def Let_def distinct_update
        backend_entry_ok_def split: if_splits)
  ultimately show ?thesis by (simp add: store_wf_def)
qed

lemma DeleteBackend_wf: "store_wf s \<Longrightarrow> store_wf (DeleteBackend i s)"
  by (auto simp: wf_defs DeleteBackend_def AList.distinct_delete split: if_splits)

lemma UpsertModel_wf: "store_wf s \<Longrightarrow> store_wf (UpsertModel m s)"
  by (auto simp: wf_defs UpsertModel_def distinct_update split: if_splits)

lemma DeleteModel_wf: "store_wf s \<Longrightarrow> store_wf (DeleteModel n s)"
  by (auto simp: wf_defs DeleteModel_def AList.distinct_delete split: if_splits)

lemma UpsertModelAlias_wf: "store_wf s \<Longrightarrow> store_wf (UpsertModelAlias a s)"
  by (auto simp: wf_defs UpsertModelAlias_def Let_def distinct_update split: if_splits)

lemma DeleteModelAlias_wf: "store_wf s \<Longrightarrow> store_wf (DeleteModelAlias n s)"
  by (auto simp: wf_defs DeleteModelAlias_def AList.distinct_delete split: if_splits)

lemma DeleteAPIKey_wf: "store_wf s \<Longrightarrow> store_wf (DeleteAPIKey i s)"
  by (auto simp: wf_defs DeleteAPIKey_def Let_def AList.distinct_delete
      split: if_splits option.splits)

text \<open>
  Re-entering a key object: the object is in the hash index under the hash it will have after
  the call, or not at all. (Rotation takes the old entry out first.)
\<close>

lemma UpsertAPIKey_wf:
  assumes wf: "store_wf s" and p: "p < s_next s"
    and hash: "\<And>h. map_of (s_keyByHash s) h = Some p \<Longrightarrow> raw = [] \<or> h = HashKey hmac s raw"
    and idx: "\<And>i. map_of (s_apiKeys s) i = Some p \<Longrightarrow> i \<noteq> []"
  shows "store_wf (UpsertAPIKey hmac p raw s)"
proof -
  define s1 where "s1 = (if raw \<noteq> [] then
      upd_key p (\<lambda>k. let k' = k\<lparr>k_KeyHash := HashKey hmac s raw\<rparr>
                     in if k_KeyPrefix k' = [] \<and> 8 \<le> length raw
                        then k'\<lparr>k_KeyPrefix := take 8 raw\<rparr> else k') s
      else s)"
  define s2 where "s2 = (if k_ID (s_kheap s1 p) = []
      then upd_key p (\<lambda>k. k\<lparr>k_ID := k_KeyPrefix k\<rparr>) s1 else s1)"
  have "store_wf s1 \<and> p < s_next s1 \<and> (\<forall>i. map_of (s_apiKeys s1) i = Some p \<longrightarrow> i \<noteq> [])"
    using wf p hash idx by (auto simp: s1_def wf_defs upd_key_def Let_def)
  then have "store_wf s2 \<and> p < s_next s2"
    by (auto simp: s2_def wf_defs upd_key_def)
  moreover have "UpsertAPIKey hmac p raw s = index_key p s2"
    by (simp add: UpsertAPIKey_def s1_def s2_def Let_def)
  ultimately show ?thesis using index_key_wf by simp
qed

section \<open>The key table\<close>

lemma HashKey_cong [simp]:
  "HashKey hmac (s\<lparr>s_apiKeys := a\<rparr>) = HashKey hmac s"
  "HashKey hmac (s\<lparr>s_keyByHash := b\<rparr>) = HashKey hmac s"
  "HashKey hmac (s\<lparr>s_kheap := c\<rparr>) = HashKey hmac s"
  "HashKey hmac (s\<lparr>s_next := d\<rparr>) = HashKey hmac s"
  by (simp_all add: HashKey_def fun_eq_iff)

lemma HashKey_upd_key [simp]: "HashKey hmac (upd_key p f s) = HashKey hmac s"
  by (simp add: upd_key_def)

lemma HashKey_index [simp]: "HashKey hmac (index_key p s) = HashKey hmac s"
  by (simp add: index_key_def Let_def)

lemma HashKey_Upsert [simp]: "HashKey hmac (UpsertAPIKey hm p raw s) = HashKey hmac s"
  by (simp add: UpsertAPIKey_def Let_def)

lemma HashKey_Delete [simp]: "HashKey hmac (DeleteAPIKey i s) = HashKey hmac s"
  by (simp add: DeleteAPIKey_def Let_def split: option.split)

lemma HashKey_new_key: "new_key k s = (p, s') \<Longrightarrow> HashKey hmac s' = HashKey hmac s"
  by (auto simp: new_key_def)

lemma UpsertAPIKey_hash_index:
  assumes "raw \<noteq> []" and "HashKey hmac s raw \<noteq> []"
  shows "map_of (s_keyByHash (UpsertAPIKey hmac p raw s)) =
         (map_of (s_keyByHash s))(HashKey hmac s raw \<mapsto> p)"
  using assms by (auto simp: UpsertAPIKey_def index_key_def upd_key_def Let_def)

lemma UpsertAPIKey_heap:
  "q \<noteq> p \<Longrightarrow> s_kheap (UpsertAPIKey hmac p raw s) q = s_kheap s q"
  by (simp add: UpsertAPIKey_def index_key_def upd_key_def Let_def)

lemma UpsertAPIKey_id:
  "k_ID (s_kheap s p) \<noteq> [] \<Longrightarrow>
     map_of (s_apiKeys (UpsertAPIKey hmac p raw s)) = (map_of (s_apiKeys s))(k_ID (s_kheap s p) \<mapsto> p)
   \<and> k_ID (s_kheap (UpsertAPIKey hmac p raw s) p) = k_ID (s_kheap s p)"
  by (auto simp: UpsertAPIKey_def index_key_def upd_key_def Let_def)

lemma UpsertAPIKey_KeyHash:
  "raw \<noteq> [] \<Longrightarrow> k_KeyHash (s_kheap (UpsertAPIKey hmac p raw s) p) = HashKey hmac s raw"
  by (simp add: UpsertAPIKey_def index_key_def upd_key_def Let_def)

text \<open>
  Credential round trip: after a key object is entered with a raw key, that raw key
  authenticates as this object, the object's hash is the keyed hash of the raw key, and every
  raw key with a different hash authenticates exactly as before.
\<close>

theorem UpsertAPIKey_lookup:
  assumes "raw \<noteq> []" and "HashKey hmac s raw \<noteq> []"
  shows "APIKeyByRaw hmac raw (UpsertAPIKey hmac p raw s) = Some p
       \<and> k_KeyHash (s_kheap (UpsertAPIKey hmac p raw s) p) = HashKey hmac s raw
       \<and> (HashKey hmac s other \<noteq> HashKey hmac s raw \<longrightarrow>
            APIKeyByRaw hmac other (UpsertAPIKey hmac p raw s) = APIKeyByRaw hmac other s)"
  using assms by (simp add: APIKeyByRaw_def UpsertAPIKey_hash_index UpsertAPIKey_KeyHash)

theorem UpsertAPIKey_lookup_witness:
  "APIKeyByRaw (@) ''sk-1'' (UpsertAPIKey (@) 7 ''sk-1'' (store_New ''x'')) = Some 7
   \<and> APIKeyByRaw (@) ''sk-2'' (UpsertAPIKey (@) 7 ''sk-1'' (store_New ''x'')) = None"
  using UpsertAPIKey_lookup [of "''sk-1''" "(@)" "store_New ''x''" 7 "''sk-2''"]
  by (simp add: HashKey_def APIKeyByRaw_def store_New_def)

text \<open>Creating a key through the admin API: a new object, entered under its raw key.\<close>

definition create_key :: "(string \<Rightarrow> string \<Rightarrow> string) \<Rightarrow> APIKey \<Rightarrow> string \<Rightarrow> Store \<Rightarrow> Store" where
  "create_key hmac k raw s = (case new_key k s of (p, s1) \<Rightarrow> UpsertAPIKey hmac p raw s1)"

lemma create_key_facts:
  assumes "raw \<noteq> []" and "HashKey hmac s raw \<noteq> []" and "k_ID k \<noteq> []"
  shows "map_of (s_keyByHash (create_key hmac k raw s)) =
           (map_of (s_keyByHash s))(HashKey hmac s raw \<mapsto> s_next s)"
    and "map_of (s_apiKeys (create_key hmac k raw s)) = (map_of (s_apiKeys s))(k_ID k \<mapsto> s_next s)"
    and "k_KeyHash (s_kheap (create_key hmac k raw s) (s_next s)) = HashKey hmac s raw"
    and "q \<noteq> s_next s \<Longrightarrow> s_kheap (create_key hmac k raw s) q = s_kheap s q"
    and "HashKey hmac (create_key hmac k raw s) = HashKey hmac s"
  using assms
  by (auto simp: create_key_def new_key_def UpsertAPIKey_hash_index UpsertAPIKey_id
      UpsertAPIKey_KeyHash UpsertAPIKey_heap)

text \<open>
  Creating a key under an id that is already taken leaves the previous credential alive
  and out of reach: the old raw key still authenticates as the old, unchanged key object, and
  deleting the id afterwards removes the new credential only. No id leads to the old object any
  more, so the admin API can no longer disable, rotate or delete it.
\<close>

theorem recreated_id_keeps_old_credential:
  assumes old: "APIKeyByRaw hmac old_raw s = Some p" and "p < s_next s"
    and "store_APIKey kid s = Some p" and "keys_wf s"
    and k: "k_ID k = kid" "kid \<noteq> []"
    and raw: "new_raw \<noteq> []" "HashKey hmac s new_raw \<noteq> []" "HashKey hmac s new_raw \<noteq> HashKey hmac s old_raw"
    and s1: "s1 = create_key hmac k new_raw s" and s2: "s2 = DeleteAPIKey kid s1"
  shows "APIKeyByRaw hmac old_raw s2 = Some p \<and> s_kheap s2 p = s_kheap s p
       \<and> APIKeyByRaw hmac new_raw s2 = None \<and> (\<forall>i. store_APIKey i s2 \<noteq> Some p)"
proof -
  note c = create_key_facts [where hmac = hmac and k = k and raw = new_raw and s = s, unfolded k(1), OF raw(1,2) k(2)]
  have p: "p \<noteq> s_next s" using assms(2) by simp
  have s1k: "map_of (s_apiKeys s1) kid = Some (s_next s)"
    and hash: "k_KeyHash (s_kheap s1 (s_next s)) = HashKey hmac s new_raw"
    using c(2,3) by (simp_all add: s1)
  have del: "map_of (s_keyByHash s2) = (map_of (s_keyByHash s1))(HashKey hmac s new_raw := None)"
    "map_of (s_apiKeys s2) = (map_of (s_apiKeys s1))(kid := None)" "s_kheap s2 = s_kheap s1"
    using s1k hash by (simp_all add: s2 DeleteAPIKey_def Let_def)
  have "HashKey hmac s2 = HashKey hmac s" using c(5) by (simp add: s2 s1)
  then have "APIKeyByRaw hmac old_raw s2 = Some p" "APIKeyByRaw hmac new_raw s2 = None"
    using old raw(3) del c(1) by (simp_all add: APIKeyByRaw_def s1)
  moreover have "s_kheap s2 p = s_kheap s p" using del(3) c(4) [OF p] by (simp add: s1)
  moreover have "store_APIKey i s2 \<noteq> Some p" for i
  proof
    assume "store_APIKey i s2 = Some p"
    then have "map_of (s_apiKeys s) i = Some p" "i \<noteq> kid"
      using del(2) c(2) by (auto simp: store_APIKey_def s1 split: if_splits)
    then have "k_ID (s_kheap s p) = i" using assms(4) by (simp add: keys_wf_def)
    moreover have "k_ID (s_kheap s p) = kid"
      using assms(3,4) by (simp add: keys_wf_def store_APIKey_def)
    ultimately show False using \<open>i \<noteq> kid\<close> by simp
  qed
  ultimately show ?thesis by blast
qed

definition example_keys :: Store where
  "example_keys = create_key (@) (zero_key\<lparr>k_ID := ''team-a'', k_Enabled := True\<rparr>) ''sk-old'' (store_New ''x'')"

lemma example_keys_wf: "keys_wf example_keys"
  by (simp add: example_keys_def create_key_def new_key_def UpsertAPIKey_def index_key_def
      upd_key_def store_New_def Let_def keys_wf_def HashKey_def zero_key_def)

lemma example_keys_facts:
  "s_next example_keys = 1" "APIKeyByRaw (@) ''sk-old'' example_keys = Some 0"
  "store_APIKey ''team-a'' example_keys = Some 0" "k_ID (s_kheap example_keys 0) = ''team-a''"
  by (simp_all add: example_keys_def create_key_def new_key_def UpsertAPIKey_def index_key_def
      upd_key_def store_New_def Let_def HashKey_def zero_key_def APIKeyByRaw_def store_APIKey_def)

theorem recreated_id_keeps_old_credential_witness:
  "APIKeyByRaw (@) ''sk-old''
     (DeleteAPIKey ''team-a'' (create_key (@) (zero_key\<lparr>k_ID := ''team-a''\<rparr>) ''sk-new'' example_keys)) = Some 0"
  using recreated_id_keeps_old_credential [of "(@)" "''sk-old''" example_keys 0 "''team-a''"
      "zero_key\<lparr>k_ID := ''team-a''\<rparr>" "''sk-new''", OF _ _ _ example_keys_wf] example_keys_facts
  by (simp add: HashKey_def)

text \<open>
  The two indexes of the key table agree: a credential leads to a key that its id leads to, and
  a key with a credential is found by it.
\<close>

definition keys_linked :: "Store \<Rightarrow> bool" where
  "keys_linked s \<longleftrightarrow>
     (\<forall>h p. map_of (s_keyByHash s) h = Some p \<longrightarrow> map_of (s_apiKeys s) (k_ID (s_kheap s p)) = Some p)
   \<and> (\<forall>i p. map_of (s_apiKeys s) i = Some p \<longrightarrow> k_KeyHash (s_kheap s p) \<noteq> [] \<longrightarrow>
        map_of (s_keyByHash s) (k_KeyHash (s_kheap s p)) = Some p)"

lemma linked_hash_id:
  assumes "keys_wf s" "keys_linked s" "map_of (s_keyByHash s) h = Some p"
  shows "k_KeyHash (s_kheap s p) = h \<and> map_of (s_apiKeys s) (k_ID (s_kheap s p)) = Some p"
  using assms by (auto simp: keys_wf_def keys_linked_def)

lemma linked_unique:
  assumes "keys_linked s" "map_of (s_apiKeys s) i = Some p" "map_of (s_apiKeys s) j = Some q"
    and "k_KeyHash (s_kheap s p) = k_KeyHash (s_kheap s q)" "k_KeyHash (s_kheap s q) \<noteq> []"
  shows "p = q"
  using assms unfolding keys_linked_def by (metis option.inject)

lemma DeleteAPIKey_linked:
  assumes wf: "keys_wf s" and lk: "keys_linked s"
  shows "keys_linked (DeleteAPIKey kid s)"
proof (cases "map_of (s_apiKeys s) kid")
  case None
  with lk wf show ?thesis by (auto simp: DeleteAPIKey_def keys_linked_def keys_wf_def)
next
  case (Some q)
  have q: "k_ID (s_kheap s q) = kid" using wf Some by (simp add: keys_wf_def)
  have "map_of (s_keyByHash s) (k_KeyHash (s_kheap s q)) = Some q" if "k_KeyHash (s_kheap s q) \<noteq> []"
    using lk Some that by (simp add: keys_linked_def)
  moreover have "k_ID (s_kheap s p) \<noteq> kid"
    if "map_of (s_keyByHash s) h = Some p" "h \<noteq> k_KeyHash (s_kheap s q)" for h p
    using linked_hash_id [OF wf lk that(1)] that(2) Some by auto
  moreover have "k_KeyHash (s_kheap s p) \<noteq> k_KeyHash (s_kheap s q)"
    if "map_of (s_apiKeys s) i = Some p" "i \<noteq> kid" "k_KeyHash (s_kheap s p) \<noteq> []" for i p
    using linked_unique [OF lk that(1) Some] that q wf by (auto simp: keys_wf_def)
  ultimately show ?thesis
    using lk Some unfolding keys_linked_def by (auto simp: DeleteAPIKey_def Let_def)
qed

lemma DeleteAPIKey_lookup:
  assumes wf: "keys_wf s" and lk: "keys_linked s"
  shows "APIKeyByRaw hmac raw (DeleteAPIKey kid s) =
           (case APIKeyByRaw hmac raw s of
              None \<Rightarrow> None
            | Some p \<Rightarrow> if k_ID (s_kheap s p) = kid then None else Some p)"
proof (cases "map_of (s_keyByHash s) (HashKey hmac s raw)")
  case None
  then show ?thesis
    by (simp add: APIKeyByRaw_def DeleteAPIKey_def Let_def split: option.split)
next
  case (Some p)
  from linked_hash_id [OF wf lk Some]
  have p: "k_KeyHash (s_kheap s p) = HashKey hmac s raw"
    "map_of (s_apiKeys s) (k_ID (s_kheap s p)) = Some p" by simp_all
  have nonempty: "HashKey hmac s raw \<noteq> []" using wf Some unfolding keys_wf_def by blast
  show ?thesis
  proof (cases "map_of (s_apiKeys s) kid")
    case None
    with p(2) have "k_ID (s_kheap s p) \<noteq> kid" by auto
    with None Some show ?thesis by (simp add: APIKeyByRaw_def DeleteAPIKey_def)
  next
    case q: (Some q)
    have "k_ID (s_kheap s q) = kid" using wf q by (simp add: keys_wf_def)
    moreover have "q = p" if "k_KeyHash (s_kheap s q) = HashKey hmac s raw"
      using linked_unique [OF lk q p(2)] p(1) that nonempty by simp
    ultimately have "k_KeyHash (s_kheap s q) = HashKey hmac s raw \<longleftrightarrow> k_ID (s_kheap s p) = kid"
      using p q by (metis option.inject)
    with q Some show ?thesis
      by (cases "k_ID (s_kheap s p) = kid") (simp_all add: APIKeyByRaw_def DeleteAPIKey_def Let_def)
  qed
qed

text \<open>
  Deleting a key revokes it: when the two indexes of the key table agree, after
  \<open>DeleteAPIKey\<close> the id is gone, no raw key authenticates as a key with that id, the raw
  keys of every other key work as before, and the indexes still agree.
\<close>

theorem DeleteAPIKey_revokes:
  assumes "keys_wf s" and "keys_linked s"
  shows "store_APIKey kid (DeleteAPIKey kid s) = None
       \<and> APIKeyByRaw hmac raw (DeleteAPIKey kid s) =
           (case APIKeyByRaw hmac raw s of
              None \<Rightarrow> None
            | Some p \<Rightarrow> if k_ID (s_kheap s p) = kid then None else Some p)
       \<and> keys_linked (DeleteAPIKey kid s)"
proof (intro conjI)
  show "store_APIKey kid (DeleteAPIKey kid s) = None"
    by (simp add: store_APIKey_def DeleteAPIKey_def Let_def split: option.split)
qed (rule DeleteAPIKey_lookup [OF assms], rule DeleteAPIKey_linked [OF assms])

theorem DeleteAPIKey_revokes_witness:
  "APIKeyByRaw (@) ''sk-old'' example_keys = Some 0
   \<and> APIKeyByRaw (@) ''sk-old'' (DeleteAPIKey ''team-a'' example_keys) = None"
proof -
  have "keys_linked example_keys"
    by (simp add: keys_linked_def example_keys_def create_key_def new_key_def UpsertAPIKey_def
        index_key_def upd_key_def store_New_def Let_def HashKey_def zero_key_def)
  from DeleteAPIKey_revokes [OF example_keys_wf this, of "''team-a''" "(@)" "''sk-old''"] example_keys_facts
  show ?thesis by simp
qed

end
