(* ===== verification/Balancer_Model.thy ===== *)
theory Balancer_Model
  imports Store_Model
begin

text \<open>
  The load balancer, \<^verbatim>\<open>internal/balancer/balancer.go\<close>: the per-model round-robin counters, the
  table of sticky assignments and one function per policy. Candidates are addresses of backends
  in the catalog's object store; the random index of the \<open>random\<close> policy is an argument, and
  the counters are 64-bit words that wrap around. An index that is out of range, where the code
  would panic, gives \<open>None\<close>; the only other \<open>None\<close> is the nil of an empty candidate list.
\<close>

unbundle bit_operations_syntax

record Balancer =
  bl_counters :: "64 word gomap"
  bl_sticky :: "string gomap"

record Hint =
  hint_APIKeyID :: string
  hint_User :: string

definition balancer_New :: Balancer where
  "balancer_New = \<lparr>bl_counters = [], bl_sticky = []\<rparr>"

definition counter :: "string \<Rightarrow> Balancer \<Rightarrow> 64 word \<times> Balancer" where
  "counter key b =
     (case map_of (bl_counters b) key of
        Some c \<Rightarrow> (c, b)
      | None \<Rightarrow> (0, b\<lparr>bl_counters := AList.update key 0 (bl_counters b)\<rparr>))"

text \<open>\<open>atomic.AddUint64(b.counter(key), 1) - 1\<close>: the old value, the counter stepped.\<close>

definition next_index :: "string \<Rightarrow> Balancer \<Rightarrow> 64 word \<times> Balancer" where
  "next_index key b =
     (case counter key b of (c, b1) \<Rightarrow>
        ((c + 1) - 1, b1\<lparr>bl_counters := AList.update key (c + 1) (bl_counters b1)\<rparr>))"

definition elem_at :: "'a list \<Rightarrow> nat \<Rightarrow> 'a option" where
  "elem_at xs i = (if i < length xs then Some (xs ! i) else None)"

section \<open>The policies\<close>

fun chooseLeastLatency_loop :: "(addr \<Rightarrow> Backend) \<Rightarrow> addr option \<Rightarrow> int \<Rightarrow> addr list \<Rightarrow> addr option" where
  "chooseLeastLatency_loop heap best bestLat [] = best"
| "chooseLeastLatency_loop heap best bestLat (c # cs) =
     (let lat = b_lastLatencyMS (heap c) in
      if best = None \<or> (0 < lat \<and> (bestLat < 0 \<or> lat < bestLat))
      then chooseLeastLatency_loop heap (Some c) (if 0 < lat then lat else bestLat) cs
      else chooseLeastLatency_loop heap best bestLat cs)"

definition chooseLeastLatency :: "(addr \<Rightarrow> Backend) \<Rightarrow> addr list \<Rightarrow> addr option" where
  "chooseLeastLatency heap cs = chooseLeastLatency_loop heap None (- 1) cs"

text \<open>FNV-1a at 32 bits, the hash of \<open>hash/fnv\<close>.\<close>

definition fnv32a :: "string \<Rightarrow> 32 word" where
  "fnv32a key = fold (\<lambda>ch h. (h XOR of_char ch) * 16777619) key 2166136261"

definition hash_key :: "Hint \<Rightarrow> string" where
  "hash_key hint = hint_APIKeyID hint @ ''|'' @ hint_User hint"

definition chooseHash :: "addr list \<Rightarrow> Hint \<Rightarrow> addr option" where
  "chooseHash cs hint =
     (let key = hash_key hint in
      if key = ''|'' then elem_at cs 0
      else elem_at cs (unat (fnv32a key mod word_of_nat (length cs))))"

fun chooseLeast_loop :: "(addr \<Rightarrow> Backend) \<Rightarrow> addr option \<Rightarrow> int \<Rightarrow> addr list \<Rightarrow> addr option" where
  "chooseLeast_loop heap best bestActive [] = best"
| "chooseLeast_loop heap best bestActive (c # cs) =
     (let a = ActiveRequests (heap c) in
      if best = None \<or> a < bestActive then chooseLeast_loop heap (Some c) a cs
      else chooseLeast_loop heap best bestActive cs)"

definition chooseLeast :: "(addr \<Rightarrow> Backend) \<Rightarrow> addr list \<Rightarrow> addr option" where
  "chooseLeast heap cs = chooseLeast_loop heap None (- 1) cs"

definition eff_weight :: "Backend \<Rightarrow> int" where
  "eff_weight b = (if b_Weight b < 0 then 1 else b_Weight b)"

definition totalWeight :: "(addr \<Rightarrow> Backend) \<Rightarrow> addr list \<Rightarrow> int" where
  "totalWeight heap cs = foldl (\<lambda>t c. add64 t (eff_weight (heap c))) 0 cs"

fun wrr_loop :: "(addr \<Rightarrow> Backend) \<Rightarrow> int \<Rightarrow> addr list \<Rightarrow> addr option" where
  "wrr_loop heap target [] = None"
| "wrr_loop heap target (c # cs) =
     (let w = eff_weight (heap c) in
      if w = 0 then wrr_loop heap target cs
      else if target < w then Some c
      else wrr_loop heap (target - w) cs)"

definition chooseWeightedRR :: "(addr \<Rightarrow> Backend) \<Rightarrow> addr list \<Rightarrow> string \<Rightarrow> Balancer \<Rightarrow> addr option \<times> Balancer" where
  "chooseWeightedRR heap cs model b0 =
     (case counter model b0 of (_, b) \<Rightarrow>
        let total = totalWeight heap cs in
        if total \<le> 0 then (elem_at cs 0, b)
        else (case next_index model b of (idx, b') \<Rightarrow>
                let target = uint idx mod total in
                case wrr_loop heap target cs of
                  Some c \<Rightarrow> (Some c, b')
                | None \<Rightarrow> (elem_at cs (length cs - 1), b')))"

definition sticky_key :: "string \<Rightarrow> Hint \<Rightarrow> string" where
  "sticky_key model hint = model @ ''|'' @ hint_APIKeyID hint"

definition chooseSticky :: "(addr \<Rightarrow> Backend) \<Rightarrow> string \<Rightarrow> addr list \<Rightarrow> Hint \<Rightarrow> Balancer \<Rightarrow> addr option \<times> Balancer" where
  "chooseSticky heap model cs hint b =
     (if hint_APIKeyID hint = [] then chooseWeightedRR heap cs model b
      else let key = sticky_key model hint in
        case (case map_of (bl_sticky b) key of
                None \<Rightarrow> None
              | Some bid \<Rightarrow> List.find (\<lambda>c. b_ID (heap c) = bid) cs) of
          Some c \<Rightarrow> (Some c, b)
        | None \<Rightarrow>
            (case chooseWeightedRR heap cs model b of
               (None, b') \<Rightarrow> (None, b')
             | (Some c, b') \<Rightarrow>
                 (Some c, b'\<lparr>bl_sticky := AList.update key (b_ID (heap c)) (bl_sticky b')\<rparr>)))"

definition Choose :: "(addr \<Rightarrow> Backend) \<Rightarrow> nat \<Rightarrow> string \<Rightarrow> string \<Rightarrow> addr list \<Rightarrow> Hint \<Rightarrow> Balancer \<Rightarrow> addr option \<times> Balancer" where
  "Choose heap rnd model policy candidates hint b =
     (if candidates = [] then (None, b)
      else if length candidates = 1 then (elem_at candidates 0, b)
      else if policy = ''random'' then (elem_at candidates rnd, b)
      else if policy = ''least_connections'' then (chooseLeast heap candidates, b)
      else if policy = ''least_latency'' then (chooseLeastLatency heap candidates, b)
      else if policy = ''round_robin'' then
        (case next_index model b of (idx, b') \<Rightarrow>
           (elem_at candidates (unat (idx mod word_of_nat (length candidates))), b'))
      else if policy = ''hash'' then (chooseHash candidates hint, b)
      else if policy = ''sticky'' then chooseSticky heap model candidates hint b
      else chooseWeightedRR heap candidates model b)"

section \<open>The scans\<close>

lemma elem_at_Some [simp]: "i < length xs \<Longrightarrow> elem_at xs i = Some (xs ! i)"
  by (simp add: elem_at_def)

lemma elem_at_0: "xs \<noteq> [] \<Longrightarrow> elem_at xs 0 = Some (hd xs)"
  by (simp add: hd_conv_nth)

lemma chooseLeast_loop_min:
  assumes "(case best of None \<Rightarrow> True | Some b \<Rightarrow> bestActive = ActiveRequests (heap b))"
    and "best \<noteq> None \<or> cs \<noteq> []"
  shows "\<exists>p. chooseLeast_loop heap best bestActive cs = Some p \<and> p \<in> set_option best \<union> set cs
           \<and> (\<forall>q \<in> set_option best \<union> set cs. ActiveRequests (heap p) \<le> ActiveRequests (heap q))"
  using assms
proof (induction cs arbitrary: best bestActive)
  case Nil
  then show ?case by auto
next
  case (Cons c cs)
  show ?case
  proof (cases "best = None \<or> ActiveRequests (heap c) < bestActive")
    case True
    with Cons.IH [where best = "Some c" and bestActive = "ActiveRequests (heap c)"] Cons.prems(1) show ?thesis
      by (fastforce split: option.splits)
  next
    case False
    with Cons.IH [where best = best and bestActive = bestActive] Cons.prems(1) show ?thesis
      by (fastforce split: option.splits)
  qed
qed

lemma chooseLeastLatency_loop_mem:
  "best \<noteq> None \<or> cs \<noteq> [] \<Longrightarrow>
     \<exists>p. chooseLeastLatency_loop heap best bestLat cs = Some p \<and> p \<in> set_option best \<union> set cs"
proof (induction cs arbitrary: best bestLat)
  case (Cons c cs)
  show ?case
    using Cons.IH [of "Some c"] Cons.IH [of best] by (cases best) (fastforce simp: Let_def)+
qed auto

text \<open>
  Once a measured latency has been seen, the scan holds the least measured latency.
\<close>

lemma chooseLeastLatency_loop_min:
  assumes "0 < bestLat \<Longrightarrow> \<exists>b. best = Some b \<and> b_lastLatencyMS (heap b) = bestLat"
    and "bestLat = - 1 \<or> 0 < bestLat"
    and "q \<in> set cs" and "0 < b_lastLatencyMS (heap q)"
  shows "\<exists>p. chooseLeastLatency_loop heap best bestLat cs = Some p
           \<and> 0 < b_lastLatencyMS (heap p) \<and> b_lastLatencyMS (heap p) \<le> b_lastLatencyMS (heap q)
           \<and> (0 < bestLat \<longrightarrow> b_lastLatencyMS (heap p) \<le> bestLat)"
proof -
  have keep: "\<exists>p. chooseLeastLatency_loop heap (Some b) l cs = Some p \<and>
      0 < b_lastLatencyMS (heap p) \<and> b_lastLatencyMS (heap p) \<le> l"
    if "0 < l" "b_lastLatencyMS (heap b) = l" for b l cs
    using that
  proof (induction cs arbitrary: b l)
    case (Cons c cs)
    show ?case
    proof (cases "0 < b_lastLatencyMS (heap c) \<and> b_lastLatencyMS (heap c) < l")
      case True
      then show ?thesis using Cons.IH [of "b_lastLatencyMS (heap c)" c] by (fastforce simp: Let_def)
    next
      case False
      then show ?thesis using Cons.IH [of l b] Cons.prems by (auto simp: Let_def)
    qed
  qed simp
  show ?thesis
    using assms
  proof (induction cs arbitrary: best bestLat)
    case (Cons c cs)
    let ?lat = "b_lastLatencyMS (heap c)"
    show ?case
    proof (cases "best = None \<or> (0 < ?lat \<and> (bestLat < 0 \<or> ?lat < bestLat))")
      case taken: True
      show ?thesis
      proof (cases "0 < ?lat")
        case True
        with taken Cons.prems(1) have le: "0 < bestLat \<longrightarrow> ?lat \<le> bestLat" by fastforce
        show ?thesis
        proof (cases "q = c")
          case True
          with keep [of ?lat c cs] taken \<open>0 < ?lat\<close> le show ?thesis by (fastforce simp: Let_def)
        next
          case False
          with Cons.prems(3) have "q \<in> set cs" by simp
          with Cons.IH [of ?lat "Some c"] Cons.prems(4) taken \<open>0 < ?lat\<close> le show ?thesis
            by (fastforce simp: Let_def)
        qed
      next
        case False
        with taken have "best = None" by simp
        with Cons.prems(1,2) have bl: "bestLat = - 1" by auto
        from False Cons.prems(3,4) have "q \<in> set cs" by auto
        with Cons.IH [of "- 1" "Some c"] Cons.prems(4) False \<open>best = None\<close> bl show ?thesis
          by (auto simp: Let_def)
      qed
    next
      case skip: False
      then obtain b where b: "best = Some b" by auto
      show ?thesis
      proof (cases "q = c")
        case True
        with skip Cons.prems have bl: "0 < bestLat" "bestLat \<le> ?lat" by auto
        with Cons.prems(1) b have "b_lastLatencyMS (heap b) = bestLat" by auto
        with keep [of bestLat b cs] bl skip b True show ?thesis by (fastforce simp: Let_def)
      next
        case False
        with Cons.prems(3) have "q \<in> set cs" by simp
        with Cons.IH [OF Cons.prems(1,2) _ Cons.prems(4)] skip show ?thesis by (auto simp: Let_def)
      qed
    qed
  qed simp
qed

section \<open>Weighted round robin against its reference schedule\<close>

text \<open>The reference: each backend repeated as often as its weight says, in candidate order.\<close>

definition schedule :: "(addr \<Rightarrow> Backend) \<Rightarrow> addr list \<Rightarrow> addr list" where
  "schedule heap cs = concat (map (\<lambda>c. replicate (nat (eff_weight (heap c))) c) cs)"

lemma eff_weight_nonneg [simp]: "0 \<le> eff_weight b"
  by (simp add: eff_weight_def)

lemma schedule_Nil [simp]: "schedule heap [] = []"
  and schedule_Cons [simp]: "schedule heap (c # cs) = replicate (nat (eff_weight (heap c))) c @ schedule heap cs"
  by (simp_all add: schedule_def)

lemma set_schedule: "set (schedule heap cs) \<subseteq> set cs"
  by (induction cs) auto

lemma length_schedule: "int (length (schedule heap cs)) = (\<Sum>c \<leftarrow> cs. eff_weight (heap c))"
  by (induction cs) auto

lemma totalWeight_from:
  assumes "0 \<le> t" and "t + (\<Sum>c \<leftarrow> cs. eff_weight (heap c)) \<le> max_int64"
  shows "foldl (\<lambda>t c. add64 t (eff_weight (heap c))) t cs = t + (\<Sum>c \<leftarrow> cs. eff_weight (heap c))"
  using assms
proof (induction cs arbitrary: t)
  case (Cons c cs)
  have "0 \<le> (\<Sum>c \<leftarrow> cs. eff_weight (heap c))" by (rule sum_list_nonneg) auto
  moreover have "0 \<le> eff_weight (heap c)" by simp
  ultimately have "add64 t (eff_weight (heap c)) = t + eff_weight (heap c)"
    using Cons.prems by (intro add64_id) (auto simp del: eff_weight_nonneg)
  with Cons \<open>0 \<le> eff_weight (heap c)\<close> show ?case by (simp add: add.assoc del: eff_weight_nonneg)
qed simp

lemma totalWeight_schedule:
  assumes "int (length (schedule heap cs)) \<le> max_int64"
  shows "totalWeight heap cs = int (length (schedule heap cs))"
  using totalWeight_from [of 0 heap cs] assms by (simp add: totalWeight_def length_schedule)

lemma wrr_loop_schedule:
  "k < length (schedule heap cs) \<Longrightarrow> wrr_loop heap (int k) cs = Some (schedule heap cs ! k)"
proof (induction cs arbitrary: k)
  case (Cons c cs)
  define w where "w = nat (eff_weight (heap c))"
  have w: "eff_weight (heap c) = int w" by (simp add: w_def)
  show ?case
  proof (cases "k < w")
    case True
    then show ?thesis by (simp add: w Let_def nth_append)
  next
    case False
    with Cons.prems have "k - w < length (schedule heap cs)" by (simp add: w)
    with Cons.IH [of "k - w"] False show ?thesis
      by (auto simp: w Let_def nth_append of_nat_diff)
  qed
qed simp

definition counter_value :: "string \<Rightarrow> Balancer \<Rightarrow> 64 word" where
  "counter_value key b = fst (counter key b)"

lemma counter_idem [simp]: "counter key (snd (counter key b)) = (counter_value key b, snd (counter key b))"
  by (auto simp: counter_def counter_value_def split: option.split)

lemma next_index_simps:
  "fst (next_index key b) = counter_value key b"
  "counter_value key (snd (next_index key b)) = counter_value key b + 1"
  by (auto simp: next_index_def counter_def counter_value_def split: prod.split option.split)

lemma chooseWeightedRR_schedule:
  assumes "schedule heap cs \<noteq> []" and "int (length (schedule heap cs)) \<le> max_int64"
  shows "fst (chooseWeightedRR heap cs model b) =
           Some (schedule heap cs ! (unat (counter_value model b) mod length (schedule heap cs)))
       \<and> counter_value model (snd (chooseWeightedRR heap cs model b)) = counter_value model b + 1"
proof -
  let ?T = "length (schedule heap cs)"
  obtain c b1 where c: "counter model b = (c, b1)" by (cases "counter model b")
  then have cv: "counter_value model b1 = c" "counter_value model b = c"
    using counter_idem [of model b] by (simp_all add: counter_value_def)
  obtain i b2 where n: "next_index model b1 = (i, b2)" by (cases "next_index model b1")
  with next_index_simps [of model b1] cv have i: "i = c" "counter_value model b2 = c + 1" by simp_all
  have T: "totalWeight heap cs = int ?T" "0 < ?T" using totalWeight_schedule assms by auto
  have "wrr_loop heap (int (unat c mod ?T)) cs = Some (schedule heap cs ! (unat c mod ?T))"
    using T(2) by (intro wrr_loop_schedule) simp
  moreover have "uint c mod int ?T = int (unat c mod ?T)" by (simp add: zmod_int)
  moreover have "\<not> int ?T \<le> 0" using T(2) by simp
  ultimately show ?thesis
    unfolding chooseWeightedRR_def c Let_def T(1) by (simp add: n i cv(2))
qed

lemma chooseWeightedRR_mem:
  assumes "cs \<noteq> []"
  shows "\<exists>p. fst (chooseWeightedRR heap cs model b) = Some p \<and> p \<in> set cs"
proof -
  have loop: "p \<in> set xs" if "wrr_loop heap t xs = Some p" for t p xs
    using that by (induction xs arbitrary: t) (auto simp: Let_def split: if_splits)
  obtain c b1 where c: "counter model b = (c, b1)" by (cases "counter model b")
  obtain i b2 where n: "next_index model b1 = (i, b2)" by (cases "next_index model b1")
  have "cs ! 0 \<in> set cs" "cs ! (length cs - 1) \<in> set cs" using assms by simp_all
  then show ?thesis
    using assms loop
    by (cases "wrr_loop heap (uint i mod totalWeight heap cs) cs")
       (auto simp: chooseWeightedRR_def c n Let_def)
qed

text \<open>Consecutive requests for a model, each with its candidates in the order of its map visit.\<close>

fun choose_run :: "(addr \<Rightarrow> Backend) \<Rightarrow> string \<Rightarrow> string \<Rightarrow> addr list list \<Rightarrow> Hint \<Rightarrow> Balancer \<Rightarrow> addr option list" where
  "choose_run heap model policy [] hint b = []"
| "choose_run heap model policy (cs # css) hint b =
     (case Choose heap 0 model policy cs hint b of (r, b') \<Rightarrow> r # choose_run heap model policy css hint b')"

definition weighted_policy :: "string \<Rightarrow> bool" where
  "weighted_policy p \<longleftrightarrow> p \<notin> {''random'', ''least_connections'', ''least_latency'', ''round_robin'', ''hash'', ''sticky''}"

lemma Choose_weighted:
  "2 \<le> length cs \<Longrightarrow> weighted_policy policy \<Longrightarrow>
     Choose heap rnd model policy cs hint b = chooseWeightedRR heap cs model b"
  by (auto simp: Choose_def weighted_policy_def)

lemma choose_run_schedule:
  assumes pol: "weighted_policy policy" and T: "0 < T" "int T \<le> max_int64"
    and css: "\<forall>cs \<in> set css. 2 \<le> length cs \<and> length (schedule heap cs) = T"
    and "unat (counter_value model b) + length css \<le> 2 ^ 64"
  shows "choose_run heap model policy css hint b =
     map (\<lambda>k. Some (schedule heap (css ! k) ! ((unat (counter_value model b) + k) mod T))) [0..<length css]"
  using assms(4,5)
proof (induction css arbitrary: b)
  case (Cons cs css)
  have cs: "2 \<le> length cs" "schedule heap cs \<noteq> []" "length (schedule heap cs) = T" using Cons.prems(1) T(1) by auto
  note step = chooseWeightedRR_schedule [OF cs(2), of model b, unfolded cs(3), OF T(2)]
  obtain r b' where r: "chooseWeightedRR heap cs model b = (r, b')" by (cases "chooseWeightedRR heap cs model b")
  have run: "choose_run heap model policy (cs # css) hint b = r # choose_run heap model policy css hint b'"
    by (simp add: Choose_weighted [OF cs(1) pol] r)
  show ?case
  proof (cases css)
    case Nil
    with r step show ?thesis by (simp add: Choose_weighted [OF cs(1) pol])
  next
    case (Cons d ds)
    with Cons.prems(2) have lt: "unat (counter_value model b) + 1 < 2 ^ 64" by simp
    have c': "unat (counter_value model b') = unat (counter_value model b) + 1"
      using step r lt by (simp add: unat_word_ariths)
    have "choose_run heap model policy css hint b' =
        map (\<lambda>k. Some (schedule heap (css ! k) ! ((unat (counter_value model b) + Suc k) mod T))) [0..<length css]"
      using Cons.IH [of b'] Cons.prems c' by simp
    then show ?thesis unfolding run using step r by (simp add: map_upt_Suc del: upt_Suc)
  qed
qed simp

text \<open>With two backends of the same weight, the orders that give one of them every request.\<close>

definition turning_orders :: "nat \<Rightarrow> nat \<Rightarrow> addr \<Rightarrow> addr \<Rightarrow> nat \<Rightarrow> addr list list" where
  "turning_orders c w p q n = map (\<lambda>k. if (c + k) mod (2 * w) < w then [p, q] else [q, p]) [0..<n]"

lemma turning_orders_unfair:
  assumes "weighted_policy policy" and w: "eff_weight (heap p) = int w" "eff_weight (heap q) = int w" "0 < w" "2 * int w \<le> max_int64"
    and n: "unat (counter_value model b) + n \<le> 2 ^ 64"
  shows "choose_run heap model policy (turning_orders (unat (counter_value model b)) w p q n) hint b = replicate n (Some p)"
proof -
  let ?c = "unat (counter_value model b)"
  let ?css = "turning_orders ?c w p q n"
  have len: "length ?css = n" by (simp add: turning_orders_def)
  have S: "schedule heap [p, q] = replicate w p @ replicate w q" "schedule heap [q, p] = replicate w q @ replicate w p" using w by simp_all
  have "choose_run heap model policy ?css hint b =
      map (\<lambda>k. Some (schedule heap (?css ! k) ! ((?c + k) mod (2 * w)))) [0..<length ?css]"
    by (rule choose_run_schedule [OF assms(1)]) (use w(3,4) n len S in \<open>auto simp: turning_orders_def\<close>)
  also have "\<dots> = replicate n (Some p)"
  proof (rule nth_equalityI)
    fix k
    assume "k < length (map (\<lambda>k. Some (schedule heap (?css ! k) ! ((?c + k) mod (2 * w)))) [0..<length ?css])"
    then have k: "k < n" by (simp add: len)
    have m: "(?c + k) mod (2 * w) < 2 * w" using w(3) by simp
    have "?css ! k = (if (?c + k) mod (2 * w) < w then [p, q] else [q, p])" using k by (simp add: turning_orders_def)
    then have "schedule heap (?css ! k) ! ((?c + k) mod (2 * w)) = p" using m S by (auto simp: nth_append)
    then show "map (\<lambda>k. Some (schedule heap (?css ! k) ! ((?c + k) mod (2 * w)))) [0..<length ?css] ! k = replicate n (Some p) ! k"
      using k by (simp add: len)
  qed (simp add: len)
  finally show ?thesis .
qed

lemma mset_rotation:
  assumes "xs \<noteq> []"
  shows "mset (map (\<lambda>k. xs ! ((c + k) mod length xs)) [0..<length xs]) = mset xs"
proof -
  have "map (\<lambda>k. xs ! ((c + k) mod length xs)) [0..<length xs] = rotate c xs"
    by (rule nth_equalityI) (simp_all add: nth_rotate)
  then show ?thesis
    by (metis add.commute append_take_drop_id mset_append rotate_drop_take)
qed

section \<open>Properties of the balancer\<close>

lemma mod_length_less:
  assumes "cs \<noteq> []" and "length cs < 2 ^ LENGTH('a)"
  shows "unat (w mod word_of_nat (length cs) :: 'a::len word) < length cs"
proof -
  have "unat (word_of_nat (length cs) :: 'a word) = length cs"
    using assms(2) by (simp add: unat_of_nat take_bit_nat_eq_self)
  then show ?thesis using assms(1) by (simp add: unat_mod)
qed

lemma chooseSticky_mem:
  assumes "cs \<noteq> []"
  shows "\<exists>p. fst (chooseSticky heap model cs hint b) = Some p \<and> p \<in> set cs"
proof -
  have found: "p \<in> set cs" if "List.find P cs = Some p" for P p
    using that by (auto simp: find_Some_iff)
  obtain q b' where q: "chooseWeightedRR heap cs model b = (Some q, b')" "q \<in> set cs"
    using chooseWeightedRR_mem [OF assms, of heap model b] by (cases "chooseWeightedRR heap cs model b") auto
  show ?thesis
    using found q by (auto simp: chooseSticky_def Let_def split: option.split)
qed

lemma Choose_total:
  assumes "rnd < length cs" and "length cs < 2 ^ 32"
  shows "\<exists>p. fst (Choose heap rnd model policy cs hint b) = Some p \<and> p \<in> set cs"
proof -
  have ne: "cs \<noteq> []" using assms(1) by auto
  have l: "\<exists>p. chooseLeast heap cs = Some p \<and> p \<in> set cs"
    using chooseLeast_loop_min [where best = None and bestActive = "- 1" and heap = heap and cs = cs] ne by (auto simp: chooseLeast_def)
  have ll: "\<exists>p. chooseLeastLatency heap cs = Some p \<and> p \<in> set cs"
    using chooseLeastLatency_loop_mem [of None cs heap] ne by (auto simp: chooseLeastLatency_def)
  have h: "\<exists>p. chooseHash cs hint = Some p \<and> p \<in> set cs"
    using mod_length_less [where 'a = 32, OF ne] assms(2) ne by (auto simp: chooseHash_def Let_def)
  have rr: "unat (w mod word_of_nat (length cs) :: 64 word) < length cs" for w
    using mod_length_less [where 'a = 64, OF ne] assms(2) by simp
  show ?thesis
    using ne assms(1) l ll h rr chooseSticky_mem [OF ne] chooseWeightedRR_mem [OF ne]
    by (simp add: Choose_def split: prod.split)
qed

text \<open>
  The balancer always routes to a candidate: over a non-empty list (with fewer than 2^32
  entries, and a random index in range) every policy returns one of the candidates and no index
  is out of range; nil is returned for the empty list only. Under \<open>least_connections\<close> no
  candidate has fewer requests in flight than the one chosen, and under \<open>least_latency\<close>, as
  soon as one candidate has a measured latency, the chosen one has a measured latency and no
  candidate has a smaller one.
\<close>

theorem Choose_correct:
  assumes "length cs < 2 ^ 32" and "cs \<noteq> [] \<longrightarrow> rnd < length cs"
  shows "(fst (Choose heap rnd model policy cs hint b) = None \<longleftrightarrow> cs = [])
       \<and> (\<forall>p. fst (Choose heap rnd model policy cs hint b) = Some p \<longrightarrow>
            p \<in> set cs
          \<and> (policy = ''least_connections'' \<longrightarrow>
               (\<forall>q \<in> set cs. ActiveRequests (heap p) \<le> ActiveRequests (heap q)))
          \<and> (policy = ''least_latency'' \<longrightarrow>
               (\<forall>q \<in> set cs. 0 < b_lastLatencyMS (heap q) \<longrightarrow>
                  0 < b_lastLatencyMS (heap p) \<and> b_lastLatencyMS (heap p) \<le> b_lastLatencyMS (heap q))))"
proof (cases "cs = []")
  case True
  then show ?thesis by (simp add: Choose_def)
next
  case ne: False
  then obtain p where p: "fst (Choose heap rnd model policy cs hint b) = Some p" "p \<in> set cs"
    using Choose_total [OF _ assms(1)] assms(2) by blast
  show ?thesis
  proof (cases "length cs = 1")
    case True
    then obtain c where "cs = [c]" by (cases cs) auto
    then show ?thesis by (simp add: Choose_def)
  next
    case False
    have "ActiveRequests (heap p) \<le> ActiveRequests (heap q)"
      if "policy = ''least_connections''" "q \<in> set cs" for q
      using p that ne False chooseLeast_loop_min [where best = None and bestActive = "- 1" and heap = heap and cs = cs]
      by (auto simp: Choose_def chooseLeast_def)
    moreover have "0 < b_lastLatencyMS (heap p) \<and> b_lastLatencyMS (heap p) \<le> b_lastLatencyMS (heap q)"
      if "policy = ''least_latency''" "q \<in> set cs" "0 < b_lastLatencyMS (heap q)" for q
      using p that ne False chooseLeastLatency_loop_min [of "- 1" None heap q cs]
      by (auto simp: Choose_def chooseLeastLatency_def)
    ultimately show ?thesis using p ne by simp
  qed
qed

definition example_heap :: "addr \<Rightarrow> Backend" where
  "example_heap p = (if p = 0 then zero_backend\<lparr>b_ID := ''a'', b_Weight := 1, b_activeRequests := 5\<rparr>
     else if p = 1 then zero_backend\<lparr>b_ID := ''b'', b_Weight := 2, b_activeRequests := 3\<rparr>
     else zero_backend)"

abbreviation example_hint :: Hint where
  "example_hint \<equiv> \<lparr>hint_APIKeyID = ''key-1'', hint_User = []\<rparr>"

theorem Choose_correct_witness:
  "fst (Choose example_heap 0 ''m'' ''least_connections'' [0, 1] example_hint balancer_New) = Some 1
   \<and> ActiveRequests (example_heap 1) \<le> ActiveRequests (example_heap 0)"
proof -
  have "fst (Choose example_heap 0 ''m'' ''least_connections'' [0, 1] example_hint balancer_New) = Some 1"
    by (simp add: Choose_def chooseLeast_def example_heap_def ActiveRequests_def zero_backend_def)
  with Choose_correct [of "[0, 1]" 0 example_heap "''m''" "''least_connections''" example_hint balancer_New]
  show ?thesis by simp
qed

text \<open>
  C14. Weighted round robin is fair as long as the candidates come in the same order: whatever the
  value of the model's counter, as many consecutive requests as the sum of the weights, all with the
  same list of candidates, pick every backend exactly as often as its weight says (a negative weight
  counts as 1), when the counter does not wrap and the sum of the weights fits in an int. The order
  matters: the gateway lists the candidates by a visit of a Go map, in an order that may change from
  request to request, and for two backends of the same weight there are orders in which one of them
  gets every request.
\<close>

theorem weighted_round_robin_fair:
  assumes pol: "weighted_policy policy" and n: "unat (counter_value model b) + n \<le> 2 ^ 64"
  shows "(2 \<le> length cs \<and> n = length (schedule heap cs) \<and> 0 < n \<and> int n \<le> max_int64 \<longrightarrow>
      mset (choose_run heap model policy (replicate n cs) hint b) = (\<Sum>c \<in># mset cs. replicate_mset (nat (eff_weight (heap c))) (Some c)))
    \<and> (p \<noteq> q \<and> eff_weight (heap p) = eff_weight (heap q) \<and> 0 < eff_weight (heap p) \<and> 2 * eff_weight (heap p) \<le> max_int64 \<longrightarrow>
      (\<exists>css. length css = n \<and> (\<forall>ds \<in> set css. mset ds = {#p, q#}) \<and> choose_run heap model policy css hint b = replicate n (Some p)))"
proof (intro conjI impI)
  let ?S = "schedule heap cs"
  assume cs: "2 \<le> length cs \<and> n = length ?S \<and> 0 < n \<and> int n \<le> max_int64"
  then have ne: "?S \<noteq> []" by auto
  have sched: "image_mset Some (mset (schedule heap xs)) =
      (\<Sum>c \<in># mset xs. replicate_mset (nat (eff_weight (heap c))) (Some c))" for xs
    by (induction xs) auto
  have "choose_run heap model policy (replicate n cs) hint b =
      map (\<lambda>k. Some (schedule heap (replicate n cs ! k) ! ((unat (counter_value model b) + k) mod n))) [0..<length (replicate n cs)]"
    by (rule choose_run_schedule [OF pol]) (use cs n in auto)
  also have "\<dots> = map Some (map (\<lambda>k. ?S ! ((unat (counter_value model b) + k) mod length ?S)) [0..<length ?S])" using cs by simp
  finally show "mset (choose_run heap model policy (replicate n cs) hint b) = (\<Sum>c \<in># mset cs. replicate_mset (nat (eff_weight (heap c))) (Some c))"
    unfolding sched [symmetric] using mset_rotation [OF ne] by (simp only: mset_map)
next
  assume w: "p \<noteq> q \<and> eff_weight (heap p) = eff_weight (heap q) \<and> 0 < eff_weight (heap p) \<and> 2 * eff_weight (heap p) \<le> max_int64"
  let ?w = "nat (eff_weight (heap p))"
  let ?css = "turning_orders (unat (counter_value model b)) ?w p q n"
  have "choose_run heap model policy ?css hint b = replicate n (Some p)" using w n by (intro turning_orders_unfair [OF pol]) auto
  moreover have "length ?css = n" "\<forall>ds \<in> set ?css. mset ds = {#p, q#}" by (auto simp: turning_orders_def)
  ultimately show "\<exists>css. length css = n \<and> (\<forall>ds \<in> set css. mset ds = {#p, q#}) \<and> choose_run heap model policy css hint b = replicate n (Some p)"
    by blast
qed

theorem weighted_round_robin_fair_witness:
  "mset (choose_run example_heap ''m'' [] (replicate 3 [0, 1]) example_hint balancer_New) = {#Some 0, Some 1, Some 1#}"
proof -
  have sch: "schedule example_heap [0, 1] = [0, 1, 1]"
    by (simp add: example_heap_def eff_weight_def zero_backend_def numeral_2_eq_2)
  have c: "counter_value ''m'' balancer_New = 0" by (simp add: counter_value_def counter_def balancer_New_def)
  have w: "nat (eff_weight (example_heap 0)) = Suc 0" "nat (eff_weight (example_heap 1)) = Suc (Suc 0)"
    by (simp_all add: example_heap_def eff_weight_def zero_backend_def)
  have pol: "weighted_policy []" by (simp add: weighted_policy_def)
  have n: "unat (counter_value ''m'' balancer_New) + 3 \<le> 2 ^ 64" by (simp add: c)
  have "2 \<le> length [0, 1 :: nat] \<and> 3 = length (schedule example_heap [0, 1]) \<and> 0 < (3 :: nat) \<and> int 3 \<le> max_int64" unfolding sch by simp
  from weighted_round_robin_fair [OF pol n, THEN conjunct1, THEN mp, OF this] w show ?thesis by simp
qed

text \<open>
  A sequence of requests of one API key for one model, each with the candidates of its moment.
\<close>

fun sticky_run :: "(addr \<Rightarrow> Backend) \<Rightarrow> string \<Rightarrow> Hint \<Rightarrow> Balancer \<Rightarrow> addr list list \<Rightarrow> addr option list" where
  "sticky_run heap model hint b [] = []"
| "sticky_run heap model hint b (cs # css) =
     (case Choose heap 0 model ''sticky'' cs hint b of (r, b') \<Rightarrow> r # sticky_run heap model hint b' css)"

definition same_backend :: "(addr \<Rightarrow> Backend) \<Rightarrow> string \<Rightarrow> addr option \<Rightarrow> bool" where
  "same_backend heap bid r \<longleftrightarrow> (case r of None \<Rightarrow> False | Some p \<Rightarrow> b_ID (heap p) = bid)"

lemma Choose_sticky_hit:
  assumes "map_of (bl_sticky b) (sticky_key model hint) = Some bid" and "hint_APIKeyID hint \<noteq> []"
    and "\<exists>c \<in> set cs. b_ID (heap c) = bid"
  shows "same_backend heap bid (fst (Choose heap rnd model ''sticky'' cs hint b))
       \<and> snd (Choose heap rnd model ''sticky'' cs hint b) = b"
proof -
  have "List.find (\<lambda>c. b_ID (heap c) = bid) cs \<noteq> None" using assms(3) by (auto simp: find_None_iff)
  then obtain c where c: "List.find (\<lambda>c. b_ID (heap c) = bid) cs = Some c" by auto
  then have "b_ID (heap c) = bid" by (auto simp: find_Some_iff)
  moreover have "b_ID (heap d) = bid" if "cs = [d]" for d using assms(3) that by auto
  ultimately show ?thesis
    using assms c by (cases "length cs = 1")
      (auto simp: Choose_def chooseSticky_def same_backend_def Let_def length_Suc_conv)
qed

text \<open>
  Sticky routing: once the sticky policy has assigned a backend to an API key for a model
  (a choice among at least two candidates), every later request of the key for the model goes to
  the backend with the same id, for as long as that backend is among the candidates.
\<close>

theorem sticky_stays:
  assumes "Choose heap rnd model ''sticky'' cs hint b = (Some p, b')" and "2 \<le> length cs"
    and "hint_APIKeyID hint \<noteq> []" and "\<forall>ds \<in> set css. \<exists>c \<in> set ds. b_ID (heap c) = b_ID (heap p)"
  shows "\<forall>r \<in> set (sticky_run heap model hint b' css). same_backend heap (b_ID (heap p)) r"
proof -
  have "map_of (bl_sticky b') (sticky_key model hint) = Some (b_ID (heap p))"
    using assms(1-3)
    by (auto simp: Choose_def chooseSticky_def Let_def find_Some_iff split: option.splits prod.splits if_splits)
  then show ?thesis
    using assms(4)
  proof (induction css)
    case (Cons ds css)
    obtain r c where rc: "Choose heap 0 model ''sticky'' ds hint b' = (r, c)"
      by (cases "Choose heap 0 model ''sticky'' ds hint b'")
    have "same_backend heap (b_ID (heap p)) r" "c = b'"
      using Choose_sticky_hit [OF Cons.prems(1) assms(3), of ds heap 0] Cons.prems(2) rc by auto
    with Cons rc show ?case by simp
  qed simp
qed

theorem sticky_stays_witness:
  "sticky_run example_heap ''m'' example_hint
     (snd (Choose example_heap 0 ''m'' ''sticky'' [0, 1] example_hint balancer_New)) [[1, 0]] = [Some 0]"
proof -
  obtain b where b: "Choose example_heap 0 ''m'' ''sticky'' [0, 1] example_hint balancer_New = (Some 0, b)"
    by (simp add: Choose_def chooseSticky_def sticky_key_def chooseWeightedRR_def counter_def next_index_def
        balancer_New_def totalWeight_def eff_weight_def add64_def w64_def example_heap_def zero_backend_def Let_def)
  obtain r where r: "sticky_run example_heap ''m'' example_hint b [[1, 0]] = [r]"
    by (cases "Choose example_heap 0 ''m'' ''sticky'' [1, 0] example_hint b") simp
  have id1: "b_ID (example_heap 0) = ''a''" "b_ID (example_heap 1) = ''b''"
    by (simp_all add: example_heap_def)
  obtain q where "r = Some q" "q \<in> {0, 1}"
    using r Choose_total [of 0 "[1, 0]" example_heap "''m''" "''sticky''" example_hint b]
    by (auto split: prod.splits)
  moreover from sticky_stays [OF b, of "[[1, 0]]"] r id1 have "same_backend example_heap ''a'' r" by (simp del: sticky_run.simps)
  ultimately have "r = Some 0" using id1 by (auto simp: same_backend_def)
  with b r show ?thesis by simp
qed

section \<open>The order of the candidates\<close>

lemma range_map_rev: "range_map rev m = rev (range_map id m)"
  by (simp add: range_map_def List.map_filter_def rev_map rev_filter)

lemma BackendsForModel_rev: "BackendsForModel rev model s = rev (BackendsForModel id model s)"
  by (simp add: BackendsForModel_def range_map_rev rev_filter)

text \<open>
  The \<open>hash\<close> policy does not pin a client to a backend: the candidates arrive in the
  iteration order of a Go map, which changes from call to call, and the policy indexes into that
  list. With two backends for the model, the two orders the map can be visited in send the same
  client (same key, same user) to different backends.
\<close>

theorem hash_policy_follows_map_order:
  assumes "BackendsForModel id model s = [p, q]" and "p \<noteq> q" and "hash_key hint \<noteq> ''|''"
  shows "fst (Choose heap rnd model ''hash'' (BackendsForModel id model s) hint b)
       \<noteq> fst (Choose heap rnd model ''hash'' (BackendsForModel rev model s) hint b)
       \<and> is_order id \<and> is_order rev"
proof -
  define i where "i = unat (fnv32a (hash_key hint) mod word_of_nat 2)"
  have "i < 2"
    using mod_length_less [where 'a = 32 and cs = "[p, q]" and w = "fnv32a (hash_key hint)"]
    by (simp add: i_def)
  then have "i = 0 \<or> i = 1" by auto
  moreover have "BackendsForModel rev model s = [q, p]" by (simp add: BackendsForModel_rev assms(1))
  ultimately show ?thesis
    using assms by (auto simp: Choose_def chooseHash_def Let_def i_def)
qed

definition example_pair :: Store where
  "example_pair = (store_New [])\<lparr>s_backends := [(''a'', 0), (''b'', 1)],
     s_bheap := (\<lambda>p. zero_backend\<lparr>b_Models := [''m'']\<rparr>)\<rparr>"

theorem hash_policy_follows_map_order_witness:
  "fst (Choose example_heap 0 ''m'' ''hash'' (BackendsForModel id ''m'' example_pair) example_hint balancer_New)
   \<noteq> fst (Choose example_heap 0 ''m'' ''hash'' (BackendsForModel rev ''m'' example_pair) example_hint balancer_New)"
proof -
  have "BackendsForModel id ''m'' example_pair = [0, 1]"
    by (simp add: BackendsForModel_def example_pair_def range_map_def List.map_filter_def SupportsModel_def)
  from hash_policy_follows_map_order [OF this, of example_hint example_heap 0 balancer_New]
  show ?thesis by (simp add: hash_key_def)
qed

end
