(* ===== verification/Go_Time.thy ===== *)
theory Go_Time
  imports Gateway_Prelude
begin

text \<open>
  Go's \<open>time\<close> package as far as the gateway uses it: a \<open>time.Time\<close> in UTC is a number of
  nanoseconds since the Unix epoch, \<open>Year\<close>, \<open>Month\<close> and \<open>Day\<close> read the proleptic Gregorian
  calendar, and \<open>Date\<close> builds the midnight of a calendar day. The calendar is counted in years
  that start in March, so that a leap day is the last day of its year: 400 years are 146097
  days, a century 36524 (the fourth one more), four years 1461 and a year 365 (the fourth one
  more). The lemmas show that \<open>Date\<close> inverts the calendar and that the first day of a month is
  in that month.
\<close>

definition second_ns :: int where "second_ns = 1000000000"
definition minute_ns :: int where "minute_ns = 60 * second_ns"
definition hour_ns :: int where "hour_ns = 60 * minute_ns"
definition day_ns :: int where "day_ns = 24 * hour_ns"

lemmas ns_defs = day_ns_def hour_ns_def minute_ns_def second_ns_def

definition day_of :: "time \<Rightarrow> int" where
  "day_of t = t div day_ns"

text \<open>The position of a day number in the calendar: 400-year era, century, four years, year, day.\<close>

definition shifted :: "int \<Rightarrow> int" where
  "shifted d = d + 719468"

definition era :: "int \<Rightarrow> int" where
  "era d = shifted d div 146097"

definition century :: "int \<Rightarrow> int" where
  "century d = min 3 (shifted d mod 146097 div 36524)"

definition day_in_century :: "int \<Rightarrow> int" where
  "day_in_century d = shifted d mod 146097 - 36524 * century d"

definition olympiad :: "int \<Rightarrow> int" where
  "olympiad d = day_in_century d div 1461"

definition year_in_four :: "int \<Rightarrow> int" where
  "year_in_four d = min 3 (day_in_century d mod 1461 div 365)"

definition day_in_year :: "int \<Rightarrow> int" where
  "day_in_year d = day_in_century d mod 1461 - 365 * year_in_four d"

definition march_year :: "int \<Rightarrow> int" where
  "march_year d = 400 * era d + 100 * century d + 4 * olympiad d + year_in_four d"

definition march_month :: "int \<Rightarrow> int" where
  "march_month d = (5 * day_in_year d + 2) div 153"

definition month_offset :: "int \<Rightarrow> int" where
  "month_offset mp = (153 * mp + 2) div 5"

definition Month :: "time \<Rightarrow> int" where
  "Month t = (let mp = march_month (day_of t) in if mp < 10 then mp + 3 else mp - 9)"

definition Year :: "time \<Rightarrow> int" where
  "Year t = march_year (day_of t) + (if march_month (day_of t) < 10 then 0 else 1)"

definition Day :: "time \<Rightarrow> int" where
  "Day t = day_in_year (day_of t) - month_offset (march_month (day_of t)) + 1"

text \<open>\<open>time.Date(y, m, d, 0, 0, 0, 0, time.UTC)\<close> for a day \<open>d\<close> of the month.\<close>

definition days_before_year :: "int \<Rightarrow> int" where
  "days_before_year y = 365 * y + y div 4 - y div 100 + y div 400"

definition Date :: "int \<Rightarrow> int \<Rightarrow> int \<Rightarrow> time" where
  "Date y m d =
     (let mp = (if 3 \<le> m then m - 3 else m + 9);
          my = (if 3 \<le> m then y else y - 1)
      in (days_before_year my + month_offset mp + d - 1 - 719468) * day_ns)"

section \<open>The calendar\<close>

lemma century_range: "0 \<le> century d \<and> century d \<le> 3"
  and day_in_century_range: "0 \<le> day_in_century d"
    "day_in_century d < 36524 \<or> century d = 3 \<and> day_in_century d = 36524"
proof -
  define z where "z = shifted d mod 146097"
  have z: "0 \<le> z" "z < 146097" by (simp_all add: z_def)
  then have q: "0 \<le> z div 36524" "z div 36524 \<le> 4" by (simp_all add: pos_imp_zdiv_nonneg_iff)
  show "0 \<le> century d \<and> century d \<le> 3" using q by (simp add: century_def z_def)
  show "0 \<le> day_in_century d" "day_in_century d < 36524 \<or> century d = 3 \<and> day_in_century d = 36524"
    using z q unfolding day_in_century_def century_def z_def [symmetric] min_def by (auto split: if_splits)
qed

lemma four_ranges:
  "0 \<le> olympiad d" "olympiad d \<le> 24" "0 \<le> year_in_four d" "year_in_four d \<le> 3"
  "0 \<le> day_in_year d" "day_in_year d < 365 \<or> year_in_four d = 3 \<and> day_in_year d = 365"
proof -
  define n where "n = day_in_century d mod 1461"
  have n: "0 \<le> n" "n < 1461" by (simp_all add: n_def)
  then have q: "0 \<le> n div 365" "n div 365 \<le> 4" by (simp_all add: pos_imp_zdiv_nonneg_iff)
  show "0 \<le> olympiad d" "olympiad d \<le> 24"
    using day_in_century_range [of d] unfolding olympiad_def by linarith+
  show "0 \<le> year_in_four d" "year_in_four d \<le> 3"
    using q by (simp_all add: year_in_four_def n_def)
  show "0 \<le> day_in_year d" "day_in_year d < 365 \<or> year_in_four d = 3 \<and> day_in_year d = 365"
    using n q unfolding day_in_year_def year_in_four_def n_def [symmetric] min_def by (auto split: if_splits)
qed

lemmas calendar_ranges = century_range day_in_century_range four_ranges

lemma march_month_range: "0 \<le> march_month d" "march_month d \<le> 11"
  using four_ranges [of d] unfolding march_month_def by linarith+

lemma shifted_parts:
  "shifted d = 146097 * era d + 36524 * century d + 1461 * olympiad d + 365 * year_in_four d + day_in_year d"
proof -
  have "shifted d = 146097 * era d + (36524 * century d + day_in_century d)"
    by (simp add: era_def day_in_century_def)
  moreover have "day_in_century d = 1461 * olympiad d + day_in_century d mod 1461"
    by (simp add: olympiad_def)
  moreover have "day_in_century d mod 1461 = 365 * year_in_four d + day_in_year d"
    by (simp add: day_in_year_def)
  ultimately show ?thesis by linarith
qed

lemma days_before_march_year:
  "days_before_year (march_year d) = 146097 * era d + 36524 * century d + 1461 * olympiad d + 365 * year_in_four d"
proof -
  let ?y = "march_year d"
  have "?y div 4 = 100 * era d + 25 * century d + olympiad d"
    using four_ranges [of d] unfolding march_year_def by linarith
  moreover have "?y div 100 = 4 * era d + century d"
    using four_ranges [of d] unfolding march_year_def by linarith
  moreover have "?y div 400 = era d"
    using four_ranges [of d] century_range [of d] unfolding march_year_def by linarith
  ultimately show ?thesis by (simp add: days_before_year_def march_year_def)
qed

lemma shifted_year: "shifted d = days_before_year (march_year d) + day_in_year d"
  by (simp add: days_before_march_year shifted_parts)

lemma Date_of_calendar: "Date (Year t) (Month t) k = (day_of t - Day t + k) * day_ns"
proof -
  let ?d = "day_of t" let ?mp = "march_month ?d"
  have s: "?d + 719468 = days_before_year (march_year ?d) + day_in_year ?d"
    using shifted_year [of ?d] by (simp add: shifted_def)
  have "Date (Year t) (Month t) k =
      (days_before_year (march_year ?d) + month_offset ?mp + k - 1 - 719468) * day_ns"
    using march_month_range [of ?d] by (auto simp: Date_def Year_def Month_def Let_def)
  also have "\<dots> = (?d - Day t + k) * day_ns" using s by (simp add: Day_def)
  finally show ?thesis .
qed

lemma Date_calendar: "Date (Year t) (Month t) (Day t) = day_of t * day_ns"
  by (simp add: Date_of_calendar)

lemma same_calendar_day:
  "Year t = Year u \<Longrightarrow> Month t = Month u \<Longrightarrow> Day t = Day u \<Longrightarrow> day_of t = day_of u"
  using Date_calendar [of t] Date_calendar [of u] by (simp add: ns_defs)

lemma day_of_midnight [simp]: "day_of (d * day_ns) = d"
  by (simp add: day_of_def ns_defs)

text \<open>The calendar position of a day is determined by the sum of its parts.\<close>

lemma calendar_unique:
  assumes "shifted d = 146097 * e + 36524 * c + 1461 * q + 365 * y + k"
    and "0 \<le> c" "c \<le> 3" "0 \<le> q" "0 \<le> y" "y \<le> 3" "0 \<le> k" "k < 365 \<or> y = 3 \<and> k = 365"
    and "1461 * q + 365 * y + k < 36524 \<or> c = 3 \<and> 1461 * q + 365 * y + k = 36524"
  shows "era d = e \<and> century d = c \<and> olympiad d = q \<and> year_in_four d = y \<and> day_in_year d = k"
proof -
  let ?r = "36524 * c + (1461 * q + 365 * y + k)"
  have r: "0 \<le> ?r" "?r < 146097" using assms by linarith+
  have s: "shifted d = 146097 * e + ?r" using assms(1) by simp
  have e: "era d = e" using r s unfolding era_def by linarith
  have m: "shifted d mod 146097 = ?r" using r s by (simp add: mod_pos_pos_trivial)
  have c: "century d = c" using assms unfolding century_def m by (auto simp: min_def)
  have n: "day_in_century d = 1461 * q + (365 * y + k)" by (simp add: day_in_century_def m c)
  have b: "0 \<le> 365 * y + k" "365 * y + k < 1461" using assms by linarith+
  have q: "olympiad d = q" using b unfolding olympiad_def n by linarith
  have n4: "day_in_century d mod 1461 = 365 * y + k" using b n by (simp add: mod_pos_pos_trivial)
  have y: "year_in_four d = y" using assms unfolding year_in_four_def n4 by (auto simp: min_def)
  show ?thesis using e c q y n4 by (simp add: day_in_year_def)
qed

lemma month_offset_month:
  assumes "0 \<le> mp" "mp \<le> 11"
  shows "(5 * month_offset mp + 2) div 153 = mp" and "0 \<le> month_offset mp"
proof -
  have "mp \<in> {0, 1, 2, 3, 4, 5, 6, 7, 8, 9, 10, 11}" using assms by (simp, presburger)
  then show "(5 * month_offset mp + 2) div 153 = mp" "0 \<le> month_offset mp"
    by (auto simp: month_offset_def)
qed

lemma month_offset_le: "month_offset (march_month d) \<le> day_in_year d"
  unfolding month_offset_def march_month_def by linarith

text \<open>The first day of the month of \<open>t\<close> lies in the same month and year.\<close>

lemma month_start_in_month:
  assumes "u = Date (Year t) (Month t) 1"
  shows "Month u = Month t \<and> Year u = Year t"
proof -
  let ?d = "day_of t" let ?mp = "march_month ?d" let ?d' = "day_of u"
  have d': "?d' = ?d - Day t + 1" by (simp add: assms Date_of_calendar)
  then have "shifted ?d' = 146097 * era ?d + 36524 * century ?d + 1461 * olympiad ?d
      + 365 * year_in_four ?d + month_offset ?mp"
    using shifted_parts [of ?d] by (simp add: Day_def shifted_def)
  moreover have "1461 * olympiad ?d + 365 * year_in_four ?d + day_in_year ?d = day_in_century ?d"
    by (simp add: olympiad_def day_in_year_def)
  ultimately have "era ?d' = era ?d \<and> century ?d' = century ?d \<and> olympiad ?d' = olympiad ?d
      \<and> year_in_four ?d' = year_in_four ?d \<and> day_in_year ?d' = month_offset ?mp"
    using calendar_ranges [of ?d] month_offset_le [of ?d] month_offset_month(2) [OF march_month_range]
    by (intro calendar_unique) auto
  moreover from this have "march_month ?d' = ?mp"
    using month_offset_month(1) [OF march_month_range] by (simp add: march_month_def [of ?d'])
  ultimately show ?thesis by (simp add: Month_def Year_def march_year_def)
qed

text \<open>A month is an interval of time.\<close>

lemma march_parts:
  assumes "march_year d = march_year e"
  shows "era d = era e \<and> century d = century e \<and> olympiad d = olympiad e \<and> year_in_four d = year_in_four e"
proof -
  note r = four_ranges(1-4) century_range
  have "era x = march_year x div 400" for x using r [of x] unfolding march_year_def by linarith
  then have e: "era d = era e" using assms by simp
  have "4 * era x + century x = march_year x div 100" for x using r [of x] unfolding march_year_def by linarith
  then have c: "century d = century e" using assms e by (metis add_left_cancel)
  have "100 * era x + 25 * century x + olympiad x = march_year x div 4" for x
    using r [of x] unfolding march_year_def by linarith
  then have q: "olympiad d = olympiad e" using assms e c by (metis add_left_cancel)
  show ?thesis using e c q assms by (simp add: march_year_def)
qed

lemma month_interval:
  assumes "Month t = Month u" "Year t = Year u" and "t \<le> v" "v \<le> u"
  shows "Month v = Month u \<and> Year v = Year u"
proof -
  let ?t = "day_of t" and ?u = "day_of u" and ?v = "day_of v"
  have ord: "?t \<le> ?v" "?v \<le> ?u" using assms by (simp_all add: day_of_def zdiv_mono1 ns_defs)
  have m: "march_month ?t = march_month ?u" "march_year ?t = march_year ?u"
    using assms(1,2) march_month_range [of ?t] march_month_range [of ?u]
    by (auto simp: Month_def Year_def Let_def split: if_splits)
  note p = march_parts [OF m(2)]
  define k where "k = day_in_year ?t + (?v - ?t)"
  have u: "day_in_year ?u = day_in_year ?t + (?u - ?t)"
    using shifted_parts [of ?t] shifted_parts [of ?u] p by (simp add: shifted_def)
  have k: "day_in_year ?t \<le> k" "k \<le> day_in_year ?u" using ord u by (simp_all add: k_def)
  have "shifted ?v = 146097 * era ?u + 36524 * century ?u + 1461 * olympiad ?u + 365 * year_in_four ?u + k"
    using shifted_parts [of ?t] p by (simp add: shifted_def k_def)
  moreover have "1461 * olympiad ?u + 365 * year_in_four ?u + day_in_year ?u = day_in_century ?u"
    by (simp add: olympiad_def day_in_year_def)
  ultimately have v: "era ?v = era ?u \<and> century ?v = century ?u \<and> olympiad ?v = olympiad ?u
      \<and> year_in_four ?v = year_in_four ?u \<and> day_in_year ?v = k"
    using calendar_ranges [of ?u] four_ranges(5) [of ?t] k by (intro calendar_unique) auto
  have "march_month ?t \<le> march_month ?v" "march_month ?v \<le> march_month ?u"
    unfolding march_month_def using k v by (auto intro: zdiv_mono1)
  with m(1) have "march_month ?v = march_month ?u" by simp
  with v show ?thesis by (simp add: Month_def Year_def march_year_def)
qed

end
