(* ===== verification/Rate_Limit.thy ===== *)
theory Rate_Limit
  imports Go_Time Go_Strings Slot_Pool
begin

text \<open>
  Rate limiting: \<^verbatim>\<open>internal/ratelimit/ratelimit.go\<close> (the in-process \<open>Limiter\<close> and the per-key
  \<open>Concurrency\<close> table) and \<^verbatim>\<open>internal/ratelimit/redis.go\<close> (\<open>RedisLimiter\<close> and its Lua
  script). A method of the limiter has two critical sections, \<open>get\<close> under the lock of the map and
  the rest under the lock of the bucket; each is a definition of its own and reads the clock, and
  here a method is the two in sequence, on a map that holds buckets by value. \<open>Rate_Window\<close> has the
  same sections interleaved with those of other callers and with the garbage collector, on bucket
  objects. The Redis server is the argument \<open>redis_ops\<close>: what GET answers and what INCRBY and
  EXPIRE do to its state. The Go interface \<open>ratelimit.Backend\<close>, which the request handlers call, is
  the locale \<open>rate_backend\<close>.
\<close>

section \<open>The in-process limiter\<close>

record rl_bucket =
  rb_windowStart :: time
  rb_dayStart :: time
  rb_count :: int
  rb_tokens :: int
  rb_dayCount :: int
  rb_dayTokens :: int

type_synonym Limiter = "rl_bucket gomap"

definition limiter_New :: Limiter where
  "limiter_New = []"

definition utcDayStart :: "time \<Rightarrow> time" where
  "utcDayStart t = Date (Year t) (Month t) (Day t)"

definition new_bucket :: "time \<Rightarrow> rl_bucket" where
  "new_bucket now = \<lparr>rb_windowStart = now, rb_dayStart = utcDayStart now, rb_count = 0, rb_tokens = 0,
                     rb_dayCount = 0, rb_dayTokens = 0\<rparr>"

definition rl_get :: "time \<Rightarrow> string \<Rightarrow> Limiter \<Rightarrow> rl_bucket \<times> Limiter" where
  "rl_get now key l =
     (case map_of l key of
        Some b \<Rightarrow> (b, l)
      | None \<Rightarrow> let b = new_bucket now in (b, AList.update key b l))"

text \<open>What \<open>gcLoop\<close> drops.\<close>

definition rl_idle :: "time \<Rightarrow> rl_bucket \<Rightarrow> bool" where
  "rl_idle now b \<longleftrightarrow> now - rb_windowStart b > 5 * minute_ns \<and> rb_dayCount b = 0 \<and> rb_dayTokens b = 0"

definition rl_rollLocked :: "time \<Rightarrow> rl_bucket \<Rightarrow> rl_bucket" where
  "rl_rollLocked now b0 =
     (let b = (if now - rb_windowStart b0 \<ge> minute_ns
               then b0\<lparr>rb_windowStart := now, rb_count := 0, rb_tokens := 0\<rparr> else b0);
          day = utcDayStart now
      in if day \<noteq> rb_dayStart b then b\<lparr>rb_dayStart := day, rb_dayCount := 0, rb_dayTokens := 0\<rparr>
         else b)"

text \<open>What \<open>CheckAndReserve\<close> and \<open>AddTokens\<close> do under the lock of the bucket.\<close>

definition reserve_locked :: "time \<Rightarrow> int \<Rightarrow> int \<Rightarrow> int \<Rightarrow> int \<Rightarrow> rl_bucket \<Rightarrow> string \<times> rl_bucket" where
  "reserve_locked now rpm tpm dailyReq dailyTok b0 =
     (let b = rl_rollLocked now b0 in
      if 0 < rpm \<and> rpm \<le> rb_count b then (''rate_limit_exceeded'', b)
      else if 0 < tpm \<and> tpm \<le> rb_tokens b then (''token_rate_limit_exceeded'', b)
      else if 0 < dailyReq \<and> dailyReq \<le> rb_dayCount b then (''daily_request_limit_exceeded'', b)
      else if 0 < dailyTok \<and> dailyTok \<le> rb_dayTokens b then (''daily_token_limit_exceeded'', b)
      else ('''', b\<lparr>rb_count := add64 (rb_count b) 1, rb_dayCount := add64 (rb_dayCount b) 1\<rparr>))"

definition report_locked :: "time \<Rightarrow> int \<Rightarrow> rl_bucket \<Rightarrow> rl_bucket" where
  "report_locked now tokens b0 =
     (let b = rl_rollLocked now b0
      in b\<lparr>rb_tokens := add64 (rb_tokens b) tokens, rb_dayTokens := add64 (rb_dayTokens b) tokens\<rparr>)"

definition CheckAndReserve :: "time \<Rightarrow> time \<Rightarrow> string \<Rightarrow> int \<Rightarrow> int \<Rightarrow> int \<Rightarrow> int \<Rightarrow> Limiter \<Rightarrow> string \<times> Limiter" where
  "CheckAndReserve now0 now key rpm tpm dailyReq dailyTok l0 =
     (case rl_get now0 key l0 of (b0, l) \<Rightarrow>
        case reserve_locked now rpm tpm dailyReq dailyTok b0 of (code, b) \<Rightarrow> (code, AList.update key b l))"

definition rl_AddTokens :: "time \<Rightarrow> time \<Rightarrow> string \<Rightarrow> int \<Rightarrow> Limiter \<Rightarrow> Limiter" where
  "rl_AddTokens now0 now key tokens l0 =
     (if tokens \<le> 0 then l0
      else (case rl_get now0 key l0 of (b0, l) \<Rightarrow> AList.update key (report_locked now tokens b0) l))"

definition rl_Stats :: "time \<Rightarrow> time \<Rightarrow> string \<Rightarrow> Limiter \<Rightarrow> (int \<times> int \<times> int \<times> int) \<times> Limiter" where
  "rl_Stats now0 now key l0 =
     (case rl_get now0 key l0 of (b0, l) \<Rightarrow>
        let b = rl_rollLocked now b0 in
        ((rb_count b, rb_tokens b, rb_dayCount b, rb_dayTokens b), AList.update key b l))"

section \<open>The concurrency table\<close>

type_synonym Concurrency = "int gomap"

definition NewConcurrency :: Concurrency where
  "NewConcurrency = []"

definition conc_Get :: "string \<Rightarrow> Concurrency \<Rightarrow> int" where
  "conc_Get key c = (case map_of c key of None \<Rightarrow> 0 | Some n \<Rightarrow> n)"

definition conc_Acquire :: "string \<Rightarrow> int \<Rightarrow> Concurrency \<Rightarrow> Concurrency \<times> bool" where
  "conc_Acquire key limit c =
     (if limit \<le> 0 then (c, True)
      else if limit \<le> conc_Get key c then (c, False)
      else (AList.update key (add64 (conc_Get key c) 1) c, True))"

definition conc_Release :: "string \<Rightarrow> int \<Rightarrow> Concurrency \<Rightarrow> Concurrency" where
  "conc_Release key limit c =
     (if limit \<le> 0 then c
      else let c1 = (if 0 < conc_Get key c then AList.update key (sub64 (conc_Get key c) 1) c else c)
           in if conc_Get key c1 = 0 then AList.delete key c1 else c1)"

section \<open>The Redis limiter\<close>

record 'r redis_ops =
  rds_GET :: "time \<Rightarrow> string \<Rightarrow> 'r \<Rightarrow> int option"
  rds_INCRBY :: "time \<Rightarrow> string \<Rightarrow> int \<Rightarrow> 'r \<Rightarrow> 'r"
  rds_EXPIRE :: "time \<Rightarrow> string \<Rightarrow> int \<Rightarrow> 'r \<Rightarrow> 'r"

definition redis_prefix :: "string \<Rightarrow> string" where
  "redis_prefix prefix = (if prefix = [] then ''llmgw'' else prefix)"

text \<open>
  \<open>tonumber\<close> of Lua yields a double: an integer beyond 53 bits is rounded to a multiple of a power
  of two, to the even one when two are equally near.
\<close>

definition nearest :: "int \<Rightarrow> int \<Rightarrow> int" where
  "nearest m q =
     (let k = m div q; d = m - k * q
      in if 2 * d < q \<or> 2 * d = q \<and> even k then k * q else (k + 1) * q)"

fun lua_exponent :: "nat \<Rightarrow> int \<Rightarrow> int" where
  "lua_exponent 0 m = 1"
| "lua_exponent (Suc n) m = (if m < 2 ^ 53 then 1 else 2 * lua_exponent n (m div 2))"

definition tonumber :: "int \<Rightarrow> int" where
  "tonumber n = (if n < 0 then - nearest (- n) (lua_exponent 64 (- n)) else nearest n (lua_exponent 64 n))"

lemma tonumber_exact: "\<bar>n\<bar> \<le> 2 ^ 53 \<Longrightarrow> tonumber n = n"
proof -
  assume n: "\<bar>n\<bar> \<le> 2 ^ 53"
  have "nearest m (lua_exponent 64 m) = m" if "0 \<le> m" "m \<le> 2 ^ 53" for m
  proof (cases "m = 2 ^ 53")
    case True
    have "lua_exponent 64 (2 ^ 53) = 2" using lua_exponent.simps(2) [of 63 "2 ^ 53"] lua_exponent.simps(2) [of 62 "2 ^ 52"] by simp
    then show ?thesis using True by (simp add: nearest_def)
  next
    case False
    then have "lua_exponent 64 m = 1" using that lua_exponent.simps(2) [of 63 m] by simp
    then show ?thesis by (simp add: nearest_def)
  qed
  from this [of n] this [of "- n"] n show ?thesis by (auto simp: tonumber_def)
qed

definition script_num :: "int option \<Rightarrow> int" where
  "script_num v = (case v of None \<Rightarrow> tonumber 0 | Some n \<Rightarrow> tonumber n)"

text \<open>The Lua script \<open>reserveScript\<close>; its keys are \<open>k1\<close> to \<open>k4\<close>.\<close>

definition reserveScript ::
    "'r redis_ops \<Rightarrow> time \<Rightarrow> string \<Rightarrow> string \<Rightarrow> string \<Rightarrow> string \<Rightarrow> int \<Rightarrow> int \<Rightarrow> int \<Rightarrow> int \<Rightarrow> 'r \<Rightarrow> string \<times> 'r" where
  "reserveScript rds now k1 k2 k3 k4 rpm tpm dayReq dayTok r =
     (let rpm = tonumber rpm; tpm = tonumber tpm; dayReq = tonumber dayReq; dayTok = tonumber dayTok;
          cMin = script_num (rds_GET rds now k1 r);
          cTokMin = script_num (rds_GET rds now k2 r);
          cDay = script_num (rds_GET rds now k3 r);
          cTokDay = script_num (rds_GET rds now k4 r)
      in if 0 < rpm \<and> rpm \<le> cMin then (''rate_limit_exceeded'', r)
         else if 0 < tpm \<and> tpm \<le> cTokMin then (''token_rate_limit_exceeded'', r)
         else if 0 < dayReq \<and> dayReq \<le> cDay then (''daily_request_limit_exceeded'', r)
         else if 0 < dayTok \<and> dayTok \<le> cTokDay then (''daily_token_limit_exceeded'', r)
         else ('''', rds_EXPIRE rds now k3 172800 (rds_INCRBY rds now k3 1
                       (rds_EXPIRE rds now k1 60 (rds_INCRBY rds now k1 1 r)))))"

text \<open>The names of the four counters; \<open>format_ymd\<close> is the layout \<open>20060102\<close>.\<close>

definition zero_pad :: "nat \<Rightarrow> string \<Rightarrow> string" where
  "zero_pad n s = replicate (n - length s) (CHR ''0'') @ s"

definition format_ymd :: "time \<Rightarrow> string" where
  "format_ymd t = zero_pad 4 (Itoa (Year t)) @ zero_pad 2 (Itoa (Month t)) @ zero_pad 2 (Itoa (Day t))"

definition redis_keys :: "time \<Rightarrow> string \<Rightarrow> string \<Rightarrow> string \<times> string \<times> string \<times> string" where
  "redis_keys now prefix key =
     (let minute = Itoa (now div second_ns div 60) in
      (prefix @ '':rl:min:'' @ key @ '':'' @ minute,
       prefix @ '':rl:tokmin:'' @ key @ '':'' @ minute,
       prefix @ '':rl:day:'' @ key @ '':'' @ format_ymd now,
       prefix @ '':rl:tokday:'' @ key @ '':'' @ format_ymd now))"

text \<open>
  How a call ends: with the answer of the server, or with an error after half a second at most. The
  server may have run the script before the error; of the four commands of a pipeline, it may have
  run the first \<open>n\<close>.
\<close>

datatype redis_end = Replied | CutOff nat

text \<open>A call that fails admits the request.\<close>

definition redis_CheckAndReserve ::
    "'r redis_ops \<Rightarrow> string \<Rightarrow> redis_end \<Rightarrow> time \<Rightarrow> string \<Rightarrow> int \<Rightarrow> int \<Rightarrow> int \<Rightarrow> int \<Rightarrow> 'r \<Rightarrow> string \<times> 'r" where
  "redis_CheckAndReserve rds prefix reply now key rpm tpm dailyReq dailyTok r =
     (case redis_keys now prefix key of (kMin, kTokMin, kDay, kTokDay) \<Rightarrow>
        case reserveScript rds now kMin kTokMin kDay kTokDay rpm tpm dailyReq dailyTok r of (code, r') \<Rightarrow>
          (case reply of Replied \<Rightarrow> (code, r') | CutOff n \<Rightarrow> ('''', if n = 0 then r else r')))"

definition redis_AddTokens ::
    "'r redis_ops \<Rightarrow> string \<Rightarrow> redis_end \<Rightarrow> time \<Rightarrow> string \<Rightarrow> int \<Rightarrow> 'r \<Rightarrow> 'r" where
  "redis_AddTokens rds prefix reply now key tokens r =
     (if tokens \<le> 0 then r
      else case redis_keys now prefix key of (_, kTokMin, _, kTokDay) \<Rightarrow>
        let pipe = [rds_INCRBY rds now kTokMin tokens, rds_EXPIRE rds now kTokMin 60,
                    rds_INCRBY rds now kTokDay tokens, rds_EXPIRE rds now kTokDay 172800]
        in fold (\<lambda>cmd. cmd) (case reply of Replied \<Rightarrow> pipe | CutOff n \<Rightarrow> take n pipe) r)"

section \<open>The interface\<close>

text \<open>
  What the request handlers rely on, for either implementation: the answer is decided by four
  counters the implementation keeps for the key, an admitted request has every configured
  counter below its limit, and reporting no tokens changes nothing. \<open>num\<close> is what the implementation
  computes with for a configured limit.
\<close>

locale rate_backend =
  fixes check :: "time \<Rightarrow> string \<Rightarrow> int \<Rightarrow> int \<Rightarrow> int \<Rightarrow> int \<Rightarrow> 's \<Rightarrow> string \<times> 's"
    and add :: "time \<Rightarrow> string \<Rightarrow> int \<Rightarrow> 's \<Rightarrow> 's"
    and counts :: "time \<Rightarrow> string \<Rightarrow> 's \<Rightarrow> int \<times> int \<times> int \<times> int"
    and num :: "int \<Rightarrow> int"
  assumes check_decides: "counts now key s = (c, t, dc, dt) \<Longrightarrow>
      fst (check now key rpm tpm dreq dtok s) =
        (if 0 < num rpm \<and> num rpm \<le> c then ''rate_limit_exceeded''
         else if 0 < num tpm \<and> num tpm \<le> t then ''token_rate_limit_exceeded''
         else if 0 < num dreq \<and> num dreq \<le> dc then ''daily_request_limit_exceeded''
         else if 0 < num dtok \<and> num dtok \<le> dt then ''daily_token_limit_exceeded'' else [])"
    and check_reject: "fst (check now key rpm tpm dreq dtok s) \<noteq> [] \<Longrightarrow>
      counts now key (snd (check now key rpm tpm dreq dtok s)) = counts now key s"
    and add_nothing: "n \<le> 0 \<Longrightarrow> add now key n s = s"
    and no_limit: "num 0 = 0"
begin

lemma unlimited_admits: "fst (check now key 0 0 0 0 s) = []"
proof -
  obtain c t dc dt where "counts now key s = (c, t, dc, dt)" by (cases "counts now key s") auto
  from check_decides [OF this] show ?thesis by (simp add: no_limit)
qed

lemma admitted_below:
  assumes "fst (check now key rpm tpm dreq dtok s) = []" and "counts now key s = (c, t, dc, dt)"
  shows "(0 < num rpm \<longrightarrow> c < num rpm) \<and> (0 < num tpm \<longrightarrow> t < num tpm)
    \<and> (0 < num dreq \<longrightarrow> dc < num dreq) \<and> (0 < num dtok \<longrightarrow> dt < num dtok)"
  using assms(1) unfolding check_decides [OF assms(2)] by (simp split: if_splits) linarith

text \<open>A rejected request is rejected again at the same moment: the refusal is stable.\<close>

lemma rejection_stable:
  assumes "fst (check now key rpm tpm dreq dtok s) \<noteq> []"
  shows "fst (check now key rpm tpm dreq dtok (snd (check now key rpm tpm dreq dtok s))) =
         fst (check now key rpm tpm dreq dtok s)"
proof -
  obtain c t dc dt where c: "counts now key s = (c, t, dc, dt)" by (cases "counts now key s") auto
  show ?thesis
    unfolding check_decides [OF c] check_decides [OF check_reject [OF assms, unfolded c]] by (rule refl)
qed

end

text \<open>The four counters of the in-process limiter at a moment.\<close>

definition rl_counts :: "time \<Rightarrow> string \<Rightarrow> Limiter \<Rightarrow> int \<times> int \<times> int \<times> int" where
  "rl_counts now key l = fst (rl_Stats now now key l)"

lemma utcDayStart_eq: "utcDayStart t = day_of t * day_ns"
  by (simp add: utcDayStart_def Date_calendar)

lemma utcDayStart_iff: "utcDayStart t = utcDayStart u \<longleftrightarrow> day_of t = day_of u"
  by (simp add: utcDayStart_eq ns_defs)

lemma rl_roll_idem [simp]: "rl_rollLocked now (rl_rollLocked now b) = rl_rollLocked now b"
  by (simp add: rl_rollLocked_def Let_def ns_defs)

lemma map_of_rl_get: "map_of (snd (rl_get now key l)) key = Some (fst (rl_get now key l))"
  by (simp add: rl_get_def Let_def split: option.split)

lemma reserve_code:
  "fst (reserve_locked now rpm tpm dreq dtok b) =
     (if 0 < rpm \<and> rpm \<le> rb_count (rl_rollLocked now b) then ''rate_limit_exceeded''
      else if 0 < tpm \<and> tpm \<le> rb_tokens (rl_rollLocked now b) then ''token_rate_limit_exceeded''
      else if 0 < dreq \<and> dreq \<le> rb_dayCount (rl_rollLocked now b) then ''daily_request_limit_exceeded''
      else if 0 < dtok \<and> dtok \<le> rb_dayTokens (rl_rollLocked now b) then ''daily_token_limit_exceeded'' else [])"
  by (simp add: reserve_locked_def Let_def)

lemma reserve_rejects: "fst (reserve_locked now rpm tpm dreq dtok b) \<noteq> [] \<Longrightarrow> snd (reserve_locked now rpm tpm dreq dtok b) = rl_rollLocked now b"
  by (auto simp: reserve_locked_def Let_def split: if_splits)

lemma CheckAndReserve_sections:
  "CheckAndReserve now0 now key rpm tpm dreq dtok l =
     (fst (reserve_locked now rpm tpm dreq dtok (fst (rl_get now0 key l))),
      AList.update key (snd (reserve_locked now rpm tpm dreq dtok (fst (rl_get now0 key l)))) (snd (rl_get now0 key l)))"
  by (simp add: CheckAndReserve_def split: prod.split)

interpretation local_limiter: rate_backend
  "\<lambda>now. CheckAndReserve now now" "\<lambda>now. rl_AddTokens now now" rl_counts "\<lambda>n. n"
proof (unfold_locales, goal_cases)
  case (1 now key s c t dc dt rpm tpm dreq dtok)
  obtain b l where "rl_get now key s = (b, l)" by (cases "rl_get now key s")
  with 1 show ?case by (simp add: rl_counts_def rl_Stats_def CheckAndReserve_sections reserve_code Let_def)
next
  case (2 now key rpm tpm dreq dtok s)
  then have "snd (CheckAndReserve now now key rpm tpm dreq dtok s) = AList.update key (rl_rollLocked now (fst (rl_get now key s))) (snd (rl_get now key s))"
    by (simp add: CheckAndReserve_sections reserve_rejects)
  then show ?case by (simp add: rl_counts_def rl_Stats_def rl_get_def Let_def split: prod.split)
next
  case (3 n now key s)
  then show ?case by (simp add: rl_AddTokens_def)
qed simp

text \<open>The counters that the Redis server holds for a key, and the numbers the script makes of them.\<close>

definition redis_counts ::
    "'r redis_ops \<Rightarrow> string \<Rightarrow> time \<Rightarrow> string \<Rightarrow> 'r \<Rightarrow> int \<times> int \<times> int \<times> int" where
  "redis_counts rds prefix now key r =
     (let get = (\<lambda>k. case rds_GET rds now k r of None \<Rightarrow> 0 | Some n \<Rightarrow> n)
      in case redis_keys now prefix key of (k1, k2, k3, k4) \<Rightarrow> (get k1, get k2, get k3, get k4))"

definition script_counts :: "'r redis_ops \<Rightarrow> string \<Rightarrow> time \<Rightarrow> string \<Rightarrow> 'r \<Rightarrow> int \<times> int \<times> int \<times> int" where
  "script_counts rds prefix now key r =
     (case redis_counts rds prefix now key r of (c, t, dc, dt) \<Rightarrow> (tonumber c, tonumber t, tonumber dc, tonumber dt))"

lemma script_num_tonumber: "script_num v = tonumber (case v of None \<Rightarrow> 0 | Some n \<Rightarrow> n)"
  by (simp add: script_num_def split: option.split)

interpretation redis_limiter: rate_backend
  "redis_CheckAndReserve rds prefix Replied" "redis_AddTokens rds prefix Replied" "script_counts rds prefix" tonumber for rds prefix
proof (unfold_locales, goal_cases)
  case (1 now key s c t dc dt rpm tpm dreq dtok)
  obtain k1 k2 k3 k4 where "redis_keys now prefix key = (k1, k2, k3, k4)"
    by (cases "redis_keys now prefix key") auto
  with 1 show ?case
    by (simp add: script_counts_def redis_counts_def redis_CheckAndReserve_def reserveScript_def script_num_tonumber Let_def)
next
  case (2 now key rpm tpm dreq dtok s)
  obtain k1 k2 k3 k4 where "redis_keys now prefix key = (k1, k2, k3, k4)"
    by (cases "redis_keys now prefix key") auto
  with 2 show ?case
    by (simp add: redis_CheckAndReserve_def reserveScript_def Let_def split: if_splits)
next
  case (3 n now key s)
  then show ?case by (simp add: redis_AddTokens_def)
qed (simp add: tonumber_exact)

section \<open>Wrap-around of the token counters\<close>

text \<open>
  The token counters wrap around: a usage report that takes a counter past the largest
  int64 makes it negative, and a key that has exhausted its per-minute and daily token limits is
  admitted again.
\<close>

theorem token_counter_wraps:
  assumes "map_of l k = Some b" and "rl_rollLocked now b = b"
    and "tpm \<le> rb_tokens b" "0 < tpm" and "rb_dayTokens b = rb_tokens b" "dtok \<le> rb_dayTokens b" "0 < dtok"
    and "rb_tokens b \<le> max_int64" and "n \<le> max_int64" and "max_int64 < rb_tokens b + n"
  shows "fst (CheckAndReserve now now k 0 tpm 0 dtok l) = ''token_rate_limit_exceeded''
       \<and> fst (CheckAndReserve now now k 0 tpm 0 dtok (rl_AddTokens now now k n l)) = []"
proof -
  have wrap: "add64 (rb_tokens b) n = rb_tokens b + n - 2 ^ 64"
    using assms by (intro add64_overflow) auto
  then have neg: "add64 (rb_tokens b) n < 0" using assms by simp
  have get: "rl_get now k l = (b, l)" using assms(1) by (simp add: rl_get_def)
  have roll: "rl_rollLocked now (b\<lparr>rb_tokens := x, rb_dayTokens := y\<rparr>) = b\<lparr>rb_tokens := x, rb_dayTokens := y\<rparr>" for x y
  proof -
    have "now - rb_windowStart b < minute_ns \<or> rb_windowStart b = now"
      using arg_cong [OF assms(2), of rb_windowStart] by (auto simp: rl_rollLocked_def Let_def split: if_splits)
    moreover have "utcDayStart now = rb_dayStart b"
      using arg_cong [OF assms(2), of rb_dayStart] by (auto simp: rl_rollLocked_def Let_def split: if_splits)
    ultimately show ?thesis by (auto simp: rl_rollLocked_def Let_def ns_defs)
  qed
  have "0 < n" using assms(8,10) by simp
  then have "map_of (rl_AddTokens now now k n l) k =
      Some (b\<lparr>rb_tokens := add64 (rb_tokens b) n, rb_dayTokens := add64 (rb_tokens b) n\<rparr>)"
    by (simp add: rl_AddTokens_def report_locked_def get assms(2,5) Let_def)
  then have "rl_get now k (rl_AddTokens now now k n l) =
      (b\<lparr>rb_tokens := add64 (rb_tokens b) n, rb_dayTokens := add64 (rb_tokens b) n\<rparr>, rl_AddTokens now now k n l)"
    by (simp add: rl_get_def)
  then show ?thesis
    using assms neg by (simp add: CheckAndReserve_sections reserve_code get roll)
qed

definition example_bucket :: rl_bucket where
  "example_bucket = \<lparr>rb_windowStart = 0, rb_dayStart = 0, rb_count = 1, rb_tokens = 9000, rb_dayCount = 1, rb_dayTokens = 9000\<rparr>"

theorem token_counter_wraps_witness:
  "fst (CheckAndReserve 0 0 ''k'' 0 5000 0 5000 (rl_AddTokens 0 0 ''k'' max_int64 [(''k'', example_bucket)])) = []"
proof -
  have "rl_rollLocked 0 example_bucket = example_bucket"
    by (simp add: rl_rollLocked_def example_bucket_def utcDayStart_eq day_of_def ns_defs Let_def)
  with token_counter_wraps [of "[(''k'', example_bucket)]" "''k''" example_bucket 0 5000 5000 max_int64]
  show ?thesis by (simp add: example_bucket_def)
qed

section \<open>Both implementations decide alike\<close>

definition exact_limits :: "int \<times> int \<times> int \<times> int \<Rightarrow> bool" where
  "exact_limits q = (case q of (a, b, c, d) \<Rightarrow> \<bar>a\<bar> \<le> 2 ^ 53 \<and> \<bar>b\<bar> \<le> 2 ^ 53 \<and> \<bar>c\<bar> \<le> 2 ^ 53 \<and> \<bar>d\<bar> \<le> 2 ^ 53)"

text \<open>
  C40. The Redis limiter and the in-process limiter decide alike: whenever the two hold the same four
  counters for a key, and counters and limits are at most \<open>2^53\<close>, the integers that the script's
  doubles represent exactly, they give the same answer (their windows differ, calendar minutes in
  Redis and minutes from the first request in process); a key without limits is admitted by both; and when the call of the Redis server fails, the request is admitted, whether or
  not the server has run the script and counted the request.
\<close>

theorem limiters_agree:
  "(redis_counts rds prefix now key r = rl_counts now key l \<and> exact_limits (rl_counts now key l) \<and> exact_limits (rpm, tpm, dreq, dtok) \<longrightarrow>
      fst (redis_CheckAndReserve rds prefix Replied now key rpm tpm dreq dtok r) =
      fst (CheckAndReserve now now key rpm tpm dreq dtok l))
   \<and> fst (redis_CheckAndReserve rds prefix Replied now key 0 0 0 0 r) = []
   \<and> fst (CheckAndReserve now now key 0 0 0 0 l) = []
   \<and> redis_CheckAndReserve rds prefix (CutOff n) now key rpm tpm dreq dtok r =
       ([], if n = 0 then r else snd (redis_CheckAndReserve rds prefix Replied now key rpm tpm dreq dtok r))"
proof (intro conjI impI)
  assume eq: "redis_counts rds prefix now key r = rl_counts now key l \<and> exact_limits (rl_counts now key l) \<and> exact_limits (rpm, tpm, dreq, dtok)"
  obtain c t dc dt where c: "rl_counts now key l = (c, t, dc, dt)" by (cases "rl_counts now key l") auto
  have s: "script_counts rds prefix now key r = (c, t, dc, dt)" using eq c by (simp add: script_counts_def exact_limits_def tonumber_exact)
  have lim_num: "tonumber rpm = rpm" "tonumber tpm = tpm" "tonumber dreq = dreq" "tonumber dtok = dtok"
    using eq by (simp_all add: exact_limits_def tonumber_exact)
  show "fst (redis_CheckAndReserve rds prefix Replied now key rpm tpm dreq dtok r) =
      fst (CheckAndReserve now now key rpm tpm dreq dtok l)"
    unfolding local_limiter.check_decides [OF c] redis_limiter.check_decides [OF s] lim_num by (rule refl)
next
  show "redis_CheckAndReserve rds prefix (CutOff n) now key rpm tpm dreq dtok r =
       ([], if n = 0 then r else snd (redis_CheckAndReserve rds prefix Replied now key rpm tpm dreq dtok r))"
    by (simp add: redis_CheckAndReserve_def split: prod.split)
qed (rule redis_limiter.unlimited_admits local_limiter.unlimited_admits)+

text \<open>A server: the counters with the moment they expire.\<close>

type_synonym redis_db = "(int \<times> time option) gomap"

definition db_GET :: "time \<Rightarrow> string \<Rightarrow> redis_db \<Rightarrow> int option" where
  "db_GET now k db = (case map_of db k of
       None \<Rightarrow> None
     | Some (n, e) \<Rightarrow> (case e of None \<Rightarrow> Some n | Some t \<Rightarrow> if now < t then Some n else None))"

definition example_rds :: "redis_db redis_ops" where
  "example_rds = \<lparr>rds_GET = db_GET,
     rds_INCRBY = (\<lambda>now k n db. case db_GET now k db of
         None \<Rightarrow> AList.update k (n, None) db
       | Some m \<Rightarrow> AList.update k (m + n, snd (the (map_of db k))) db),
     rds_EXPIRE = (\<lambda>now k secs db. case db_GET now k db of
         None \<Rightarrow> db
       | Some m \<Rightarrow> AList.update k (m, Some (now + secs * second_ns)) db)\<rparr>"

definition example_db :: redis_db where
  "example_db = snd (redis_CheckAndReserve example_rds ''llmgw'' Replied 0 ''k'' 1 0 0 0 [])"

definition example_limiter :: Limiter where
  "example_limiter = snd (CheckAndReserve 0 0 ''k'' 1 0 0 0 limiter_New)"

theorem limiters_agree_witness:
  "redis_counts example_rds ''llmgw'' 0 ''k'' example_db = (1, 0, 1, 0)
   \<and> rl_counts 0 ''k'' example_limiter = (1, 0, 1, 0)
   \<and> fst (redis_CheckAndReserve example_rds ''llmgw'' Replied 0 ''k'' 1 1 1 1 example_db) =
     fst (CheckAndReserve 0 0 ''k'' 1 1 1 1 example_limiter)"
proof -
  have r: "redis_counts example_rds ''llmgw'' 0 ''k'' example_db = (1, 0, 1, 0)" by code_simp
  have l: "rl_counts 0 ''k'' example_limiter = (1, 0, 1, 0)" by code_simp
  have "exact_limits (1, 0, 1, 0)" "exact_limits (1, 1, 1, 1)" by (simp_all add: exact_limits_def)
  with limiters_agree [of example_rds "''llmgw''" 0 "''k''" example_db example_limiter 1 1 1 1 0] r l
  show ?thesis by simp
qed

section \<open>Concurrency\<close>

text \<open>
  Under its limit a key's entry in the table is a pool of slots; a key without a limit has no
  entry.
\<close>

definition conc_inv :: "string \<Rightarrow> int \<Rightarrow> Concurrency \<Rightarrow> bool" where
  "conc_inv key limit c \<longleftrightarrow> 0 < limit \<and> limit \<le> max_int64 \<and> 0 \<le> conc_Get key c \<and> conc_Get key c \<le> limit
     \<and> map_of c key \<noteq> Some 0"

lemma conc_Get_simps [simp]:
  "conc_Get k (AList.update k' v c) = (if k = k' then v else conc_Get k c)"
  "conc_Get k (AList.delete k' c) = (if k = k' then 0 else conc_Get k c)"
  by (simp_all add: conc_Get_def)

interpretation conc: slot_pool "conc_Acquire key limit" "conc_Release key limit" "conc_Get key" "\<lambda>_. limit"
  "conc_inv key limit" for key limit
proof (unfold_locales, goal_cases)
  case (1 s s')
  then have s': "s' = AList.update key (conc_Get key s + 1) s" "conc_Get key s < limit"
    by (auto simp: conc_Acquire_def conc_inv_def add64_id split: if_splits)
  with 1 show ?case by (auto simp: conc_inv_def)
next
  case (2 s s')
  then show ?case by (auto simp: conc_Acquire_def conc_inv_def split: if_splits)
next
  case (3 s)
  then show ?case by (auto simp: conc_Release_def conc_inv_def sub64_id Let_def)
next
  case (4 s)
  then show ?case by (simp add: conc_inv_def)
qed

text \<open>Requests of several keys in flight; the events name the key.\<close>

fun conc_run :: "(string \<Rightarrow> int) \<Rightarrow> (string \<times> slot_event) list \<Rightarrow> Concurrency \<times> (string \<Rightarrow> nat) \<Rightarrow> Concurrency \<times> (string \<Rightarrow> nat)" where
  "conc_run lmt [] st = st"
| "conc_run lmt ((k, Acq) # es) (c, held) =
     (case conc_Acquire k (lmt k) c of (c', ok) \<Rightarrow>
        conc_run lmt es (c', if ok then held(k := Suc (held k)) else held))"
| "conc_run lmt ((k, Rel) # es) (c, held) =
     (if held k = 0 then conc_run lmt es (c, held)
      else conc_run lmt es (conc_Release k (lmt k) c, held(k := held k - 1)))"

definition conc_key_ok :: "nat \<Rightarrow> int \<Rightarrow> string \<Rightarrow> Concurrency \<Rightarrow> bool" where
  "conc_key_ok n limit k c \<longleftrightarrow>
     (if 0 < limit then conc_inv k limit c \<and> conc_Get k c = int n else map_of c k = None)"

definition conc_ok :: "(string \<Rightarrow> int) \<Rightarrow> Concurrency \<times> (string \<Rightarrow> nat) \<Rightarrow> bool" where
  "conc_ok lmt st \<longleftrightarrow> (\<forall>k. conc_key_ok (snd st k) (lmt k) k (fst st))"

lemma conc_key_ok_cong: "map_of c k = map_of d k \<Longrightarrow> conc_key_ok n l k c = conc_key_ok n l k d"
  by (simp add: conc_key_ok_def conc_inv_def conc_Get_def)

lemma conc_ok_update:
  assumes "conc_ok lmt (c, held)" and "\<And>k'. k' \<noteq> k \<Longrightarrow> map_of c' k' = map_of c k'"
    and "conc_key_ok n (lmt k) k c'"
  shows "conc_ok lmt (c', held(k := n))"
  using assms conc_key_ok_cong [of c' _ c] by (simp add: conc_ok_def)

lemma conc_Acquire_ok:
  assumes "conc_key_ok n limit k c" and "conc_Acquire k limit c = (c', ok)"
  shows "conc_key_ok (if ok then Suc n else n) limit k c'"
proof (cases "0 < limit")
  case True
  with assms(1) have c: "conc_inv k limit c" "conc_Get k c = int n" by (simp_all add: conc_key_ok_def)
  show ?thesis
  proof (cases ok)
    case ok: True
    with conc.grant [OF c(1)] assms(2) c(2) True show ?thesis by (simp add: conc_key_ok_def)
  next
    case False
    with conc.refuse [OF c(1)] assms(2) have "c' = c" by simp
    with False assms(1) show ?thesis by simp
  qed
qed (use assms in \<open>simp add: conc_key_ok_def conc_Acquire_def\<close>)

lemma conc_Release_ok:
  assumes "conc_key_ok n limit k c" and "n \<noteq> 0"
  shows "conc_key_ok (n - 1) limit k (conc_Release k limit c)"
  using assms conc.release [of k limit c] by (auto simp: conc_key_ok_def conc_Release_def)

lemma conc_run_ok: "conc_ok lmt st \<Longrightarrow> conc_ok lmt (conc_run lmt es st)"
proof (induction lmt es st rule: conc_run.induct)
  case (2 lmt k es c held)
  obtain c' ok where a: "conc_Acquire k (lmt k) c = (c', ok)" by (cases "conc_Acquire k (lmt k) c")
  have other: "map_of c' k' = map_of c k'" if "k' \<noteq> k" for k'
    using a that by (auto simp: conc_Acquire_def split: if_splits)
  have "conc_key_ok (held k) (lmt k) k c" using 2(2) by (simp add: conc_ok_def)
  from conc_ok_update [OF 2(2) other conc_Acquire_ok [OF this a]]
  have "conc_ok lmt (c', if ok then held(k := Suc (held k)) else held)" by (cases ok) simp_all
  from 2(1) [OF a [symmetric] this] a show ?case by simp
next
  case (3 lmt k es c held)
  show ?case
  proof (cases "held k = 0")
    case True
    then show ?thesis using 3(1) [OF True 3(3)] by simp
  next
    case False
    have other: "map_of (conc_Release k (lmt k) c) k' = map_of c k'" if "k' \<noteq> k" for k'
      using that by (simp add: conc_Release_def Let_def)
    have "conc_key_ok (held k) (lmt k) k c" using 3(3) by (simp add: conc_ok_def)
    from conc_ok_update [OF 3(3) other conc_Release_ok [OF this False]] 3(2) [OF False] False
    show ?thesis by simp
  qed
qed simp

text \<open>
  C9. Per-key concurrency limits hold and the table does not leak: over any interleaving of
  requests of any keys, a key with a limit never holds more slots than its limit, the table
  counts exactly the slots held, and a key that holds none has no entry in the table.
\<close>

theorem concurrency_limits_hold:
  assumes "\<forall>k. lmt k \<le> max_int64" and "conc_run lmt es (NewConcurrency, \<lambda>_. 0) = (c, held)"
  shows "\<forall>k. (0 < lmt k \<longrightarrow> int (held k) \<le> lmt k \<and> conc_Get k c = int (held k))
           \<and> (held k = 0 \<or> lmt k \<le> 0 \<longrightarrow> map_of c k = None)"
proof
  fix k
  have "conc_ok lmt (NewConcurrency, \<lambda>_. 0)"
    using assms(1) by (auto simp: conc_ok_def conc_key_ok_def conc_inv_def conc_Get_def NewConcurrency_def)
  from conc_run_ok [OF this, of es] assms(2)
  have "conc_key_ok (held k) (lmt k) k c" by (simp add: conc_ok_def)
  then show "(0 < lmt k \<longrightarrow> int (held k) \<le> lmt k \<and> conc_Get k c = int (held k))
       \<and> (held k = 0 \<or> lmt k \<le> 0 \<longrightarrow> map_of c k = None)"
    by (auto simp: conc_key_ok_def conc_inv_def conc_Get_def split: if_splits option.splits)
qed

theorem concurrency_limits_hold_witness:
  "int (snd (conc_run (\<lambda>_. 1) [(''k'', Acq), (''k'', Acq), (''j'', Acq)] (NewConcurrency, \<lambda>_. 0)) ''k'') \<le> 1"
proof -
  obtain c held where r: "conc_run (\<lambda>_. 1) [(''k'', Acq), (''k'', Acq), (''j'', Acq)] (NewConcurrency, \<lambda>_. 0) = (c, held)"
    by (cases "conc_run (\<lambda>_. 1) [(''k'', Acq), (''k'', Acq), (''j'', Acq)] (NewConcurrency, \<lambda>_. 0)")
  with concurrency_limits_hold [OF _ r] show ?thesis by simp
qed

end
