(* ===== verification/Rate_Window.thy ===== *)
theory Rate_Window
  imports Rate_Limit
begin

text \<open>
  The limits of the in-process limiter over time: any number of callers, the sections of their
  calls under the lock of the map and under the lock of a bucket interleaved with each other and
  with the garbage collector of \<^verbatim>\<open>internal/ratelimit/ratelimit.go\<close>, through any number of minutes and
  days. Buckets are objects at addresses, because a caller keeps the bucket it got even when the
  collector has taken it out of the map in between; what such a caller counts is lost.
\<close>

section \<open>The limiter with bucket objects\<close>

record limiter_objects =
  lo_buckets :: "addr gomap"
  lo_heap :: "addr \<Rightarrow> rl_bucket"
  lo_next :: addr
  lo_call :: "nat \<Rightarrow> (string \<times> addr) option"

definition objects_New :: limiter_objects where
  "objects_New = \<lparr>lo_buckets = [], lo_heap = (\<lambda>_. new_bucket 0), lo_next = 0, lo_call = (\<lambda>_. None)\<rparr>"

text \<open>
  The sections: \<open>get\<close> of caller \<open>i\<close>, the rest of its \<open>CheckAndReserve\<close>, \<open>AddTokens\<close> or \<open>Stats\<close>, and a
  tick of the collector. The collector decides on a bucket under the bucket's lock and deletes it
  after the lock is free again; what a caller does to the bucket in that moment is lost as well, so
  the whole tick is a step.
\<close>

datatype rl_event =
    Get (event_time: time) nat string
  | Reserve (event_time: time) nat
  | Report (event_time: time) nat int
  | Look (event_time: time) nat
  | Collect (event_time: time)

text \<open>What a section counted, for which key, and whether the bucket was still the one in the map.\<close>

datatype rl_effect = Admitted time string bool | Counted time string int bool

definition obj_get :: "time \<Rightarrow> nat \<Rightarrow> string \<Rightarrow> limiter_objects \<Rightarrow> limiter_objects" where
  "obj_get now i key s =
     (case map_of (lo_buckets s) key of
        Some a \<Rightarrow> s\<lparr>lo_call := (lo_call s)(i := Some (key, a))\<rparr>
      | None \<Rightarrow>
          let a = lo_next s
          in s\<lparr>lo_buckets := AList.update key a (lo_buckets s), lo_heap := (lo_heap s)(a := new_bucket now), lo_next := a + 1,
               lo_call := (lo_call s)(i := Some (key, a))\<rparr>)"

text \<open>A caller leaves with the bucket changed.\<close>

definition obj_put :: "nat \<Rightarrow> addr \<Rightarrow> rl_bucket \<Rightarrow> limiter_objects \<Rightarrow> limiter_objects" where
  "obj_put i a b s = s\<lparr>lo_heap := (lo_heap s)(a := b), lo_call := (lo_call s)(i := None)\<rparr>"

definition in_map :: "string \<Rightarrow> addr \<Rightarrow> limiter_objects \<Rightarrow> bool" where
  "in_map k a s \<longleftrightarrow> map_of (lo_buckets s) k = Some a"

definition obj_gc :: "time \<Rightarrow> limiter_objects \<Rightarrow> limiter_objects" where
  "obj_gc now s = s\<lparr>lo_buckets := filter (\<lambda>(k, a). \<not> rl_idle now (lo_heap s a)) (lo_buckets s)\<rparr>"

fun obj_step :: "(string \<Rightarrow> int \<times> int \<times> int \<times> int) \<Rightarrow> rl_event \<Rightarrow> limiter_objects \<Rightarrow> rl_effect option \<times> limiter_objects" where
  "obj_step lmt (Get t i k) s = (None, if lo_call s i = None then obj_get t i k s else s)"
| "obj_step lmt (Reserve t i) s =
     (case lo_call s i of
        None \<Rightarrow> (None, s)
      | Some (k, a) \<Rightarrow>
          (case lmt k of (rpm, tpm, dreq, dtok) \<Rightarrow>
           case reserve_locked t rpm tpm dreq dtok (lo_heap s a) of (code, b) \<Rightarrow>
             (if code = [] then Some (Admitted t k (in_map k a s)) else None, obj_put i a b s)))"
| "obj_step lmt (Report t i n) s =
     (case lo_call s i of
        None \<Rightarrow> (None, s)
      | Some (k, a) \<Rightarrow>
          if n \<le> 0 then (None, s) else (Some (Counted t k n (in_map k a s)), obj_put i a (report_locked t n (lo_heap s a)) s))"
| "obj_step lmt (Look t i) s =
     (case lo_call s i of None \<Rightarrow> (None, s) | Some (k, a) \<Rightarrow> (None, obj_put i a (rl_rollLocked t (lo_heap s a)) s))"
| "obj_step lmt (Collect t) s = (None, obj_gc t s)"

fun obj_run :: "(string \<Rightarrow> int \<times> int \<times> int \<times> int) \<Rightarrow> rl_event list \<Rightarrow> limiter_objects \<Rightarrow> rl_effect list \<times> limiter_objects" where
  "obj_run lmt [] s = ([], s)"
| "obj_run lmt (e # es) s =
     (case obj_step lmt e s of (x, s1) \<Rightarrow>
      case obj_run lmt es s1 of (xs, s2) \<Rightarrow> ((case x of None \<Rightarrow> xs | Some f \<Rightarrow> f # xs), s2))"

section \<open>What a key was granted\<close>

text \<open>The moments at which a bucket in the map admitted a request of the key, and the tokens it counted.\<close>

fun grant_of :: "string \<Rightarrow> rl_effect \<Rightarrow> time list" where
  "grant_of k (Admitted t k' live) = (if k' = k \<and> live then [t] else [])"
| "grant_of k (Counted t k' n live) = []"

fun usage_of :: "string \<Rightarrow> int \<Rightarrow> rl_effect \<Rightarrow> int" where
  "usage_of k D (Admitted t k' live) = 0"
| "usage_of k D (Counted t k' n live) = (if k' = k \<and> live \<and> day_of t = D then n else 0)"

definition grants :: "string \<Rightarrow> rl_effect list \<Rightarrow> time list" where
  "grants k xs = concat (map (grant_of k) xs)"

definition usage :: "string \<Rightarrow> int \<Rightarrow> rl_effect list \<Rightarrow> int" where
  "usage k D xs = sum_list (map (usage_of k D) xs)"

definition count_in :: "(time \<Rightarrow> bool) \<Rightarrow> time list \<Rightarrow> int" where
  "count_in P ts = int (length (filter P ts))"

lemma count_in_simps [simp]: "count_in P [] = 0" "count_in P (ts @ us) = count_in P ts + count_in P us" "0 \<le> count_in P ts"
  "count_in P [t] = (if P t then 1 else 0)"
  by (simp_all add: count_in_def)

section \<open>Objects and keys\<close>

text \<open>An address belongs to one key, whether the map or a caller holds it.\<close>

definition objects_ok :: "(addr \<Rightarrow> string) \<Rightarrow> limiter_objects \<Rightarrow> bool" where
  "objects_ok own s \<longleftrightarrow> distinct (keys_of (lo_buckets s))
     \<and> (\<forall>k a. in_map k a s \<longrightarrow> own a = k \<and> a < lo_next s)
     \<and> (\<forall>i k a. lo_call s i = Some (k, a) \<longrightarrow> own a = k \<and> a < lo_next s)"

lemma obj_gc_lookup:
  assumes "distinct (keys_of (lo_buckets s))"
  shows "in_map k a (obj_gc t s) \<longleftrightarrow> in_map k a s \<and> \<not> rl_idle t (lo_heap s a)"
proof -
  have "map_of (filter (\<lambda>(k, a). \<not> rl_idle t (lo_heap s a)) m) k = Some a \<longleftrightarrow> map_of m k = Some a \<and> \<not> rl_idle t (lo_heap s a)"
    if "distinct (keys_of m)" for m
    using that
  proof (induction m)
    case (Cons x m)
    obtain k' a' where x: "x = (k', a')" by (rule prod.exhaust)
    have "map_of m k' = None" using Cons.prems by (simp add: x map_of_eq_None_iff)
    with Cons show ?case by (auto simp: x)
  qed simp
  from this [OF assms] show ?thesis by (simp add: in_map_def obj_gc_def)
qed

lemma in_map_put [simp]: "in_map k a (obj_put i a' b s) = in_map k a s"
  by (simp add: in_map_def obj_put_def)

lemma objects_put: "objects_ok own s \<Longrightarrow> objects_ok own (obj_put i a b s)"
  by (auto simp: objects_ok_def in_map_def obj_put_def split: if_splits)

lemma objects_step:
  assumes "objects_ok own s"
  shows "\<exists>own'. objects_ok own' (snd (obj_step lmt e s)) \<and> (\<forall>a < lo_next s. own' a = own a)"
proof (cases e)
  case (Get t i k)
  show ?thesis
  proof (cases "lo_call s i = None \<and> map_of (lo_buckets s) k = None")
    case True
    let ?own = "own(lo_next s := k)"
    have "objects_ok ?own (obj_get t i k s)"
      using assms True by (auto simp: objects_ok_def obj_get_def in_map_def Let_def distinct_update split: if_splits) fastforce+
    with True Get show ?thesis by (intro exI [of _ ?own]) simp
  next
    case False
    then have "objects_ok own (snd (obj_step lmt e s))"
      using assms Get by (auto simp: objects_ok_def obj_get_def in_map_def split: option.splits if_splits)
    then show ?thesis by blast
  qed
next
  case (Collect t)
  have d: "distinct (keys_of (lo_buckets s))" using assms by (simp add: objects_ok_def)
  have "objects_ok own (obj_gc t s)" unfolding objects_ok_def obj_gc_lookup [OF d]
    using assms by (auto simp: objects_ok_def obj_gc_def distinct_map_filter)
  with Collect show ?thesis by auto
qed (use assms objects_put [OF assms] in \<open>auto split: option.splits prod.splits\<close>)

section \<open>The bucket of a key\<close>

text \<open>
  The invariants below speak of the bucket that the map holds for a key, if it holds one. A step
  leaves it alone, opens a new one, drops an idle one, or works on it under its lock.
\<close>

definition bucket_of :: "string \<Rightarrow> limiter_objects \<Rightarrow> rl_bucket option" where
  "bucket_of k s = map_option (lo_heap s) (map_of (lo_buckets s) k)"

inductive bucket_step :: "int \<times> int \<times> int \<times> int \<Rightarrow> time \<Rightarrow> rl_bucket option \<Rightarrow> time list \<Rightarrow> int \<Rightarrow> rl_bucket option \<Rightarrow> bool"
  for q :: "int \<times> int \<times> int \<times> int" and t :: time where
  idle: "bucket_step q t b [] 0 b"
| opened: "bucket_step q t None [] 0 (Some (new_bucket t))"
| dropped: "rl_idle t b \<Longrightarrow> bucket_step q t (Some b) [] 0 None"
| reserved: "q = (rpm, tpm, dreq, dtok) \<Longrightarrow> reserve_locked t rpm tpm dreq dtok b = (code, b') \<Longrightarrow>
    bucket_step q t (Some b) (if code = [] then [t] else []) 0 (Some b')"
| reported: "0 < n \<Longrightarrow> bucket_step q t (Some b) [] n (Some (report_locked t n b))"
| looked: "bucket_step q t (Some b) [] 0 (Some (rl_rollLocked t b))"

text \<open>The effect \<open>x\<close> of a section, if it has one, is what the step of the key's bucket granted and counted.\<close>

definition key_step :: "string \<Rightarrow> time \<Rightarrow> int \<times> int \<times> int \<times> int \<Rightarrow> rl_effect option \<Rightarrow> rl_bucket option \<Rightarrow> rl_bucket option \<Rightarrow> bool" where
  "key_step k t q x b b' \<longleftrightarrow>
     (let granted = (case x of None \<Rightarrow> [] | Some f \<Rightarrow> grant_of k f); used = (\<lambda>D. case x of None \<Rightarrow> 0 | Some f \<Rightarrow> usage_of k D f)
      in bucket_step q t b granted (used (day_of t)) b' \<and> 0 \<le> used (day_of t) \<and> (\<forall>D. D \<noteq> day_of t \<longrightarrow> used D = 0))"

lemma fits_idle: "(\<forall>f. x = Some f \<longrightarrow> grant_of k f = [] \<and> (\<forall>D. usage_of k D f = 0)) \<Longrightarrow> key_step k t q x b b"
  by (cases x) (auto simp: key_step_def intro: bucket_step.idle)

lemma fits_silent: "bucket_step q t b [] 0 b' \<Longrightarrow> key_step k t q None b b'"
  by (simp add: key_step_def)

lemma bucket_put:
  assumes "objects_ok own s" and "lo_call s i = Some (k', a)"
  shows "bucket_of k (obj_put i a b s) = (if in_map k a s then Some b else bucket_of k s)" and "in_map k a s \<Longrightarrow> k' = k \<and> bucket_of k s = Some (lo_heap s a)"
proof -
  show "bucket_of k (obj_put i a b s) = (if in_map k a s then Some b else bucket_of k s)"
    by (cases "map_of (lo_buckets s) k") (auto simp: bucket_of_def obj_put_def in_map_def)
  have "own a = k'" using assms by (simp add: objects_ok_def)
  then show "in_map k a s \<Longrightarrow> k' = k \<and> bucket_of k s = Some (lo_heap s a)"
    using assms(1) by (auto simp: bucket_of_def in_map_def objects_ok_def)
qed

lemma get_fits:
  assumes ok: "objects_ok own s"
  shows "key_step k t q None (bucket_of k s) (bucket_of k (obj_get t i k' s))"
proof (cases "k' = k \<and> map_of (lo_buckets s) k = None")
  case True
  then show ?thesis by (auto simp: bucket_of_def obj_get_def Let_def intro: fits_silent bucket_step.opened)
next
  case False
  have "a < lo_next s" if "map_of (lo_buckets s) k = Some a" for a using ok that by (simp add: objects_ok_def in_map_def)
  then have "bucket_of k (obj_get t i k' s) = bucket_of k s"
    using False by (cases "map_of (lo_buckets s) k") (auto simp: bucket_of_def obj_get_def Let_def split: option.splits)
  then show ?thesis by (simp add: fits_idle)
qed

lemma gc_fits:
  assumes ok: "objects_ok own s"
  shows "key_step k t q None (bucket_of k s) (bucket_of k (obj_gc t s))"
proof -
  have d: "distinct (keys_of (lo_buckets s))" using ok by (simp add: objects_ok_def)
  have h: "lo_heap (obj_gc t s) = lo_heap s" by (simp add: obj_gc_def)
  note L = obj_gc_lookup [OF d, of k _ t, unfolded in_map_def]
  show ?thesis
  proof (cases "map_of (lo_buckets s) k")
    case None
    with L have "map_of (lo_buckets (obj_gc t s)) k = None" by (cases "map_of (lo_buckets (obj_gc t s)) k") auto
    then show ?thesis using None by (simp add: bucket_of_def fits_idle)
  next
    case (Some a)
    show ?thesis
    proof (cases "rl_idle t (lo_heap s a)")
      case True
      have "map_of (lo_buckets (obj_gc t s)) k \<noteq> Some a'" for a' using L [of a'] Some True by auto
      then have "map_of (lo_buckets (obj_gc t s)) k = None" by (meson not_None_eq)
      with Some True show ?thesis by (simp add: bucket_of_def fits_silent bucket_step.dropped)
    next
      case False
      with L [of a] Some have "map_of (lo_buckets (obj_gc t s)) k = Some a" by simp
      with Some h show ?thesis by (simp add: bucket_of_def fits_idle)
    qed
  qed
qed

lemma put_fits:
  assumes ok: "objects_ok own s" and c: "lo_call s i = Some (k', a)"
    and live: "k' = k \<Longrightarrow> in_map k a s \<Longrightarrow> key_step k t q x (Some (lo_heap s a)) (Some b)"
    and stale: "\<not> in_map k a s \<Longrightarrow> \<forall>f. x = Some f \<longrightarrow> grant_of k f = [] \<and> (\<forall>D. usage_of k D f = 0)"
  shows "key_step k t q x (bucket_of k s) (bucket_of k (obj_put i a b s))"
proof (cases "in_map k a s")
  case True
  then show ?thesis using bucket_put [OF ok c, of k] live by simp
next
  case False
  then show ?thesis using bucket_put(1) [OF ok c, of k b] fits_idle [OF stale [OF False]] by simp
qed

text \<open>Every section of the code is one of these steps for each key.\<close>

lemma obj_bucket_step:
  assumes ok: "objects_ok own s" and step: "obj_step lmt e s = (x, s')"
  shows "key_step k (event_time e) (lmt k) x (bucket_of k s) (bucket_of k s')"
proof (cases e)
  case (Get t i k')
  then show ?thesis using step get_fits [OF ok, of k t "lmt k" i k'] fits_idle [of x k t "lmt k" "bucket_of k s"]
    by (cases "lo_call s i = None") auto
next
  case (Collect t)
  then show ?thesis using step gc_fits [OF ok, of k t "lmt k"] by auto
next
  case (Reserve t i)
  show ?thesis
  proof (cases "lo_call s i")
    case (Some ka)
    obtain k' a where ka: "ka = (k', a)" by (rule prod.exhaust)
    obtain rpm tpm dreq dtok where q: "lmt k' = (rpm, tpm, dreq, dtok)" by (cases "lmt k'") auto
    obtain code b where r: "reserve_locked t rpm tpm dreq dtok (lo_heap s a) = (code, b)" by (rule prod.exhaust)
    have x: "x = (if code = [] then Some (Admitted t k' (in_map k' a s)) else None)" "s' = obj_put i a b s"
      using step Reserve Some ka q r by auto
    show ?thesis unfolding x(2) Reserve rl_event.sel
    proof (rule put_fits [OF ok Some [unfolded ka]])
      assume "k' = k" "in_map k a s"
      then show "key_step k t (lmt k) x (Some (lo_heap s a)) (Some b)" using bucket_step.reserved [OF q r] x(1) by (auto simp: key_step_def)
    qed (use x(1) in \<open>auto split: if_splits\<close>)
  qed (use step Reserve in \<open>simp add: fits_idle\<close>)
next
  case (Report t i n)
  show ?thesis
  proof (cases "lo_call s i = None \<or> n \<le> 0")
    case True
    then show ?thesis using step Report by (auto simp: fits_idle split: option.splits)
  next
    case False
    then obtain k' a where c: "lo_call s i = Some (k', a)" and n: "0 < n" by (cases "lo_call s i") auto
    have x: "x = Some (Counted t k' n (in_map k' a s))" "s' = obj_put i a (report_locked t n (lo_heap s a)) s"
      using step Report c n by auto
    show ?thesis unfolding x(2) Report rl_event.sel
    proof (rule put_fits [OF ok c])
      assume "k' = k" "in_map k a s"
      then show "key_step k t (lmt k) x (Some (lo_heap s a)) (Some (report_locked t n (lo_heap s a)))"
        using bucket_step.reported [OF n] n x(1) by (auto simp: key_step_def)
    qed (use x(1) in auto)
  qed
next
  case (Look t i)
  show ?thesis
  proof (cases "lo_call s i")
    case (Some ka)
    obtain k' a where ka: "ka = (k', a)" by (rule prod.exhaust)
    have x: "x = None" "s' = obj_put i a (rl_rollLocked t (lo_heap s a)) s" using step Look Some ka by auto
    show ?thesis unfolding x Look rl_event.sel
      by (rule put_fits [OF ok Some [unfolded ka] fits_silent [OF bucket_step.looked]]) simp
  qed (use step Look in \<open>simp add: fits_idle\<close>)
qed

section \<open>Runs\<close>

text \<open>
  Induction over a run: \<open>I\<close> ties the key's bucket to the last moment, to the grants so far and to
  the tokens counted so far on a day.
\<close>

lemma grants_Cons: "grants k (f # xs) = grant_of k f @ grants k xs" "grants k [] = []"
  by (simp_all add: grants_def)

lemma usage_Cons: "usage k D (f # xs) = usage_of k D f + usage k D xs" "usage k D [] = 0"
  by (simp_all add: usage_def)

lemma usage_nonneg: "0 \<le> usage k D xs \<or> (\<exists>f \<in> set xs. usage_of k D f < 0)"
  by (induction xs) (auto simp: usage_Cons)

lemma obj_run_induct:
  assumes "objects_ok own s" and "I u (bucket_of k s) A (\<lambda>D. m D)" and "sorted (u # map event_time es)"
    and step: "\<And>u t b A m g n b'. u \<le> t \<Longrightarrow> I u b A m \<Longrightarrow> bucket_step (lmt k) t b g n b' \<Longrightarrow> 0 \<le> n \<Longrightarrow>
      I t b' (A @ g) (m(day_of t := m (day_of t) + n))"
    and run: "obj_run lmt es s = (xs, s')"
  shows "I (last (u # map event_time es)) (bucket_of k s') (A @ grants k xs) (\<lambda>D. m D + usage k D xs)"
  using assms(1-3) run
proof (induction es arbitrary: own s u A m xs)
  case Nil
  then show ?case by (simp add: grants_Cons usage_Cons)
next
  case (Cons e es)
  obtain x s1 where e: "obj_step lmt e s = (x, s1)" by (rule prod.exhaust)
  obtain xs1 where r: "obj_run lmt es s1 = (xs1, s')" and xs: "xs = (case x of None \<Rightarrow> xs1 | Some f \<Rightarrow> f # xs1)"
    using Cons.prems(4) e by (auto split: prod.splits option.splits)
  let ?g = "case x of None \<Rightarrow> [] | Some f \<Rightarrow> grant_of k f" and ?n = "\<lambda>D. case x of None \<Rightarrow> 0 | Some f \<Rightarrow> usage_of k D f"
  let ?t = "event_time e"
  have F: "bucket_step (lmt k) ?t (bucket_of k s) ?g (?n (day_of ?t)) (bucket_of k s1)" "0 \<le> ?n (day_of ?t)" "\<forall>D. D \<noteq> day_of ?t \<longrightarrow> ?n D = 0"
    using obj_bucket_step [OF Cons.prems(1) e, of k] by (simp_all add: key_step_def Let_def)
  have m: "m(day_of ?t := m (day_of ?t) + ?n (day_of ?t)) = (\<lambda>D. m D + ?n D)" using F(3) by (auto simp: fun_eq_iff)
  have I1: "I ?t (bucket_of k s1) (A @ ?g) (\<lambda>D. m D + ?n D)"
    using step [OF _ Cons.prems(2) F(1,2)] Cons.prems(3) unfolding m by simp
  obtain own' where o: "objects_ok own' s1" using objects_step [OF Cons.prems(1), of lmt e] e by auto
  have "I (last (?t # map event_time es)) (bucket_of k s') ((A @ ?g) @ grants k xs1) (\<lambda>D. (m D + ?n D) + usage k D xs1)"
    using Cons.prems(3) by (intro Cons.IH [OF o I1 _ r]) simp
  moreover have "(A @ ?g) @ grants k xs1 = A @ grants k xs" "(\<lambda>D. (m D + ?n D) + usage k D xs1) = (\<lambda>D. m D + usage k D xs)"
    by (auto simp: xs grants_Cons usage_Cons split: option.split)
  ultimately show ?case by simp
qed

lemma objects_New_ok: "objects_ok (\<lambda>_. []) objects_New" "bucket_of k objects_New = None"
  by (simp_all add: objects_ok_def objects_New_def in_map_def bucket_of_def)

section \<open>What the collector can lose\<close>

text \<open>
  When no tick of the collector falls between the two locks of a call, every effect counts.
\<close>

fun calm_run :: "(string \<Rightarrow> int \<times> int \<times> int \<times> int) \<Rightarrow> rl_event list \<Rightarrow> limiter_objects \<Rightarrow> bool" where
  "calm_run lmt [] s = True"
| "calm_run lmt (e # es) s \<longleftrightarrow> (\<forall>t. e = Collect t \<longrightarrow> (\<forall>i. lo_call s i = None)) \<and> calm_run lmt es (snd (obj_step lmt e s))"

fun live_effect :: "rl_effect \<Rightarrow> bool" where
  "live_effect (Admitted t k live) = live"
| "live_effect (Counted t k n live) = live"

definition calls_live :: "limiter_objects \<Rightarrow> bool" where
  "calls_live s \<longleftrightarrow> (\<forall>i k a. lo_call s i = Some (k, a) \<longrightarrow> in_map k a s)"

lemma calls_live_step:
  assumes "calls_live s" and "\<forall>t. e = Collect t \<longrightarrow> (\<forall>i. lo_call s i = None)" and step: "obj_step lmt e s = (x, s')"
  shows "calls_live s' \<and> (\<forall>f. x = Some f \<longrightarrow> live_effect f)"
proof (cases e)
  case (Get t i k)
  then show ?thesis using assms by (auto simp: calls_live_def obj_get_def in_map_def Let_def split: option.splits if_splits)
next
  case (Collect t)
  then show ?thesis using assms by (auto simp: calls_live_def obj_gc_def)
qed (use assms in \<open>auto simp: calls_live_def obj_put_def in_map_def split: option.splits prod.splits if_splits\<close>)

lemma calm_run_live: "calls_live s \<Longrightarrow> calm_run lmt es s \<Longrightarrow> list_all live_effect (fst (obj_run lmt es s))"
proof (induction es arbitrary: s)
  case (Cons e es)
  obtain x s1 where e: "obj_step lmt e s = (x, s1)" by (rule prod.exhaust)
  have "calls_live s1" "\<forall>f. x = Some f \<longrightarrow> live_effect f" using calls_live_step [OF Cons.prems(1) _ e] Cons.prems(2) by auto
  with Cons.IH [of s1] Cons.prems(2) e show ?case by (cases "obj_run lmt es s1") (auto split: option.split)
qed simp

text \<open>
  Otherwise a reservation can be lost: a bucket that only \<open>Stats\<close> has used is dropped while a
  request holds it, and the next request of the key, with a limit of one, is admitted as well.
\<close>

lemma reservation_lost:
  "fst (obj_run (\<lambda>_. (1, 0, 1, 0))
     [Get 0 0 ''k'', Look 0 0, Get (6 * minute_ns) 0 ''k'', Collect (6 * minute_ns), Get (6 * minute_ns) 1 ''k'',
      Reserve (6 * minute_ns) 0, Reserve (6 * minute_ns) 1] objects_New)
   = [Admitted (6 * minute_ns) ''k'' False, Admitted (6 * minute_ns) ''k'' True]"
  by code_simp

lemma calm_counts: "obj_run lmt es objects_New = (xs, s) \<Longrightarrow> calm_run lmt es objects_New \<Longrightarrow> list_all live_effect xs"
  using calm_run_live [of objects_New lmt es] by (simp add: calls_live_def objects_New_def)

section \<open>Minutes\<close>

text \<open>The grants of a key in windows \<open>Ws\<close> of a minute each that do not overlap.\<close>

definition in_minute :: "time \<Rightarrow> time \<Rightarrow> bool" where
  "in_minute W t \<longleftrightarrow> W \<le> t \<and> t < W + minute_ns"

definition windows :: "int \<Rightarrow> time set \<Rightarrow> time list \<Rightarrow> bool" where
  "windows rpm Ws A \<longleftrightarrow> (\<forall>W \<in> Ws. \<forall>W' \<in> Ws. W < W' \<longrightarrow> W + minute_ns \<le> W')
     \<and> (\<forall>t \<in> set A. \<exists>W \<in> Ws. in_minute W t) \<and> (\<forall>W \<in> Ws. count_in (in_minute W) A \<le> rpm)"

definition minute_inv :: "int \<Rightarrow> time \<Rightarrow> rl_bucket option \<Rightarrow> time list \<Rightarrow> bool" where
  "minute_inv rpm u b A \<longleftrightarrow> (\<exists>Ws. windows rpm Ws A \<and>
     (case b of
        None \<Rightarrow> \<forall>W \<in> Ws. W + minute_ns \<le> u
      | Some b \<Rightarrow> let W = rb_windowStart b in
          W \<in> Ws \<and> (\<forall>W' \<in> Ws. W' \<le> W) \<and> W \<le> u \<and> rb_count b = count_in (in_minute W) A))"

lemma count_zero: "(\<forall>t \<in> set A. \<not> P t) \<Longrightarrow> count_in P A = 0"
  by (simp add: count_in_def filter_empty_conv)

lemma open_window:
  assumes w: "windows rpm Ws A" and over: "\<forall>W \<in> Ws. W + minute_ns \<le> t" and "0 < rpm"
  shows "windows rpm (insert t Ws) A" and "count_in (in_minute t) A = 0" and "\<forall>W \<in> Ws. W \<le> t"
proof -
  have old: "x < t" if "x \<in> set A" for x using w over that unfolding windows_def in_minute_def by force
  have "\<not> in_minute t x" if "x \<in> set A" for x using old [OF that] by (simp add: in_minute_def)
  then show z: "count_in (in_minute t) A = 0" by (intro count_zero) auto
  show "\<forall>W \<in> Ws. W \<le> t" using over by (auto simp: ns_defs)
  then show "windows rpm (insert t Ws) A" using w over z \<open>0 < rpm\<close> unfolding windows_def by force
qed

lemma minute_roll:
  assumes "minute_inv rpm u (Some b) A" and "u \<le> t" and "0 < rpm"
  shows "\<exists>Ws. windows rpm Ws A \<and> rb_windowStart (rl_rollLocked t b) \<in> Ws \<and> (\<forall>W \<in> Ws. W \<le> rb_windowStart (rl_rollLocked t b))
    \<and> in_minute (rb_windowStart (rl_rollLocked t b)) t \<and> rb_count (rl_rollLocked t b) = count_in (in_minute (rb_windowStart (rl_rollLocked t b))) A"
proof -
  obtain Ws where w: "windows rpm Ws A" "rb_windowStart b \<in> Ws" "\<forall>W \<in> Ws. W \<le> rb_windowStart b" "rb_windowStart b \<le> u"
      "rb_count b = count_in (in_minute (rb_windowStart b)) A"
    using assms(1) by (auto simp: minute_inv_def Let_def)
  show ?thesis
  proof (cases "minute_ns \<le> t - rb_windowStart b")
    case True
    then have "\<forall>W \<in> Ws. W + minute_ns \<le> t" using w(3) by force
    note O = open_window [OF w(1) this assms(3)]
    have "rb_windowStart (rl_rollLocked t b) = t" "rb_count (rl_rollLocked t b) = 0" using True by (simp_all add: rl_rollLocked_def Let_def)
    then show ?thesis using O by (intro exI [of _ "insert t Ws"]) (auto simp: in_minute_def ns_defs)
  next
    case False
    then have "rb_windowStart (rl_rollLocked t b) = rb_windowStart b" "rb_count (rl_rollLocked t b) = rb_count b"
      by (simp_all add: rl_rollLocked_def Let_def)
    then show ?thesis using w False assms(2) by (intro exI [of _ Ws]) (auto simp: in_minute_def)
  qed
qed

lemma grant_window:
  assumes "windows rpm Ws A" and "W \<in> Ws" and "\<forall>W' \<in> Ws. W' \<le> W" and "in_minute W t" and "count_in (in_minute W) A < rpm"
  shows "windows rpm Ws (A @ [t])"
proof -
  have "\<not> in_minute W' t" if "W' \<in> Ws" "W' \<noteq> W" for W'
  proof -
    have "W' + minute_ns \<le> W" using assms(1-3) that unfolding windows_def by (metis order_le_less)
    then show ?thesis using assms(4) by (auto simp: in_minute_def)
  qed
  then have "count_in (in_minute W') (A @ [t]) \<le> rpm" if "W' \<in> Ws" for W'
    using assms that by (cases "W' = W") (auto simp: windows_def)
  then show ?thesis using assms(1,2,4) by (auto simp: windows_def)
qed

lemma minute_keep:
  assumes "minute_inv rpm u (Some b) A" and "u \<le> t" and "0 < rpm"
    and "rb_windowStart b' = rb_windowStart (rl_rollLocked t b)" and "rb_count b' = rb_count (rl_rollLocked t b)"
  shows "minute_inv rpm t (Some b') A"
  using minute_roll [OF assms(1-3)] assms(4,5) unfolding minute_inv_def by (auto simp: Let_def in_minute_def)

lemma reserve_cases:
  assumes "reserve_locked t rpm tpm dreq dtok b = (code, b')"
  obtains (rejected) "code \<noteq> []" "b' = rl_rollLocked t b"
  | (admitted) "code = []" "0 < rpm \<longrightarrow> rb_count (rl_rollLocked t b) < rpm" "0 < dreq \<longrightarrow> rb_dayCount (rl_rollLocked t b) < dreq"
      "b' = (rl_rollLocked t b)\<lparr>rb_count := add64 (rb_count (rl_rollLocked t b)) 1, rb_dayCount := add64 (rb_dayCount (rl_rollLocked t b)) 1\<rparr>"
proof (cases "code = []")
  case True
  have "fst (reserve_locked t rpm tpm dreq dtok b) = []" "b' = snd (reserve_locked t rpm tpm dreq dtok b)" using assms True by simp_all
  then show thesis using True by (intro admitted) (auto simp: reserve_locked_def Let_def split: if_splits)
next
  case False
  with assms reserve_rejects [of t rpm tpm dreq dtok b] show thesis by (intro rejected) auto
qed

lemma minute_step:
  assumes q: "q = (rpm, tpm, dreq, dtok)" "0 < rpm" "rpm \<le> max_int64" and inv: "minute_inv rpm u b A" and u: "u \<le> t"
    and step: "bucket_step q t b g n b'"
  shows "minute_inv rpm t b' (A @ g)"
  using step inv
proof cases
  case idle
  then show ?thesis using inv u by (fastforce simp: minute_inv_def Let_def split: option.splits)
next
  case opened
  then obtain Ws where w: "windows rpm Ws A" "\<forall>W \<in> Ws. W + minute_ns \<le> t" using inv u by (fastforce simp: minute_inv_def)
  note O = open_window [OF w q(2)]
  then show ?thesis using opened unfolding minute_inv_def by (intro exI [of _ "insert t Ws"]) (auto simp: new_bucket_def Let_def)
next
  case (dropped b0)
  then obtain Ws where "windows rpm Ws A" "\<forall>W \<in> Ws. W \<le> rb_windowStart b0" using inv by (auto simp: minute_inv_def Let_def)
  then show ?thesis using dropped unfolding minute_inv_def by (intro exI [of _ Ws]) (force simp: rl_idle_def ns_defs)
next
  case (reserved rpm' tpm' dreq' dtok' b0 code b1)
  have b0: "minute_inv rpm u (Some b0) A" and r: "reserve_locked t rpm tpm dreq dtok b0 = (code, b1)" using inv reserved q(1) by simp_all
  obtain Ws where w: "windows rpm Ws A" "rb_windowStart (rl_rollLocked t b0) \<in> Ws" "\<forall>W \<in> Ws. W \<le> rb_windowStart (rl_rollLocked t b0)"
      "in_minute (rb_windowStart (rl_rollLocked t b0)) t" "rb_count (rl_rollLocked t b0) = count_in (in_minute (rb_windowStart (rl_rollLocked t b0))) A"
    using minute_roll [OF b0 u q(2)] by blast
  from r show ?thesis
  proof (cases rule: reserve_cases)
    case rejected
    then show ?thesis using reserved minute_keep [OF b0 u q(2)] by simp
  next
    case admitted
    have lt: "count_in (in_minute (rb_windowStart (rl_rollLocked t b0))) A < rpm" using admitted(2) reserved q w(5) by simp
    have a64: "add64 (rb_count (rl_rollLocked t b0)) 1 = rb_count (rl_rollLocked t b0) + 1"
      using lt w(5) q(3) count_in_simps(3) [of _ A] by (intro add64_id) auto
    show ?thesis using grant_window [OF w(1-4) lt] w admitted reserved a64 unfolding minute_inv_def
      by (intro exI [of _ Ws]) (auto simp: Let_def in_minute_def)
  qed
next
  case (reported b0)
  then show ?thesis using minute_keep [OF _ u q(2), of b0 A] inv by (simp add: report_locked_def Let_def)
next
  case (looked b0)
  then show ?thesis using minute_keep [OF _ u q(2), of b0 A] inv by simp
qed

lemma count_in_mono: "\<forall>t \<in> set A. P t \<longrightarrow> Q t \<or> R t \<Longrightarrow> count_in P A \<le> count_in Q A + count_in R A"
  by (induction A) (auto simp: count_in_def)

lemma count_one_window:
  assumes "windows rpm Ws A" and "0 < rpm" and "\<And>W W'. W \<in> S \<Longrightarrow> W' \<in> S \<Longrightarrow> W = W'" and "S \<subseteq> Ws"
  shows "count_in (\<lambda>t. \<exists>W \<in> S. in_minute W t) A \<le> rpm"
proof (cases "S = {}")
  case False
  then obtain W where "S = {W}" using assms(3) by blast
  then show ?thesis using assms(1,4) by (simp add: windows_def)
qed (use \<open>0 < rpm\<close> in \<open>simp add: count_in_def\<close>)

text \<open>Any minute overlaps at most two windows.\<close>

lemma windows_any_minute:
  assumes w: "windows rpm Ws A" and "0 < rpm"
  shows "count_in (in_minute T) A \<le> 2 * rpm"
proof -
  let ?S1 = "{W \<in> Ws. T - minute_ns < W \<and> W \<le> T}" and ?S2 = "{W \<in> Ws. T < W \<and> W < T + minute_ns}"
  have one: "W = W'" if "W \<in> Ws" "W' \<in> Ws" "\<bar>W - W'\<bar> < minute_ns" for W W'
  proof (rule ccontr)
    assume "W \<noteq> W'"
    then consider "W < W'" | "W' < W" by linarith
    then show False using w that unfolding windows_def by cases fastforce+
  qed
  have 1: "count_in (\<lambda>t. \<exists>W \<in> ?S1. in_minute W t) A \<le> rpm" by (rule count_one_window [OF assms]) (auto intro!: one)
  have 2: "count_in (\<lambda>t. \<exists>W \<in> ?S2. in_minute W t) A \<le> rpm" by (rule count_one_window [OF assms]) (auto intro!: one)
  have "(\<exists>W \<in> ?S1. in_minute W t) \<or> (\<exists>W \<in> ?S2. in_minute W t)" if t: "t \<in> set A" "in_minute T t" for t
  proof -
    obtain W where "W \<in> Ws" "in_minute W t" using w t(1) by (auto simp: windows_def)
    moreover from this t(2) have "W \<in> ?S1 \<or> W \<in> ?S2" by (auto simp: in_minute_def)
    ultimately show ?thesis by blast
  qed
  then have "count_in (in_minute T) A \<le> count_in (\<lambda>t. \<exists>W \<in> ?S1. in_minute W t) A + count_in (\<lambda>t. \<exists>W \<in> ?S2. in_minute W t) A"
    by (intro count_in_mono) blast
  with 1 2 show ?thesis by linarith
qed

text \<open>
  C7. The requests-per-minute limit holds: through any run of the limiter on a clock that does not
  go back, whatever callers, keys, token reports and ticks of the collector interleave and however
  long it lasts, the admissions of a key that count fall into windows of one minute that do not
  overlap, with at most \<open>rpm\<close> in each, so that no minute sees more than twice \<open>rpm\<close>. An admission
  counts unless the collector took the bucket out of the map between the two locks of the call;
  when no tick falls there, all of them count.
\<close>

theorem minute_limit_enforced:
  assumes run: "obj_run lmt es objects_New = (xs, s)" and q: "lmt k = (rpm, tpm, dreq, dtok)" "0 < rpm" "rpm \<le> max_int64"
    and time: "sorted (map event_time es)"
  shows "(\<exists>Ws. (\<forall>W \<in> Ws. \<forall>W' \<in> Ws. W < W' \<longrightarrow> W + minute_ns \<le> W')
      \<and> (\<forall>t \<in> set (grants k xs). \<exists>W \<in> Ws. W \<le> t \<and> t < W + minute_ns)
      \<and> (\<forall>W \<in> Ws. count_in (\<lambda>t. W \<le> t \<and> t < W + minute_ns) (grants k xs) \<le> rpm))
    \<and> (\<forall>T. count_in (\<lambda>t. T \<le> t \<and> t < T + minute_ns) (grants k xs) \<le> 2 * rpm)
    \<and> (calm_run lmt es objects_New \<longrightarrow> list_all live_effect xs)"
proof -
  define u where "u = (case es of [] \<Rightarrow> 0 | e # _ \<Rightarrow> event_time e)"
  have u: "sorted (u # map event_time es)" using time by (cases es) (auto simp: u_def)
  have "minute_inv rpm u None []" by (auto simp: minute_inv_def windows_def intro: exI [of _ "{}"])
  then have "minute_inv rpm u (bucket_of k objects_New) []" by (simp add: objects_New_ok(2))
  then have "minute_inv rpm (last (u # map event_time es)) (bucket_of k s) ([] @ grants k xs)"
    by (rule obj_run_induct [where I = "\<lambda>u b A m. minute_inv rpm u b A", OF objects_New_ok(1) _ u _ run])
      (rule minute_step [OF q])
  then obtain Ws where w: "windows rpm Ws (grants k xs)" by (auto simp: minute_inv_def)
  have "count_in (\<lambda>t. T \<le> t \<and> t < T + minute_ns) (grants k xs) \<le> 2 * rpm" for T
    using windows_any_minute [OF w q(2), of T] by (simp add: in_minute_def [abs_def])
  with w calm_counts [OF run] show ?thesis unfolding windows_def in_minute_def by blast
qed

text \<open>Two callers with a limit of one request; the second waits for the next window.\<close>

definition example_limits :: "string \<Rightarrow> int \<times> int \<times> int \<times> int" where
  "example_limits k = (1, 0, 2, 0)"

definition example_calls :: "rl_event list" where
  "example_calls = [Get 5 0 ''k'', Get 5 1 ''k'', Reserve 6 0, Reserve 7 1, Collect 8, Get (6 + minute_ns) 1 ''k'', Reserve (6 + minute_ns) 1]"

theorem minute_limit_enforced_witness:
  "grants ''k'' (fst (obj_run example_limits example_calls objects_New)) = [6, 6 + minute_ns]
   \<and> (\<forall>T. count_in (\<lambda>t. T \<le> t \<and> t < T + minute_ns) (grants ''k'' (fst (obj_run example_limits example_calls objects_New))) \<le> 2)"
proof -
  obtain xs s where r: "obj_run example_limits example_calls objects_New = (xs, s)" by (rule prod.exhaust)
  have g: "grants ''k'' (fst (obj_run example_limits example_calls objects_New)) = [6, 6 + minute_ns]" by code_simp
  have "sorted (map event_time example_calls)" by (simp add: example_calls_def ns_defs)
  from minute_limit_enforced [OF r _ _ _ this, of "''k''" 1 0 2 0] r g show ?thesis by (simp add: example_limits_def)
qed

section \<open>Days\<close>

text \<open>
  Until day \<open>D\<close> is over, the bucket holds what was granted and counted on it; \<open>m\<close> are the tokens
  counted on each day, as long as they fit 64 bits.
\<close>

definition day_holds :: "int \<Rightarrow> int \<Rightarrow> int \<Rightarrow> time \<Rightarrow> rl_bucket \<Rightarrow> bool" where
  "day_holds D n m u b \<longleftrightarrow> (\<exists>d. rb_dayStart b = d * day_ns \<and> d \<le> day_of u \<and>
     (if d = D then rb_dayCount b = n \<and> (m \<le> max_int64 \<longrightarrow> rb_dayTokens b = m) else n = 0 \<and> (m \<le> max_int64 \<longrightarrow> m = 0)))"

definition day_inv :: "int \<Rightarrow> int \<Rightarrow> time \<Rightarrow> rl_bucket option \<Rightarrow> int \<Rightarrow> int \<Rightarrow> bool" where
  "day_inv D dreq u b n m \<longleftrightarrow> 0 \<le> n \<and> n \<le> dreq \<and> 0 \<le> m \<and>
     (day_of u \<le> D \<longrightarrow> (case b of None \<Rightarrow> n = 0 \<and> (m \<le> max_int64 \<longrightarrow> m = 0) | Some b \<Rightarrow> day_holds D n m u b))"

lemma day_of_mono: "u \<le> t \<Longrightarrow> day_of u \<le> day_of t"
  by (simp add: day_of_def zdiv_mono1 ns_defs)

lemma day_start_inj: "d * day_ns = d' * day_ns \<longleftrightarrow> d = d'" "day_ns \<noteq> 0"
  by (simp_all add: ns_defs)

lemma day_roll:
  assumes "day_holds D n m u b" and "u \<le> t" and "day_of t \<le> D"
  shows "rb_dayStart (rl_rollLocked t b) = day_of t * day_ns"
    and "day_of t = D \<Longrightarrow> rb_dayCount (rl_rollLocked t b) = n \<and> (m \<le> max_int64 \<longrightarrow> rb_dayTokens (rl_rollLocked t b) = m)"
    and "day_of t \<noteq> D \<Longrightarrow> n = 0 \<and> (m \<le> max_int64 \<longrightarrow> m = 0)"
proof -
  show "rb_dayStart (rl_rollLocked t b) = day_of t * day_ns" by (auto simp: rl_rollLocked_def Let_def utcDayStart_eq)
  show "day_of t = D \<Longrightarrow> rb_dayCount (rl_rollLocked t b) = n \<and> (m \<le> max_int64 \<longrightarrow> rb_dayTokens (rl_rollLocked t b) = m)"
    using assms(1) by (auto simp: day_holds_def rl_rollLocked_def Let_def utcDayStart_eq day_start_inj split: if_splits)
  show "day_of t \<noteq> D \<Longrightarrow> n = 0 \<and> (m \<le> max_int64 \<longrightarrow> m = 0)"
    using assms(1,3) day_of_mono [OF assms(2)] by (auto simp: day_holds_def split: if_splits)
qed

text \<open>A section that counts \<open>x\<close> requests and \<open>y\<close> tokens on the rolled bucket.\<close>

lemma day_work:
  assumes inv: "day_inv D dreq u (Some b) n m" and u: "u \<le> t" and le: "n + (if day_of t = D then x else 0) \<le> dreq" "dreq \<le> max_int64"
    and xy: "0 \<le> x" "0 \<le> y" and b': "rb_dayStart b' = rb_dayStart (rl_rollLocked t b)"
      "rb_dayCount b' = (if x = 0 then rb_dayCount (rl_rollLocked t b) else add64 (rb_dayCount (rl_rollLocked t b)) x)"
      "rb_dayTokens b' = (if y = 0 then rb_dayTokens (rl_rollLocked t b) else add64 (rb_dayTokens (rl_rollLocked t b)) y)"
  shows "day_inv D dreq t (Some b') (n + (if day_of t = D then x else 0)) (m + (if day_of t = D then y else 0))"
proof -
  have n: "0 \<le> n" "0 \<le> m" using inv by (simp_all add: day_inv_def)
  have "day_holds D (n + (if day_of t = D then x else 0)) (m + (if day_of t = D then y else 0)) t b'" if t: "day_of t \<le> D"
  proof -
    have h: "day_holds D n m u b" using inv t day_of_mono [OF u] by (simp add: day_inv_def)
    note R = day_roll [OF h u t]
    show ?thesis
    proof (cases "day_of t = D")
      case True
      have "add64 n x = n + x" using True n xy le by (intro add64_id) auto
      moreover have "add64 m y = m + y" if "m + y \<le> max_int64" using n xy that by (intro add64_id) auto
      ultimately show ?thesis using R(1,2) True b' xy unfolding day_holds_def by (intro exI [of _ D]) auto
    next
      case False
      then show ?thesis using R(1,3) b'(1) unfolding day_holds_def by (intro exI [of _ "day_of t"]) auto
    qed
  qed
  then show ?thesis using n xy le by (auto simp: day_inv_def)
qed

lemma day_step:
  assumes q: "q = (rpm, tpm, dreq, dtok)" "0 < dreq" "dreq \<le> max_int64" and inv: "day_inv D dreq u b n m" and u: "u \<le> t"
    and step: "bucket_step q t b g y b'"
  shows "day_inv D dreq t b' (n + count_in (\<lambda>t. day_of t = D) g) (m + (if day_of t = D then y else 0))"
  using step
proof cases
  case idle
  then show ?thesis using inv day_of_mono [OF u] by (fastforce simp: day_inv_def day_holds_def split: option.splits)
next
  case opened
  then show ?thesis using inv day_of_mono [OF u]
    by (auto simp: day_inv_def day_holds_def new_bucket_def utcDayStart_eq split: if_splits intro!: exI [of _ "day_of t"])
next
  case (dropped b0)
  then show ?thesis using inv day_of_mono [OF u] by (auto simp: day_inv_def day_holds_def rl_idle_def split: if_splits)
next
  case (reserved rpm' tpm' dreq' dtok' b0 code b1)
  have b0: "day_inv D dreq u (Some b0) n m" and r: "reserve_locked t rpm tpm dreq dtok b0 = (code, b1)" using inv reserved q(1) by simp_all
  from r show ?thesis
  proof (cases rule: reserve_cases)
    case rejected
    then show ?thesis using reserved day_work [OF b0 u _ q(3), of 0 0 b1] b0 by (simp add: day_inv_def)
  next
    case admitted
    have "n + 1 \<le> dreq" if "day_of t = D"
      using day_roll(2) [of D n m u b0 t] b0 u that admitted(3) q(2) day_of_mono [OF u] by (simp add: day_inv_def)
    then have le: "n + (if day_of t = D then 1 else 0) \<le> dreq" using b0 by (simp add: day_inv_def)
    show ?thesis using reserved admitted day_work [OF b0 u le q(3), of 0 b1] by (simp split: if_splits)
  qed
next
  case (reported b0)
  then show ?thesis using day_work [OF _ u _ q(3), of D b0 n m 0 y "report_locked t y b0"] inv by (simp add: report_locked_def Let_def day_inv_def)
next
  case (looked b0)
  then show ?thesis using day_work [OF _ u _ q(3), of D b0 n m 0 0 "rl_rollLocked t b0"] inv by (simp add: day_inv_def)
qed

text \<open>What \<open>Stats\<close> would report of the day for a key.\<close>

definition day_counters :: "time \<Rightarrow> string \<Rightarrow> limiter_objects \<Rightarrow> int \<times> int" where
  "day_counters now k s =
     (case bucket_of k s of
        None \<Rightarrow> (0, 0)
      | Some b \<Rightarrow> (rb_dayCount (rl_rollLocked now b), rb_dayTokens (rl_rollLocked now b)))"

text \<open>
  C8. The daily limit holds: through any run of the limiter on a clock that does not go back, over
  any number of days and whatever callers, keys and ticks of the collector interleave, at most
  \<open>dailyReq\<close> requests of a key are admitted and counted on each UTC day, and the counters that the
  limiter reports on a day are exactly the number of these requests and, while it fits 64 bits, the
  sum of the tokens counted on it so far. An admission or report counts unless the collector took
  the bucket out of the map between the two locks of the call; when no tick falls there, all of
  them count.
\<close>

theorem daily_limit_enforced:
  assumes run: "obj_run lmt es objects_New = (xs, s)" and q: "lmt k = (rpm, tpm, dreq, dtok)" "0 < dreq" "dreq \<le> max_int64"
    and time: "sorted (map event_time es @ [now])"
  shows "(\<forall>D. count_in (\<lambda>t. day_of t = D) (grants k xs) \<le> dreq)
    \<and> fst (day_counters now k s) = count_in (\<lambda>t. day_of t = day_of now) (grants k xs)
    \<and> (usage k (day_of now) xs \<le> max_int64 \<longrightarrow> snd (day_counters now k s) = usage k (day_of now) xs)
    \<and> (calm_run lmt es objects_New \<longrightarrow> list_all live_effect xs)"
proof -
  define u where "u = (case es of [] \<Rightarrow> now | e # _ \<Rightarrow> event_time e)"
  have u: "sorted (u # map event_time es)" "last (u # map event_time es) \<le> now"
  proof -
    show "sorted (u # map event_time es)" using time by (cases es) (auto simp: u_def sorted_append)
    show "last (u # map event_time es) \<le> now"
    proof (cases "es = []")
      case False
      then have "last (map event_time es) \<in> set (map event_time es)" by (intro last_in_set) simp
      moreover have "\<forall>t\<in>set (map event_time es). t \<le> now" using time by (simp add: sorted_append)
      ultimately have "last (map event_time es) \<le> now" by blast
      then show ?thesis using False by simp
    qed (simp add: u_def)
  qed
  have inv: "day_inv D dreq (last (u # map event_time es)) (bucket_of k s) (count_in (\<lambda>t. day_of t = D) ([] @ grants k xs)) (0 + usage k D xs)" for D
  proof (rule obj_run_induct [where I = "\<lambda>u b A m. day_inv D dreq u b (count_in (\<lambda>t. day_of t = D) A) (m D)" and m = "\<lambda>_. 0",
        OF objects_New_ok(1) _ u(1) _ run])
    show "day_inv D dreq u (bucket_of k objects_New) (count_in (\<lambda>t. day_of t = D) []) 0"
      using q(2) by (simp add: day_inv_def objects_New_ok(2))
    fix u t b A m g n b'
    assume "u \<le> t" "day_inv D dreq u b (count_in (\<lambda>t. day_of t = D) A) (m D)" "bucket_step (lmt k) t b g n b'"
    from day_step [OF q this(2,1,3)]
    show "day_inv D dreq t b' (count_in (\<lambda>t. day_of t = D) (A @ g)) ((m(day_of t := m (day_of t) + n)) D)"
      by (simp split: if_splits)
  qed
  have "day_of (last (u # map event_time es)) \<le> day_of now" by (rule day_of_mono [OF u(2)])
  then have "fst (day_counters now k s) = count_in (\<lambda>t. day_of t = day_of now) (grants k xs)
      \<and> (usage k (day_of now) xs \<le> max_int64 \<longrightarrow> snd (day_counters now k s) = usage k (day_of now) xs)"
    using inv [of "day_of now"] day_roll(2) [OF _ u(2) order_refl refl]
    by (cases "bucket_of k s") (force simp: day_inv_def day_counters_def)+
  with inv calm_counts [OF run] show ?thesis by (simp add: day_inv_def)
qed

definition example_days :: "rl_event list" where
  "example_days = [Get 5 0 ''k'', Reserve 6 0, Get 7 0 ''k'', Report 8 0 30, Get (2 * minute_ns) 0 ''k'', Reserve (2 * minute_ns) 0,
     Get (4 * minute_ns) 0 ''k'', Reserve (4 * minute_ns) 0, Collect (10 * minute_ns), Get (day_ns + 1) 1 ''k'', Reserve (day_ns + 2) 1]"

theorem daily_limit_enforced_witness:
  "grants ''k'' (fst (obj_run example_limits example_days objects_New)) = [6, 2 * minute_ns, day_ns + 2]
   \<and> (\<forall>D. count_in (\<lambda>t. day_of t = D) (grants ''k'' (fst (obj_run example_limits example_days objects_New))) \<le> 2)"
proof -
  obtain xs s where r: "obj_run example_limits example_days objects_New = (xs, s)" by (rule prod.exhaust)
  have g: "grants ''k'' (fst (obj_run example_limits example_days objects_New)) = [6, 2 * minute_ns, day_ns + 2]" by code_simp
  have "sorted (map event_time example_days @ [day_ns + 3])" by (simp add: example_days_def ns_defs)
  from daily_limit_enforced [OF r _ _ _ this, of "''k''" 1 0 2 0] r g show ?thesis by (simp add: example_limits_def)
qed

section \<open>The sections in sequence\<close>

text \<open>On the map of buckets by value, \<open>get\<close> followed by the locked section is \<open>CheckAndReserve\<close>.\<close>

lemma CheckAndReserve_uninterrupted:
  assumes ok: "objects_ok own s" and "lo_call s i = None" and q: "lmt k = (rpm, tpm, dreq, dtok)"
    and view: "\<forall>k'. map_of l k' = bucket_of k' s"
    and run: "obj_run lmt [Get t i k, Reserve t' i] s = (xs, s')" and cr: "CheckAndReserve t t' k rpm tpm dreq dtok l = (code, l')"
  shows "(code = [] \<longleftrightarrow> xs \<noteq> []) \<and> (\<forall>k'. map_of l' k' = bucket_of k' s')"
proof -
  let ?s1 = "obj_get t i k s"
  obtain own' where ok1: "objects_ok own' ?s1" using objects_step [OF ok, of lmt "Get t i k"] assms(2) by auto
  obtain a where a: "lo_call ?s1 i = Some (k, a)" "in_map k a ?s1" "fst (rl_get t k l) = lo_heap ?s1 a"
    using view [rule_format, of k]
    by (cases "map_of (lo_buckets s) k") (simp_all add: obj_get_def in_map_def rl_get_def bucket_of_def Let_def update_conv')
  obtain b where r: "reserve_locked t' rpm tpm dreq dtok (lo_heap ?s1 a) = (code, b)"
    using cr a(3) by (cases "reserve_locked t' rpm tpm dreq dtok (lo_heap ?s1 a)") (auto simp: CheckAndReserve_sections)
  have s': "s' = obj_put i a b ?s1" "xs = (if code = [] then [Admitted t' k True] else [])"
    using run assms(2) a q r by (auto split: if_splits)
  have other: "map_of (snd (rl_get t k l)) k' = bucket_of k' ?s1" if "k' \<noteq> k" for k'
  proof -
    have "a' < lo_next s" if "map_of (lo_buckets s) k' = Some a'" for a' using ok that by (simp add: objects_ok_def in_map_def)
    then show ?thesis using view [rule_format, of k'] that
      by (cases "map_of (lo_buckets s) k'") (auto simp: rl_get_def obj_get_def bucket_of_def Let_def split: option.splits)
  qed
  have "\<not> in_map k' a ?s1" if "k' \<noteq> k" for k' using bucket_put(2) [OF ok1 a(1), of k'] that by blast
  then have "map_of l' k' = bucket_of k' s'" for k'
    using cr r a(3) bucket_put(1) [OF ok1 a(1), of k' b] a(2) other [of k'] s'(1)
    by (cases "k' = k") (auto simp: CheckAndReserve_sections)
  then show ?thesis using s'(2) by auto
qed

end
