(* ===== verification/Quota_Model.thy ===== *)
theory Quota_Model
  imports Go_Time
begin

text \<open>
  Quotas: \<^verbatim>\<open>internal/quota/quota.go\<close>. Per-key counters of requests and tokens over the UTC
  calendar day and month, kept in memory. The manager's mutex makes each method one step; the
  clock readings of \<open>getLocked\<close> and of the method itself are one argument (they are taken under
  the same lock).
\<close>

record quota_bucket =
  qb_dayStart :: time
  qb_monthStart :: time
  qb_dayReqs :: int
  qb_monthReqs :: int
  qb_dayToks :: int
  qb_monthToks :: int

type_synonym quota_Manager = "quota_bucket gomap"

definition quota_New :: quota_Manager where
  "quota_New = []"

definition dayStart :: "time \<Rightarrow> time" where
  "dayStart t = Date (Year t) (Month t) (Day t)"

definition monthStart :: "time \<Rightarrow> time" where
  "monthStart t = Date (Year t) (Month t) 1"

definition quota_rollLocked :: "time \<Rightarrow> quota_bucket \<Rightarrow> quota_bucket" where
  "quota_rollLocked now b0 =
     (let b = (if now > qb_dayStart b0 + 24 * hour_ns \<or> Day now \<noteq> Day (qb_dayStart b0) \<or>
                  Month now \<noteq> Month (qb_dayStart b0) \<or> Year now \<noteq> Year (qb_dayStart b0)
               then b0\<lparr>qb_dayStart := dayStart now, qb_dayReqs := 0, qb_dayToks := 0\<rparr> else b0)
      in if Month now \<noteq> Month (qb_monthStart b) \<or> Year now \<noteq> Year (qb_monthStart b)
         then b\<lparr>qb_monthStart := monthStart now, qb_monthReqs := 0, qb_monthToks := 0\<rparr> else b)"

definition quota_getLocked :: "time \<Rightarrow> string \<Rightarrow> quota_Manager \<Rightarrow> quota_bucket" where
  "quota_getLocked now keyID m =
     (case map_of m keyID of
        Some b \<Rightarrow> b
      | None \<Rightarrow> \<lparr>qb_dayStart = dayStart now, qb_monthStart = monthStart now, qb_dayReqs = 0,
                 qb_monthReqs = 0, qb_dayToks = 0, qb_monthToks = 0\<rparr>)"

definition quota_Check :: "time \<Rightarrow> string \<Rightarrow> int \<Rightarrow> int \<Rightarrow> int \<Rightarrow> int \<Rightarrow> quota_Manager \<Rightarrow> string \<times> quota_Manager" where
  "quota_Check now keyID dailyReqLimit dailyTokLimit monthlyReqLimit monthlyTokLimit m =
     (let b = quota_rollLocked now (quota_getLocked now keyID m);
          m' = AList.update keyID b m
      in if 0 < dailyReqLimit \<and> dailyReqLimit \<le> qb_dayReqs b then (''daily_request_quota_exceeded'', m')
         else if 0 < monthlyReqLimit \<and> monthlyReqLimit \<le> qb_monthReqs b then (''monthly_request_quota_exceeded'', m')
         else if 0 < dailyTokLimit \<and> dailyTokLimit \<le> qb_dayToks b then (''daily_token_quota_exceeded'', m')
         else if 0 < monthlyTokLimit \<and> monthlyTokLimit \<le> qb_monthToks b then (''monthly_token_quota_exceeded'', m')
         else ('''', m'))"

definition AddRequest :: "time \<Rightarrow> string \<Rightarrow> quota_Manager \<Rightarrow> quota_Manager" where
  "AddRequest now keyID m =
     (let b = quota_rollLocked now (quota_getLocked now keyID m)
      in AList.update keyID (b\<lparr>qb_dayReqs := add64 (qb_dayReqs b) 1, qb_monthReqs := add64 (qb_monthReqs b) 1\<rparr>) m)"

definition quota_AddTokens :: "time \<Rightarrow> string \<Rightarrow> int \<Rightarrow> quota_Manager \<Rightarrow> quota_Manager" where
  "quota_AddTokens now keyID tokens m =
     (if tokens \<le> 0 then m
      else let b = quota_rollLocked now (quota_getLocked now keyID m)
           in AList.update keyID (b\<lparr>qb_dayToks := add64 (qb_dayToks b) tokens,
                                    qb_monthToks := add64 (qb_monthToks b) tokens\<rparr>) m)"

definition Usage :: "time \<Rightarrow> string \<Rightarrow> quota_Manager \<Rightarrow> (int \<times> int \<times> int \<times> int) \<times> quota_Manager" where
  "Usage now keyID m =
     (let b = quota_rollLocked now (quota_getLocked now keyID m)
      in ((qb_dayReqs b, qb_dayToks b, qb_monthReqs b, qb_monthToks b), AList.update keyID b m))"

section \<open>Counting usage from a log\<close>

text \<open>
  The reference: a log of the requests and token reports of all keys. The quota of a key is the
  usage logged for it on the calendar day, or in the calendar month, of the moment asked about.
\<close>

datatype quota_event =
    QRequest (q_time: time) (q_key: string)
  | QTokens (q_time: time) (q_key: string) (q_tokens: int)

fun quota_apply :: "quota_event \<Rightarrow> quota_Manager \<Rightarrow> quota_Manager" where
  "quota_apply (QRequest t k) m = AddRequest t k m"
| "quota_apply (QTokens t k n) m = quota_AddTokens t k n m"

definition same_month :: "time \<Rightarrow> time \<Rightarrow> bool" where
  "same_month t u \<longleftrightarrow> Month t = Month u \<and> Year t = Year u"

fun ev_reqs :: "quota_event \<Rightarrow> int" where
  "ev_reqs (QRequest t k) = 1"
| "ev_reqs (QTokens t k n) = 0"

fun ev_toks :: "quota_event \<Rightarrow> int" where
  "ev_toks (QRequest t k) = 0"
| "ev_toks (QTokens t k n) = (if 0 < n then n else 0)"

definition logged :: "(quota_event \<Rightarrow> int) \<Rightarrow> (time \<Rightarrow> bool) \<Rightarrow> string \<Rightarrow> quota_event list \<Rightarrow> int" where
  "logged f P k es = sum_list (map f (filter (\<lambda>e. q_key e = k \<and> P (q_time e)) es))"

lemma logged_snoc [simp]:
  "logged f P k (es @ [e]) = logged f P k es + (if q_key e = k \<and> P (q_time e) then f e else 0)"
  by (simp add: logged_def)

lemma logged_nonneg: "(\<And>e. 0 \<le> f e) \<Longrightarrow> 0 \<le> logged f P k es"
  unfolding logged_def by (rule sum_list_nonneg) auto

lemma ev_nonneg [simp]: "0 \<le> ev_reqs e" "0 \<le> ev_toks e"
  by (cases e; simp)+

lemma logged_mono:
  "(\<And>e. 0 \<le> f e) \<Longrightarrow> (\<And>t. P t \<Longrightarrow> Q t) \<Longrightarrow> logged f P k es \<le> logged f Q k es"
  unfolding logged_def by (induction es) (auto intro: add_increasing add_mono)

lemma dayStart_eq: "dayStart t = day_of t * day_ns"
  by (simp add: dayStart_def Date_calendar)

lemma same_day_iff:
  "Day t = Day (dayStart u) \<and> Month t = Month (dayStart u) \<and> Year t = Year (dayStart u) \<longleftrightarrow> day_of t = day_of u"
proof
  assume "Day t = Day (dayStart u) \<and> Month t = Month (dayStart u) \<and> Year t = Year (dayStart u)"
  then have "day_of t = day_of (dayStart u)" by (intro same_calendar_day) auto
  then show "day_of t = day_of u" by (simp add: dayStart_eq)
next
  assume "day_of t = day_of u"
  then show "Day t = Day (dayStart u) \<and> Month t = Month (dayStart u) \<and> Year t = Year (dayStart u)"
    by (simp add: Day_def Month_def Year_def dayStart_eq)
qed

lemma before_next_day: "day_of t = day_of u \<Longrightarrow> \<not> t > dayStart u + 24 * hour_ns"
  by (simp add: dayStart_eq day_of_def ns_defs)

lemma same_month_start: "same_month t (monthStart u) \<longleftrightarrow> same_month t u"
  using month_start_in_month [of "monthStart u" u] by (simp add: monthStart_def same_month_def)

lemma same_day_month: "day_of t = day_of u \<Longrightarrow> same_month t u"
  by (simp add: same_month_def Month_def Year_def)

text \<open>A bucket that holds the usage of the day and month of the moment \<open>t0\<close> it was last used.\<close>

definition bucket_at :: "time \<Rightarrow> int \<Rightarrow> int \<Rightarrow> int \<Rightarrow> int \<Rightarrow> quota_bucket \<Rightarrow> bool" where
  "bucket_at t0 dr dt mr mt b \<longleftrightarrow> qb_dayStart b = dayStart t0 \<and> same_month t0 (qb_monthStart b)
     \<and> qb_dayReqs b = dr \<and> qb_dayToks b = dt \<and> qb_monthReqs b = mr \<and> qb_monthToks b = mt"

lemma roll_day:
  assumes "bucket_at t0 dr dt mr mt b"
  shows "(now > qb_dayStart b + 24 * hour_ns \<or> Day now \<noteq> Day (qb_dayStart b) \<or>
      Month now \<noteq> Month (qb_dayStart b) \<or> Year now \<noteq> Year (qb_dayStart b)) = (day_of now \<noteq> day_of t0)"
proof -
  have s: "qb_dayStart b = dayStart t0" using assms by (simp add: bucket_at_def)
  show ?thesis
    unfolding s using same_day_iff [of now t0] before_next_day [of now t0] by blast
qed

lemma roll_bucket:
  assumes b: "bucket_at t0 dr dt mr mt b"
  shows "bucket_at now (if day_of now = day_of t0 then dr else 0) (if day_of now = day_of t0 then dt else 0)
           (if same_month now t0 then mr else 0) (if same_month now t0 then mt else 0) (quota_rollLocked now b)"
proof -
  define b1 where "b1 = (if day_of now \<noteq> day_of t0
      then b\<lparr>qb_dayStart := dayStart now, qb_dayReqs := 0, qb_dayToks := 0\<rparr> else b)"
  have b1: "qb_monthStart b1 = qb_monthStart b" by (simp add: b1_def)
  have mon: "same_month now (qb_monthStart b) = same_month now t0"
    using b by (auto simp: bucket_at_def same_month_def)
  have mon': "(Month now \<noteq> Month (qb_monthStart b) \<or> Year now \<noteq> Year (qb_monthStart b)) = (\<not> same_month now t0)"
    using mon unfolding same_month_def by blast
  have roll: "quota_rollLocked now b = (if same_month now t0 then b1
      else b1\<lparr>qb_monthStart := monthStart now, qb_monthReqs := 0, qb_monthToks := 0\<rparr>)"
    unfolding quota_rollLocked_def roll_day [OF b] b1_def [symmetric] Let_def b1 mon' by simp
  have ms: "same_month now (monthStart now)" using same_month_start [of now now] by (simp add: same_month_def)
  show ?thesis
  proof (cases "same_month now t0")
    case True
    with mon b show ?thesis unfolding roll bucket_at_def b1_def by (simp add: dayStart_eq)
  next
    case False
    then have "day_of now \<noteq> day_of t0" using same_day_month by blast
    with False b ms show ?thesis unfolding roll bucket_at_def b1_def by simp
  qed
qed

lemma fresh_bucket:
  "map_of m k = None \<Longrightarrow> bucket_at now 0 0 0 0 (quota_getLocked now k m)"
  using same_month_start [of now now] by (simp add: quota_getLocked_def bucket_at_def same_month_def)

text \<open>
  The manager after a log: every bucket holds the logged usage of the day and month it was last
  used in. Token reports of nothing leave no trace.
\<close>

definition counts_usage :: "quota_event \<Rightarrow> bool" where
  "counts_usage e \<longleftrightarrow> 0 < ev_reqs e + ev_toks e"

definition usage_at :: "time \<Rightarrow> string \<Rightarrow> quota_event list \<Rightarrow> quota_bucket \<Rightarrow> bool" where
  "usage_at t0 k es b \<longleftrightarrow>
     bucket_at t0 (logged ev_reqs (\<lambda>t. day_of t = day_of t0) k es) (logged ev_toks (\<lambda>t. day_of t = day_of t0) k es)
       (logged ev_reqs (\<lambda>t. same_month t t0) k es) (logged ev_toks (\<lambda>t. same_month t t0) k es) b"

definition key_inv :: "quota_event list \<Rightarrow> time \<Rightarrow> string \<Rightarrow> quota_bucket option \<Rightarrow> bool" where
  "key_inv es T k ob \<longleftrightarrow> (case ob of
       None \<Rightarrow> (\<forall>e \<in> set es. q_key e = k \<longrightarrow> \<not> counts_usage e)
     | Some b \<Rightarrow> \<exists>t0 \<le> T. (\<forall>e \<in> set es. q_key e = k \<longrightarrow> counts_usage e \<longrightarrow> q_time e \<le> t0) \<and> usage_at t0 k es b)"

definition quota_inv :: "quota_event list \<Rightarrow> time \<Rightarrow> quota_Manager \<Rightarrow> bool" where
  "quota_inv es T m \<longleftrightarrow> (\<forall>k. key_inv es T k (map_of m k))"

lemma key_inv_mono: "key_inv es T k ob \<Longrightarrow> T \<le> T' \<Longrightarrow> key_inv es T' k ob"
  by (cases ob) (auto simp: key_inv_def intro: order_trans)

lemma ineffective: "\<not> counts_usage e \<Longrightarrow> ev_reqs e = 0 \<and> ev_toks e = 0"
  by (cases e) (auto simp: counts_usage_def split: if_splits)

lemma logged_cong:
  assumes "f = ev_reqs \<or> f = ev_toks"
    and "\<And>e. e \<in> set es \<Longrightarrow> q_key e = k \<Longrightarrow> counts_usage e \<Longrightarrow> P (q_time e) = Q (q_time e)"
  shows "logged f P k es = logged f Q k es"
  using assms(2)
proof (induction es rule: rev_induct)
  case (snoc e es)
  have "f e = 0" if "\<not> counts_usage e" using ineffective [OF that] assms(1) by auto
  then show ?case using snoc by auto
qed (simp add: logged_def)

lemma logged_none:
  assumes "f = ev_reqs \<or> f = ev_toks" and "\<And>e. e \<in> set es \<Longrightarrow> q_key e = k \<Longrightarrow> counts_usage e \<Longrightarrow> \<not> P (q_time e)"
  shows "logged f P k es = 0"
  using logged_cong [OF assms(1), of es k P "\<lambda>_. False"] assms(2) by (simp add: logged_def)

lemma same_month_interval: "same_month t u \<Longrightarrow> t \<le> v \<Longrightarrow> v \<le> u \<Longrightarrow> same_month v u"
  unfolding same_month_def using month_interval by blast

lemma same_month_trans: "same_month v u \<Longrightarrow> same_month t v = same_month t u"
  by (simp add: same_month_def)

lemma day_mono: "t \<le> u \<Longrightarrow> day_of t \<le> day_of u"
  unfolding day_of_def by (rule zdiv_mono1) (simp_all add: ns_defs)

text \<open>Rolling forward to \<open>now\<close> gives the usage of the day and month of \<open>now\<close>.\<close>

lemma logged_roll:
  assumes f: "f = ev_reqs \<or> f = ev_toks" and "t0 \<le> now"
    and last: "\<forall>e \<in> set es. q_key e = k \<longrightarrow> counts_usage e \<longrightarrow> q_time e \<le> t0"
  shows "(if day_of now = day_of t0 then logged f (\<lambda>t. day_of t = day_of t0) k es else 0) =
           logged f (\<lambda>t. day_of t = day_of now) k es" (is ?day)
    and "(if same_month now t0 then logged f (\<lambda>t. same_month t t0) k es else 0) =
           logged f (\<lambda>t. same_month t now) k es" (is ?month)
proof -
  have "logged f (\<lambda>t. day_of t = day_of now) k es = 0" if "day_of now \<noteq> day_of t0"
  proof (rule logged_none [OF f])
    fix e assume "e \<in> set es" "q_key e = k" "counts_usage e"
    with last have "q_time e \<le> t0" by blast
    from day_mono [OF this] day_mono [OF assms(2)] that show "day_of (q_time e) \<noteq> day_of now" by simp
  qed
  then show ?day by simp
  have "logged f (\<lambda>t. same_month t now) k es = 0" if "\<not> same_month now t0"
  proof (rule logged_none [OF f], rule notI)
    fix e assume "e \<in> set es" "q_key e = k" "counts_usage e" and m: "same_month (q_time e) now"
    with last have "q_time e \<le> t0" by blast
    from same_month_interval [OF m this assms(2)] that show False by (simp add: same_month_def)
  qed
  then show ?month using same_month_trans [of now t0] by (auto simp: same_month_def)
qed

lemma quota_current:
  assumes inv: "key_inv es T k (map_of m k)" and "T \<le> now"
  shows "usage_at now k es (quota_rollLocked now (quota_getLocked now k m))"
    and "\<forall>e \<in> set es. q_key e = k \<longrightarrow> counts_usage e \<longrightarrow> q_time e \<le> now"
proof -
  have "usage_at now k es (quota_rollLocked now (quota_getLocked now k m))
      \<and> (\<forall>e \<in> set es. q_key e = k \<longrightarrow> counts_usage e \<longrightarrow> q_time e \<le> now)"
  proof (cases "map_of m k")
    case None
    with inv have none: "\<forall>e \<in> set es. q_key e = k \<longrightarrow> \<not> counts_usage e" by (simp add: key_inv_def)
    then have "logged f P k es = 0" if "f = ev_reqs \<or> f = ev_toks" for f P
      using logged_none [OF that] by blast
    with roll_bucket [OF fresh_bucket [OF None, of now], of now] none show ?thesis
      by (simp add: usage_at_def)
  next
    case (Some b)
    with inv obtain t0 where t0: "t0 \<le> T" "\<forall>e \<in> set es. q_key e = k \<longrightarrow> counts_usage e \<longrightarrow> q_time e \<le> t0"
      and b: "usage_at t0 k es b"
      by (auto simp: key_inv_def)
    have le: "t0 \<le> now" using t0(1) assms(2) by simp
    have g: "quota_getLocked now k m = b" using Some by (simp add: quota_getLocked_def)
    from roll_bucket [OF b [unfolded usage_at_def], of now] le t0(2) show ?thesis
      unfolding g usage_at_def logged_roll [OF disjI1 [OF refl] le t0(2)] logged_roll [OF disjI2 [OF refl] le t0(2)]
      by fastforce
  qed
  then show "usage_at now k es (quota_rollLocked now (quota_getLocked now k m))"
    "\<forall>e \<in> set es. q_key e = k \<longrightarrow> counts_usage e \<longrightarrow> q_time e \<le> now" by blast+
qed

lemma bucket_at_add:
  assumes "bucket_at t dr dt mr mt b" "0 \<le> dr" "dr \<le> mr" "0 \<le> dt" "dt \<le> mt" "0 \<le> x"
  shows "mr + x \<le> max_int64 \<Longrightarrow>
      bucket_at t (dr + x) dt (mr + x) mt (b\<lparr>qb_dayReqs := add64 (qb_dayReqs b) x, qb_monthReqs := add64 (qb_monthReqs b) x\<rparr>)"
    and "mt + x \<le> max_int64 \<Longrightarrow>
      bucket_at t dr (dt + x) mr (mt + x) (b\<lparr>qb_dayToks := add64 (qb_dayToks b) x, qb_monthToks := add64 (qb_monthToks b) x\<rparr>)"
  using assms by (auto simp: bucket_at_def add64_id)

definition usage_fits :: "quota_event list \<Rightarrow> bool" where
  "usage_fits es \<longleftrightarrow> (\<forall>k. logged ev_reqs (\<lambda>_. True) k es \<le> max_int64 \<and> logged ev_toks (\<lambda>_. True) k es \<le> max_int64)"

lemma logged_le_all: "f = ev_reqs \<or> f = ev_toks \<Longrightarrow> logged f P k es \<le> logged f (\<lambda>_. True) k es"
  by (rule logged_mono) auto

lemma key_inv_other:
  assumes "key_inv es T k ob" "T \<le> q_time e" "k \<noteq> q_key e \<or> \<not> counts_usage e"
  shows "key_inv (es @ [e]) (q_time e) k ob"
proof -
  have l: "logged f P k (es @ [e]) = logged f P k es" if "f = ev_reqs \<or> f = ev_toks" for f P
    using assms(3) ineffective [of e] that by auto
  have "usage_at t0 k (es @ [e]) b = usage_at t0 k es b" for t0 b
    unfolding usage_at_def by (simp only: l simp_thms)
  then show ?thesis
    using key_inv_mono [OF assms(1,2)] assms(3) by (cases ob) (auto simp: key_inv_def)
qed

lemma quota_inv_own:
  assumes "key_inv es T (q_key e) (map_of m (q_key e))" "T \<le> q_time e" "counts_usage e" "usage_fits (es @ [e])"
  shows "\<exists>b. map_of (quota_apply e m) (q_key e) = Some b \<and> usage_at (q_time e) (q_key e) (es @ [e]) b"
proof -
  let ?k = "q_key e" and ?t = "q_time e"
  note cur = quota_current(1) [OF assms(1,2), unfolded usage_at_def]
  have day_month: "logged f (\<lambda>t. day_of t = day_of ?t) ?k es \<le> logged f (\<lambda>t. same_month t ?t) ?k es"
    if "\<And>e. 0 \<le> f e" for f using that same_day_month by (intro logged_mono) auto
  have fits: "logged f (\<lambda>t. same_month t ?t) ?k (es @ [e]) \<le> max_int64" if "f = ev_reqs \<or> f = ev_toks" for f
  proof -
    have "logged f (\<lambda>_. True) ?k (es @ [e]) \<le> max_int64"
      using assms(4) that unfolding usage_fits_def by blast
    with logged_le_all [OF that, of "\<lambda>t. same_month t ?t" ?k "es @ [e]"] show ?thesis by linarith
  qed
  have self: "same_month ?t ?t" by (simp add: same_month_def)
  note n = logged_nonneg [OF ev_nonneg(1)] day_month [OF ev_nonneg(1)] logged_nonneg [OF ev_nonneg(2)]
    day_month [OF ev_nonneg(2)]
  show ?thesis
  proof (cases e)
    case (QRequest t k)
    from bucket_at_add(1) [OF cur n, of 1] fits [of ev_reqs] self QRequest show ?thesis
      by (simp add: AddRequest_def Let_def usage_at_def)
  next
    case (QTokens t k x)
    with assms(3) have "0 < x" by (simp add: counts_usage_def split: if_splits)
    with bucket_at_add(2) [OF cur n, of x] fits [of ev_toks] self QTokens show ?thesis
      by (simp add: quota_AddTokens_def Let_def usage_at_def)
  qed
qed

lemma quota_apply_other: "k \<noteq> q_key e \<or> \<not> counts_usage e \<Longrightarrow> map_of (quota_apply e m) k = map_of m k"
  by (cases e) (auto simp: AddRequest_def quota_AddTokens_def Let_def counts_usage_def)

lemma quota_step:
  assumes "quota_inv es T m" "T \<le> q_time e" "usage_fits (es @ [e])"
  shows "quota_inv (es @ [e]) (q_time e) (quota_apply e m)"
  unfolding quota_inv_def
proof
  fix k
  have inv: "key_inv es T k (map_of m k)" using assms(1) by (simp add: quota_inv_def)
  show "key_inv (es @ [e]) (q_time e) k (map_of (quota_apply e m) k)"
  proof (cases "k \<noteq> q_key e \<or> \<not> counts_usage e")
    case True
    with key_inv_other [OF inv assms(2) True] quota_apply_other [OF True] show ?thesis by simp
  next
    case False
    then have k: "q_key e = k" "counts_usage e" by auto
    from quota_inv_own [of es T e m, unfolded k(1), OF inv assms(2) k(2) assms(3)] obtain b where
      "map_of (quota_apply e m) k = Some b" "usage_at (q_time e) k (es @ [e]) b" by blast
    moreover have "\<forall>e' \<in> set (es @ [e]). q_key e' = k \<longrightarrow> counts_usage e' \<longrightarrow> q_time e' \<le> q_time e"
      using quota_current(2) [OF inv assms(2)] by simp
    ultimately show ?thesis unfolding key_inv_def by (simp del: set_append) blast
  qed
qed

lemma usage_fits_prefix:
  assumes "usage_fits (es @ [e])"
  shows "usage_fits es"
  unfolding usage_fits_def
proof (rule allI)
  fix k
  have "logged f P k es \<le> logged f P k (es @ [e])" if "f = ev_reqs \<or> f = ev_toks" for f P
    using that by auto
  from this [of ev_reqs "\<lambda>_. True"] this [of ev_toks "\<lambda>_. True"] assms
  show "logged ev_reqs (\<lambda>_. True) k es \<le> max_int64 \<and> logged ev_toks (\<lambda>_. True) k es \<le> max_int64"
    unfolding usage_fits_def by (meson order_trans)
qed

lemma quota_run:
  assumes "sorted (map q_time es)" and "usage_fits es" and "\<forall>e \<in> set es. q_time e \<le> T"
  shows "quota_inv es T (fold quota_apply es quota_New)"
  using assms
proof (induction es arbitrary: T rule: rev_induct)
  case Nil
  then show ?case by (simp add: quota_inv_def key_inv_def quota_New_def)
next
  case (snoc e es)
  have "quota_inv es (q_time e) (fold quota_apply es quota_New)"
    using snoc.prems usage_fits_prefix by (intro snoc.IH) (auto simp: sorted_append)
  from quota_step [OF this order_refl snoc.prems(2)]
  have "quota_inv (es @ [e]) (q_time e) (fold quota_apply (es @ [e]) quota_New)" by simp
  moreover have "q_time e \<le> T" using snoc.prems(3) by simp
  ultimately show ?case unfolding quota_inv_def using key_inv_mono by blast
qed

text \<open>
  C11. The quota counters are the logged usage: after any log of requests and token reports of
  all keys, in the order of the clock and within the range of an int64, the manager reports for a
  key exactly the requests and tokens logged on the UTC calendar day and in the UTC calendar
  month of the moment asked about, across any day, month and year boundaries; and a check passes
  exactly when every configured limit (a limit of 0 is none) is above the logged usage.
\<close>

theorem quota_is_logged_usage:
  assumes "sorted (map q_time es)" and "usage_fits es" and "\<forall>e \<in> set es. q_time e \<le> now"
    and "m = fold quota_apply es quota_New"
    and "dr = logged ev_reqs (\<lambda>t. day_of t = day_of now) k es" and "dt = logged ev_toks (\<lambda>t. day_of t = day_of now) k es"
    and "mr = logged ev_reqs (\<lambda>t. same_month t now) k es" and "mt = logged ev_toks (\<lambda>t. same_month t now) k es"
  shows "fst (Usage now k m) = (dr, dt, mr, mt)
       \<and> (fst (quota_Check now k ld ltd lm ltm m) = [] \<longleftrightarrow>
            (0 < ld \<longrightarrow> dr < ld) \<and> (0 < lm \<longrightarrow> mr < lm) \<and> (0 < ltd \<longrightarrow> dt < ltd) \<and> (0 < ltm \<longrightarrow> mt < ltm))"
proof -
  have "bucket_at now dr dt mr mt (quota_rollLocked now (quota_getLocked now k m))"
    using quota_current(1) [OF quota_run [OF assms(1-3), unfolded quota_inv_def, THEN spec] order_refl, of k] assms(4-8)
    by (simp add: usage_at_def)
  then show ?thesis
    by (simp add: Usage_def quota_Check_def Let_def bucket_at_def not_le)
qed

theorem quota_is_logged_usage_witness:
  "fst (Usage (3 * day_ns) ''k'' (fold quota_apply [QRequest 0 ''k'', QTokens 1 ''k'' 40, QRequest (3 * day_ns) ''k''] quota_New))
     = (1, 0, 2, 40)"
proof -
  let ?es = "[QRequest 0 ''k'', QTokens 1 ''k'' 40, QRequest (3 * day_ns) ''k'']"
  have fits: "usage_fits ?es" by (simp add: usage_fits_def logged_def)
  have sm: "same_month 0 (3 * day_ns)" "same_month 1 (3 * day_ns)" "same_month (3 * day_ns) (3 * day_ns)"
    by (simp_all add: same_month_def Month_def Year_def march_month_def march_year_def day_in_year_def
        day_in_century_def olympiad_def year_in_four_def era_def century_def shifted_def day_of_def ns_defs)
  have d: "day_of 0 = 0" "day_of 1 = 0" "day_of (3 * day_ns) = 3"
    by (simp_all add: day_of_def ns_defs)
  have l: "logged ev_reqs (\<lambda>t. day_of t = day_of (3 * day_ns)) ''k'' ?es = 1"
    "logged ev_toks (\<lambda>t. day_of t = day_of (3 * day_ns)) ''k'' ?es = 0"
    "logged ev_reqs (\<lambda>t. same_month t (3 * day_ns)) ''k'' ?es = 2"
    "logged ev_toks (\<lambda>t. same_month t (3 * day_ns)) ''k'' ?es = 40"
    using d sm by (simp_all add: logged_def)
  have "sorted (map q_time ?es)" "\<forall>e \<in> set ?es. q_time e \<le> 3 * day_ns" by (simp_all add: ns_defs)
  from quota_is_logged_usage [OF this(1) fits this(2) refl l [symmetric]] show ?thesis by simp
qed

end
