(* ===== verification/Queue_Model.thy ===== *)
theory Queue_Model
  imports Slot_Pool
begin

text \<open>
  The request queue, \<^verbatim>\<open>internal/queue/queue.go\<close>. A scope is a semaphore (a buffered channel,
  modelled by the number of tokens in it) and an atomic counter of the callers that are inside
  \<open>Acquire\<close>. Several goroutines run \<open>Acquire\<close> on the same scope at once, so the call is split
  at its atomic actions: the increment of the counter, the size check, the \<open>select\<close>, the
  deferred decrement, and later the release. \<open>queue_step\<close> interleaves any number of callers.
\<close>

record queue_scope =
  qs_sem :: int
  qs_maxSize :: int
  qs_queued :: int
  qs_maxConc :: int
  qs_defaultWait :: int

record queue_Manager =
  qm_scopes :: "queue_scope gomap"
  qm_defaultTimeout :: int
  qm_defaultMaxSize :: int
  qm_defaultMaxConc :: int

datatype queue_error = ErrTimeout | ErrFull | ErrContext

definition millisecond_ns :: int where "millisecond_ns = 1000000"

definition queue_New :: "int \<Rightarrow> int \<Rightarrow> int \<Rightarrow> queue_Manager" where
  "queue_New defaultTimeoutMS defaultMaxSize defaultMaxConc =
     (let t = (if defaultTimeoutMS \<le> 0 then 30000 else defaultTimeoutMS);
          n = (if defaultMaxSize \<le> 0 then 1000 else defaultMaxSize)
      in \<lparr>qm_scopes = [], qm_defaultTimeout = w64 (t * millisecond_ns), qm_defaultMaxSize = n,
          qm_defaultMaxConc = defaultMaxConc\<rparr>)"

definition queue_get :: "string \<Rightarrow> queue_Manager \<Rightarrow> queue_scope \<times> queue_Manager" where
  "queue_get scopeID m =
     (case map_of (qm_scopes m) scopeID of
        Some s \<Rightarrow> (s, m)
      | None \<Rightarrow>
          let maxConc = (if qm_defaultMaxConc m \<le> 0 then 64 else qm_defaultMaxConc m);
              s = \<lparr>qs_sem = 0, qs_maxSize = qm_defaultMaxSize m, qs_queued = 0, qs_maxConc = maxConc,
                   qs_defaultWait = qm_defaultTimeout m\<rparr>
          in (s, m\<lparr>qm_scopes := AList.update scopeID s (qm_scopes m)\<rparr>))"

definition Depth :: "string \<Rightarrow> queue_Manager \<Rightarrow> int" where
  "Depth scopeID m = (case map_of (qm_scopes m) scopeID of None \<Rightarrow> 0 | Some s \<Rightarrow> qs_queued s)"

definition Scopes :: "queue_Manager \<Rightarrow> int gomap" where
  "Scopes m = map (\<lambda>(k, s). (k, qs_queued s)) (qm_scopes m)"

section \<open>The atomic actions of Acquire\<close>

text \<open>Where a caller is; the argument of \<open>Entered\<close> is the value \<open>AddInt64\<close> returned.\<close>

datatype caller =
    Idle
  | Entered int
  | Selecting
  | Leaving "queue_error option"   \<comment> \<open>about to run the deferred decrement; None: the send succeeded\<close>
  | Holding
  | Failed queue_error
  | Released

definition queue_enter :: "queue_scope \<Rightarrow> queue_scope \<times> int" where
  "queue_enter s = (let q = add64 (qs_queued s) 1 in (s\<lparr>qs_queued := q\<rparr>, q))"

definition queue_full :: "queue_scope \<Rightarrow> int \<Rightarrow> bool" where
  "queue_full s queued \<longleftrightarrow> 0 < qs_maxSize s \<and> qs_maxSize s < queued"

definition sem_send :: "queue_scope \<Rightarrow> queue_scope \<times> bool" where
  "sem_send s = (if qs_sem s < qs_maxConc s then (s\<lparr>qs_sem := qs_sem s + 1\<rparr>, True) else (s, False))"

definition sem_receive :: "queue_scope \<Rightarrow> queue_scope" where
  "sem_receive s = s\<lparr>qs_sem := qs_sem s - 1\<rparr>"

definition queue_leave :: "queue_scope \<Rightarrow> queue_scope" where
  "queue_leave s = s\<lparr>qs_queued := add64 (qs_queued s) (- 1)\<rparr>"

definition after_leave :: "queue_error option \<Rightarrow> caller" where
  "after_leave r = (case r of None \<Rightarrow> Holding | Some e \<Rightarrow> Failed e)"

inductive queue_step :: "queue_scope \<times> caller list \<Rightarrow> queue_scope \<times> caller list \<Rightarrow> bool" where
  enter: "i < length cs \<Longrightarrow> cs ! i = Idle \<Longrightarrow> queue_enter s = (s', q) \<Longrightarrow>
    queue_step (s, cs) (s', cs[i := Entered q])"
| full: "i < length cs \<Longrightarrow> cs ! i = Entered q \<Longrightarrow> queue_full s q \<Longrightarrow>
    queue_step (s, cs) (s, cs[i := Leaving (Some ErrFull)])"
| wait: "i < length cs \<Longrightarrow> cs ! i = Entered q \<Longrightarrow> \<not> queue_full s q \<Longrightarrow>
    queue_step (s, cs) (s, cs[i := Selecting])"
| send: "i < length cs \<Longrightarrow> cs ! i = Selecting \<Longrightarrow> sem_send s = (s', True) \<Longrightarrow>
    queue_step (s, cs) (s', cs[i := Leaving None])"
| timeout: "i < length cs \<Longrightarrow> cs ! i = Selecting \<Longrightarrow>
    queue_step (s, cs) (s, cs[i := Leaving (Some ErrTimeout)])"
| cancel: "i < length cs \<Longrightarrow> cs ! i = Selecting \<Longrightarrow>
    queue_step (s, cs) (s, cs[i := Leaving (Some ErrContext)])"
| leave: "i < length cs \<Longrightarrow> cs ! i = Leaving r \<Longrightarrow>
    queue_step (s, cs) (queue_leave s, cs[i := after_leave r])"
| release: "i < length cs \<Longrightarrow> cs ! i = Holding \<Longrightarrow>
    queue_step (s, cs) (sem_receive s, cs[i := Released])"

inductive queue_reach :: "queue_scope \<Rightarrow> nat \<Rightarrow> queue_scope \<times> caller list \<Rightarrow> bool" for s0 n where
  start: "queue_reach s0 n (s0, replicate n Idle)"
| step: "queue_reach s0 n st \<Longrightarrow> queue_step st st' \<Longrightarrow> queue_reach s0 n st'"

inductive_cases queue_stepE: "queue_step (s, cs) st"

section \<open>The semaphore is a slot pool\<close>

definition sem_inv :: "queue_scope \<Rightarrow> bool" where
  "sem_inv s \<longleftrightarrow> 0 \<le> qs_sem s \<and> qs_sem s \<le> qs_maxConc s"

interpretation sem: slot_pool sem_send sem_receive qs_sem qs_maxConc sem_inv
  by unfold_locales (auto simp: sem_send_def sem_receive_def sem_inv_def split: if_splits)

section \<open>Invariants of the interleaving\<close>

definition holds_token :: "caller \<Rightarrow> bool" where
  "holds_token c \<longleftrightarrow> c = Leaving None \<or> c = Holding"

definition is_inside :: "caller \<Rightarrow> bool" where
  "is_inside c \<longleftrightarrow> (case c of Entered q \<Rightarrow> True | Selecting \<Rightarrow> True | Leaving r \<Rightarrow> True | _ \<Rightarrow> False)"

text \<open>Callers that passed, or will pass, the size check and have not finished waiting.\<close>

definition is_accepted :: "int \<Rightarrow> caller \<Rightarrow> bool" where
  "is_accepted maxSize c \<longleftrightarrow> (case c of Entered q \<Rightarrow> q \<le> maxSize | Selecting \<Rightarrow> True | _ \<Rightarrow> False)"

definition tally :: "(caller \<Rightarrow> bool) \<Rightarrow> caller list \<Rightarrow> int" where
  "tally P cs = int (length (filter P cs))"

lemma tally_update:
  assumes "i < length cs"
  shows "tally P (cs[i := c]) = tally P cs - of_bool (P (cs ! i)) + of_bool (P c)"
  using assms
proof (induction cs arbitrary: i)
  case (Cons d ds)
  then show ?case by (cases i) (auto simp: tally_def)
qed simp

lemma tally_bounds: "0 \<le> tally P cs" "tally P cs \<le> int (length cs)"
  by (simp_all add: tally_def)

lemma tally_mono: "(\<And>c. P c \<Longrightarrow> Q c) \<Longrightarrow> tally P cs \<le> tally Q cs"
  by (induction cs) (auto simp: tally_def)

lemma tally_pos: "i < length cs \<Longrightarrow> P (cs ! i) \<Longrightarrow> 0 < tally P cs"
  by (auto simp: tally_def filter_empty_conv)

definition queue_inv :: "queue_scope \<Rightarrow> nat \<Rightarrow> queue_scope \<times> caller list \<Rightarrow> bool" where
  "queue_inv s0 n st \<longleftrightarrow> (case st of (s, cs) \<Rightarrow>
     length cs = n \<and> qs_maxConc s = qs_maxConc s0 \<and> qs_maxSize s = qs_maxSize s0
     \<and> sem_inv s \<and> qs_sem s = tally holds_token cs \<and> qs_queued s = tally is_inside cs
     \<and> tally (is_accepted (qs_maxSize s0)) cs \<le> qs_maxSize s0)"

lemmas caller_defs = holds_token_def is_inside_def is_accepted_def after_leave_def

definition fresh_scope :: "queue_scope \<Rightarrow> bool" where
  "fresh_scope s \<longleftrightarrow> qs_sem s = 0 \<and> qs_queued s = 0 \<and> 0 < qs_maxConc s \<and> 0 < qs_maxSize s"

lemma queue_inv_step:
  assumes inv: "queue_inv s0 n (s, cs)" and n: "int n \<le> max_int64" and max: "0 < qs_maxSize s0"
    and step: "queue_step (s, cs) st'"
  shows "queue_inv s0 n st'"
proof -
  have len: "length cs = n" and q: "qs_queued s = tally is_inside cs" and sem: "sem_inv s"
    and tok: "qs_sem s = tally holds_token cs" and mc: "qs_maxConc s = qs_maxConc s0"
    and ms: "qs_maxSize s = qs_maxSize s0"
    and acc: "tally (is_accepted (qs_maxSize s0)) cs \<le> qs_maxSize s0"
    using inv by (simp_all add: queue_inv_def)
  from step show ?thesis
  proof (elim queue_stepE, goal_cases)
    case (1 i s' q')
    have "tally is_inside (cs[i := Entered q']) = tally is_inside cs + 1"
      using 1 by (simp add: tally_update is_inside_def)
    with tally_bounds [of is_inside "cs[i := Entered q']"] tally_bounds(1) [of is_inside cs] len n
    have q': "add64 (qs_queued s) 1 = qs_queued s + 1" by (simp add: add64_id q)
    have "tally (is_accepted (qs_maxSize s0)) (cs[i := Entered q']) \<le> tally is_inside (cs[i := Entered q'])"
      by (rule tally_mono) (auto simp: caller_defs split: caller.splits)
    with 1 q' acc len q sem tok mc ms show ?thesis
      by (auto simp: queue_inv_def queue_enter_def Let_def tally_update caller_defs sem_inv_def)
  next
    case (2 i q')
    with len q sem tok mc ms acc show ?thesis
      by (auto simp: queue_inv_def tally_update caller_defs)
  next
    case (3 i q')
    with len q sem tok mc ms acc max show ?thesis
      by (auto simp: queue_inv_def tally_update caller_defs queue_full_def)
  next
    case (4 i s')
    with sem.grant [OF sem, of s'] len q tok mc ms acc show ?thesis
      by (auto simp: queue_inv_def tally_update caller_defs sem_send_def split: if_splits)
  next
    case (5 i)
    with len q sem tok mc ms acc show ?thesis
      by (auto simp: queue_inv_def tally_update caller_defs)
  next
    case (6 i)
    with len q sem tok mc ms acc show ?thesis
      by (auto simp: queue_inv_def tally_update caller_defs)
  next
    case (7 i r)
    have "0 < tally is_inside cs" using 7 by (intro tally_pos) (auto simp: is_inside_def)
    with len n tally_bounds(2) [of is_inside cs] q have q': "add64 (qs_queued s) (- 1) = qs_queued s - 1"
      by (subst add64_id) auto
    from 7 q' len q sem tok mc ms acc show ?thesis
      by (cases r) (auto simp: queue_inv_def tally_update caller_defs queue_leave_def sem_inv_def)
  next
    case (8 i)
    have "0 < qs_sem s" using 8 tok by (metis holds_token_def tally_pos)
    with 8 sem.release [OF sem] len q tok mc ms acc show ?thesis
      by (auto simp: queue_inv_def tally_update caller_defs sem_receive_def)
  qed
qed

lemma queue_reach_inv:
  assumes "queue_reach s0 n st" and "fresh_scope s0" and "int n \<le> max_int64"
  shows "queue_inv s0 n st"
  using assms(1)
proof (induction rule: queue_reach.induct)
  case start
  show ?case
    using assms(2) by (simp add: queue_inv_def fresh_scope_def sem_inv_def tally_def caller_defs)
next
  case (step st st')
  then show ?case
    using queue_inv_step [of s0 n "fst st" "snd st" st'] assms(2,3) by (simp add: fresh_scope_def)
qed

text \<open>
  C12. The queue bounds what it promises to bound: in every reachable state of any number of
  concurrent callers of one scope, at most \<open>maxConc\<close> callers hold a slot, at most \<open>maxSize\<close>
  callers wait for one, the channel holds exactly as many tokens as callers hold slots, the
  depth counter is exactly the number of callers inside \<open>Acquire\<close>, and a caller that has not
  finished can always take a step, so nobody waits for ever.
\<close>

theorem queue_safe:
  assumes "queue_reach s0 n (s, cs)" and "fresh_scope s0" and "int n \<le> max_int64"
  shows "tally (\<lambda>c. c = Holding) cs \<le> qs_maxConc s0
       \<and> tally (\<lambda>c. c = Selecting) cs \<le> qs_maxSize s0
       \<and> qs_sem s = tally holds_token cs \<and> qs_queued s = tally is_inside cs
       \<and> (\<forall>i < length cs. (\<exists>e. cs ! i = Failed e) \<or> cs ! i = Released \<or>
            (\<exists>s' c. queue_step (s, cs) (s', cs[i := c]) \<and> c \<noteq> cs ! i))"
proof -
  from queue_reach_inv [OF assms] have inv: "queue_inv s0 n (s, cs)" .
  have "tally (\<lambda>c. c = Holding) cs \<le> tally holds_token cs"
    by (rule tally_mono) (simp add: holds_token_def)
  moreover have "tally (\<lambda>c. c = Selecting) cs \<le> tally (is_accepted (qs_maxSize s0)) cs"
    by (rule tally_mono) (simp add: is_accepted_def)
  moreover have "(\<exists>e. cs ! i = Failed e) \<or> cs ! i = Released \<or>
      (\<exists>s' c. queue_step (s, cs) (s', cs[i := c]) \<and> c \<noteq> cs ! i)" if i: "i < length cs" for i
  proof (cases "cs ! i")
    case Idle
    with queue_step.enter [OF i Idle] show ?thesis by (cases "queue_enter s") fastforce
  next
    case (Entered q)
    with queue_step.full [OF i Entered] queue_step.wait [OF i Entered] show ?thesis by fastforce
  next
    case Selecting
    with queue_step.timeout [OF i Selecting] show ?thesis by fastforce
  next
    case (Leaving r)
    with queue_step.leave [OF i Leaving, of s] show ?thesis
      by (cases r) (fastforce simp: after_leave_def)+
  next
    case Holding
    with queue_step.release [OF i Holding, of s] show ?thesis by fastforce
  qed simp_all
  ultimately show ?thesis using inv by (auto simp: queue_inv_def sem_inv_def)
qed

theorem queue_safe_witness:
  "tally (\<lambda>c. c = Holding) (replicate 3 Idle)
     \<le> qs_maxConc (fst (queue_get ''m'' (queue_New 0 0 2)))"
  using queue_safe [of "fst (queue_get ''m'' (queue_New 0 0 2))" 3, OF queue_reach.start]
  by (simp add: fresh_scope_def queue_get_def queue_New_def Let_def)

fun caller_rank :: "caller \<Rightarrow> nat" where
  "caller_rank Idle = 5"
| "caller_rank (Entered q) = 4"
| "caller_rank Selecting = 3"
| "caller_rank (Leaving r) = 2"
| "caller_rank Holding = 1"
| "caller_rank (Failed e) = 0"
| "caller_rank Released = 0"

lemma rank_update:
  "i < length cs \<Longrightarrow> caller_rank c < caller_rank (cs ! i) \<Longrightarrow>
     sum_list (map caller_rank (cs[i := c])) < sum_list (map caller_rank cs)"
proof (induction cs arbitrary: i)
  case (Cons d ds)
  then show ?case by (cases i) auto
qed simp

lemma queue_step_rank:
  "queue_step st st' \<Longrightarrow> sum_list (map caller_rank (snd st')) < sum_list (map caller_rank (snd st))"
  by (induction rule: queue_step.induct)
     (auto intro!: rank_update simp: after_leave_def split: option.split)

text \<open>
  C13. A slot comes back: \<open>Acquire\<close> takes each caller through at most five actions (so with
  finitely many callers every interleaving is finite), and when all callers have finished, the
  semaphore is empty and the depth is zero again.
\<close>

theorem queue_drains:
  assumes "queue_reach s0 n (s, cs)" and "fresh_scope s0" and "int n \<le> max_int64"
  shows "(\<forall>st'. queue_step (s, cs) st' \<longrightarrow>
            sum_list (map caller_rank (snd st')) < sum_list (map caller_rank cs))
       \<and> ((\<nexists>st'. queue_step (s, cs) st') \<longrightarrow> qs_sem s = 0 \<and> qs_queued s = 0)"
proof (intro conjI allI impI)
  fix st' assume "queue_step (s, cs) st'"
  from queue_step_rank [OF this] show "sum_list (map caller_rank (snd st')) < sum_list (map caller_rank cs)"
    by simp
next
  assume stuck: "\<nexists>st'. queue_step (s, cs) st'"
  have "\<not> holds_token c \<and> \<not> is_inside c" if cin: "c \<in> set cs" for c
  proof -
    obtain i where i: "i < length cs" "cs ! i = c" using cin unfolding in_set_conv_nth by blast
    show ?thesis
      using stuck i queue_step.release [OF i(1), of s] queue_step.leave [OF i(1), of _ s]
        queue_step.timeout [OF i(1), of s] queue_step.full [OF i(1), of _ s] queue_step.wait [OF i(1), of _ s]
      by (cases c) (auto simp: holds_token_def is_inside_def)
  qed
  then have "tally holds_token cs = 0" "tally is_inside cs = 0" by (auto simp: tally_def)
  with queue_reach_inv [OF assms] show "qs_sem s = 0" "qs_queued s = 0" by (simp_all add: queue_inv_def)
qed

theorem queue_drains_witness:
  "queue_step (fst (queue_get ''m'' (queue_New 0 0 2)), [Idle])
     (fst (queue_enter (fst (queue_get ''m'' (queue_New 0 0 2)))), [Entered 1])
   \<and> sum_list (map caller_rank [Entered 1]) < sum_list (map caller_rank [Idle])"
proof -
  let ?s = "fst (queue_get ''m'' (queue_New 0 0 2))"
  have e: "queue_enter ?s = (fst (queue_enter ?s), 1)"
    by (simp add: queue_enter_def queue_get_def queue_New_def Let_def add64_def w64_def)
  have st: "queue_step (?s, [Idle]) (fst (queue_enter ?s), [Entered 1])"
    using queue_step.enter [of 0 "[Idle]", OF _ _ e] by simp
  have "queue_reach ?s 1 (?s, [Idle])" using queue_reach.start [of ?s 1] by simp
  with queue_drains [of ?s 1 ?s "[Idle]"] st show ?thesis
    by (auto simp: fresh_scope_def queue_get_def queue_New_def Let_def)
qed

end
