(* ===== verification/Capability_Model.thy ===== *)
theory Capability_Model
  imports Go_Strings
begin

text \<open>
  Capability checks, \<^verbatim>\<open>internal/capability/capability.go\<close>: whether a request body uses tools,
  images or reasoning fields that the model does not support. The JSON decoder is an argument:
  \<open>js_object\<close> decodes a body into the raw values of its top-level fields and \<open>js_messages\<close>
  into the raw entries of its \<open>messages\<close> array; both fail on malformed JSON.
\<close>

record json_ops =
  js_object :: "string \<Rightarrow> string gomap option"
  js_messages :: "string \<Rightarrow> string list option"

definition cap_of :: "bool gomap \<Rightarrow> string \<Rightarrow> bool \<Rightarrow> bool" where
  "cap_of caps key unsetMeansAllow =
     (case map_of caps key of Some v \<Rightarrow> v | None \<Rightarrow> unsetMeansAllow)"

definition hasTopLevel :: "json_ops \<Rightarrow> string \<Rightarrow> string \<Rightarrow> bool" where
  "hasTopLevel js body key =
     (case js_object js body of
        None \<Rightarrow> False
      | Some m \<Rightarrow>
          (case map_of m key of
             None \<Rightarrow> False
           | Some v \<Rightarrow> let trimmed = TrimSpace v in trimmed \<noteq> [] \<and> trimmed \<noteq> ''null''))"

fun any_contains :: "string list \<Rightarrow> string \<Rightarrow> bool" where
  "any_contains [] needle = False"
| "any_contains (m # ms) needle = (if Contains m needle then True else any_contains ms needle)"

definition referencesImage :: "json_ops \<Rightarrow> string \<Rightarrow> bool" where
  "referencesImage js body =
     (case js_messages js body of
        None \<Rightarrow> False
      | Some ms \<Rightarrow> any_contains ms (char_of (34::nat) # ''image_url'' @ [char_of (34::nat)]))"

definition checkDeclared :: "json_ops \<Rightarrow> bool \<Rightarrow> bool gomap \<Rightarrow> string \<Rightarrow> string" where
  "checkDeclared js strict caps body =
     (if \<not> strict \<and> caps = [] then []
      else let usesTools = hasTopLevel js body ''tools'' \<or> hasTopLevel js body ''tool_choice'';
               usesVision = referencesImage js body;
               usesThinking = hasTopLevel js body ''reasoning_effort'' \<or> hasTopLevel js body ''thinking_budget''
                 \<or> hasTopLevel js body ''enable_thinking''
           in if usesTools \<and> \<not> cap_of caps ''tool_call'' (\<not> strict) then ''tool_call_not_supported''
              else if usesVision \<and> \<not> cap_of caps ''vision'' (\<not> strict) then ''vision_not_supported''
              else if usesThinking \<and> \<not> cap_of caps ''thinking'' (\<not> strict) then ''thinking_not_supported''
              else [])"

definition capability_Check :: "json_ops \<Rightarrow> string \<Rightarrow> bool gomap \<Rightarrow> string \<Rightarrow> string" where
  "capability_Check js mode caps body =
     (if mode = [] \<or> mode = ''passthrough'' then []
      else if mode = ''declared'' \<or> mode = ''strict'' then checkDeclared js (mode = ''strict'') caps body
      else [])"

section \<open>What the modes mean\<close>

text \<open>A capability a request uses, named as in the model's capability map.\<close>

definition uses :: "json_ops \<Rightarrow> string \<Rightarrow> string \<Rightarrow> bool" where
  "uses js body c =
     (if c = ''tool_call'' then hasTopLevel js body ''tools'' \<or> hasTopLevel js body ''tool_choice''
      else if c = ''vision'' then referencesImage js body
      else if c = ''thinking'' then hasTopLevel js body ''reasoning_effort'' \<or> hasTopLevel js body ''thinking_budget''
        \<or> hasTopLevel js body ''enable_thinking''
      else False)"

lemma all_uses:
  "(\<forall>c. uses js body c \<longrightarrow> P c) \<longleftrightarrow>
     (uses js body ''tool_call'' \<longrightarrow> P ''tool_call'') \<and> (uses js body ''vision'' \<longrightarrow> P ''vision'')
     \<and> (uses js body ''thinking'' \<longrightarrow> P ''thinking'')"
proof (intro iffI allI impI; (elim conjE)?)
  fix c
  assume P: "uses js body ''tool_call'' \<longrightarrow> P ''tool_call''" "uses js body ''vision'' \<longrightarrow> P ''vision''"
    "uses js body ''thinking'' \<longrightarrow> P ''thinking''" and u: "uses js body c"
  from u have "c = ''tool_call'' \<or> c = ''vision'' \<or> c = ''thinking''"
    unfolding uses_def by (metis (full_types))
  with P u show "P c" by (elim disjE) simp_all
qed simp

text \<open>
  The capability modes mean what the package documents: in \<open>declared\<close> mode a request
  passes exactly when no capability it uses is declared false, in \<open>strict\<close> mode exactly when
  every capability it uses is declared true, and in every other mode it always passes.
\<close>

theorem capability_modes:
  "(capability_Check js ''declared'' caps body = [] \<longleftrightarrow>
      (\<forall>c. uses js body c \<longrightarrow> map_of caps c \<noteq> Some False))
   \<and> (capability_Check js ''strict'' caps body = [] \<longleftrightarrow>
      (\<forall>c. uses js body c \<longrightarrow> map_of caps c = Some True))
   \<and> (mode \<noteq> ''declared'' \<and> mode \<noteq> ''strict'' \<longrightarrow> capability_Check js mode caps body = [])"
proof -
  have cap: "cap_of caps c True \<longleftrightarrow> map_of caps c \<noteq> Some False" "cap_of caps c False \<longleftrightarrow> map_of caps c = Some True" for c
    by (auto simp: cap_of_def split: option.split)
  have eq: "checkDeclared js strict caps body =
      (if \<not> strict \<and> caps = [] then []
       else if uses js body ''tool_call'' \<and> \<not> cap_of caps ''tool_call'' (\<not> strict) then ''tool_call_not_supported''
       else if uses js body ''vision'' \<and> \<not> cap_of caps ''vision'' (\<not> strict) then ''vision_not_supported''
       else if uses js body ''thinking'' \<and> \<not> cap_of caps ''thinking'' (\<not> strict) then ''thinking_not_supported''
       else [])" for strict
    by (simp add: checkDeclared_def uses_def Let_def)
  have "capability_Check js ''declared'' caps body = [] \<longleftrightarrow> (\<forall>c. uses js body c \<longrightarrow> map_of caps c \<noteq> Some False)"
    unfolding all_uses capability_Check_def eq by (cases "caps = []") (simp_all add: cap)
  moreover have "capability_Check js ''strict'' caps body = [] \<longleftrightarrow> (\<forall>c. uses js body c \<longrightarrow> map_of caps c = Some True)"
    unfolding all_uses by (simp add: capability_Check_def eq cap)
  ultimately show ?thesis by (simp add: capability_Check_def)
qed

definition example_json :: json_ops where
  "example_json = \<lparr>js_object = \<lambda>b. Some [(''tools'', b)], js_messages = \<lambda>b. Some []\<rparr>"

theorem capability_modes_witness:
  "capability_Check example_json ''gpt'' [(''tool_call'', False)] ''[1]'' = []
   \<and> capability_Check example_json ''declared'' [(''tool_call'', False)] ''[1]'' \<noteq> []"
proof -
  have "TrimSpace ''[1]'' = ''[1]''" by (simp add: TrimSpace_id printing_def)
  then have "uses example_json ''[1]'' ''tool_call''"
    by (simp add: uses_def hasTopLevel_def example_json_def Let_def)
  moreover note m = capability_modes [of example_json "[(''tool_call'', False)]" "''[1]''" "''gpt''"]
  moreover have "map_of [(''tool_call'', False)] ''tool_call'' = Some False" by simp
  ultimately have "capability_Check example_json ''declared'' [(''tool_call'', False)] ''[1]'' \<noteq> []"
    using m [THEN conjunct1] by metis
  with m [THEN conjunct2, THEN conjunct2] show ?thesis by simp
qed

end
