(* ===== verification/Netutil_Model.thy ===== *)
theory Netutil_Model
  imports Go_Strings
begin

text \<open>
  Client addresses, \<^verbatim>\<open>internal/netutil/clientip.go\<close>. Addresses and networks are values of the
  \<open>net\<close> package, reached through the operations \<open>net_ops\<close>: parsing and printing an address,
  parsing a CIDR, membership, and splitting host and port. The lemmas hold for every choice of
  these operations. A request is its peer address, its path and its headers, given by what
  \<open>Header.Get\<close> returns.
\<close>

record ('i, 'n) net_ops =
  net_ParseIP :: "string \<Rightarrow> 'i option"
  net_String :: "'i \<Rightarrow> string"
  net_Is4 :: "'i \<Rightarrow> bool"
  net_EqualIP :: "'i \<Rightarrow> 'i \<Rightarrow> bool"
  net_ParseCIDR :: "string \<Rightarrow> 'n option"
  net_Contains :: "'n \<Rightarrow> 'i \<Rightarrow> bool"
  net_SplitHostPort :: "string \<Rightarrow> (string \<times> string) option"

record http_request =
  rq_RemoteAddr :: string
  rq_Path :: string
  rq_Header :: "string \<Rightarrow> string"

fun NewExtractor :: "('i, 'n) net_ops \<Rightarrow> string list \<Rightarrow> 'n list" where
  "NewExtractor net [] = []"
| "NewExtractor net (t0 # ts) =
     (let rest = NewExtractor net ts; t = TrimSpace t0 in
      if t = [] then rest
      else case (if \<not> Contains t ''/'' then
                   (case net_ParseIP net t of
                      None \<Rightarrow> None
                    | Some ip \<Rightarrow> if net_Is4 net ip then Some (t @ ''/32'') else Some (t @ ''/128''))
                 else Some t) of
             None \<Rightarrow> rest
           | Some c \<Rightarrow> (case net_ParseCIDR net c of None \<Rightarrow> rest | Some n \<Rightarrow> n # rest))"

fun any_net :: "('i, 'n) net_ops \<Rightarrow> 'n list \<Rightarrow> 'i \<Rightarrow> bool" where
  "any_net net [] ip = False"
| "any_net net (n # ns) ip = (if net_Contains net n ip then True else any_net net ns ip)"

text \<open>A nil extractor is one without trusted networks: both trust nobody.\<close>

definition isTrustedIP :: "('i, 'n) net_ops \<Rightarrow> 'n list \<Rightarrow> string \<Rightarrow> bool" where
  "isTrustedIP net trusted ipStr =
     (if trusted = [] \<or> ipStr = [] then False
      else case net_ParseIP net ipStr of None \<Rightarrow> False | Some ip \<Rightarrow> any_net net trusted ip)"

fun MatchAny_loop :: "('i, 'n) net_ops \<Rightarrow> 'i \<Rightarrow> string list \<Rightarrow> bool" where
  "MatchAny_loop net ip [] = False"
| "MatchAny_loop net ip (raw0 # rest) =
     (let raw = TrimSpace raw0 in
      if raw = [] then MatchAny_loop net ip rest
      else if \<not> Contains raw ''/'' then
        (case net_ParseIP net raw of
           None \<Rightarrow> MatchAny_loop net ip rest
         | Some other \<Rightarrow> if net_EqualIP net other ip then True else MatchAny_loop net ip rest)
      else (case net_ParseCIDR net raw of
              None \<Rightarrow> MatchAny_loop net ip rest
            | Some n \<Rightarrow> if net_Contains net n ip then True else MatchAny_loop net ip rest))"

definition MatchAny :: "('i, 'n) net_ops \<Rightarrow> string \<Rightarrow> string list \<Rightarrow> bool" where
  "MatchAny net ipStr list =
     (if ipStr = [] \<or> list = [] then False
      else case net_ParseIP net ipStr of None \<Rightarrow> False | Some ip \<Rightarrow> MatchAny_loop net ip list)"

definition remoteIP :: "('i, 'n) net_ops \<Rightarrow> string \<Rightarrow> string" where
  "remoteIP net remoteAddr =
     (if remoteAddr = [] then []
      else case net_SplitHostPort net remoteAddr of
             Some (host, _) \<Rightarrow>
               (case net_ParseIP net host of Some ip \<Rightarrow> net_String net ip | None \<Rightarrow> host)
           | None \<Rightarrow>
               (case net_ParseIP net remoteAddr of Some ip \<Rightarrow> net_String net ip | None \<Rightarrow> remoteAddr))"

fun forwarded_entries :: "('i, 'n) net_ops \<Rightarrow> string list \<Rightarrow> string list" where
  "forwarded_entries net [] = []"
| "forwarded_entries net (p # ps) =
     (let rest = forwarded_entries net ps; s0 = TrimSpace p in
      if s0 = [] then rest
      else let s = (case net_SplitHostPort net s0 of Some (host, _) \<Rightarrow> host | None \<Rightarrow> s0)
           in case net_ParseIP net s of Some ip \<Rightarrow> net_String net ip # rest | None \<Rightarrow> rest)"

definition splitForwardedFor :: "('i, 'n) net_ops \<Rightarrow> string \<Rightarrow> string list" where
  "splitForwardedFor net header =
     (if header = [] then [] else forwarded_entries net (Split header (CHR '','')))"

text \<open>The scan from the right; its argument is the reversed chain.\<close>

fun rightmost_untrusted :: "('i, 'n) net_ops \<Rightarrow> 'n list \<Rightarrow> string list \<Rightarrow> string option" where
  "rightmost_untrusted net trusted [] = None"
| "rightmost_untrusted net trusted (ip # ips) =
     (if ip = [] then rightmost_untrusted net trusted ips
      else if isTrustedIP net trusted ip then rightmost_untrusted net trusted ips
      else Some ip)"

definition ClientIP :: "('i, 'n) net_ops \<Rightarrow> 'n list \<Rightarrow> http_request \<Rightarrow> string" where
  "ClientIP net trusted r =
     (let peer = remoteIP net (rq_RemoteAddr r) in
      if \<not> isTrustedIP net trusted peer then peer
      else case rightmost_untrusted net trusted (rev (splitForwardedFor net (rq_Header r ''X-Forwarded-For''))) of
             Some ip \<Rightarrow> ip
           | None \<Rightarrow>
               let real_ip = TrimSpace (rq_Header r ''X-Real-IP'') in
               if real_ip \<noteq> [] then
                 (case net_ParseIP net real_ip of
                    Some parsed \<Rightarrow> if \<not> isTrustedIP net trusted (net_String net parsed)
                                   then net_String net parsed else peer
                  | None \<Rightarrow> peer)
               else peer)"

section \<open>Spoofing\<close>

lemma Split_append_sep: "Split (a @ c # b) c = Split a c @ Split b c"
proof (induction a)
  case (Cons x a)
  then show ?case by (cases "Split a c") (auto split: list.split)
qed simp

lemma forwarded_entries_append:
  "forwarded_entries net (xs @ ys) = forwarded_entries net xs @ forwarded_entries net ys"
  by (induction xs) (auto simp: Let_def split: option.split prod.split)

lemma TrimSpace_Nil [simp]: "TrimSpace [] = []"
  by (simp add: TrimSpace_def)

lemma splitForwardedFor_entries: "splitForwardedFor net h = forwarded_entries net (Split h (CHR '',''))"
  by (simp add: splitForwardedFor_def)

lemma splitForwardedFor_append:
  "splitForwardedFor net (a @ CHR '','' # b) = splitForwardedFor net a @ splitForwardedFor net b"
  by (simp add: splitForwardedFor_entries Split_append_sep forwarded_entries_append)

lemma rightmost_untrusted_append:
  "rightmost_untrusted net trusted (xs @ ys) =
     (case rightmost_untrusted net trusted xs of Some ip \<Rightarrow> Some ip | None \<Rightarrow> rightmost_untrusted net trusted ys)"
  by (induction xs) auto

lemma rightmost_untrusted_some:
  "rightmost_untrusted net trusted xs = Some ip \<Longrightarrow> ip \<in> set xs \<and> ip \<noteq> [] \<and> \<not> isTrustedIP net trusted ip"
  by (induction xs) (auto split: if_splits)

lemma rightmost_untrusted_exists:
  "ip \<in> set xs \<Longrightarrow> ip \<noteq> [] \<Longrightarrow> \<not> isTrustedIP net trusted ip \<Longrightarrow> rightmost_untrusted net trusted xs \<noteq> None"
  by (induction xs) auto

text \<open>
  C30. A client cannot choose the address the gateway believes: when the peer is not a trusted
  proxy, the result does not depend on any header; when it is, and the part of X-Forwarded-For
  that the trusted proxies appended names an address that is not one of them, then anything the
  client put in front of that part is ignored and the result is an untrusted address of that
  part.
\<close>

theorem ClientIP_not_spoofable:
  "(\<not> isTrustedIP net trusted (remoteIP net (rq_RemoteAddr r)) \<longrightarrow>
      ClientIP net trusted (r\<lparr>rq_Header := h\<rparr>) = remoteIP net (rq_RemoteAddr r))
   \<and> (isTrustedIP net trusted (remoteIP net (rq_RemoteAddr r)) \<longrightarrow>
      h ''X-Forwarded-For'' = forged @ CHR '','' # appended \<longrightarrow>
      (\<exists>ip \<in> set (splitForwardedFor net appended). ip \<noteq> [] \<and> \<not> isTrustedIP net trusted ip) \<longrightarrow>
      ClientIP net trusted (r\<lparr>rq_Header := h\<rparr>) =
        ClientIP net trusted (r\<lparr>rq_Header := h(''X-Forwarded-For'' := appended)\<rparr>)
      \<and> ClientIP net trusted (r\<lparr>rq_Header := h\<rparr>) \<in> set (splitForwardedFor net appended)
      \<and> \<not> isTrustedIP net trusted (ClientIP net trusted (r\<lparr>rq_Header := h\<rparr>)))"
proof (intro conjI impI)
  assume "\<not> isTrustedIP net trusted (remoteIP net (rq_RemoteAddr r))"
  then show "ClientIP net trusted (r\<lparr>rq_Header := h\<rparr>) = remoteIP net (rq_RemoteAddr r)"
    by (simp add: ClientIP_def)
next
  assume t: "isTrustedIP net trusted (remoteIP net (rq_RemoteAddr r))"
    and h: "h ''X-Forwarded-For'' = forged @ CHR '','' # appended"
    and ex: "\<exists>ip \<in> set (splitForwardedFor net appended). ip \<noteq> [] \<and> \<not> isTrustedIP net trusted ip"
  obtain ip where ip: "rightmost_untrusted net trusted (rev (splitForwardedFor net appended)) = Some ip"
    using ex rightmost_untrusted_exists [of _ "rev (splitForwardedFor net appended)"] by fastforce
  have full: "ClientIP net trusted (r\<lparr>rq_Header := h\<rparr>) = ip"
    using t h ip by (simp add: ClientIP_def splitForwardedFor_append rightmost_untrusted_append)
  moreover have "ClientIP net trusted (r\<lparr>rq_Header := h(''X-Forwarded-For'' := appended)\<rparr>) = ip"
    using t ip by (simp add: ClientIP_def)
  ultimately show "ClientIP net trusted (r\<lparr>rq_Header := h\<rparr>) =
      ClientIP net trusted (r\<lparr>rq_Header := h(''X-Forwarded-For'' := appended)\<rparr>)" by simp
  from rightmost_untrusted_some [OF ip] full
  show "ClientIP net trusted (r\<lparr>rq_Header := h\<rparr>) \<in> set (splitForwardedFor net appended)"
    "\<not> isTrustedIP net trusted (ClientIP net trusted (r\<lparr>rq_Header := h\<rparr>))" by simp_all
qed

text \<open>A concrete network: addresses are strings, and one network holds a single address.\<close>

definition example_net :: "(string, string) net_ops" where
  "example_net = \<lparr>net_ParseIP = Some, net_String = id, net_Is4 = (\<lambda>_. True), net_EqualIP = (=),
     net_ParseCIDR = Some, net_Contains = (=), net_SplitHostPort = (\<lambda>_. None)\<rparr>"

theorem ClientIP_not_spoofable_witness:
  "ClientIP example_net [''p''] \<lparr>rq_RemoteAddr = ''p'', rq_Path = [], rq_Header = (\<lambda>_. ''x,c,p'')\<rparr> = ''c''"
proof -
  let ?r = "\<lparr>rq_RemoteAddr = ''p'', rq_Path = [], rq_Header = (\<lambda>_. ''x,c,p'')\<rparr>"
  have ts: "TrimSpace ''c'' = ''c''" "TrimSpace ''p'' = ''p''"
    by (simp_all add: TrimSpace_id printing_def)
  then have s: "splitForwardedFor example_net ''c,p'' = [''c'', ''p'']"
    by (simp add: splitForwardedFor_def example_net_def)
  have t: "isTrustedIP example_net [''p''] (remoteIP example_net ''p'')" "\<not> isTrustedIP example_net [''p''] ''c''"
    "isTrustedIP example_net [''p''] ''p''"
    by (simp_all add: isTrustedIP_def remoteIP_def example_net_def)
  note k = ClientIP_not_spoofable [of example_net "[''p'']" ?r "\<lambda>_. ''x,c,p''" "''x''" "''c,p''",
      THEN conjunct2, THEN mp, THEN mp, THEN mp, THEN conjunct2]
  have "ClientIP example_net [''p''] (?r\<lparr>rq_Header := \<lambda>_. ''x,c,p''\<rparr>) \<in> set (splitForwardedFor example_net ''c,p'')
      \<and> \<not> isTrustedIP example_net [''p''] (ClientIP example_net [''p''] (?r\<lparr>rq_Header := \<lambda>_. ''x,c,p''\<rparr>))"
    by (rule k) (use t s in simp_all)
  with s t(3) show ?thesis by auto
qed

end
