(* ===== verification/Auth_Model.thy ===== *)
theory Auth_Model
  imports Store_Invariant Netutil_Model
begin

text \<open>
  The API-key middleware of the data plane, \<^verbatim>\<open>internal/auth/middleware.go\<close>. The request is
  given by its headers and peer address, the catalog by the store; the clock and the keyed hash
  are arguments. The result says whether the next handler runs (and with which key and client
  address in its context) or which error is written; \<open>logReject\<close> appends a log entry with the
  same status, code and key.
\<close>

section \<open>The data plane\<close>

datatype auth_result =
    Rejected int string string "addr option"  \<comment> \<open>status, code, message, key of the log entry\<close>
  | Passed "addr option" string               \<comment> \<open>key in the context, client address\<close>

record Authenticator =
  an_header :: string
  an_prefix :: string

definition auth_New :: "string \<Rightarrow> string \<Rightarrow> Authenticator" where
  "auth_New header prefix =
     \<lparr>an_header = (if header = [] then ''Authorization'' else header),
      an_prefix = (if prefix = [] then ''Bearer '' else prefix)\<rparr>"

definition extractKey :: "Authenticator \<Rightarrow> http_request \<Rightarrow> string \<times> bool" where
  "extractKey a r =
     (let raw = rq_Header r (an_header a) in
      if raw = [] then ([], True)
      else if an_prefix a = [] then (TrimSpace raw, True)
      else if \<not> HasPrefix raw (an_prefix a) then ([], False)
      else (TrimSpace (TrimPrefix raw (an_prefix a)), True))"

text \<open>
  \<open>ext\<close> is the extractor (\<open>None\<close>: not wired), \<open>needs\<close> whether the matcher asks for a key.
\<close>

definition auth_Middleware ::
    "(string \<Rightarrow> string \<Rightarrow> string) \<Rightarrow> ('i, 'n) net_ops \<Rightarrow> 'n list option \<Rightarrow> Authenticator \<Rightarrow> bool \<Rightarrow> time
     \<Rightarrow> Store \<Rightarrow> http_request \<Rightarrow> auth_result" where
  "auth_Middleware hmac net ext a needs now s r =
     (let clientIP = (case ext of None \<Rightarrow> [] | Some trusted \<Rightarrow> ClientIP net trusted r) in
      if \<not> needs then Passed None clientIP
      else case extractKey a r of (raw, prefixOK) \<Rightarrow>
        if \<not> prefixOK then
          Rejected 401 ''invalid_api_key'' ''Authorization header must use the configured prefix'' None
        else if raw = [] then
          Rejected 401 ''invalid_api_key'' (''Missing API key in '' @ an_header a @ '' header'') None
        else (case APIKeyByRaw hmac raw s of
                None \<Rightarrow> Rejected 401 ''invalid_api_key'' ''Invalid API key'' None
              | Some p \<Rightarrow>
                  let key = s_kheap s p in
                  if \<not> k_Enabled key then
                    Rejected 401 ''invalid_api_key'' ''API key is disabled'' (Some p)
                  else if (case k_ExpiresAt key of None \<Rightarrow> False | Some e \<Rightarrow> e < now) then
                    Rejected 401 ''invalid_api_key'' ''API key has expired'' (Some p)
                  else if k_DeniedClientIPs key \<noteq> [] \<and> MatchAny net clientIP (k_DeniedClientIPs key) then
                    Rejected 403 ''client_ip_not_allowed'' ''Client IP is not allowed for this API key'' (Some p)
                  else if k_AllowedClientIPs key \<noteq> [] \<and> \<not> MatchAny net clientIP (k_AllowedClientIPs key) then
                    Rejected 403 ''client_ip_not_allowed'' ''Client IP is not allowed for this API key'' (Some p)
                  else Passed (Some p) clientIP))"

lemma auth_Passed:
  assumes "clientIP = (case ext of None \<Rightarrow> [] | Some trusted \<Rightarrow> ClientIP net trusted r)"
  shows "(auth_Middleware hmac net ext a True now s r = Passed (Some p) ip \<longleftrightarrow>
      ip = clientIP
      \<and> (\<exists>raw. extractKey a r = (raw, True) \<and> raw \<noteq> [] \<and> APIKeyByRaw hmac raw s = Some p)
      \<and> k_Enabled (s_kheap s p)
      \<and> (\<forall>e. k_ExpiresAt (s_kheap s p) = Some e \<longrightarrow> now \<le> e)
      \<and> \<not> MatchAny net clientIP (k_DeniedClientIPs (s_kheap s p))
      \<and> (k_AllowedClientIPs (s_kheap s p) = [] \<or> MatchAny net clientIP (k_AllowedClientIPs (s_kheap s p))))
    \<and> auth_Middleware hmac net ext a True now s r \<noteq> Passed None ip"
proof -
  have empty: "MatchAny net ip [] = False" for ip by (simp add: MatchAny_def)
  obtain raw ok where e: "extractKey a r = (raw, ok)" by (cases "extractKey a r")
  show ?thesis
  proof (cases "ok \<and> raw \<noteq> []")
    case False
    then show ?thesis using e by (cases ok) (simp_all add: auth_Middleware_def Let_def)
  next
    case True
    show ?thesis
    proof (cases "APIKeyByRaw hmac raw s")
      case None
      with True e show ?thesis by (simp add: auth_Middleware_def Let_def)
    next
      case (Some q)
      have eval: "auth_Middleware hmac net ext a True now s r =
         (let key = s_kheap s q in
          if \<not> k_Enabled key then Rejected 401 ''invalid_api_key'' ''API key is disabled'' (Some q)
          else if (case k_ExpiresAt key of None \<Rightarrow> False | Some e \<Rightarrow> e < now) then
            Rejected 401 ''invalid_api_key'' ''API key has expired'' (Some q)
          else if MatchAny net clientIP (k_DeniedClientIPs key) then
            Rejected 403 ''client_ip_not_allowed'' ''Client IP is not allowed for this API key'' (Some q)
          else if k_AllowedClientIPs key \<noteq> [] \<and> \<not> MatchAny net clientIP (k_AllowedClientIPs key) then
            Rejected 403 ''client_ip_not_allowed'' ''Client IP is not allowed for this API key'' (Some q)
          else Passed (Some q) clientIP)"
        using True e Some empty
        by (cases "k_DeniedClientIPs (s_kheap s q) = []") (simp_all add: auth_Middleware_def assms Let_def)
      have exp: "(\<forall>e. k_ExpiresAt (s_kheap s q) = Some e \<longrightarrow> now \<le> e) \<longleftrightarrow>
          \<not> (case k_ExpiresAt (s_kheap s q) of None \<Rightarrow> False | Some e \<Rightarrow> e < now)"
        by (auto split: option.split)
      have key: "(\<exists>raw. extractKey a r = (raw, True) \<and> raw \<noteq> [] \<and> APIKeyByRaw hmac raw s = Some p) \<longleftrightarrow> p = q"
        using True e Some by auto
      show ?thesis unfolding eval Let_def key using exp by auto
    qed
  qed
qed

text \<open>
  C5. A request reaches the handlers with an API key exactly when its header carries the
  configured prefix and a raw key that the catalog knows, the key is enabled and not expired,
  its deny list does not match the client address, and its allow list is empty or matches it.
  In every other case the request is rejected with 401 or 403 and no handler runs.
\<close>

theorem auth_passes_iff:
  assumes "clientIP = (case ext of None \<Rightarrow> [] | Some trusted \<Rightarrow> ClientIP net trusted r)"
  shows "(auth_Middleware hmac net ext a True now s r = Passed (Some p) ip \<longleftrightarrow>
      ip = clientIP
      \<and> (\<exists>raw. extractKey a r = (raw, True) \<and> raw \<noteq> [] \<and> APIKeyByRaw hmac raw s = Some p)
      \<and> k_Enabled (s_kheap s p)
      \<and> (\<forall>e. k_ExpiresAt (s_kheap s p) = Some e \<longrightarrow> now \<le> e)
      \<and> \<not> MatchAny net clientIP (k_DeniedClientIPs (s_kheap s p))
      \<and> (k_AllowedClientIPs (s_kheap s p) = [] \<or> MatchAny net clientIP (k_AllowedClientIPs (s_kheap s p))))
    \<and> auth_Middleware hmac net ext a True now s r \<noteq> Passed None ip
    \<and> (\<forall>st c msg k. auth_Middleware hmac net ext a True now s r = Rejected st c msg k \<longrightarrow> st = 401 \<or> st = 403)"
proof (intro conjI allI impI)
  fix st c msg k
  assume "auth_Middleware hmac net ext a True now s r = Rejected st c msg k"
  then show "st = 401 \<or> st = 403" by (auto simp: auth_Middleware_def Let_def split: if_splits prod.splits option.splits)
qed (use auth_Passed [OF assms, of hmac a now s p ip] in blast)+

theorem auth_passes_iff_witness:
  "auth_Middleware (@) example_net None (auth_New [] []) True 5 example_keys
     \<lparr>rq_RemoteAddr = [], rq_Path = [], rq_Header = (\<lambda>_. ''Bearer sk-old'')\<rparr> = Passed (Some 0) []"
proof -
  let ?r = "\<lparr>rq_RemoteAddr = [], rq_Path = [], rq_Header = (\<lambda>_. ''Bearer sk-old'')\<rparr>"
  have "TrimSpace ''sk-old'' = ''sk-old''" by (simp add: TrimSpace_id printing_def)
  then have "extractKey (auth_New [] []) ?r = (''sk-old'', True)"
    by (simp add: extractKey_def auth_New_def HasPrefix_def TrimPrefix_def Let_def)
  moreover have "k_Enabled (s_kheap example_keys 0)" "k_ExpiresAt (s_kheap example_keys 0) = None"
    "k_DeniedClientIPs (s_kheap example_keys 0) = []" "k_AllowedClientIPs (s_kheap example_keys 0) = []"
    by (simp_all add: example_keys_def create_key_def new_key_def UpsertAPIKey_def index_key_def
      upd_key_def store_New_def Let_def HashKey_def zero_key_def)
  ultimately show ?thesis
    using auth_passes_iff [where clientIP = "[]" and ext = None and net = example_net and r = ?r and hmac = "(@)"
        and a = "auth_New [] []" and now = 5 and s = example_keys and p = 0 and ip = "[]"]
      example_keys_facts(2) by (simp add: MatchAny_def)
qed

end
