(* ===== verification/Admin_Auth.thy ===== *)
theory Admin_Auth
  imports Gateway_Config Go_Time
begin

text \<open>
  The admin plane's access control: users, roles and permissions (\<^verbatim>\<open>internal/admin/users.go\<close>),
  session tokens (\<^verbatim>\<open>internal/admin/session.go\<close>), and the middleware and permission check of
  \<^verbatim>\<open>internal/admin/admin.go\<close>. Cryptography is an argument: \<open>pw_ops\<close> holds bcrypt and the
  legacy SHA-256, \<open>token_ops\<close> the JSON and base64 encoding of a claim, its decoding, and the
  signature under the process secret. Random token ids are arguments of \<open>Mint\<close>.
\<close>

section \<open>Users and roles\<close>

record User =
  u_Username :: string
  u_Email :: string
  u_PasswordHash :: string
  u_Role :: string

type_synonym Users = "User gomap"

record pw_ops =
  pw_Bcrypt :: "string \<Rightarrow> string"
  pw_BcryptCompare :: "string \<Rightarrow> string \<Rightarrow> bool"
  pw_SHA256Hex :: "string \<Rightarrow> string"

definition NewUsers :: Users where
  "NewUsers = []"

definition load_user :: "pw_ops \<Rightarrow> AdminUserConfig \<Rightarrow> Users \<Rightarrow> Users" where
  "load_user pw c u =
     (let role = (if au_Role c = [] then ''viewer'' else au_Role c);
          hash = (if au_PasswordHash c = [] \<and> au_Password c \<noteq> [] then pw_Bcrypt pw (au_Password c)
                  else au_PasswordHash c)
      in AList.update (au_Username c)
           \<lparr>u_Username = au_Username c, u_Email = au_Email c, u_PasswordHash = hash, u_Role = role\<rparr> u)"

definition users_LoadFromConfig :: "pw_ops \<Rightarrow> AdminUserConfig list \<Rightarrow> Users \<Rightarrow> Users" where
  "users_LoadFromConfig pw cfgs u = fold (load_user pw) cfgs u"

definition users_Get :: "string \<Rightarrow> Users \<Rightarrow> User option" where
  "users_Get username u = map_of u username"

definition users_List :: "order \<Rightarrow> Users \<Rightarrow> User list" where
  "users_List ord u = range_map ord u"

definition users_Upsert :: "User \<Rightarrow> Users \<Rightarrow> Users" where
  "users_Upsert user u = AList.update (u_Username user) user u"

definition users_Delete :: "string \<Rightarrow> Users \<Rightarrow> Users" where
  "users_Delete username u = AList.delete username u"

definition VerifyPassword :: "pw_ops \<Rightarrow> string \<Rightarrow> string \<Rightarrow> bool" where
  "VerifyPassword pw password stored =
     (if HasPrefix stored ''$2a$'' \<or> HasPrefix stored ''$2b$'' \<or> HasPrefix stored ''$2y$''
      then pw_BcryptCompare pw stored password
      else pw_SHA256Hex pw password = stored)"

definition HasPermission :: "string \<Rightarrow> string \<Rightarrow> bool" where
  "HasPermission r action =
     (if r = ''super_admin'' then True
      else if r = ''admin'' then action \<noteq> ''manage_users''
      else if r = ''operator'' then action = ''read'' \<or> action = ''backend_toggle'' \<or> action = ''view_logs''
      else if r = ''viewer'' then action = ''read'' \<or> action = ''view_logs''
      else if r = ''auditor'' then action = ''read'' \<or> action = ''view_logs'' \<or> action = ''view_audit''
      else False)"

definition NormalizeRole :: "string \<Rightarrow> string" where
  "NormalizeRole s =
     (let x = ToLower (TrimSpace s) in
      if x = ''super_admin'' \<or> x = ''superadmin'' then ''super_admin''
      else if x = ''admin'' then ''admin''
      else if x = ''operator'' then ''operator''
      else if x = ''viewer'' then ''viewer''
      else if x = ''auditor'' then ''auditor''
      else [])"

section \<open>Session tokens\<close>

record sessionClaim =
  cl_ID :: string
  cl_Username :: string
  cl_Role :: string
  cl_ExpiresAt :: int

record token_ops =
  tk_encode :: "sessionClaim \<Rightarrow> string"
  tk_decode :: "string \<Rightarrow> sessionClaim option"
  tk_sign :: "string \<Rightarrow> string"

type_synonym SessionManager = "time gomap"  \<comment> \<open>the revoked ids\<close>

definition NewSessionManager :: SessionManager where
  "NewSessionManager = []"

definition Mint :: "token_ops \<Rightarrow> string \<Rightarrow> time \<Rightarrow> string \<Rightarrow> string \<Rightarrow> int \<Rightarrow> string" where
  "Mint tk rid now username role ttl =
     (let claim = \<lparr>cl_ID = rid, cl_Username = username, cl_Role = role, cl_ExpiresAt = (now + ttl) div second_ns\<rparr>;
          enc = tk_encode tk claim
      in enc @ ''.'' @ tk_sign tk enc)"

text \<open>\<open>strings.SplitN(token, ".", 2)\<close>.\<close>

definition SplitN2 :: "string \<Rightarrow> char \<Rightarrow> string list" where
  "SplitN2 s c =
     (let l = takeWhile (\<lambda>x. x \<noteq> c) s; r = dropWhile (\<lambda>x. x \<noteq> c) s
      in if r = [] then [l] else [l, tl r])"

definition Verify :: "token_ops \<Rightarrow> time \<Rightarrow> string \<Rightarrow> SessionManager \<Rightarrow> sessionClaim option" where
  "Verify tk now token m =
     (case SplitN2 token (CHR ''.'') of
        [enc, sig] \<Rightarrow>
          if tk_sign tk enc \<noteq> sig then None
          else (case tk_decode tk enc of
                  None \<Rightarrow> None
                | Some c \<Rightarrow>
                    if now div second_ns > cl_ExpiresAt c then None
                    else if map_of m (cl_ID c) \<noteq> None then None
                    else Some c)
      | _ \<Rightarrow> None)"

definition Revoke :: "time \<Rightarrow> string \<Rightarrow> SessionManager \<Rightarrow> SessionManager" where
  "Revoke now sid m = AList.update sid now m"

section \<open>The middleware\<close>

record AdminServer =
  as_cfg :: AdminConfig
  as_users :: "Users option"
  as_sessions :: "SessionManager option"

datatype admin_result = AdminDenied int string | AdminAs User

definition bearer :: "string \<Rightarrow> string option" where
  "bearer authHeader =
     (if HasPrefix authHeader ''Bearer '' then Some (TrimPrefix authHeader ''Bearer '') else None)"

text \<open>
  \<open>authz\<close> is the Authorization header, \<open>basic\<close> what \<open>BasicAuth\<close> reads from it.
\<close>

definition authMiddleware :: "pw_ops \<Rightarrow> token_ops \<Rightarrow> time \<Rightarrow> AdminServer \<Rightarrow> string \<Rightarrow> (string \<times> string) option \<Rightarrow> admin_result" where
  "authMiddleware pw tk now srv authz basic =
     (if \<not> ad_Enabled (as_cfg srv) then AdminDenied 403 ''admin_disabled''
      else
        let bind = ad_BindToken (as_cfg srv) in
        if bind \<noteq> [] \<and> bearer authz = Some bind then
          AdminAs \<lparr>u_Username = ''token'', u_Email = [], u_PasswordHash = [], u_Role = ''super_admin''\<rparr>
        else case (case (as_sessions srv, bearer authz) of
                     (Some m, Some tok) \<Rightarrow> Verify tk now tok m
                   | _ \<Rightarrow> None) of
          Some c \<Rightarrow> AdminAs \<lparr>u_Username = cl_Username c, u_Email = [], u_PasswordHash = [], u_Role = cl_Role c\<rparr>
        | None \<Rightarrow>
            (case (case (as_users srv, basic) of
                     (Some us, Some (u, p)) \<Rightarrow>
                       if us = [] then None
                       else (case users_Get u us of
                               None \<Rightarrow> None
                             | Some user \<Rightarrow>
                                 if u_PasswordHash user \<noteq> [] \<and> VerifyPassword pw p (u_PasswordHash user)
                                 then Some user else None)
                   | _ \<Rightarrow> None) of
               Some user \<Rightarrow> AdminAs user
             | None \<Rightarrow>
                 (case basic of
                    Some (u, p) \<Rightarrow>
                      if ad_Username (as_cfg srv) \<noteq> [] \<and> u = ad_Username (as_cfg srv) \<and> p = ad_Password (as_cfg srv)
                      then AdminAs \<lparr>u_Username = u, u_Email = [], u_PasswordHash = [], u_Role = ''admin''\<rparr>
                      else AdminDenied 401 ''invalid_admin_credentials''
                  | None \<Rightarrow> AdminDenied 401 ''invalid_admin_credentials'')))"

definition requirePerm :: "string \<Rightarrow> User option \<Rightarrow> (int \<times> string) option" where
  "requirePerm action user =
     (case user of
        None \<Rightarrow> Some (401, ''missing_admin_user'')
      | Some u \<Rightarrow> if \<not> HasPermission (u_Role u) action then Some (403, ''permission_denied'') else None)"

text \<open>Login and logout.\<close>

definition loginHandler :: "pw_ops \<Rightarrow> token_ops \<Rightarrow> string \<Rightarrow> time \<Rightarrow> AdminServer \<Rightarrow> (string \<times> string) option \<Rightarrow> (int \<times> string) + (string \<times> User)" where
  "loginHandler pw tk rid now srv basic =
     (if \<not> ad_Enabled (as_cfg srv) then Inl (403, ''admin_disabled'')
      else if as_sessions srv = None then Inl (503, ''no_sessions'')
      else case basic of
             None \<Rightarrow> Inl (401, ''invalid_admin_credentials'')
           | Some (u, p) \<Rightarrow>
               (case as_users srv of
                  None \<Rightarrow> Inl (401, ''invalid_admin_credentials'')
                | Some us \<Rightarrow>
                    (case users_Get u us of
                       None \<Rightarrow> Inl (401, ''invalid_admin_credentials'')
                     | Some user \<Rightarrow>
                         if u_PasswordHash user = [] \<or> \<not> VerifyPassword pw p (u_PasswordHash user)
                         then Inl (401, ''invalid_admin_credentials'')
                         else Inr (Mint tk rid now (u_Username user) (u_Role user) (12 * hour_ns), user))))"

definition logoutHandler :: "token_ops \<Rightarrow> time \<Rightarrow> AdminServer \<Rightarrow> string \<Rightarrow> AdminServer" where
  "logoutHandler tk now srv authz =
     (case (bearer authz, as_sessions srv) of
        (Some tok, Some m) \<Rightarrow>
          (case Verify tk now tok m of
             Some c \<Rightarrow> srv\<lparr>as_sessions := Some (Revoke now (cl_ID c) m)\<rparr>
           | None \<Rightarrow> srv)
      | _ \<Rightarrow> srv)"

record userBody =
  ub_Username :: string
  ub_Email :: string
  ub_Password :: string
  ub_Role :: string

text \<open>The decoded body is \<open>None\<close> when it is not valid JSON.\<close>

definition createUser :: "pw_ops \<Rightarrow> User option \<Rightarrow> userBody option \<Rightarrow> Users \<Rightarrow> (int \<times> string) + Users" where
  "createUser pw user body us =
     (case requirePerm ''manage_users'' user of
        Some e \<Rightarrow> Inl e
      | None \<Rightarrow>
          (case body of
             None \<Rightarrow> Inl (400, ''invalid_json'')
           | Some b \<Rightarrow>
               if ub_Username b = [] \<or> ub_Password b = [] then Inl (400, ''missing_fields'')
               else let role = (if NormalizeRole (ub_Role b) = [] then ''viewer'' else NormalizeRole (ub_Role b))
                    in Inr (users_Upsert \<lparr>u_Username = ub_Username b, u_Email = ub_Email b,
                              u_PasswordHash = pw_Bcrypt pw (ub_Password b), u_Role = role\<rparr> us)))"

definition deleteUser :: "User option \<Rightarrow> string \<Rightarrow> Users \<Rightarrow> (int \<times> string) + Users" where
  "deleteUser user username us =
     (case requirePerm ''manage_users'' user of
        Some e \<Rightarrow> Inl e
      | None \<Rightarrow> Inr (users_Delete username us))"

section \<open>Sessions\<close>

lemma SplitN2_append:
  assumes "c \<notin> set a"
  shows "SplitN2 (a @ c # b) c = [a, b]"
proof -
  have "takeWhile (\<lambda>x. x \<noteq> c) (a @ c # b) = a" "dropWhile (\<lambda>x. x \<noteq> c) (a @ c # b) = c # b"
    using assms by (induction a) auto
  then show ?thesis by (simp add: SplitN2_def)
qed

lemma Verify_Mint:
  assumes "claim = \<lparr>cl_ID = rid, cl_Username = username, cl_Role = role, cl_ExpiresAt = (t0 + ttl) div second_ns\<rparr>"
    and "tk_decode tk (tk_encode tk claim) = Some claim" and "CHR ''.'' \<notin> set (tk_encode tk claim)"
  shows "Verify tk now (Mint tk rid t0 username role ttl) m =
    (if now div second_ns > (t0 + ttl) div second_ns \<or> map_of m rid \<noteq> None then None else Some claim)"
  using SplitN2_append [OF assms(3)] assms(1,2) by (simp add: Verify_def Mint_def Let_def)

text \<open>
  Session tokens: a minted token verifies to the user and role it was minted for until its
  expiry (to the second), unless its id was revoked, and revoking one id affects no other token;
  and whatever string verifies carries the signature of its payload, so only a holder of the
  process secret can make one.
\<close>

theorem session_tokens:
  assumes "claim = \<lparr>cl_ID = rid, cl_Username = username, cl_Role = role, cl_ExpiresAt = (t0 + ttl) div second_ns\<rparr>"
    and "tk_decode tk (tk_encode tk claim) = Some claim" and "CHR ''.'' \<notin> set (tk_encode tk claim)"
  shows "(Verify tk now (Mint tk rid t0 username role ttl) m =
            (if now div second_ns > (t0 + ttl) div second_ns \<or> map_of m rid \<noteq> None then None else Some claim))
       \<and> (Verify tk now (Mint tk rid t0 username role ttl) (Revoke t1 sid m) =
            (if sid = rid then None else Verify tk now (Mint tk rid t0 username role ttl) m))
       \<and> (\<forall>token c. Verify tk now token m = Some c \<longrightarrow>
            (\<exists>enc. token = enc @ CHR ''.'' # tk_sign tk enc \<and> tk_decode tk enc = Some c))"
proof (intro conjI allI impI)
  show "Verify tk now (Mint tk rid t0 username role ttl) m =
      (if now div second_ns > (t0 + ttl) div second_ns \<or> map_of m rid \<noteq> None then None else Some claim)"
    by (rule Verify_Mint [OF assms])
  show "Verify tk now (Mint tk rid t0 username role ttl) (Revoke t1 sid m) =
      (if sid = rid then None else Verify tk now (Mint tk rid t0 username role ttl) m)"
    by (simp add: Verify_Mint [OF assms] Revoke_def)
next
  fix token c
  assume v: "Verify tk now token m = Some c"
  have tok: "takeWhile (\<lambda>x. x \<noteq> CHR ''.'') token @ dropWhile (\<lambda>x. x \<noteq> CHR ''.'') token = token" by simp
  from v have ne: "dropWhile (\<lambda>x. x \<noteq> CHR ''.'') token \<noteq> []"
    by (auto simp: Verify_def SplitN2_def Let_def split: if_splits)
  then obtain rest where r: "dropWhile (\<lambda>x. x \<noteq> CHR ''.'') token = CHR ''.'' # rest"
    by (cases "dropWhile (\<lambda>x. x \<noteq> CHR ''.'') token") (auto simp: dropWhile_eq_Cons_conv)
  from v r have "tk_sign tk (takeWhile (\<lambda>x. x \<noteq> CHR ''.'') token) = rest"
    "tk_decode tk (takeWhile (\<lambda>x. x \<noteq> CHR ''.'') token) = Some c"
    by (auto simp: Verify_def SplitN2_def Let_def split: if_splits option.splits)
  with tok r show "\<exists>enc. token = enc @ CHR ''.'' # tk_sign tk enc \<and> tk_decode tk enc = Some c" by metis
qed

definition example_claim :: sessionClaim where
  "example_claim = \<lparr>cl_ID = ''i'', cl_Username = ''ann'', cl_Role = ''admin'', cl_ExpiresAt = 43200\<rparr>"

definition example_tokens :: token_ops where
  "example_tokens = \<lparr>tk_encode = (\<lambda>_. ''claim''), tk_decode = (\<lambda>_. Some example_claim), tk_sign = (\<lambda>e. ''sig'' @ e)\<rparr>"

theorem session_tokens_witness:
  "Verify example_tokens (60 * second_ns) (Mint example_tokens ''i'' 0 ''ann'' ''admin'' (12 * hour_ns)) [] = Some example_claim"
  using session_tokens [of example_claim "''i''" "''ann''" "''admin''" 0 "12 * hour_ns" example_tokens "60 * second_ns" "[]" 0 "''i''"]
  by (simp add: example_claim_def example_tokens_def ns_defs)

text \<open>
  Roles are ordered as documented and permissions are enforced before any write: only a
  super admin may manage users, viewers and auditors may change nothing, an operator may only
  switch backends; creating or deleting a user changes the user table only for a super admin;
  and a user created through the API has one of the five known roles and logs in with the
  password given, if bcrypt verifies its own hashes.
\<close>

theorem rbac:
  "(HasPermission r ''manage_users'' \<longleftrightarrow> r = ''super_admin'')
   \<and> (HasPermission r action \<and> action \<notin> {''read'', ''view_logs'', ''view_audit''} \<longrightarrow>
        r = ''super_admin'' \<or> r = ''admin'' \<or> (r = ''operator'' \<and> action = ''backend_toggle''))
   \<and> (createUser pw user body us = Inr us' \<or> deleteUser user name us = Inr us' \<longrightarrow>
        (\<exists>u. user = Some u \<and> u_Role u = ''super_admin''))
   \<and> (createUser pw user (Some b) us = Inr us' \<longrightarrow>
        HasPrefix (pw_Bcrypt pw (ub_Password b)) ''$2a$'' \<longrightarrow>
        pw_BcryptCompare pw (pw_Bcrypt pw (ub_Password b)) (ub_Password b) \<longrightarrow>
        (\<exists>u. users_Get (ub_Username b) us' = Some u
           \<and> u_Role u \<in> {''super_admin'', ''admin'', ''operator'', ''viewer'', ''auditor''}
           \<and> VerifyPassword pw (ub_Password b) (u_PasswordHash u)))"
proof (intro conjI impI)
  show perm: "HasPermission x ''manage_users'' \<longleftrightarrow> x = ''super_admin''" for x
    by (simp add: HasPermission_def)
  show "\<exists>u. user = Some u \<and> u_Role u = ''super_admin''"
    if "createUser pw user body us = Inr us' \<or> deleteUser user name us = Inr us'"
    using that by (auto simp: createUser_def deleteUser_def requirePerm_def perm split: option.splits if_splits)
  show "r = ''super_admin'' \<or> r = ''admin'' \<or> (r = ''operator'' \<and> action = ''backend_toggle'')"
    if "HasPermission r action \<and> action \<notin> {''read'', ''view_logs'', ''view_audit''}"
    using that unfolding HasPermission_def by (simp split: if_splits) (elim conjE disjE; simp)+
next
  assume c: "createUser pw user (Some b) us = Inr us'"
    and h: "HasPrefix (pw_Bcrypt pw (ub_Password b)) ''$2a$''"
      "pw_BcryptCompare pw (pw_Bcrypt pw (ub_Password b)) (ub_Password b)"
  define role where "role = (if NormalizeRole (ub_Role b) = [] then ''viewer'' else NormalizeRole (ub_Role b))"
  have "NormalizeRole x \<in> {''super_admin'', ''admin'', ''operator'', ''viewer'', ''auditor'', []}" for x
    by (simp add: NormalizeRole_def Let_def)
  then have role: "role \<in> {''super_admin'', ''admin'', ''operator'', ''viewer'', ''auditor''}"
    unfolding role_def by (metis insert_iff empty_iff)
  from c have "us' = users_Upsert \<lparr>u_Username = ub_Username b, u_Email = ub_Email b,
      u_PasswordHash = pw_Bcrypt pw (ub_Password b), u_Role = role\<rparr> us"
    by (auto simp: createUser_def Let_def role_def split: option.splits if_splits)
  with role h show "\<exists>u. users_Get (ub_Username b) us' = Some u
      \<and> u_Role u \<in> {''super_admin'', ''admin'', ''operator'', ''viewer'', ''auditor''}
      \<and> VerifyPassword pw (ub_Password b) (u_PasswordHash u)"
    by (simp add: users_Get_def users_Upsert_def VerifyPassword_def)
qed

definition example_pw :: pw_ops where
  "example_pw = \<lparr>pw_Bcrypt = (\<lambda>p. ''$2a$'' @ p), pw_BcryptCompare = (\<lambda>h p. h = ''$2a$'' @ p), pw_SHA256Hex = rev\<rparr>"

theorem rbac_witness:
  "\<not> HasPermission ''operator'' ''manage_keys''
   \<and> (\<exists>us' u. createUser example_pw (Some \<lparr>u_Username = ''root'', u_Email = [], u_PasswordHash = [], u_Role = ''super_admin''\<rparr>)
          (Some \<lparr>ub_Username = ''ann'', ub_Email = [], ub_Password = ''s3cret'', ub_Role = []\<rparr>) [] = Inr us'
        \<and> users_Get ''ann'' us' = Some u \<and> VerifyPassword example_pw ''s3cret'' (u_PasswordHash u))"
proof -
  let ?b = "\<lparr>ub_Username = ''ann'', ub_Email = [], ub_Password = ''s3cret'', ub_Role = []\<rparr>"
  let ?root = "Some \<lparr>u_Username = ''root'', u_Email = [], u_PasswordHash = [], u_Role = ''super_admin''\<rparr>"
  note R = rbac [where pw = example_pw and user = ?root and us = "[]" and b = ?b]
  have "\<not> HasPermission ''operator'' ''manage_keys''"
    using rbac [THEN conjunct2, THEN conjunct1, of "''operator''" "''manage_keys''"] by auto
  moreover obtain us' where c: "createUser example_pw ?root (Some ?b) [] = Inr us'"
    by (simp add: createUser_def requirePerm_def HasPermission_def Let_def)
  moreover have "\<exists>u. users_Get ''ann'' us' = Some u \<and> VerifyPassword example_pw ''s3cret'' (u_PasswordHash u)"
    using R [THEN conjunct2, THEN conjunct2, THEN conjunct2, THEN mp, THEN mp, THEN mp, OF c]
    by (auto simp: example_pw_def HasPrefix_def)
  ultimately show ?thesis by blast
qed

text \<open>
  Deleting a user does not end the user's sessions: a session token minted for the user
  before keeps giving the user's role until it expires, because sessions carry the role and
  \<open>deleteUser\<close> touches the user table only.
\<close>

theorem deleted_user_session_survives:
  assumes "claim = \<lparr>cl_ID = rid, cl_Username = username, cl_Role = role, cl_ExpiresAt = (t0 + 12 * hour_ns) div second_ns\<rparr>"
    and "tk_decode tk (tk_encode tk claim) = Some claim" and "CHR ''.'' \<notin> set (tk_encode tk claim)"
    and "ad_Enabled (as_cfg srv)" and "as_sessions srv = Some m" and "map_of m rid = None"
    and "now div second_ns \<le> (t0 + 12 * hour_ns) div second_ns"
    and "as_users srv = Some us" and "deleteUser admin username us = Inr us'"
    and "ad_BindToken (as_cfg srv) \<noteq> Mint tk rid t0 username role (12 * hour_ns)"
  shows "users_Get username us' = None
       \<and> (\<exists>u. authMiddleware pw tk now (srv\<lparr>as_users := Some us'\<rparr>)
              (''Bearer '' @ Mint tk rid t0 username role (12 * hour_ns)) None = AdminAs u
            \<and> u_Username u = username \<and> u_Role u = role)"
proof -
  have "us' = users_Delete username us"
    using assms(9) by (auto simp: deleteUser_def split: option.splits)
  moreover have "bearer (''Bearer '' @ t) = Some t" for t
    by (simp add: bearer_def HasPrefix_def TrimPrefix_def)
  moreover have "Verify tk now (Mint tk rid t0 username role (12 * hour_ns)) m = Some claim"
    using Verify_Mint [OF assms(1-3), of now m] assms(6,7) by simp
  ultimately show ?thesis
    using assms(1,4,5,10) by (simp add: users_Get_def users_Delete_def authMiddleware_def Let_def)
qed

definition example_admin :: AdminServer where
  "example_admin = \<lparr>as_cfg = (c_Admin Default)\<lparr>ad_Enabled := True, ad_BindToken := []\<rparr>,
     as_users = Some [(''ann'', \<lparr>u_Username = ''ann'', u_Email = [], u_PasswordHash = ''h'', u_Role = ''admin''\<rparr>)],
     as_sessions = Some []\<rparr>"

theorem deleted_user_session_survives_witness:
  "\<exists>u. authMiddleware example_pw example_tokens 0 (example_admin\<lparr>as_users := Some []\<rparr>)
         (''Bearer '' @ Mint example_tokens ''i'' 0 ''ann'' ''admin'' (12 * hour_ns)) None = AdminAs u
       \<and> u_Username u = ''ann'' \<and> u_Role u = ''admin''"
proof -
  let ?us = "[(''ann'', \<lparr>u_Username = ''ann'', u_Email = [], u_PasswordHash = ''h'', u_Role = ''admin''\<rparr>)]"
  let ?root = "Some \<lparr>u_Username = ''root'', u_Email = [], u_PasswordHash = [], u_Role = ''super_admin''\<rparr>"
  have d: "deleteUser ?root ''ann'' ?us = Inr []"
    by (simp add: deleteUser_def requirePerm_def HasPermission_def users_Delete_def)
  show ?thesis
    using deleted_user_session_survives [of example_claim "''i''" "''ann''" "''admin''" 0 example_tokens example_admin "[]" 0,
        OF _ _ _ _ _ _ _ _ d, of example_pw]
    by (simp add: example_claim_def example_tokens_def example_admin_def Mint_def ns_defs)
qed

end
