(* ===== verification/Health_Model.thy ===== *)
theory Health_Model
  imports Store_Invariant
begin

text \<open>
  The health checker, \<^verbatim>\<open>internal/backend/health.go\<close>. The first part is one probe of one backend:
  the merged settings, the HTTP and TCP probes (what the network answered is an argument) and
  the recording of the result with the status-change events it emits. The second part is the
  table of probing goroutines: \<open>h_loops\<close> maps a backend id to its stop channel and
  \<open>h_running\<close> lists the goroutines, each with its stop channel and the backend object it
  probes.
\<close>

section \<open>One probe\<close>

definition effective :: "HealthCheckConfig \<Rightarrow> Backend \<Rightarrow> HealthCheckConfig" where
  "effective defaults b =
     (let hc0 = defaults;
          hc = (case b_HealthCheck b of
                  None \<Rightarrow> hc0
                | Some o' \<Rightarrow>
                    hc0\<lparr>hc_Enabled := (if hc_Enabled o' \<noteq> None then hc_Enabled o' else hc_Enabled hc0),
                        hc_Type := (if hc_Type o' \<noteq> [] then hc_Type o' else hc_Type hc0),
                        hc_IntervalMS := (if 0 < hc_IntervalMS o' then hc_IntervalMS o' else hc_IntervalMS hc0),
                        hc_TimeoutMS := (if 0 < hc_TimeoutMS o' then hc_TimeoutMS o' else hc_TimeoutMS hc0),
                        hc_FailureThreshold := (if 0 < hc_FailureThreshold o' then hc_FailureThreshold o' else hc_FailureThreshold hc0),
                        hc_SuccessThreshold := (if 0 < hc_SuccessThreshold o' then hc_SuccessThreshold o' else hc_SuccessThreshold hc0),
                        hc_Path := (if hc_Path o' \<noteq> [] then hc_Path o' else hc_Path hc0),
                        hc_Method := (if hc_Method o' \<noteq> [] then hc_Method o' else hc_Method hc0),
                        hc_Body := (if hc_Body o' \<noteq> [] then hc_Body o' else hc_Body hc0)\<rparr>)
      in hc\<lparr>hc_Path := (if hc_Path hc = [] then ''/models'' else hc_Path hc),
            hc_Type := (if hc_Type hc = [] then ''http'' else hc_Type hc),
            hc_Method := (if hc_Method hc = [] then ''GET'' else hc_Method hc)\<rparr>)"

text \<open>A status-change event: previous and next status, latency, error.\<close>

type_synonym health_emit = "BackendStatus \<times> BackendStatus \<times> int \<times> string"

definition health_record :: "time \<Rightarrow> bool \<Rightarrow> int \<Rightarrow> string \<Rightarrow> Backend \<Rightarrow> Backend \<times> health_emit list" where
  "health_record now ok latencyMS errMsg b =
     (let prev = Status b in
      case RecordHealthCheck now ok latencyMS errMsg b of (b', changed, status) \<Rightarrow>
        (b', if changed then [(prev, status, latencyMS, errMsg)] else []))"

definition recordDegraded :: "time \<Rightarrow> int \<Rightarrow> string \<Rightarrow> Backend \<Rightarrow> Backend \<times> health_emit list" where
  "recordDegraded now latencyMS errMsg b =
     (let prev = Status b; b' = MarkDegraded now latencyMS errMsg b
      in (b', if prev \<noteq> StatusDegraded then [(prev, StatusDegraded, latencyMS, errMsg)] else []))"

datatype probe_answer =
    BuildFails string          \<comment> \<open>the request cannot be built\<close>
  | NoAnswer int string        \<comment> \<open>latency and error\<close>
  | Answers int int            \<comment> \<open>latency and status code; a TCP connection gives 0\<close>

definition httpProbe :: "time \<Rightarrow> probe_answer \<Rightarrow> Backend \<Rightarrow> Backend \<times> health_emit list" where
  "httpProbe now answer b =
     (case answer of
        BuildFails err \<Rightarrow> health_record now False 0 (''build request: '' @ err) b
      | NoAnswer latency err \<Rightarrow> health_record now False latency err b
      | Answers latency code \<Rightarrow>
          if 200 \<le> code \<and> code < 400 then health_record now True latency [] b
          else if 400 \<le> code \<and> code < 500 then
            recordDegraded now latency (''auth-probe returned '' @ Itoa code) b
          else health_record now False latency (''status '' @ Itoa code) b)"

definition strip_scheme :: "string \<Rightarrow> string" where
  "strip_scheme s =
     (if HasPrefix s ''https://'' then drop 8 s
      else if HasPrefix s ''http://'' then drop 7 s else s)"

definition hostPortFromBaseURL :: "string \<Rightarrow> string" where
  "hostPortFromBaseURL base =
     (let s0 = strip_scheme (TrimSpace base);
          s = takeWhile (\<lambda>c. c \<notin> set ''/?#'') s0
      in if Contains s '':'' then s
         else if HasPrefix base ''https://'' then s @ '':443''
         else s @ '':80'')"

definition tcpProbe :: "time \<Rightarrow> probe_answer \<Rightarrow> Backend \<Rightarrow> Backend \<times> health_emit list" where
  "tcpProbe now answer b =
     (if hostPortFromBaseURL (b_BaseURL b) = [] then
        health_record now False 0 ''unable to derive host:port from base_url for tcp probe'' b
      else case answer of
             NoAnswer latency err \<Rightarrow> health_record now False latency err b
           | BuildFails err \<Rightarrow> health_record now False 0 err b
           | Answers latency code \<Rightarrow> health_record now True latency [] b)"

definition checkOne :: "HealthCheckConfig \<Rightarrow> time \<Rightarrow> probe_answer \<Rightarrow> Backend \<Rightarrow> Backend \<times> health_emit list" where
  "checkOne defaults now answer b =
     (if \<not> b_Enabled b then (b, [])
      else if ToLower (hc_Type (effective defaults b)) = ''tcp'' then tcpProbe now answer b
      else httpProbe now answer b)"

definition probe_timeout :: "HealthCheckConfig \<Rightarrow> Backend \<Rightarrow> int" where
  "probe_timeout defaults b =
     (let t = w64 (hc_TimeoutMS (effective defaults b) * 1000000) in if t \<le> 0 then 2000000000 else t)"

definition loop_interval :: "HealthCheckConfig \<Rightarrow> Backend \<Rightarrow> int" where
  "loop_interval defaults b =
     (let t = w64 (hc_IntervalMS (effective defaults b) * 1000000) in if t \<le> 0 then 5000000000 else t)"

section \<open>The probing goroutines\<close>

record HealthChecker =
  h_defaults :: HealthCheckConfig
  h_loops :: "nat gomap"
  h_started :: bool
  h_running :: "(nat \<times> addr) list"
  h_nextch :: nat

definition NewHealthChecker :: "HealthCheckConfig \<Rightarrow> HealthChecker" where
  "NewHealthChecker defaults =
     \<lparr>h_defaults = defaults, h_loops = [], h_started = False, h_running = [], h_nextch = 0\<rparr>"

text \<open>The start of \<open>loop\<close>: a goroutine whose backend has checks disabled returns at once.\<close>

definition loop_starts :: "HealthCheckConfig \<Rightarrow> Backend \<Rightarrow> bool" where
  "loop_starts defaults b \<longleftrightarrow> hc_Enabled (effective defaults b) \<noteq> Some False"

definition spawn :: "(addr \<Rightarrow> Backend) \<Rightarrow> addr \<Rightarrow> HealthChecker \<Rightarrow> HealthChecker" where
  "spawn heap p h =
     (case map_of (h_loops h) (b_ID (heap p)) of
        Some _ \<Rightarrow> h
      | None \<Rightarrow>
          let ch = h_nextch h in
          h\<lparr>h_loops := AList.update (b_ID (heap p)) ch (h_loops h), h_nextch := Suc ch,
            h_running := (if loop_starts (h_defaults h) (heap p) then (ch, p) # h_running h else h_running h)\<rparr>)"

definition health_Start :: "order \<Rightarrow> Store \<Rightarrow> HealthChecker \<Rightarrow> HealthChecker" where
  "health_Start ord s h = fold (spawn (s_bheap s)) (Backends ord s) (h\<lparr>h_started := True\<rparr>)"

definition AddBackend :: "(addr \<Rightarrow> Backend) \<Rightarrow> addr \<Rightarrow> HealthChecker \<Rightarrow> HealthChecker" where
  "AddBackend heap p h = (if \<not> h_started h then h else spawn heap p h)"

text \<open>Closing a stop channel ends the goroutine that listens on it.\<close>

definition close_channel :: "nat \<Rightarrow> HealthChecker \<Rightarrow> HealthChecker" where
  "close_channel ch h = h\<lparr>h_running := filter (\<lambda>g. fst g \<noteq> ch) (h_running h)\<rparr>"

definition RemoveBackend :: "string \<Rightarrow> HealthChecker \<Rightarrow> HealthChecker" where
  "RemoveBackend bid h =
     (case map_of (h_loops h) bid of
        None \<Rightarrow> h
      | Some ch \<Rightarrow> close_channel ch (h\<lparr>h_loops := AList.delete bid (h_loops h)\<rparr>))"

definition Rescan :: "order \<Rightarrow> Store \<Rightarrow> HealthChecker \<Rightarrow> HealthChecker" where
  "Rescan ord s h =
     (let current = Backends ord s;
          seen = map (\<lambda>p. b_ID (s_bheap s p)) current;
          h1 = fold (AddBackend (s_bheap s)) current h;
          stale = filter (\<lambda>(k, ch). k \<notin> set seen) (h_loops h1);
          h2 = h1\<lparr>h_loops := filter (\<lambda>(k, ch). k \<in> set seen) (h_loops h1)\<rparr>
      in fold close_channel (map snd stale) h2)"

text \<open>\<open>Stop\<close> closes the common channel and waits until every goroutine has returned.\<close>

definition health_Stop :: "HealthChecker \<Rightarrow> HealthChecker" where
  "health_Stop h = h\<lparr>h_running := []\<rparr>"

section \<open>Settings that have no effect\<close>

text \<open>
  The gateway-wide health thresholds have no effect: however the defaults set the failure
  and success thresholds, a probe of a backend without settings of its own changes the status
  after three failures or two successes in a row, although the merged settings of the backend
  carry the configured thresholds.
\<close>

theorem global_thresholds_ignored:
  assumes "b_HealthCheck b = None"
    and "defaults' = defaults\<lparr>hc_FailureThreshold := f, hc_SuccessThreshold := n\<rparr>"
  shows "checkOne defaults' now answer b = checkOne defaults now answer b
       \<and> threshFail b = 3 \<and> threshSucc b = 2
       \<and> hc_FailureThreshold (effective defaults' b) = f \<and> hc_SuccessThreshold (effective defaults' b) = n"
  using assms by (simp add: checkOne_def effective_def threshFail_def threshSucc_def Let_def)

definition quick_defaults :: HealthCheckConfig where
  "quick_defaults = (c_HealthCheck Default)\<lparr>hc_FailureThreshold := 1, hc_SuccessThreshold := 1\<rparr>"

theorem global_thresholds_ignored_witness:
  "checkOne quick_defaults 0 (NoAnswer 1 ''refused'') (zero_backend\<lparr>b_Enabled := True, b_status := StatusHealthy\<rparr>)
   = checkOne (c_HealthCheck Default) 0 (NoAnswer 1 ''refused'') (zero_backend\<lparr>b_Enabled := True, b_status := StatusHealthy\<rparr>)"
  using global_thresholds_ignored [where b = "zero_backend\<lparr>b_Enabled := True, b_status := StatusHealthy\<rparr>"
      and defaults' = quick_defaults and defaults = "c_HealthCheck Default" and f = 1 and n = 1]
  by (simp add: quick_defaults_def zero_backend_def)

section \<open>The table of goroutines\<close>

text \<open>
  Every running goroutine listens on the channel its backend's id has in the table, channels are
  not shared, and no goroutine listens on a channel that was closed.
\<close>

definition loops_wf :: "HealthChecker \<Rightarrow> bool" where
  "loops_wf h \<longleftrightarrow> distinct (keys_of (h_loops h)) \<and> distinct (map snd (h_loops h)) \<and> distinct (map fst (h_running h))
     \<and> set (map fst (h_running h)) \<subseteq> set (map snd (h_loops h))
     \<and> (\<forall>ch \<in> set (map snd (h_loops h)). ch < h_nextch h)"

lemma update_new: "k \<notin> set (keys_of m) \<Longrightarrow> AList.update k v m = m @ [(k, v)]"
  by (induction m) auto

lemma spawn_wf: "loops_wf h \<Longrightarrow> loops_wf (spawn heap p h)"
proof (cases "map_of (h_loops h) (b_ID (heap p))")
  case None
  assume wf: "loops_wf h"
  from None have new: "b_ID (heap p) \<notin> set (keys_of (h_loops h))" by (simp add: map_of_eq_None_iff)
  have f1: "h_nextch h \<notin> set (map snd (h_loops h))"
    using wf unfolding loops_wf_def by blast
  moreover from f1 have "h_nextch h \<notin> set (map fst (h_running h))"
    using wf unfolding loops_wf_def by blast
  ultimately show ?thesis
    using wf None new
    by (auto simp: loops_wf_def spawn_def Let_def update_new less_SucI)
qed (simp add: spawn_def)

lemma spawn_facts:
  "h_started (spawn heap p h) = h_started h" "h_defaults (spawn heap p h) = h_defaults h"
  "dom (map_of (h_loops (spawn heap p h))) = insert (b_ID (heap p)) (dom (map_of (h_loops h)))"
  by (auto simp: spawn_def Let_def split: option.splits)

lemma fold_spawn_facts:
  "h_started (fold (spawn heap) ps h) = h_started h"
  "dom (map_of (h_loops (fold (spawn heap) ps h))) = (\<lambda>p. b_ID (heap p)) ` set ps \<union> dom (map_of (h_loops h))"
  "loops_wf h \<Longrightarrow> loops_wf (fold (spawn heap) ps h)"
proof (induction ps arbitrary: h)
  case (Cons p ps)
  { case 1 then show ?case using Cons by (simp add: spawn_facts) }
  { case 2 then show ?case using Cons by (auto simp: spawn_facts) }
  { case 3 then show ?case using Cons by (simp add: spawn_wf) }
qed simp_all

lemma fold_close:
  "fold close_channel chs h = h\<lparr>h_running := filter (\<lambda>g. fst g \<notin> set chs) (h_running h)\<rparr>"
proof (induction chs arbitrary: h)
  case (Cons ch chs)
  have "fold close_channel (ch # chs) h = fold close_channel chs (close_channel ch h)" by simp
  also have "\<dots> = h\<lparr>h_running := filter (\<lambda>g. fst g \<notin> set (ch # chs)) (h_running h)\<rparr>"
    unfolding Cons.IH by (simp add: close_channel_def conj_commute)
  finally show ?case .
qed simp

lemma AddBackend_started: "h_started h \<Longrightarrow> fold (AddBackend heap) ps h = fold (spawn heap) ps h"
  by (induction ps arbitrary: h) (simp_all add: AddBackend_def spawn_facts)

lemma filter_keys_wf:
  assumes "loops_wf h"
  shows "loops_wf (h\<lparr>h_loops := filter (\<lambda>(k, ch). k \<in> S) (h_loops h),
      h_running := filter (\<lambda>g. fst g \<notin> set (map snd (filter (\<lambda>(k, ch). k \<notin> S) (h_loops h)))) (h_running h)\<rparr>)"
proof -
  have "fst g \<in> snd ` set (filter (\<lambda>(k, ch). k \<in> S) (h_loops h))"
    if "g \<in> set (h_running h)" "fst g \<notin> snd ` set (filter (\<lambda>(k, ch). k \<notin> S) (h_loops h))" for g
  proof -
    from that(1) assms obtain k where "(k, fst g) \<in> set (h_loops h)" by (auto simp: loops_wf_def)
    with that(2) show ?thesis by force
  qed
  then show ?thesis
    using assms by (auto simp: loops_wf_def distinct_map_filter)
qed

lemma map_of_filter_key: "map_of (filter (\<lambda>(k, v). k \<in> S) m) = (map_of m) |` S"
  by (induction m) (auto simp: restrict_map_def fun_eq_iff)

lemma Rescan_eq:
  assumes "h_started h"
  shows "Rescan ord s h =
    (let h1 = fold (spawn (s_bheap s)) (Backends ord s) h;
         S = set (map (\<lambda>p. b_ID (s_bheap s p)) (Backends ord s))
     in h1\<lparr>h_loops := filter (\<lambda>(k, ch). k \<in> S) (h_loops h1),
           h_running := filter (\<lambda>g. fst g \<notin> set (map snd (filter (\<lambda>(k, ch). k \<notin> S) (h_loops h1)))) (h_running h1)\<rparr>)"
  using assms by (simp add: Rescan_def AddBackend_started fold_close Let_def)

lemma store_ids:
  assumes "store_wf s" and "is_order ord"
  shows "(\<lambda>p. b_ID (s_bheap s p)) ` set (Backends ord s) = dom (map_of (s_backends s))"
proof -
  have "b_ID (s_bheap s p) = i" if "map_of (s_backends s) i = Some p" for i p
    using assms(1) that by (simp add: store_wf_def backends_wf_def)
  then show ?thesis
    unfolding Backends_def set_range_map [OF assms(2)] ran_def image_def dom_def by fastforce
qed

text \<open>
  A rescan reconciles the probes with the catalog: afterwards the ids that have a probing
  goroutine registered are exactly the ids in the catalog, whatever order the map is visited
  in, every goroutine that still runs is registered, and no two share a channel.
\<close>

theorem Rescan_reconciles:
  assumes "store_wf s" and "is_order ord" and "h_started h" and "loops_wf h"
  shows "dom (map_of (h_loops (Rescan ord s h))) = dom (map_of (s_backends s))
       \<and> loops_wf (Rescan ord s h)
       \<and> set (map fst (h_running (Rescan ord s h))) \<subseteq> ran (map_of (h_loops (Rescan ord s h)))"
proof -
  let ?S = "dom (map_of (s_backends s))"
  let ?h1 = "fold (spawn (s_bheap s)) (Backends ord s) h"
  have S: "set (map (\<lambda>p. b_ID (s_bheap s p)) (Backends ord s)) = ?S"
    using store_ids [OF assms(1,2)] by simp
  have eq: "Rescan ord s h = ?h1\<lparr>h_loops := filter (\<lambda>(k, ch). k \<in> ?S) (h_loops ?h1),
      h_running := filter (\<lambda>g. fst g \<notin> set (map snd (filter (\<lambda>(k, ch). k \<notin> ?S) (h_loops ?h1)))) (h_running ?h1)\<rparr>"
    unfolding Rescan_eq [OF assms(3)] Let_def S by (rule refl)
  have wf: "loops_wf (Rescan ord s h)"
    unfolding eq by (rule filter_keys_wf [OF fold_spawn_facts(3) [OF assms(4)]])
  have "dom (map_of (h_loops (Rescan ord s h))) = ?S"
    unfolding eq using fold_spawn_facts(2) [of "s_bheap s" "Backends ord s" h] store_ids [OF assms(1,2)]
    by (auto simp: map_of_filter_key)
  moreover have "set (map snd (h_loops (Rescan ord s h))) = ran (map_of (h_loops (Rescan ord s h)))"
    using wf by (simp add: loops_wf_def ran_distinct)
  ultimately show ?thesis using wf unfolding loops_wf_def by blast
qed

definition example_catalog :: Store where
  "example_catalog = load_backend \<lparr>bc_ID = ''a'', bc_Name = [], bc_BaseURL = ''u'', bc_APIKey = [],
     bc_Enabled = True, bc_Models = [''m''], bc_Weight = 1, bc_MaxConcurrentRequests = 0, bc_TimeoutMS = 0,
     bc_StreamIdleTimeoutMS = 0, bc_HealthCheck = None, bc_Tags = []\<rparr> (store_New [])"

theorem Rescan_reconciles_witness:
  "dom (map_of (h_loops (Rescan rev example_catalog ((NewHealthChecker quick_defaults)\<lparr>h_started := True\<rparr>)))) = {''a''}"
proof -
  have wf: "store_wf example_catalog" unfolding example_catalog_def by (rule load_backend_wf [OF store_New_wf])
  have d: "dom (map_of (s_backends example_catalog)) = {''a''}"
    by (simp add: example_catalog_def load_backend_def new_backend_def store_New_def Let_def)
  have "loops_wf ((NewHealthChecker quick_defaults)\<lparr>h_started := True\<rparr>)"
    by (simp add: loops_wf_def NewHealthChecker_def)
  from Rescan_reconciles [OF wf is_order_rev _ this] d show ?thesis by simp
qed

text \<open>
  A backend that is created again under an existing id is not probed: the goroutine of the
  id keeps probing the object that was replaced, adding the new object starts no goroutine, and
  so the health state of the object that receives the traffic is never updated.
\<close>

theorem recreated_backend_not_probed:
  assumes "map_of (h_loops h) (b_ID (s_bheap s p)) = Some ch" and "p \<notin> snd ` set (h_running h)"
  shows "AddBackend (s_bheap s) p h = h
       \<and> store_Backend (b_ID (s_bheap s p)) (UpsertBackend p s) = Some p
       \<and> p \<notin> snd ` set (h_running (AddBackend (s_bheap s) p h))"
  using assms by (simp add: AddBackend_def spawn_def store_Backend_def UpsertBackend_def upd_backend_def Let_def)

theorem recreated_backend_not_probed_witness:
  "1 \<notin> snd ` set (h_running (AddBackend (\<lambda>_. zero_backend\<lparr>b_ID := ''a''\<rparr>) 1
     \<lparr>h_defaults = quick_defaults, h_loops = [(''a'', 0)], h_started = True, h_running = [(0, 0)], h_nextch = 1\<rparr>))"
  using recreated_backend_not_probed [of "\<lparr>h_defaults = quick_defaults, h_loops = [(''a'', 0)], h_started = True, h_running = [(0, 0)], h_nextch = 1\<rparr>"
      "(store_New [])\<lparr>s_bheap := \<lambda>_. zero_backend\<lparr>b_ID := ''a''\<rparr>\<rparr>" 1 0]
  by simp

end
