(* ===== verification/Log_Store.thy ===== *)
theory Log_Store
  imports Gateway_Prelude
begin

text \<open>
  The in-memory log store, \<open>Memory\<close> of \<^verbatim>\<open>internal/logstore/logstore.go\<close>: request and audit
  records with bounded retention, filtered queries with paging, and aggregated statistics. The
  values of an audit record are JSON values, a nil map is \<open>None\<close>. Counters are 64-bit.
\<close>

datatype json = JNull | JBool bool | JInt int | JNumber rat | JString string | JStrings "string list" | JObject "(string \<times> json) list"

record RequestLog =
  lr_ID :: string
  lr_RequestID :: string
  lr_APIKeyID :: string
  lr_APIKeyName :: string
  lr_ClientIP :: string
  lr_Model :: string
  lr_InternalModel :: string
  lr_BackendID :: string
  lr_Endpoint :: string
  lr_Stream :: bool
  lr_StatusCode :: int
  lr_ErrorCode :: string
  lr_PromptTokens :: int
  lr_CompletionTokens :: int
  lr_TotalTokens :: int
  lr_ReasoningTokens :: int
  lr_LatencyMS :: int
  lr_TTFTMS :: int
  lr_RawRequest :: string
  lr_RawResponse :: string
  lr_Metadata :: "string gomap"
  lr_CreatedAt :: time

record AuditEvent =
  ae_ID :: string
  ae_AdminUser :: string
  ae_Action :: string
  ae_TargetType :: string
  ae_TargetID :: string
  ae_OldValue :: "json gomap option"
  ae_NewValue :: "json gomap option"
  ae_IP :: string
  ae_UserAgent :: string
  ae_CreatedAt :: time

record LogQuery =
  lq_RequestID :: string
  lq_APIKeyID :: string
  lq_ClientIP :: string
  lq_Model :: string
  lq_BackendID :: string
  lq_Endpoint :: string
  lq_StatusCode :: int
  lq_ErrorCode :: string
  lq_Stream :: "bool option"
  lq_Since :: "time option"
  lq_Until :: "time option"
  lq_Limit :: int
  lq_Offset :: int

record AuditQuery =
  aq_AdminUser :: string
  aq_Action :: string
  aq_TargetType :: string
  aq_TargetID :: string
  aq_Since :: "time option"
  aq_Until :: "time option"
  aq_Limit :: int
  aq_Offset :: int

text \<open>\<open>ModelStat\<close>, \<open>BackendStat\<close>, \<open>KeyStat\<close> and \<open>ClientIPStat\<close> have the same fields.\<close>

record ModelStat =
  ms_Requests :: int
  ms_Errors :: int
  ms_Tokens :: int

record Stats =
  ss_TotalRequests :: int
  ss_SuccessTotal :: int
  ss_ErrorTotal :: int
  ss_PromptTokens :: int
  ss_CompletionTokens :: int
  ss_TotalTokens :: int
  ss_ByModel :: "ModelStat gomap"
  ss_ByBackend :: "ModelStat gomap"
  ss_ByAPIKey :: "ModelStat gomap"
  ss_ByClientIP :: "ModelStat gomap"

record Memory =
  mem_requests :: "RequestLog list"
  mem_audit :: "AuditEvent list"
  mem_maxRecs :: int

definition NewMemory :: "int \<Rightarrow> Memory" where
  "NewMemory maxRecords =
     \<lparr>mem_requests = [], mem_audit = [], mem_maxRecs = (if maxRecords \<le> 0 then 50000 else maxRecords)\<rparr>"

text \<open>Appending to a bounded list; the oldest tenth goes when it overflows.\<close>

definition evict_count :: "int \<Rightarrow> nat" where
  "evict_count maxRecs = (let e = maxRecs div 10 in if e < 1 then 1 else nat e)"

definition append_bounded :: "int \<Rightarrow> 'a \<Rightarrow> 'a list \<Rightarrow> 'a list" where
  "append_bounded maxRecs rec xs0 =
     (let xs = xs0 @ [rec] in
      if maxRecs < int (length xs) then drop (evict_count maxRecs) xs else xs)"

definition AppendRequest :: "RequestLog \<Rightarrow> Memory \<Rightarrow> Memory" where
  "AppendRequest rec m = m\<lparr>mem_requests := append_bounded (mem_maxRecs m) rec (mem_requests m)\<rparr>"

definition AppendAudit :: "AuditEvent \<Rightarrow> Memory \<Rightarrow> Memory" where
  "AppendAudit evt m = m\<lparr>mem_audit := append_bounded (mem_maxRecs m) evt (mem_audit m)\<rparr>"

definition matchLog :: "RequestLog \<Rightarrow> LogQuery \<Rightarrow> bool" where
  "matchLog r q =
     (if lq_RequestID q \<noteq> [] \<and> lr_RequestID r \<noteq> lq_RequestID q then False
      else if lq_APIKeyID q \<noteq> [] \<and> lr_APIKeyID r \<noteq> lq_APIKeyID q then False
      else if lq_ClientIP q \<noteq> [] \<and> lr_ClientIP r \<noteq> lq_ClientIP q then False
      else if lq_Model q \<noteq> [] \<and> lr_Model r \<noteq> lq_Model q then False
      else if lq_BackendID q \<noteq> [] \<and> lr_BackendID r \<noteq> lq_BackendID q then False
      else if lq_Endpoint q \<noteq> [] \<and> lr_Endpoint r \<noteq> lq_Endpoint q then False
      else if lq_StatusCode q \<noteq> 0 \<and> lr_StatusCode r \<noteq> lq_StatusCode q then False
      else if lq_ErrorCode q \<noteq> [] \<and> lr_ErrorCode r \<noteq> lq_ErrorCode q then False
      else if (case lq_Stream q of None \<Rightarrow> False | Some b \<Rightarrow> lr_Stream r \<noteq> b) then False
      else if (case lq_Since q of None \<Rightarrow> False | Some t \<Rightarrow> lr_CreatedAt r < t) then False
      else if (case lq_Until q of None \<Rightarrow> False | Some t \<Rightarrow> t < lr_CreatedAt r) then False
      else True)"

text \<open>The scan from the newest record down; it stops when enough records were found.\<close>

fun scan_newest :: "('a \<Rightarrow> bool) \<Rightarrow> int \<Rightarrow> 'a list \<Rightarrow> 'a list \<Rightarrow> 'a list" where
  "scan_newest P n out [] = out"
| "scan_newest P n out (r # rs) =
     (if int (length out) < n then scan_newest P n (if P r then out @ [r] else out) rs else out)"

definition page_limit :: "int \<Rightarrow> int" where
  "page_limit l = (if l \<le> 0 \<or> 1000 < l then 200 else l)"

definition QueryRequests :: "LogQuery \<Rightarrow> Memory \<Rightarrow> RequestLog list" where
  "QueryRequests q m =
     (let limit = page_limit (lq_Limit q);
          offset = (if lq_Offset q < 0 then 0 else lq_Offset q);
          out = scan_newest (\<lambda>r. matchLog r q) (add64 limit offset) [] (rev (mem_requests m))
      in if int (length out) \<le> offset then []
         else take (nat limit) (drop (nat offset) out))"

definition matchAudit :: "AuditEvent \<Rightarrow> AuditQuery \<Rightarrow> bool" where
  "matchAudit a q =
     (if aq_AdminUser q \<noteq> [] \<and> ae_AdminUser a \<noteq> aq_AdminUser q then False
      else if aq_Action q \<noteq> [] \<and> ae_Action a \<noteq> aq_Action q then False
      else if aq_TargetType q \<noteq> [] \<and> ae_TargetType a \<noteq> aq_TargetType q then False
      else if aq_TargetID q \<noteq> [] \<and> ae_TargetID a \<noteq> aq_TargetID q then False
      else if (case aq_Since q of None \<Rightarrow> False | Some t \<Rightarrow> ae_CreatedAt a < t) then False
      else if (case aq_Until q of None \<Rightarrow> False | Some t \<Rightarrow> t < ae_CreatedAt a) then False
      else True)"

text \<open>A negative offset makes the slice expression panic: \<open>None\<close>.\<close>

definition QueryAudit :: "AuditQuery \<Rightarrow> Memory \<Rightarrow> AuditEvent list option" where
  "QueryAudit q m =
     (let limit = page_limit (aq_Limit q);
          out = scan_newest (\<lambda>a. matchAudit a q) (add64 limit (aq_Offset q)) [] (rev (mem_audit m))
      in if int (length out) \<le> aq_Offset q then Some []
         else if aq_Offset q < 0 then None
         else Some (take (nat limit) (drop (nat (aq_Offset q)) out)))"

definition zero_stat :: ModelStat where
  "zero_stat = \<lparr>ms_Requests = 0, ms_Errors = 0, ms_Tokens = 0\<rparr>"

definition bump_stat :: "string \<Rightarrow> RequestLog \<Rightarrow> ModelStat gomap \<Rightarrow> ModelStat gomap" where
  "bump_stat k r m =
     (let s0 = (case map_of m k of None \<Rightarrow> zero_stat | Some s \<Rightarrow> s);
          s1 = s0\<lparr>ms_Requests := add64 (ms_Requests s0) 1, ms_Tokens := add64 (ms_Tokens s0) (lr_TotalTokens r)\<rparr>;
          s2 = (if 400 \<le> lr_StatusCode r then s1\<lparr>ms_Errors := add64 (ms_Errors s1) 1\<rparr> else s1)
      in AList.update k s2 m)"

definition stats_add :: "RequestLog \<Rightarrow> Stats \<Rightarrow> Stats" where
  "stats_add r s0 =
     (let ok = 200 \<le> lr_StatusCode r \<and> lr_StatusCode r < 400;
          s1 = s0\<lparr>ss_TotalRequests := add64 (ss_TotalRequests s0) 1,
                  ss_SuccessTotal := (if ok then add64 (ss_SuccessTotal s0) 1 else ss_SuccessTotal s0),
                  ss_ErrorTotal := (if ok then ss_ErrorTotal s0 else add64 (ss_ErrorTotal s0) 1),
                  ss_PromptTokens := add64 (ss_PromptTokens s0) (lr_PromptTokens r),
                  ss_CompletionTokens := add64 (ss_CompletionTokens s0) (lr_CompletionTokens r),
                  ss_TotalTokens := add64 (ss_TotalTokens s0) (lr_TotalTokens r)\<rparr>
      in s1\<lparr>ss_ByModel := bump_stat (lr_Model r) r (ss_ByModel s1),
            ss_ByBackend := bump_stat (lr_BackendID r) r (ss_ByBackend s1),
            ss_ByAPIKey := bump_stat (lr_APIKeyID r) r (ss_ByAPIKey s1),
            ss_ByClientIP := (if lr_ClientIP r \<noteq> [] then bump_stat (lr_ClientIP r) r (ss_ByClientIP s1)
                              else ss_ByClientIP s1)\<rparr>)"

definition StatsSince :: "time \<Rightarrow> Memory \<Rightarrow> Stats" where
  "StatsSince since m =
     fold (\<lambda>r s. if lr_CreatedAt r < since then s else stats_add r s) (mem_requests m)
       \<lparr>ss_TotalRequests = 0, ss_SuccessTotal = 0, ss_ErrorTotal = 0, ss_PromptTokens = 0,
        ss_CompletionTokens = 0, ss_TotalTokens = 0, ss_ByModel = [], ss_ByBackend = [],
        ss_ByAPIKey = [], ss_ByClientIP = []\<rparr>"

section \<open>Retention and paging\<close>

lemma append_bounded_length:
  assumes "0 < n" and "int (length xs) \<le> n"
  shows "int (length (append_bounded n x xs)) \<le> n"
  using assms by (auto simp: append_bounded_def evict_count_def Let_def)

text \<open>The records that survive are the newest ones: a suffix of everything appended.\<close>

lemma append_bounded_suffix:
  "\<exists>old. old @ append_bounded n x xs = xs @ [x]"
proof -
  have "\<exists>old. old @ drop k (xs @ [x]) = xs @ [x]" for k
    by (rule exI [of _ "take k (xs @ [x])"]) (rule append_take_drop_id)
  then show ?thesis unfolding append_bounded_def Let_def by (simp del: drop_append)
qed

lemma scan_newest_take:
  "scan_newest P n out rs = out @ take (nat (n - int (length out))) (filter P rs)"
proof (induction rs arbitrary: out)
  case (Cons r rs)
  show ?case
  proof (cases "int (length out) < n")
    case True
    then have "nat (n - int (length out)) = Suc (nat (n - int (length out) - 1))" by simp
    with True Cons show ?thesis by (simp add: algebra_simps)
  qed simp
qed simp

fun log_run :: "RequestLog list \<Rightarrow> Memory \<Rightarrow> Memory" where
  "log_run [] m = m"
| "log_run (r # rs) m = log_run rs (AppendRequest r m)"

lemma log_run_inv:
  assumes "0 < mem_maxRecs m" and "int (length (mem_requests m)) \<le> mem_maxRecs m"
  shows "int (length (mem_requests (log_run rs m))) \<le> mem_maxRecs m
       \<and> (\<exists>old. old @ mem_requests (log_run rs m) = mem_requests m @ rs)
       \<and> mem_maxRecs (log_run rs m) = mem_maxRecs m"
  using assms
proof (induction rs arbitrary: m)
  case (Cons r rs)
  let ?m = "AppendRequest r m"
  have m: "mem_maxRecs ?m = mem_maxRecs m" "int (length (mem_requests ?m)) \<le> mem_maxRecs m"
    using append_bounded_length Cons.prems by (simp_all add: AppendRequest_def)
  obtain old1 where o1: "old1 @ mem_requests ?m = mem_requests m @ [r]"
    using append_bounded_suffix [of "mem_maxRecs m" r "mem_requests m"] by (auto simp: AppendRequest_def)
  from Cons.IH [of ?m] m Cons.prems(1) obtain old2 where
    o2: "old2 @ mem_requests (log_run rs ?m) = mem_requests ?m @ rs"
    "int (length (mem_requests (log_run rs ?m))) \<le> mem_maxRecs m" "mem_maxRecs (log_run rs ?m) = mem_maxRecs m"
    by auto
  have "(old1 @ old2) @ mem_requests (log_run rs ?m) = mem_requests m @ r # rs"
    using o1 o2(1) by (metis append.assoc append_Cons append_Nil)
  then have "\<exists>old. old @ mem_requests (log_run rs ?m) = mem_requests m @ r # rs" by blast
  with o2(2,3) show ?case by simp
qed simp

lemma QueryRequests_page:
  assumes "lq_Offset q \<le> max_int64 - 1000"
  shows "QueryRequests q m =
           take (nat (page_limit (lq_Limit q)))
             (drop (nat (lq_Offset q)) (filter (\<lambda>r. matchLog r q) (rev (mem_requests m))))"
proof -
  define lim where "lim = page_limit (lq_Limit q)"
  define off where "off = (if lq_Offset q < 0 then 0 else lq_Offset q)"
  have lim: "0 < lim" "lim \<le> 1000" by (auto simp: lim_def page_limit_def)
  have off: "0 \<le> off" "nat off = nat (lq_Offset q)" by (auto simp: off_def)
  have "off \<le> max_int64 - 1000" using assms by (simp add: off_def)
  with lim off have "add64 lim off = lim + off" by (intro add64_id) auto
  then have out: "QueryRequests q m =
     (let out = take (nat (lim + off)) (filter (\<lambda>r. matchLog r q) (rev (mem_requests m)))
      in if int (length out) \<le> off then [] else take (nat lim) (drop (nat off) out))"
    unfolding QueryRequests_def lim_def [symmetric] off_def [symmetric] by (simp add: scan_newest_take)
  have "take (nat lim) (drop (nat off) (take (nat (lim + off)) xs)) = take (nat lim) (drop (nat off) xs)" for xs :: "RequestLog list"
    using lim off by (simp add: drop_take nat_add_distrib)
  moreover have "take (nat lim) (drop (nat off) xs) = []" if "int (length (take (nat (lim + off)) xs)) \<le> off" for xs :: "RequestLog list"
    using that lim off by (cases "length xs \<le> nat off") auto
  ultimately have "QueryRequests q m = take (nat lim) (drop (nat off) (filter (\<lambda>r. matchLog r q) (rev (mem_requests m))))"
    unfolding out Let_def
    by (cases "int (length (take (nat (lim + off)) (filter (\<lambda>r. matchLog r q) (rev (mem_requests m))))) \<le> off")
       (simp_all only: if_True if_False)
  then show ?thesis by (simp add: lim_def off)
qed

text \<open>
  C33. The request log keeps the newest records within its bound, and a query returns, newest
  first, exactly the page asked for of the retained records that match: with limit \<open>l\<close> (200 when
  the limit is not in 1..1000) and offset \<open>k\<close>, the matching records number \<open>k\<close> to
  \<open>k + l - 1\<close> counted from the newest.
\<close>

theorem request_log_query:
  assumes "m = log_run rs (NewMemory n)" and "lq_Offset q \<le> max_int64 - 1000"
  shows "int (length (mem_requests m)) \<le> mem_maxRecs m
       \<and> (\<exists>old. old @ mem_requests m = rs)
       \<and> QueryRequests q m =
           take (nat (page_limit (lq_Limit q)))
             (drop (nat (lq_Offset q)) (filter (\<lambda>r. matchLog r q) (rev (mem_requests m))))"
proof -
  have "0 < mem_maxRecs (NewMemory n)" "mem_requests (NewMemory n) = []" by (simp_all add: NewMemory_def)
  with log_run_inv [of "NewMemory n" rs] QueryRequests_page [OF assms(2)] assms(1) show ?thesis by simp
qed

definition any_log :: LogQuery where
  "any_log = \<lparr>lq_RequestID = [], lq_APIKeyID = [], lq_ClientIP = [], lq_Model = [], lq_BackendID = [],
     lq_Endpoint = [], lq_StatusCode = 0, lq_ErrorCode = [], lq_Stream = None, lq_Since = None,
     lq_Until = None, lq_Limit = 1, lq_Offset = 1\<rparr>"

definition sample_log :: "time \<Rightarrow> RequestLog" where
  "sample_log t = \<lparr>lr_ID = [], lr_RequestID = [], lr_APIKeyID = [], lr_APIKeyName = [], lr_ClientIP = [],
     lr_Model = [], lr_InternalModel = [], lr_BackendID = [], lr_Endpoint = [], lr_Stream = False,
     lr_StatusCode = 200, lr_ErrorCode = [], lr_PromptTokens = 0, lr_CompletionTokens = 0, lr_TotalTokens = 0,
     lr_ReasoningTokens = 0, lr_LatencyMS = 0, lr_TTFTMS = 0, lr_RawRequest = [], lr_RawResponse = [],
     lr_Metadata = [], lr_CreatedAt = t\<rparr>"

theorem request_log_query_witness:
  "QueryRequests any_log (log_run [sample_log 1, sample_log 2, sample_log 3] (NewMemory 2)) = [sample_log 2]"
proof -
  have m: "mem_requests (log_run [sample_log 1, sample_log 2, sample_log 3] (NewMemory 2)) = [sample_log 2, sample_log 3]"
    by (simp add: AppendRequest_def append_bounded_def evict_count_def NewMemory_def Let_def)
  have "matchLog r any_log" for r by (simp add: matchLog_def any_log_def)
  with request_log_query [OF refl, of any_log "[sample_log 1, sample_log 2, sample_log 3]" 2] m show ?thesis
    by (simp add: any_log_def page_limit_def)
qed

end
