(* ===== verification/Proxy_Model.thy ===== *)
theory Proxy_Model
  imports Store_Model
begin

text \<open>
  The proxy: \<^verbatim>\<open>internal/proxy/errors.go\<close>, \<^verbatim>\<open>internal/proxy/proxy.go\<close> and
  \<^verbatim>\<open>internal/proxy/stream.go\<close>. The first part builds the upstream request: which headers of the
  client reach the backend and with which credentials. The second part is the relay of the
  response, in one piece or line by line for an event stream. What the backend answers, the
  JSON decoder of the usage block and the interleaving of timer, client and backend in a stream
  are arguments.
\<close>

section \<open>Errors\<close>

record APIError =
  er_Message :: string
  er_Type :: string
  er_Code :: string
  er_Param :: string

definition mk_error :: "string \<Rightarrow> string \<Rightarrow> string \<Rightarrow> APIError" where
  "mk_error ty msg code = \<lparr>er_Message = msg, er_Type = ty, er_Code = code, er_Param = []\<rparr>"

definition InvalidRequest :: "string \<Rightarrow> string \<Rightarrow> APIError" where
  "InvalidRequest msg code = mk_error ''invalid_request_error'' msg code"

definition Unauthorized :: "string \<Rightarrow> string \<Rightarrow> APIError" where
  "Unauthorized msg code = mk_error ''authentication_error'' msg code"

definition PermissionError :: "string \<Rightarrow> string \<Rightarrow> APIError" where
  "PermissionError msg code = mk_error ''permission_error'' msg code"

definition NotFound :: "string \<Rightarrow> string \<Rightarrow> APIError" where
  "NotFound msg code = mk_error ''invalid_request_error'' msg code"

definition RateLimit :: "string \<Rightarrow> string \<Rightarrow> APIError" where
  "RateLimit msg code = mk_error ''rate_limit_error'' msg code"

definition BackendUnavailable :: "string \<Rightarrow> string \<Rightarrow> APIError" where
  "BackendUnavailable msg code = mk_error ''backend_unavailable'' msg code"

definition InternalError :: "string \<Rightarrow> string \<Rightarrow> APIError" where
  "InternalError msg code = mk_error ''internal_error'' msg code"

section \<open>Headers\<close>

text \<open>
  An \<open>http.Header\<close> maps canonical names to lists of values. \<open>CanonicalMIMEHeaderKey\<close> upper-cases
  the first letter and every letter after a hyphen and lower-cases the rest; a name with a byte
  that is not allowed in a header name is left alone.
\<close>

type_synonym http_Header = "string list gomap"

definition upper_char :: "char \<Rightarrow> char" where
  "upper_char c = (let n = (of_char c :: nat) in if 97 \<le> n \<and> n \<le> 122 then char_of (n - 32) else c)"

definition token_char :: "char \<Rightarrow> bool" where
  "token_char c \<longleftrightarrow> (let n = (of_char c :: nat) in
     (48 \<le> n \<and> n \<le> 57) \<or> (65 \<le> n \<and> n \<le> 90) \<or> (97 \<le> n \<and> n \<le> 122)
     \<or> n \<in> set [33, 35, 36, 37, 38, 39, 42, 43, 45, 46, 94, 95, 96, 124, 126])"

fun canon_from :: "bool \<Rightarrow> string \<Rightarrow> string" where
  "canon_from up [] = []"
| "canon_from up (c # s) = (if up then upper_char c else lower_char c) # canon_from (c = CHR ''-'') s"

definition CanonicalMIMEHeaderKey :: "string \<Rightarrow> string" where
  "CanonicalMIMEHeaderKey s = (if list_all token_char s then canon_from True s else s)"

definition hdr_Add :: "string \<Rightarrow> string \<Rightarrow> http_Header \<Rightarrow> http_Header" where
  "hdr_Add k v h =
     (let c = CanonicalMIMEHeaderKey k
      in AList.update c ((case map_of h c of None \<Rightarrow> [] | Some vs \<Rightarrow> vs) @ [v]) h)"

definition hdr_Set :: "string \<Rightarrow> string \<Rightarrow> http_Header \<Rightarrow> http_Header" where
  "hdr_Set k v h = AList.update (CanonicalMIMEHeaderKey k) [v] h"

definition hdr_Del :: "string \<Rightarrow> http_Header \<Rightarrow> http_Header" where
  "hdr_Del k h = AList.delete (CanonicalMIMEHeaderKey k) h"

definition hdr_Get :: "string \<Rightarrow> http_Header \<Rightarrow> string" where
  "hdr_Get k h = (case map_of h (CanonicalMIMEHeaderKey k) of Some (v # vs) \<Rightarrow> v | _ \<Rightarrow> [])"

definition hopByHop :: "string list" where
  "hopByHop = [''connection'', ''proxy-connection'', ''keep-alive'', ''proxy-authenticate'',
     ''proxy-authorization'', ''te'', ''trailer'', ''transfer-encoding'', ''upgrade'', ''host'',
     ''content-length'']"

definition dropForward :: "string list" where
  "dropForward = [''authorization'', ''x-api-key'', ''cookie'']"

text \<open>The ranges over the source header; its order does not matter for distinct names.\<close>

fun copy_headers :: "(string \<Rightarrow> bool) \<Rightarrow> http_Header \<Rightarrow> http_Header \<Rightarrow> http_Header" where
  "copy_headers skip [] dst = dst"
| "copy_headers skip ((k, vs) # src) dst =
     copy_headers skip src (if skip (ToLower k) then dst else fold (hdr_Add k) vs dst)"

definition copyForwardHeaders :: "http_Header \<Rightarrow> http_Header \<Rightarrow> http_Header" where
  "copyForwardHeaders dst src = copy_headers (\<lambda>lk. lk \<in> set hopByHop \<or> lk \<in> set dropForward) src dst"

definition copyResponseHeaders :: "http_Header \<Rightarrow> http_Header \<Rightarrow> http_Header" where
  "copyResponseHeaders dst src = copy_headers (\<lambda>lk. lk \<in> set hopByHop) src dst"

record Usage_block =
  us_PromptTokens :: int
  us_CompletionTokens :: int
  us_TotalTokens :: int
  us_ReasoningTokens :: int

record ForwardOptions =
  fo_Method :: string
  fo_Backend :: Backend
  fo_UpstreamPath :: string
  fo_Body :: string
  fo_IsStream :: bool
  fo_StreamIdleTimeoutMS :: int
  fo_TimeoutMS :: int
  fo_Model :: string
  fo_ForwardModel :: string
  fo_APIKeyLabel :: string
  fo_Endpoint :: string
  fo_ContentType :: string

definition upstreamURL :: "ForwardOptions \<Rightarrow> string" where
  "upstreamURL opts = b_BaseURL (fo_Backend opts) @ fo_UpstreamPath opts"

definition forward_timeout :: "ForwardOptions \<Rightarrow> int" where
  "forward_timeout opts =
     (let t = fo_TimeoutMS opts;
          t1 = (if t \<le> 0 then b_TimeoutMS (fo_Backend opts) else t)
      in if t1 \<le> 0 then 120000 else t1)"

text \<open>The headers of the upstream request, from those of the client.\<close>

definition upstream_headers :: "ForwardOptions \<Rightarrow> http_Header \<Rightarrow> http_Header" where
  "upstream_headers opts client =
     (let h0 = copyForwardHeaders [] client;
          key = b_APIKey (fo_Backend opts);
          h1 = (if key \<noteq> [] then hdr_Set ''Authorization'' (''Bearer '' @ key) h0
                else hdr_Del ''Authorization'' h0);
          h2 = (if fo_ContentType opts \<noteq> [] then hdr_Set ''Content-Type'' (fo_ContentType opts) h1
                else if hdr_Get ''Content-Type'' h1 = [] then hdr_Set ''Content-Type'' ''application/json'' h1
                else h1);
          h3 = hdr_Set ''Accept-Encoding'' ''identity'' h2
      in if fo_IsStream opts then hdr_Set ''Accept'' ''text/event-stream'' h3
         else if hdr_Get ''Accept'' h3 = [] then hdr_Set ''Accept'' ''application/json'' h3
         else h3)"

section \<open>The response\<close>

text \<open>What the backend sends back, or why it does not.\<close>

datatype upstream =
    BuildError string
  | DeadlineExceeded string
  | Canceled string
  | Unreachable string
  | Response int http_Header "(string, string) sum"  \<comment> \<open>status, headers, read error or body\<close>

text \<open>What the client receives, the status and error returned, and the calls of the hooks.\<close>

record relay =
  re_status :: int
  re_error :: "string option"
  re_written :: "(int \<times> http_Header \<times> string) option"
  re_failure :: "(int \<times> APIError) option"
  re_usage :: "Usage_block list"
  re_raw :: "string option"

definition relay_error :: "int \<Rightarrow> APIError \<Rightarrow> string \<Rightarrow> relay" where
  "relay_error status err msg =
     \<lparr>re_status = status, re_error = Some msg, re_written = None, re_failure = Some (status, err),
      re_usage = [], re_raw = None\<rparr>"

definition isEventStream :: "http_Header \<Rightarrow> bool" where
  "isEventStream h = HasPrefix (hdr_Get ''Content-Type'' h) ''text/event-stream''"

definition passResponse :: "(string \<Rightarrow> Usage_block option) \<Rightarrow> int \<Rightarrow> http_Header \<Rightarrow> (string, string) sum \<Rightarrow> http_Header \<Rightarrow> relay" where
  "passResponse extractUsage code hdr body whdr =
     (case body of
        Inl err \<Rightarrow> relay_error 502 (mk_error ''backend_error'' (''Failed to read backend response: '' @ err) ''backend_read_failed'') err
      | Inr b \<Rightarrow>
          let w = hdr_Set ''Content-Length'' (Itoa (int (length b))) (copyResponseHeaders whdr hdr) in
          \<lparr>re_status = code, re_error = None, re_written = Some (code, w, b), re_failure = None,
           re_usage = (if 200 \<le> code \<and> code < 300 then
                         (case extractUsage b of Some u \<Rightarrow> [u] | None \<Rightarrow> []) else []),
           re_raw = Some b\<rparr>)"

section \<open>Event streams\<close>

text \<open>
  One call of \<open>ReadSlice\<close>: the bytes it returned and how it ended. \<open>readLine\<close> joins the
  pieces of a line that is longer than the buffer.
\<close>

datatype slice_end = LineEnd | BufferFull | ReadErr bool  \<comment> \<open>True: EOF\<close>

fun readLine :: "string \<Rightarrow> (string \<times> slice_end) list \<Rightarrow> (string \<times> slice_end \<times> (string \<times> slice_end) list) option" where
  "readLine out [] = None"
| "readLine out ((chunk, BufferFull) # rest) = readLine (out @ chunk) rest"
| "readLine out ((chunk, LineEnd) # rest) = Some (out @ chunk, LineEnd, rest)"
| "readLine out ((chunk, ReadErr e) # rest) = Some (out @ chunk, ReadErr e, rest)"

lemma readLine_shorter: "readLine out rs = Some (l, e, rest) \<Longrightarrow> length rest < length rs"
  by (induction out rs rule: readLine.induct) auto

text \<open>The producer goroutine: the lines it sends, in order, up to the first read error.\<close>

function produce :: "(string \<times> slice_end) list \<Rightarrow> (string \<times> bool option) list" where
  "produce rs =
     (case readLine [] rs of
        None \<Rightarrow> []
      | Some (line, LineEnd, rest) \<Rightarrow> (if line = [] then produce rest else (line, None) # produce rest)
      | Some (line, ReadErr eof, rest) \<Rightarrow> [(line, Some eof)]
      | Some (line, BufferFull, rest) \<Rightarrow> [])"
  by pat_completeness auto
termination
  by (relation "measure length") (auto dest: readLine_shorter)

declare produce.simps [simp del]

definition hasContent :: "string \<Rightarrow> bool" where
  "hasContent line =
     (let trimmed = TrimSpace line in trimmed \<noteq> [] \<and> \<not> HasPrefix trimmed '':'')"

definition parseChunkUsage :: "(string \<Rightarrow> Usage_block option) \<Rightarrow> string \<Rightarrow> Usage_block option" where
  "parseChunkUsage decode line =
     (let s = TrimSpace line in
      if \<not> HasPrefix s ''data:'' then None
      else let payload = TrimSpace (TrimPrefix s ''data:'') in
        if payload = [] \<or> payload = ''[DONE]'' then None else decode payload)"

text \<open>
  One turn of the consumer's \<open>select\<close>: the client goes away, the idle timer fires, or the next
  line of the channel arrives (and is written, or the write fails).
\<close>

datatype turn = ClientDone | IdleFires | Chunk bool  \<comment> \<open>True: the write succeeds\<close>

record stream_state =
  sr_written :: string
  sr_usage :: "Usage_block option"
  sr_reports :: "Usage_block list"
  sr_first :: bool
  sr_chunks :: string

datatype stream_end = Ended "string option"

definition mark_first :: "string \<Rightarrow> stream_state \<Rightarrow> stream_state" where
  "mark_first line st = (if \<not> sr_first st \<and> hasContent line then st\<lparr>sr_first := True\<rparr> else st)"

text \<open>A line that was written: the usage hook, once, and the chunk hook.\<close>

definition relay_line :: "(string \<Rightarrow> Usage_block option) \<Rightarrow> string \<Rightarrow> stream_state \<Rightarrow> stream_state" where
  "relay_line decode line st1 =
     (let st2 = st1\<lparr>sr_written := sr_written st1 @ line\<rparr>;
          st3 = (if sr_usage st2 = None then
                   (case parseChunkUsage decode line of
                      None \<Rightarrow> st2
                    | Some u \<Rightarrow> st2\<lparr>sr_usage := Some u, sr_reports := sr_reports st2 @ [u]\<rparr>)
                 else st2)
      in st3\<lparr>sr_chunks := sr_chunks st3 @ line\<rparr>)"

fun stream_loop :: "(string \<Rightarrow> Usage_block option) \<Rightarrow> turn list \<Rightarrow> (string \<times> bool option) list \<Rightarrow> stream_state \<Rightarrow> (stream_end \<times> stream_state) option" where
  "stream_loop decode [] ch st = None"
| "stream_loop decode (ClientDone # ts) ch st = Some (Ended None, st)"
| "stream_loop decode (IdleFires # ts) ch st = Some (Ended (Some ''stream idle timeout''), st)"
| "stream_loop decode (Chunk ok # ts) [] st = Some (Ended None, st)"
| "stream_loop decode (Chunk ok # ts) ((line, err) # ch) st =
     (if line \<noteq> [] \<and> \<not> ok then Some (Ended (Some ''write failed''), mark_first line st)
      else let st' = (if line \<noteq> [] then relay_line decode line (mark_first line st) else st)
           in if err \<noteq> None then Some (Ended None, st')
              else stream_loop decode ts ch st')"

definition stream_start :: stream_state where
  "stream_start = \<lparr>sr_written = [], sr_usage = None, sr_reports = [], sr_first = False, sr_chunks = []\<rparr>"

definition streamResponse :: "(string \<Rightarrow> Usage_block option) \<Rightarrow> turn list \<Rightarrow> (string \<times> slice_end) list \<Rightarrow> (stream_end \<times> stream_state) option" where
  "streamResponse decode ts reads = stream_loop decode ts (produce reads) stream_start"

definition stream_headers :: "http_Header \<Rightarrow> http_Header \<Rightarrow> http_Header" where
  "stream_headers whdr hdr =
     hdr_Del ''Content-Length''
       (hdr_Set ''Connection'' ''keep-alive''
         (hdr_Set ''Cache-Control'' ''no-cache''
           (hdr_Set ''Content-Type'' ''text/event-stream'' (copyResponseHeaders whdr hdr))))"

definition stream_idle :: "ForwardOptions \<Rightarrow> int" where
  "stream_idle opts =
     (let i = fo_StreamIdleTimeoutMS opts;
          i1 = (if i \<le> 0 then b_StreamIdleTimeoutMS (fo_Backend opts) else i)
      in if i1 \<le> 0 then 30000 else i1)"

text \<open>The dispatch of \<open>Forward\<close> for a request that is not streamed.\<close>

definition proxy_Forward :: "(string \<Rightarrow> Usage_block option) \<Rightarrow> upstream \<Rightarrow> http_Header \<Rightarrow> relay" where
  "proxy_Forward extractUsage up whdr =
     (case up of
        BuildError e \<Rightarrow>
          \<lparr>re_status = 500, re_error = Some (''build upstream request: '' @ e), re_written = None,
           re_failure = None, re_usage = [], re_raw = None\<rparr>
      | DeadlineExceeded e \<Rightarrow>
          relay_error 504 (mk_error ''backend_timeout'' ''Backend request timed out'' ''backend_timeout'') e
      | Canceled e \<Rightarrow>
          \<lparr>re_status = 499, re_error = Some e, re_written = None, re_failure = None, re_usage = [], re_raw = None\<rparr>
      | Unreachable e \<Rightarrow>
          relay_error 502 (mk_error ''backend_error'' (''Failed to reach backend: '' @ e) ''backend_unreachable'') e
      | Response code hdr body \<Rightarrow> passResponse extractUsage code hdr body whdr)"

section \<open>What reaches the backend\<close>

text \<open>The header of a request the server has parsed: distinct, canonical names.\<close>

definition header_wf :: "http_Header \<Rightarrow> bool" where
  "header_wf h \<longleftrightarrow> distinct (keys_of h) \<and> (\<forall>k \<in> set (keys_of h). CanonicalMIMEHeaderKey k = k)"

lemma fold_Add:
  assumes "CanonicalMIMEHeaderKey k = k"
  shows "map_of (fold (hdr_Add k) vs dst) =
    (if vs = [] then map_of dst
     else (map_of dst)(k \<mapsto> (case map_of dst k of None \<Rightarrow> [] | Some us \<Rightarrow> us) @ vs))"
proof (induction vs arbitrary: dst)
  case (Cons v vs)
  have "map_of (hdr_Add k v dst) = (map_of dst)(k \<mapsto> (case map_of dst k of None \<Rightarrow> [] | Some us \<Rightarrow> us) @ [v])"
    by (simp add: hdr_Add_def assms)
  with Cons.IH [of "hdr_Add k v dst"] show ?case by (cases "vs = []") (auto simp: fun_eq_iff)
qed simp

lemma copy_headers_lookup:
  assumes "header_wf src" and "\<forall>k \<in> set (keys_of src). map_of dst k = None"
  shows "map_of (copy_headers skip src dst) k =
    (case map_of src k of
       None \<Rightarrow> map_of dst k
     | Some vs \<Rightarrow> if skip (ToLower k) \<or> vs = [] then None else Some vs)"
  using assms
proof (induction src arbitrary: dst)
  case (Cons kv src)
  obtain j vs where kv: "kv = (j, vs)" by (cases kv)
  have j: "CanonicalMIMEHeaderKey j = j" "j \<notin> set (keys_of src)" "map_of dst j = None"
    using Cons.prems by (auto simp: header_wf_def kv)
  let ?dst = "if skip (ToLower j) then dst else fold (hdr_Add j) vs dst"
  have dst: "map_of ?dst i = (if i = j \<and> \<not> skip (ToLower j) \<and> vs \<noteq> [] then Some vs else map_of dst i)" for i
    using j by (simp add: fold_Add)
  have "map_of (copy_headers skip src ?dst) k =
      (case map_of src k of None \<Rightarrow> map_of ?dst k | Some vs \<Rightarrow> if skip (ToLower k) \<or> vs = [] then None else Some vs)"
  proof (rule Cons.IH)
    show "header_wf src" using Cons.prems(1) by (simp add: header_wf_def kv)
    show "\<forall>i \<in> set (keys_of src). map_of ?dst i = None"
      using Cons.prems(2) j(2) unfolding dst by (auto simp: kv)
  qed
  moreover have "map_of src j = None" using j(2) by (simp add: map_of_eq_None_iff)
  moreover have "copy_headers skip (kv # src) dst = copy_headers skip src ?dst" by (simp add: kv)
  ultimately show ?case
    unfolding dst using j(3) by (cases "k = j") (simp_all add: kv split: option.split)
qed simp

lemma canon_names [simp]:
  "CanonicalMIMEHeaderKey ''Authorization'' = ''Authorization''"
  "CanonicalMIMEHeaderKey ''Content-Type'' = ''Content-Type''"
  "CanonicalMIMEHeaderKey ''Accept-Encoding'' = ''Accept-Encoding''"
  "CanonicalMIMEHeaderKey ''Accept'' = ''Accept''"
  by (simp_all add: CanonicalMIMEHeaderKey_def token_char_def upper_char_def lower_char_def Let_def)

definition gateway_names :: "string list" where
  "gateway_names = [''Authorization'', ''Content-Type'', ''Accept-Encoding'', ''Accept'']"

lemma upstream_other:
  "k \<notin> set gateway_names \<Longrightarrow> map_of (upstream_headers opts client) k = map_of (copyForwardHeaders [] client) k"
  by (simp add: upstream_headers_def hdr_Set_def hdr_Del_def gateway_names_def Let_def)

lemma upstream_authorization:
  "map_of (upstream_headers opts client) ''Authorization'' =
     (if b_APIKey (fo_Backend opts) \<noteq> [] then Some [''Bearer '' @ b_APIKey (fo_Backend opts)] else None)"
  by (simp add: upstream_headers_def hdr_Set_def hdr_Del_def Let_def)

lemma gateway_names_kept:
  "k \<in> set gateway_names \<Longrightarrow> k \<noteq> ''Authorization'' \<Longrightarrow> ToLower k \<notin> set hopByHop \<and> ToLower k \<notin> set dropForward"
  unfolding gateway_names_def hopByHop_def dropForward_def ToLower_def lower_char_def
  by (simp, elim disjE; simp)

text \<open>
  C24. Which headers of a client reach a backend: the Authorization header of the upstream
  request is the backend's own credential, or absent when the backend has none; hop-by-hop
  headers, X-Api-Key and Cookie never pass; every other header that the gateway does not set
  itself passes unchanged. The last part includes whatever header other than Authorization the
  gateway is configured to read its API keys from: such a key is sent to the backend.
\<close>

theorem upstream_header_policy:
  assumes "header_wf client"
  shows "map_of (upstream_headers opts client) ''Authorization'' =
           (if b_APIKey (fo_Backend opts) \<noteq> [] then Some [''Bearer '' @ b_APIKey (fo_Backend opts)] else None)
       \<and> (\<forall>k. k \<noteq> ''Authorization'' \<longrightarrow> ToLower k \<in> set hopByHop \<union> set dropForward \<longrightarrow>
            map_of (upstream_headers opts client) k = None)
       \<and> (\<forall>k vs. k \<notin> set gateway_names \<longrightarrow> ToLower k \<notin> set hopByHop \<union> set dropForward \<longrightarrow>
            map_of client k = Some vs \<longrightarrow> vs \<noteq> [] \<longrightarrow> map_of (upstream_headers opts client) k = Some vs)"
proof -
  have copy: "map_of (copyForwardHeaders [] client) k =
      (case map_of client k of None \<Rightarrow> None
       | Some vs \<Rightarrow> if (ToLower k \<in> set hopByHop \<or> ToLower k \<in> set dropForward) \<or> vs = [] then None else Some vs)" for k
    unfolding copyForwardHeaders_def using copy_headers_lookup [OF assms, of "[]"]
    by (cases "map_of client k") simp_all
  have "map_of (upstream_headers opts client) k = None"
    if "k \<noteq> ''Authorization''" "ToLower k \<in> set hopByHop \<union> set dropForward" for k
  proof -
    from that gateway_names_kept have "k \<notin> set gateway_names" by blast
    with upstream_other copy that(2) show ?thesis by (auto split: option.split)
  qed
  moreover have "map_of (upstream_headers opts client) k = Some vs"
    if "k \<notin> set gateway_names" "ToLower k \<notin> set hopByHop \<union> set dropForward" "map_of client k = Some vs" "vs \<noteq> []" for k vs
    using that upstream_other copy by auto
  ultimately show ?thesis using upstream_authorization by blast
qed

definition example_opts :: ForwardOptions where
  "example_opts = \<lparr>fo_Method = ''POST'', fo_Backend = zero_backend\<lparr>b_APIKey := ''bk''\<rparr>, fo_UpstreamPath = ''/chat/completions'',
     fo_Body = [], fo_IsStream = False, fo_StreamIdleTimeoutMS = 0, fo_TimeoutMS = 0, fo_Model = [], fo_ForwardModel = [],
     fo_APIKeyLabel = [], fo_Endpoint = [], fo_ContentType = []\<rparr>"

theorem upstream_header_policy_witness:
  "map_of (upstream_headers example_opts [(''X-Gateway-Key'', [''sk-client'']), (''Authorization'', [''Bearer x''])]) ''X-Gateway-Key'' = Some [''sk-client'']
   \<and> map_of (upstream_headers example_opts [(''X-Gateway-Key'', [''sk-client'']), (''Authorization'', [''Bearer x''])]) ''Authorization'' = Some [''Bearer bk'']"
proof -
  let ?h = "[(''X-Gateway-Key'', [''sk-client'']), (''Authorization'', [''Bearer x''])]"
  have "CanonicalMIMEHeaderKey ''X-Gateway-Key'' = ''X-Gateway-Key''"
    by (simp add: CanonicalMIMEHeaderKey_def token_char_def upper_char_def lower_char_def Let_def)
  then have wf: "header_wf ?h" by (simp add: header_wf_def)
  have n: "''X-Gateway-Key'' \<notin> set gateway_names" by (simp add: gateway_names_def)
  have l: "ToLower ''X-Gateway-Key'' \<notin> set hopByHop \<union> set dropForward"
    by (simp add: ToLower_def lower_char_def hopByHop_def dropForward_def)
  have m: "map_of ?h ''X-Gateway-Key'' = Some [''sk-client'']" by simp
  note P = upstream_header_policy [OF wf, of example_opts]
  from P [THEN conjunct2, THEN conjunct2, rule_format, OF n l m] P [THEN conjunct1] show ?thesis
    by (simp add: example_opts_def zero_backend_def)
qed

section \<open>Streams are passed through\<close>

lemma readLine_uses:
  "readLine out rs = Some (l, e, rest) \<Longrightarrow>
     \<exists>used. rs = used @ rest \<and> used \<noteq> [] \<and> l = out @ concat (map fst used) \<and> snd (last used) = e
       \<and> (\<forall>x \<in> set (butlast used). snd x = BufferFull) \<and> e \<noteq> BufferFull"
proof (induction out rs rule: readLine.induct)
  case (2 out chunk rest')
  then obtain used where "rest' = used @ rest" "used \<noteq> []" "l = (out @ chunk) @ concat (map fst used)"
    "snd (last used) = e" "\<forall>x \<in> set (butlast used). snd x = BufferFull" "e \<noteq> BufferFull" by auto
  then show ?case by (intro exI [of _ "(chunk, BufferFull) # used"]) auto
next
  case (3 out chunk rest')
  then show ?case by (intro exI [of _ "[(chunk, LineEnd)]"]) auto
next
  case (4 out chunk eof rest')
  then show ?case by (intro exI [of _ "[(chunk, ReadErr eof)]"]) auto
qed simp

definition bytes_of :: "(string \<times> 'a) list \<Rightarrow> string" where
  "bytes_of xs = concat (map fst xs)"

lemma bytes_of_simps [simp]:
  "bytes_of [] = []" "bytes_of (x # xs) = fst x @ bytes_of xs" "bytes_of (xs @ ys) = bytes_of xs @ bytes_of ys"
  by (simp_all add: bytes_of_def)

lemma produce_prefix: "\<exists>rest. bytes_of (produce rs) @ rest = bytes_of rs"
proof (induction rs rule: produce.induct)
  case (1 rs)
  show ?case
  proof (cases "readLine [] rs")
    case None
    then show ?thesis by (subst produce.simps) simp
  next
    case (Some t)
    obtain l e rest where t: "t = (l, e, rest)" by (cases t) auto
    with readLine_uses [of "[]" rs l e rest] Some obtain used where
      u: "rs = used @ rest" "l = bytes_of used" "e \<noteq> BufferFull" by (auto simp: bytes_of_def)
    show ?thesis
    proof (cases e)
      case LineEnd
      have "\<exists>more. bytes_of (produce rest) @ more = bytes_of rest"
        using 1 Some t LineEnd by (cases "l = []") auto
      then obtain more where "bytes_of (produce rest) @ more = bytes_of rest" by blast
      then show ?thesis
        using Some t LineEnd u by (subst produce.simps) (auto intro!: exI [of _ more])
    next
      case (ReadErr eof)
      then show ?thesis using Some t u by (subst produce.simps) auto
    qed (use u in simp)
  qed
qed

definition usage_room :: "stream_state \<Rightarrow> nat" where
  "usage_room st = length (sr_reports st) + (if sr_usage st = None then 1 else 0)"

lemma relay_line_facts:
  "sr_written (relay_line decode line (mark_first line st)) = sr_written st @ line"
  "usage_room (relay_line decode line (mark_first line st)) = usage_room st"
  "sr_written (mark_first line st) = sr_written st" "usage_room (mark_first line st) = usage_room st"
  by (simp_all add: relay_line_def mark_first_def usage_room_def Let_def split: option.split)

lemma stream_loop_prefix:
  "stream_loop decode ts ch st = Some (e, st') \<Longrightarrow>
     (\<exists>sent rest. sr_written st' = sr_written st @ sent \<and> sent @ rest = bytes_of ch) \<and> usage_room st' = usage_room st"
proof (induction decode ts ch st rule: stream_loop.induct)
  case (5 decode ok ts line err ch st)
  show ?case
  proof (cases "line \<noteq> [] \<and> \<not> ok")
    case True
    with 5(2) show ?thesis by (auto simp: relay_line_facts)
  next
    case ok: False
    define st1 where "st1 = (if line \<noteq> [] then relay_line decode line (mark_first line st) else st)"
    have st1: "sr_written st1 = sr_written st @ line" "usage_room st1 = usage_room st"
      by (simp_all add: st1_def relay_line_facts)
    show ?thesis
    proof (cases err)
      case (Some x)
      with ok 5(2) have "st' = st1" by (auto simp: st1_def Let_def split: if_splits)
      with st1 show ?thesis by auto
    next
      case None
      with ok 5(2) have "stream_loop decode ts ch st1 = Some (e, st')" by (auto simp: st1_def Let_def split: if_splits)
      with 5(1) [OF ok st1_def] None obtain sent rest where
        "sr_written st' = sr_written st1 @ sent" "sent @ rest = bytes_of ch" "usage_room st' = usage_room st1" by auto
      with st1 show ?thesis by (intro conjI exI [of _ "line @ sent"] exI [of _ rest]) auto
    qed
  qed
qed auto

text \<open>With a patient client the loop delivers everything the producer sends.\<close>

definition finishes :: "(string \<times> bool option) list \<Rightarrow> bool" where
  "finishes ch \<longleftrightarrow> ch \<noteq> [] \<and> snd (last ch) \<noteq> None \<and> (\<forall>x \<in> set (butlast ch). snd x = None)"

lemma stream_loop_all:
  "finishes ch \<Longrightarrow> length ch \<le> n \<Longrightarrow>
     \<exists>st'. stream_loop decode (replicate n (Chunk True)) ch st = Some (Ended None, st')
         \<and> sr_written st' = sr_written st @ bytes_of ch"
proof (induction ch arbitrary: n st)
  case (Cons x ch)
  obtain line err where x: "x = (line, err)" by (cases x)
  obtain m where n: "n = Suc m" using Cons.prems(2) by (cases n) auto
  define st1 where "st1 = (if line \<noteq> [] then relay_line decode line (mark_first line st) else st)"
  have st1: "sr_written st1 = sr_written st @ line" by (simp add: st1_def relay_line_facts)
  show ?case
  proof (cases "ch = []")
    case True
    with Cons.prems(1) x have "err \<noteq> None" by (simp add: finishes_def)
    with True x n st1 show ?thesis by (simp add: st1_def [symmetric] Let_def)
  next
    case False
    with Cons.prems(1) x have "err = None" "finishes ch" by (auto simp: finishes_def)
    moreover obtain st' where "stream_loop decode (replicate m (Chunk True)) ch st1 = Some (Ended None, st')"
      "sr_written st' = sr_written st1 @ bytes_of ch"
      using Cons.IH [of m st1] \<open>finishes ch\<close> Cons.prems(2) n by auto
    ultimately show ?thesis using x n st1 by (simp add: st1_def [symmetric] Let_def)
  qed
qed (simp add: finishes_def)

text \<open>A body that is read to its end (or to a read error): no earlier error.\<close>

definition complete_reads :: "(string \<times> slice_end) list \<Rightarrow> bool" where
  "complete_reads rs \<longleftrightarrow> rs \<noteq> [] \<and> (\<exists>eof. snd (last rs) = ReadErr eof)
     \<and> (\<forall>x \<in> set (butlast rs). snd x \<noteq> ReadErr True \<and> snd x \<noteq> ReadErr False)"

lemma readLine_complete:
  "complete_reads rs \<Longrightarrow> \<exists>l e rest. readLine out rs = Some (l, e, rest) \<and> (e = LineEnd \<and> complete_reads rest \<or> (\<exists>b. e = ReadErr b) \<and> rest = [])"
proof (induction out rs rule: readLine.induct)
  case (2 out chunk rest)
  then have "complete_reads rest" by (auto simp: complete_reads_def split: if_splits)
  with 2 show ?case by simp
next
  case (3 out chunk rest)
  then have "complete_reads rest" by (auto simp: complete_reads_def split: if_splits)
  then show ?case by simp
next
  case (4 out chunk eof rest)
  then have "rest = []" by (cases eof) (auto simp: complete_reads_def split: if_splits)
  then show ?case by simp
qed (simp add: complete_reads_def)

lemma produce_complete:
  "complete_reads rs \<Longrightarrow> finishes (produce rs) \<and> bytes_of (produce rs) = bytes_of rs \<and> length (produce rs) \<le> length rs"
proof (induction rs rule: produce.induct)
  case (1 rs)
  obtain l e rest where r: "readLine [] rs = Some (l, e, rest)"
    and e: "e = LineEnd \<and> complete_reads rest \<or> (\<exists>b. e = ReadErr b) \<and> rest = []"
    using readLine_complete [OF 1(3), of "[]"] by blast
  from readLine_uses [OF r] obtain used where u: "rs = used @ rest" "used \<noteq> []" "l = bytes_of used"
    by (auto simp: bytes_of_def)
  show ?case
  proof (cases e)
    case LineEnd
    with e have c: "complete_reads rest" by auto
    have IH: "finishes (produce rest) \<and> bytes_of (produce rest) = bytes_of rest \<and> length (produce rest) \<le> length rest"
      using 1(1,2) [OF r] LineEnd c by (cases "l = []") auto
    have "produce rs = (if l = [] then produce rest else (l, None) # produce rest)"
      using r LineEnd by (subst produce.simps) simp
    moreover have "1 \<le> length used" using u(2) by (cases used) auto
    ultimately show ?thesis using IH u by (auto simp: finishes_def)
  next
    case (ReadErr b)
    then have "produce rs = [(l, Some b)]" using r by (subst produce.simps) simp
    moreover have "1 \<le> length used" using u(2) by (cases used) auto
    ultimately show ?thesis using ReadErr e u by (auto simp: finishes_def)
  next
    case BufferFull
    then show ?thesis using e by auto
  qed
qed

text \<open>
  C25. A stream is passed through byte for byte: whatever the interleaving of backend, client
  and idle timer, the bytes written to the client are a prefix of the bytes the backend sent,
  nothing is added, and usage is reported at most once; and when the client stays and every
  write succeeds, all bytes of the body are written and no error is returned, also when the body
  ends in a read error instead of an end of file.
\<close>

theorem stream_passthrough:
  "(streamResponse decode ts reads = Some (e, st) \<longrightarrow>
      (\<exists>rest. sr_written st @ rest = bytes_of reads) \<and> length (sr_reports st) \<le> 1)
   \<and> (complete_reads reads \<and> length reads \<le> n \<longrightarrow>
      (\<exists>st. streamResponse decode (replicate n (Chunk True)) reads = Some (Ended None, st)
          \<and> sr_written st = bytes_of reads))"
proof (intro conjI impI)
  assume r: "streamResponse decode ts reads = Some (e, st)"
  then obtain sent more where s: "sr_written st = sent" "sent @ more = bytes_of (produce reads)" "usage_room st = 1"
    using stream_loop_prefix [of decode ts "produce reads" stream_start e st]
    by (auto simp: streamResponse_def stream_start_def usage_room_def)
  obtain rest where "bytes_of (produce reads) @ rest = bytes_of reads" using produce_prefix by blast
  with s have "sr_written st @ more @ rest = bytes_of reads" by (metis append.assoc)
  then show "\<exists>rest. sr_written st @ rest = bytes_of reads" by blast
  show "length (sr_reports st) \<le> 1" using s(3) by (simp add: usage_room_def)
next
  assume c: "complete_reads reads \<and> length reads \<le> n"
  with produce_complete [of reads] stream_loop_all [of "produce reads" n decode stream_start]
  show "\<exists>st. streamResponse decode (replicate n (Chunk True)) reads = Some (Ended None, st)
      \<and> sr_written st = bytes_of reads"
    by (auto simp: streamResponse_def stream_start_def)
qed

theorem stream_passthrough_witness:
  "\<exists>st. streamResponse (\<lambda>_. None) [Chunk True, Chunk True] [(''data: a'', LineEnd), (''data: b'', ReadErr False)] = Some (Ended None, st)
      \<and> sr_written st = ''data: adata: b''"
proof -
  let ?reads = "[(''data: a'', LineEnd), (''data: b'', ReadErr False)]"
  have "complete_reads ?reads \<and> length ?reads \<le> 2" by (auto simp: complete_reads_def)
  from stream_passthrough [where reads = ?reads and n = 2 and decode = "\<lambda>_. None", THEN conjunct2, THEN mp, OF this]
  have "\<exists>st. streamResponse (\<lambda>_. None) (replicate 2 (Chunk True)) ?reads = Some (Ended None, st) \<and> sr_written st = bytes_of ?reads" .
  moreover have "replicate 2 (Chunk True) = [Chunk True, Chunk True]" by (simp add: numeral_2_eq_2)
  moreover have "bytes_of ?reads = ''data: adata: b''" by simp
  ultimately show ?thesis by metis
qed

end
