(* ===== verification/Classify_Model.thy ===== *)
theory Classify_Model
  imports Go_Strings
begin

text \<open>
  The rule-based classifier of the orchestrator, \<^verbatim>\<open>internal/orchestrator/classify.go\<close>: keyword
  counts, the share of Han characters, the dominant task and its confidence. Scores are
  rationals in place of \<open>float64\<close>: the counts are exact in both, the Han share and the
  confidence are rounded in the program.
\<close>

section \<open>Characters\<close>

text \<open>Code points of the basic plane above U+07FF, as the string literals of the program hold them.\<close>

definition utf8 :: "nat list \<Rightarrow> string" where
  "utf8 cs = concat (map (\<lambda>c. map char_of [224 + c div 4096, 128 + c div 64 mod 64, 128 + c mod 64]) cs)"

definition in_range :: "nat \<Rightarrow> nat \<Rightarrow> char \<Rightarrow> bool" where
  "in_range lo hi c \<longleftrightarrow> lo \<le> of_char c \<and> of_char c \<le> hi"

definition low6 :: "char \<Rightarrow> nat" where
  "low6 c = of_char c mod 64"

text \<open>
  One step of \<open>range\<close> over a string: the code point and the number of bytes. A byte that does
  not start a well-formed sequence counts as U+FFFD on its own.
\<close>

definition second_ok :: "nat \<Rightarrow> char \<Rightarrow> bool" where
  "second_ok b0 c =
     (if b0 = 224 then in_range 160 191 c else if b0 = 237 then in_range 128 159 c
      else if b0 = 240 then in_range 144 191 c else if b0 = 244 then in_range 128 143 c
      else in_range 128 191 c)"

definition decode_rune :: "char \<Rightarrow> string \<Rightarrow> nat \<times> nat" where
  "decode_rune c s =
     (let b0 = of_char c :: nat in
      if b0 < 128 then (b0, 1)
      else if 194 \<le> b0 \<and> b0 \<le> 223 then
        (case s of c1 # _ \<Rightarrow> if second_ok b0 c1 then (b0 mod 32 * 64 + low6 c1, 2) else (65533, 1)
         | _ \<Rightarrow> (65533, 1))
      else if 224 \<le> b0 \<and> b0 \<le> 239 then
        (case s of c1 # c2 # _ \<Rightarrow>
             if second_ok b0 c1 \<and> in_range 128 191 c2
             then (b0 mod 16 * 4096 + low6 c1 * 64 + low6 c2, 3) else (65533, 1)
         | _ \<Rightarrow> (65533, 1))
      else if 240 \<le> b0 \<and> b0 \<le> 244 then
        (case s of c1 # c2 # c3 # _ \<Rightarrow>
             if second_ok b0 c1 \<and> in_range 128 191 c2 \<and> in_range 128 191 c3
             then (b0 mod 8 * 262144 + low6 c1 * 4096 + low6 c2 * 64 + low6 c3, 4) else (65533, 1)
         | _ \<Rightarrow> (65533, 1))
      else (65533, 1))"

function runes :: "string \<Rightarrow> nat list" where
  "runes [] = []"
| "runes (c # s) = (case decode_rune c s of (r, width) \<Rightarrow> r # runes (drop (width - 1) s))"
  by pat_completeness auto
termination
  by (relation "measure length") auto

text \<open>\<open>unicode.IsSpace\<close> and the table \<open>unicode.Han\<close> (Unicode 15.0).\<close>

definition in_ranges :: "(nat \<times> nat) list \<Rightarrow> nat \<Rightarrow> bool" where
  "in_ranges rs r = list_ex (\<lambda>(lo, hi). lo \<le> r \<and> r \<le> hi) rs"

definition IsSpace :: "nat \<Rightarrow> bool" where
  "IsSpace r = in_ranges [(9, 13), (32, 32), (0x85, 0x85), (0xa0, 0xa0), (0x1680, 0x1680),
     (0x2000, 0x200a), (0x2028, 0x2029), (0x202f, 0x202f), (0x205f, 0x205f), (0x3000, 0x3000)] r"

definition Is_Han :: "nat \<Rightarrow> bool" where
  "Is_Han r = in_ranges [(0x2e80, 0x2e99), (0x2e9b, 0x2ef3), (0x2f00, 0x2fd5), (0x3005, 0x3005),
     (0x3007, 0x3007), (0x3021, 0x3029), (0x3038, 0x303b), (0x3400, 0x4dbf), (0x4e00, 0x9fff),
     (0xf900, 0xfa6d), (0xfa70, 0xfad9), (0x16fe2, 0x16fe3), (0x16ff0, 0x16ff1),
     (0x20000, 0x2a6df), (0x2a700, 0x2b739), (0x2b740, 0x2b81d), (0x2b820, 0x2cea1),
     (0x2ceb0, 0x2ebe0), (0x2f800, 0x2fa1d), (0x30000, 0x3134a), (0x31350, 0x323af)] r"

text \<open>
  \<open>strings.ToLower\<close> as far as the keywords can see it: besides the ASCII letters only two code
  points have an ASCII lower case, U+212A (k) and U+0130 (i); the Chinese keywords have no case.
\<close>

fun lower_text :: "string \<Rightarrow> string" where
  "lower_text [] = []"
| "lower_text (c # s) =
     (if HasPrefix (c # s) (utf8 [0x212a]) then CHR ''k'' # lower_text (drop 2 s)
      else if HasPrefix (c # s) (map char_of [196, 176::nat]) then CHR ''i'' # lower_text (drop 1 s)
      else lower_char c # lower_text s)"

section \<open>The classifier\<close>

definition TaskCode :: string where "TaskCode = ''code''"
definition TaskReasoning :: string where "TaskReasoning = ''reasoning''"
definition TaskZh :: string where "TaskZh = ''zh''"
definition TaskGeneral :: string where "TaskGeneral = ''general''"

record classification =
  cl_Task :: string
  cl_Confidence :: rat
  cl_Scores :: "rat gomap"
  cl_ZhRatio :: rat

definition codeSignals :: "string list" where
  "codeSignals =
     [''```'', ''def '', ''func '', ''class '', ''import '', ''function'', ''return '',
      ''const '', ''let '', ''var '', ''#include'', ''public static'', ''println'',
      ''console.log'', ''stack trace'', ''traceback'', ''exception'', ''segfault'', ''compile'',
      ''compiler'', ''debug'', ''refactor'', ''unit test'', ''npm '', ''pip install'',
      ''go build'', ''cargo '', ''kubectl'', ''dockerfile'', ''bug'', ''code'', ''python'',
      ''javascript'', ''typescript'', ''golang'', ''rust'', ''regex'', ''sql'', ''syntax'',
      ''api endpoint'', utf8 [0x7a0b, 0x5f0f], utf8 [0x7a0b, 0x5f0f, 0x78bc],
      utf8 [0x4ee3, 0x78bc], utf8 [0x9664, 0x932f], utf8 [0x51fd, 0x5f0f], utf8 [0x51fd, 0x6578],
      utf8 [0x7de8, 0x8b6f], utf8 [0x5831, 0x932f], utf8 [0x91cd, 0x69cb],
      utf8 [0x55ae, 0x5143, 0x6e2c, 0x8a66]]"

definition reasoningSignals :: "string list" where
  "reasoningSignals =
     [''prove'', ''proof'', ''theorem'', ''solve for'', ''calculate'', ''compute the'',
      ''step by step'', ''step-by-step'', ''derive'', ''derivative'', ''integral'', ''equation'',
      ''probability'', ''how many'', ''optimal'', ''algorithm complexity'', ''reason through'',
      ''logic puzzle'', ''chain of thought'', utf8 [0x8b49, 0x660e], utf8 [0x8a08, 0x7b97],
      utf8 [0x63a8, 0x7406], utf8 [0x6c42, 0x89e3], utf8 [0x65b9, 0x7a0b],
      utf8 [0x6f14, 0x7b97, 0x6cd5], utf8 [0x908f, 0x8f2f], utf8 [0x9010, 0x6b65]]"

definition countSignals :: "string \<Rightarrow> string list \<Rightarrow> rat" where
  "countSignals lowerText signals = fold (\<lambda>s n. if Contains lowerText s then n + 1 else n) signals 0"

definition traditionalChineseRatio :: "string \<Rightarrow> rat" where
  "traditionalChineseRatio msg =
     (let (han, tot) = fold (\<lambda>r (han, tot).
            if IsSpace r then (han, tot)
            else (if Is_Han r then han + 1 else han, tot + 1)) (runes msg) (0, 0)
      in if tot = 0 then 0 else han / tot)"

definition score_of :: "rat gomap \<Rightarrow> string \<Rightarrow> rat" where
  "score_of scores k = (case map_of scores k of None \<Rightarrow> 0 | Some v \<Rightarrow> v)"

definition task_order :: "string list" where
  "task_order = [TaskCode, TaskReasoning, TaskZh, TaskGeneral]"

text \<open>The loop that finds the dominant task: total, top and task.\<close>

fun dominant :: "rat gomap \<Rightarrow> string list \<Rightarrow> rat \<times> rat \<times> string \<Rightarrow> rat \<times> rat \<times> string" where
  "dominant scores [] acc = acc"
| "dominant scores (k # ks) (tot, best, task) =
     (let v = score_of scores k
      in dominant scores ks (tot + v, if best < v then (v, k) else (best, task)))"

definition classify_scores :: "string \<Rightarrow> rat gomap" where
  "classify_scores msg =
     (let lower = lower_text msg;
          scores = [(TaskCode, countSignals lower codeSignals),
                    (TaskReasoning, countSignals lower reasoningSignals),
                    (TaskGeneral, 1)];
          zhRatio = traditionalChineseRatio msg
      in if 1 / 5 < zhRatio then AList.update TaskZh (1 + zhRatio * 3) scores else scores)"

definition classify :: "string \<Rightarrow> classification" where
  "classify msg =
     (let scores = classify_scores msg;
          (tot, best, task) = dominant scores task_order (0, 0, TaskGeneral);
          conf = (if 0 < tot then best / tot else 0)
      in \<lparr>cl_Task = task, cl_Confidence = conf, cl_Scores = scores,
          cl_ZhRatio = traditionalChineseRatio msg\<rparr>)"

section \<open>The dominant task\<close>

lemmas task_names = TaskCode_def TaskReasoning_def TaskZh_def TaskGeneral_def

lemma countSignals_fold:
  "fold (\<lambda>s n. if Contains t s then n + 1 else n) signals (n :: rat) = n + of_nat (length (filter (Contains t) signals))"
  by (induction signals arbitrary: n) auto

lemma countSignals_eq: "countSignals t signals = of_nat (length (filter (Contains t) signals))"
  by (simp add: countSignals_def countSignals_fold)

lemma countSignals_cases:
  "countSignals t signals = 0 \<and> list_all (\<lambda>s. \<not> Contains t s) signals
   \<or> 1 \<le> countSignals t signals \<and> list_ex (Contains t) signals"
proof (cases "filter (Contains t) signals")
  case Nil
  then show ?thesis by (simp add: countSignals_eq list_all_iff filter_empty_conv)
next
  case (Cons s ss)
  then have "s \<in> set (filter (Contains t) signals)" by simp
  then have "list_ex (Contains t) signals" by (auto simp: list_ex_iff)
  with Cons show ?thesis by (simp add: countSignals_eq)
qed

lemma score_facts:
  "score_of (classify_scores msg) TaskCode = countSignals (lower_text msg) codeSignals"
  "score_of (classify_scores msg) TaskReasoning = countSignals (lower_text msg) reasoningSignals"
  "score_of (classify_scores msg) TaskGeneral = 1"
  "score_of (classify_scores msg) TaskZh =
     (if 1 / 5 < traditionalChineseRatio msg then 1 + traditionalChineseRatio msg * 3 else 0)"
  by (simp_all add: classify_scores_def score_of_def task_names Let_def)

lemma classify_unfold:
  fixes msg :: string
  defines "c \<equiv> countSignals (lower_text msg) codeSignals"
    and "r \<equiv> countSignals (lower_text msg) reasoningSignals"
    and "z \<equiv> score_of (classify_scores msg) TaskZh"
  shows "cl_Task (classify msg) =
      (if 1 \<le> c \<and> r \<le> c \<and> z \<le> c then TaskCode else if 1 \<le> r \<and> z \<le> r then TaskReasoning
       else if 1 < z then TaskZh else TaskGeneral)"
    and "cl_Confidence (classify msg) = max (max c r) (max z 1) / (c + r + z + 1)"
proof -
  have c: "c = 0 \<or> 1 \<le> c" and r: "r = 0 \<or> 1 \<le> r"
    using countSignals_cases unfolding c_def r_def by blast+
  have z: "z = 0 \<or> 1 < z" by (simp add: z_def score_facts)
  have s: "score_of (classify_scores msg) TaskCode = c" "score_of (classify_scores msg) TaskReasoning = r"
    "score_of (classify_scores msg) TaskZh = z" "score_of (classify_scores msg) TaskGeneral = 1"
    by (simp_all add: c_def r_def z_def score_facts)
  have pos: "0 < c + r + z + 1" using c r z by auto
  show "cl_Task (classify msg) =
      (if 1 \<le> c \<and> r \<le> c \<and> z \<le> c then TaskCode else if 1 \<le> r \<and> z \<le> r then TaskReasoning
       else if 1 < z then TaskZh else TaskGeneral)"
    using c r z by (auto simp: classify_def task_order_def s Let_def)
  show "cl_Confidence (classify msg) = max (max c r) (max z 1) / (c + r + z + 1)"
    using c r z pos by (auto simp: classify_def task_order_def s Let_def max_def)
qed

text \<open>
  The classifier picks the dominant task: no task scores higher than the chosen one, the
  confidence is its share of the total score and lies between a quarter and one, and \<open>general\<close>
  is chosen exactly when the text holds no code keyword, no reasoning keyword and not more than
  a fifth Han characters; then the confidence is one.
\<close>

theorem classify_dominant:
  "(\<forall>k \<in> set task_order. score_of (classify_scores msg) k \<le> score_of (classify_scores msg) (cl_Task (classify msg)))
   \<and> cl_Confidence (classify msg) =
       score_of (classify_scores msg) (cl_Task (classify msg)) / (\<Sum>k\<leftarrow>task_order. score_of (classify_scores msg) k)
   \<and> 1 / 4 \<le> cl_Confidence (classify msg) \<and> cl_Confidence (classify msg) \<le> 1
   \<and> (cl_Task (classify msg) = TaskGeneral \<longleftrightarrow>
        list_all (\<lambda>s. \<not> Contains (lower_text msg) s) (codeSignals @ reasoningSignals)
        \<and> traditionalChineseRatio msg \<le> 1 / 5)
   \<and> (cl_Task (classify msg) = TaskGeneral \<longrightarrow> cl_Confidence (classify msg) = 1)"
proof -
  define c where "c = countSignals (lower_text msg) codeSignals"
  define r where "r = countSignals (lower_text msg) reasoningSignals"
  define z where "z = score_of (classify_scores msg) TaskZh"
  note task = classify_unfold(1) [of msg, folded c_def r_def z_def]
    and conf = classify_unfold(2) [of msg, folded c_def r_def z_def]
  have c: "c = 0 \<or> 1 \<le> c" and r: "r = 0 \<or> 1 \<le> r"
    using countSignals_cases unfolding c_def r_def by blast+
  have z: "z = 0 \<and> traditionalChineseRatio msg \<le> 1 / 5 \<or> 1 < z \<and> 1 / 5 < traditionalChineseRatio msg"
    by (auto simp: z_def score_facts)
  have s: "score_of (classify_scores msg) TaskCode = c" "score_of (classify_scores msg) TaskReasoning = r"
    "score_of (classify_scores msg) TaskZh = z" "score_of (classify_scores msg) TaskGeneral = 1"
    by (simp_all add: c_def r_def z_def score_facts)
  have top: "score_of (classify_scores msg) (cl_Task (classify msg)) = max (max c r) (max z 1)"
    using c r z by (auto simp: task s max_def)
  have pos: "0 < c + r + z + 1" using c r z by auto
  have general: "cl_Task (classify msg) = TaskGeneral \<longleftrightarrow> c = 0 \<and> r = 0 \<and> z = 0"
    using c r z by (auto simp: task task_names)
  have signals: "c = 0 \<and> r = 0 \<longleftrightarrow> list_all (\<lambda>s. \<not> Contains (lower_text msg) s) (codeSignals @ reasoningSignals)"
    using countSignals_cases [of "lower_text msg" codeSignals] countSignals_cases [of "lower_text msg" reasoningSignals]
    unfolding c_def [symmetric] r_def [symmetric] by (auto simp: list_all_iff list_ex_iff)
  show ?thesis
  proof (intro conjI)
    show "\<forall>k \<in> set task_order. score_of (classify_scores msg) k \<le> score_of (classify_scores msg) (cl_Task (classify msg))"
      by (simp add: top task_order_def s max_def)
    show "cl_Confidence (classify msg) = score_of (classify_scores msg) (cl_Task (classify msg))
        / (\<Sum>k\<leftarrow>task_order. score_of (classify_scores msg) k)"
      unfolding top conf by (simp add: task_order_def s ac_simps)
    show "1 / 4 \<le> cl_Confidence (classify msg)"
      unfolding conf using pos by (simp add: field_simps max_def)
    show "cl_Confidence (classify msg) \<le> 1"
      unfolding conf using pos c r z by (auto simp: field_simps max_def)
    show "cl_Task (classify msg) = TaskGeneral \<longleftrightarrow>
        list_all (\<lambda>s. \<not> Contains (lower_text msg) s) (codeSignals @ reasoningSignals)
        \<and> traditionalChineseRatio msg \<le> 1 / 5"
      using general signals z by auto
    show "cl_Task (classify msg) = TaskGeneral \<longrightarrow> cl_Confidence (classify msg) = 1"
      using general conf by auto
  qed
qed

lemma lower_text_length: "length (lower_text s) \<le> length s"
proof (induction s rule: lower_text.induct)
  case (2 c s)
  consider "HasPrefix (c # s) (utf8 [0x212a])"
    | "\<not> HasPrefix (c # s) (utf8 [0x212a])" "HasPrefix (c # s) (map char_of [196, 176::nat])"
    | "\<not> HasPrefix (c # s) (utf8 [0x212a])" "\<not> HasPrefix (c # s) (map char_of [196, 176::nat])"
    by blast
  then show ?case
  proof cases
    case 1
    with "2.IH"(1) show ?thesis by simp
  next
    case 2
    with "2.IH"(2) show ?thesis by simp
  next
    case 3
    with "2.IH"(3) show ?thesis by auto
  qed
qed simp

lemma Contains_length: "Contains t s \<Longrightarrow> length s \<le> length t"
  by (auto simp: Contains_iff dest: HasPrefix_length)

lemma utf8_length: "length (utf8 cs) = 3 * length cs"
  by (induction cs) (simp_all add: utf8_def)

theorem classify_dominant_witness:
  "cl_Task (classify ''hi'') = TaskGeneral \<and> cl_Confidence (classify ''hi'') = 1"
proof -
  have "list_all (\<lambda>s. 2 < length s) (codeSignals @ reasoningSignals)"
    by (simp add: codeSignals_def reasoningSignals_def utf8_length)
  moreover have "length (lower_text ''hi'') \<le> 2" using lower_text_length [of "''hi''"] by simp
  ultimately have "list_all (\<lambda>s. \<not> Contains (lower_text ''hi'') s) (codeSignals @ reasoningSignals)"
    unfolding list_all_iff using Contains_length by fastforce
  moreover have "traditionalChineseRatio ''hi'' \<le> 1 / 5"
    by (simp add: traditionalChineseRatio_def decode_rune_def IsSpace_def Is_Han_def in_ranges_def)
  ultimately show ?thesis using classify_dominant [of "''hi''"] by blast
qed

end
