(* ===== verification/Orchestrator_Model.thy ===== *)
theory Orchestrator_Model
  imports Balancer_Model Proxy_Model Classify_Model
begin

text \<open>
  The orchestrator: \<^verbatim>\<open>internal/orchestrator/orchestrator.go\<close>, \<^verbatim>\<open>conductor.go\<close> and
  \<^verbatim>\<open>worker.go\<close>. A virtual model is served by workers of a pool: one worker (router) or the
  bounded pipeline thinker, worker, verifier, synthesizer (conductor). The state threaded through
  the calls is the shared store and balancer, the events of the metrics sink, the warnings
  logged, and the requests sent to backends. The environment of one worker call gives the map
  orders, what other requests do to the store meanwhile, and the answer of the backend. The JSON
  codec is an argument. Errors are values; \<open>None\<close> stands for the panic of a nil worker.
\<close>

section \<open>Data\<close>

record Orchestrator =
  og_cfg :: OrchestrationConfig
  og_logger :: bool
  og_metrics :: bool
  og_allowDegraded :: bool

record chatMessage =
  cm_Role :: string
  cm_Content :: string

record genParams =
  gp_Temperature :: "rat option"
  gp_TopP :: "rat option"
  gp_MaxTokens :: "int option"

record completion =
  cp_Text :: string
  cp_Usage :: Usage_block
  cp_WorkerID :: string
  cp_Model :: string
  cp_BackendID :: string
  cp_LatencyMS :: int

record chatRequest =
  cq_Model :: string
  cq_Messages :: "chatMessage list"
  cq_Stream :: bool
  cq_Temperature :: "rat option"
  cq_TopP :: "rat option"
  cq_MaxTokens :: "int option"

text \<open>The part of a worker's answer that is read: contents of the choices, usage, error message.\<close>

record chatResponse =
  cs_Choices :: "chatMessage list"
  cs_Usage :: "Usage_block option"
  cs_Error :: "string option"

record StepInfo =
  si_Step :: int
  si_Role :: string
  si_WorkerID :: string
  si_Model :: string
  si_BackendID :: string
  si_LatencyMS :: int

record Result =
  rs_Content :: string
  rs_Usage :: Usage_block
  rs_Tier :: string
  rs_Task :: string
  rs_Confidence :: rat
  rs_Escalated :: bool
  rs_Steps :: "StepInfo list"

record ctxBlock =
  cb_Label :: string
  cb_Text :: string

datatype orch_error =
    InvalidOrchRequest string
  | NoMessages
  | NoWorkerPermitted int
  | WorkerModelDisabled string
  | NoHealthyBackend string
  | WorkerAtCapacity string string
  | WorkerBuildRequest string string
  | WorkerTimedOut string string string
  | WorkerUnreachable string string string
  | WorkerBackendError string string string
  | WorkerDecode string string
  | WorkerNoChoices string string
  | StepFailed string orch_error

datatype metric =
    IncRoute string string string string
  | IncEscalation string
  | IncStep string string
  | IncBackendError string string
  | IncTimeout string string

text \<open>The request a worker call sends.\<close>

record worker_request =
  wr_URL :: string
  wr_Header :: http_Header
  wr_Body :: string
  wr_TimeoutMS :: int

record orch_state =
  os_store :: Store
  os_balancer :: Balancer
  os_metrics :: "metric list"
  os_warnings :: "string list"
  os_sent :: "(OrchestrationWorker \<times> addr \<times> worker_request) list"

record orch_json =
  oj_request :: "string \<Rightarrow> (string, (string \<times> string) list \<times> genParams) sum"
  oj_string :: "string \<Rightarrow> string option"
  oj_parts :: "string \<Rightarrow> string list option"
  oj_encode :: "chatRequest \<Rightarrow> string"
  oj_response :: "string \<Rightarrow> (string, chatResponse) sum"

datatype worker_answer =
    BuildFailed string
  | DeadlineHit string
  | NoConnection string
  | Answered int string

record call_env =
  ce_order :: "nat \<Rightarrow> order"
  ce_race :: "nat \<Rightarrow> Store \<Rightarrow> Store"
  ce_during :: "Store \<Rightarrow> Store"
  ce_answer :: worker_answer
  ce_latency :: int

definition orch_New :: "OrchestrationConfig \<Rightarrow> bool \<Rightarrow> Orchestrator" where
  "orch_New cfg logger = \<lparr>og_cfg = cfg, og_logger = logger, og_metrics = False, og_allowDegraded = False\<rparr>"

definition WithMetrics :: "Orchestrator \<Rightarrow> Orchestrator" where
  "WithMetrics g = g\<lparr>og_metrics := True\<rparr>"

definition WithRouting :: "bool \<Rightarrow> Orchestrator \<Rightarrow> Orchestrator" where
  "WithRouting allowDegraded g = g\<lparr>og_allowDegraded := allowDegraded\<rparr>"

definition Handles :: "Orchestrator option \<Rightarrow> string \<Rightarrow> bool" where
  "Handles g model =
     (case g of
        None \<Rightarrow> False
      | Some g \<Rightarrow>
          if \<not> o_Enabled (og_cfg g) then False
          else model = o_RouterModel (og_cfg g)
             \<or> (o_ConductorModel (og_cfg g) \<noteq> [] \<and> model = o_ConductorModel (og_cfg g)))"

definition VirtualModels :: "Orchestrator option \<Rightarrow> string list" where
  "VirtualModels g =
     (case g of
        None \<Rightarrow> []
      | Some g \<Rightarrow>
          if \<not> o_Enabled (og_cfg g) then []
          else (if o_RouterModel (og_cfg g) \<noteq> [] then [o_RouterModel (og_cfg g)] else [])
             @ (if o_ConductorModel (og_cfg g) \<noteq> [] then [o_ConductorModel (og_cfg g)] else []))"

section \<open>Telemetry\<close>

definition emit :: "Orchestrator \<Rightarrow> metric \<Rightarrow> orch_state \<Rightarrow> orch_state" where
  "emit g m st = (if og_metrics g then st\<lparr>os_metrics := os_metrics st @ [m]\<rparr> else st)"

definition logWarn :: "Orchestrator \<Rightarrow> string \<Rightarrow> orch_state \<Rightarrow> orch_state" where
  "logWarn g msg st = (if og_logger g then st\<lparr>os_warnings := os_warnings st @ [msg]\<rparr> else st)"

section \<open>Choosing workers\<close>

definition workerStrength :: "OrchestrationWorker \<Rightarrow> rat" where
  "workerStrength w = (if w_Strength w = 0 then 1 / 2 else w_Strength w)"

fun containsFold :: "string list \<Rightarrow> string \<Rightarrow> bool" where
  "containsFold [] v = False"
| "containsFold (s # ss) v = (if EqualFold s v then True else containsFold ss v)"

definition eligibleWorkers :: "Orchestrator \<Rightarrow> int \<Rightarrow> OrchestrationWorker list" where
  "eligibleWorkers g secretLevel =
     (let lvl = (if secretLevel < 0 then 0 else secretLevel)
      in filter (\<lambda>w. \<not> (0 < w_SecretMaxLevel w \<and> w_SecretMaxLevel w < lvl)) (o_Workers (og_cfg g)))"

definition no_score :: rat where
  "no_score = - (10 ^ 18)"

text \<open>The scan shared by the three selections: the first worker with the highest score.\<close>

fun best_worker :: "(OrchestrationWorker \<Rightarrow> rat) \<Rightarrow> OrchestrationWorker option \<Rightarrow> rat \<Rightarrow> OrchestrationWorker list \<Rightarrow> OrchestrationWorker option" where
  "best_worker score best bestScore [] = best"
| "best_worker score best bestScore (w # ws) =
     (if bestScore < score w then best_worker score (Some w) (score w) ws
      else best_worker score best bestScore ws)"

definition task_score :: "Orchestrator \<Rightarrow> string \<Rightarrow> OrchestrationWorker \<Rightarrow> rat" where
  "task_score g task w =
     workerStrength w - o_CostPenalty (og_cfg g) * w_Cost w + (if containsFold (w_Tasks w) task then 1 else 0)"

definition selectWorker :: "Orchestrator \<Rightarrow> string \<Rightarrow> OrchestrationWorker list \<Rightarrow> OrchestrationWorker option" where
  "selectWorker g task eligible = best_worker (task_score g task) None no_score eligible"

definition strongestWorker :: "OrchestrationWorker list \<Rightarrow> OrchestrationWorker option" where
  "strongestWorker eligible = best_worker workerStrength None no_score eligible"

definition verify_score :: "OrchestrationWorker \<Rightarrow> rat" where
  "verify_score w = workerStrength w + (if containsFold (w_Tasks w) ''verify'' then 1 else 0)"

definition selectVerifier :: "OrchestrationWorker \<Rightarrow> OrchestrationWorker list \<Rightarrow> OrchestrationWorker" where
  "selectVerifier producer eligible =
     (case best_worker verify_score None no_score (filter (\<lambda>w. w_ID w \<noteq> w_ID producer) eligible) of
        Some w \<Rightarrow> w
      | None \<Rightarrow> producer)"

section \<open>Calling a worker\<close>

definition pickBackend :: "Orchestrator \<Rightarrow> order \<Rightarrow> string \<Rightarrow> orch_state \<Rightarrow> (orch_error, addr) sum \<times> orch_state" where
  "pickBackend g ord model st =
     (let s = os_store st in
      if (case store_Model model s of Some m \<Rightarrow> \<not> m_Enabled m | None \<Rightarrow> False)
      then (Inl (WorkerModelDisabled model), st)
      else let candidates = BackendsForModel ord model s;
               ready = FilterRoutable (s_bheap s) (og_allowDegraded g) candidates
           in if ready = [] then (Inl (NoHealthyBackend model), st)
              else (case Choose (s_bheap s) 0 model ''weighted_round_robin'' ready
                           \<lparr>hint_APIKeyID = [], hint_User = []\<rparr> (os_balancer st) of
                      (None, b) \<Rightarrow> (Inl (NoHealthyBackend model), st\<lparr>os_balancer := b\<rparr>)
                    | (Some p, b) \<Rightarrow> (Inr p, st\<lparr>os_balancer := b\<rparr>)))"

text \<open>The loop of at most three attempts to get a slot.\<close>

fun acquire_backend :: "Orchestrator \<Rightarrow> call_env \<Rightarrow> string \<Rightarrow> nat \<Rightarrow> nat \<Rightarrow> orch_state \<Rightarrow> (orch_error, addr option) sum \<times> orch_state" where
  "acquire_backend g e model k 0 st = (Inr None, st)"
| "acquire_backend g e model k (Suc n) st =
     (case pickBackend g (ce_order e k) model st of
        (Inl err, st1) \<Rightarrow> (Inl err, st1)
      | (Inr p, st1) \<Rightarrow>
          (let s1 = ce_race e k (os_store st1) in
           case AcquireSlot (s_bheap s1 p) of
             (b, True) \<Rightarrow> (Inr (Some p), st1\<lparr>os_store := upd_backend p (\<lambda>_. b) s1\<rparr>)
           | (b, False) \<Rightarrow> acquire_backend g e model (Suc k) n (st1\<lparr>os_store := s1\<rparr>)))"

definition worker_headers :: "Backend \<Rightarrow> http_Header" where
  "worker_headers be =
     (let h = hdr_Set ''Accept-Encoding'' ''identity''
                (hdr_Set ''Accept'' ''application/json'' (hdr_Set ''Content-Type'' ''application/json'' []))
      in if b_APIKey be \<noteq> [] then hdr_Set ''Authorization'' (''Bearer '' @ b_APIKey be) h else h)"

definition worker_body :: "orch_json \<Rightarrow> OrchestrationWorker \<Rightarrow> chatMessage list \<Rightarrow> genParams \<Rightarrow> string" where
  "worker_body jo w msgs p =
     oj_encode jo \<lparr>cq_Model = w_Model w, cq_Messages = msgs, cq_Stream = False,
       cq_Temperature = gp_Temperature p, cq_TopP = gp_TopP p, cq_MaxTokens = gp_MaxTokens p\<rparr>"

definition worker_timeout :: "Orchestrator \<Rightarrow> Backend \<Rightarrow> int" where
  "worker_timeout g be = (if 0 < b_TimeoutMS be then b_TimeoutMS be else o_RequestTimeoutMS (og_cfg g))"

definition zero_usage :: Usage_block where
  "zero_usage = \<lparr>us_PromptTokens = 0, us_CompletionTokens = 0, us_TotalTokens = 0, us_ReasoningTokens = 0\<rparr>"

definition statusLabel :: "int \<Rightarrow> string" where
  "statusLabel code = (if code \<le> 0 then ''unknown'' else Itoa code)"

text \<open>What the caller gets for an answer that arrived.\<close>

definition read_answer :: "Orchestrator \<Rightarrow> orch_json \<Rightarrow> OrchestrationWorker \<Rightarrow> string \<Rightarrow> int \<Rightarrow> int \<Rightarrow> string \<Rightarrow> orch_state \<Rightarrow> (orch_error, completion) sum \<times> orch_state" where
  "read_answer g jo w bid latency code body st =
     (if \<not> (200 \<le> code \<and> code < 300) then
        (Inl (WorkerBackendError (w_ID w) bid
           (case oj_response jo body of
              Inr env \<Rightarrow> (case cs_Error env of
                            Some m \<Rightarrow> if m \<noteq> [] then m else ''status '' @ Itoa code
                          | None \<Rightarrow> ''status '' @ Itoa code)
            | Inl err \<Rightarrow> ''status '' @ Itoa code)),
         emit g (IncBackendError bid (statusLabel code)) st)
      else (case oj_response jo body of
              Inl err \<Rightarrow> (Inl (WorkerDecode (w_ID w) err), emit g (IncBackendError bid ''decode'') st)
            | Inr parsed \<Rightarrow>
                (case cs_Choices parsed of
                   [] \<Rightarrow> (Inl (WorkerNoChoices (w_ID w) bid), emit g (IncBackendError bid ''empty_response'') st)
                 | m # _ \<Rightarrow>
                     (Inr \<lparr>cp_Text = cm_Content m,
                           cp_Usage = (case cs_Usage parsed of Some u \<Rightarrow> u | None \<Rightarrow> zero_usage),
                           cp_WorkerID = w_ID w, cp_Model = w_Model w, cp_BackendID = bid,
                           cp_LatencyMS = latency\<rparr>, st))))"

definition release_slot :: "addr \<Rightarrow> bool \<Rightarrow> orch_state \<Rightarrow> orch_state" where
  "release_slot p success st = st\<lparr>os_store := upd_backend p (ReleaseSlot success) (os_store st)\<rparr>"

definition callWorker :: "Orchestrator \<Rightarrow> call_env \<Rightarrow> orch_json \<Rightarrow> OrchestrationWorker \<Rightarrow> chatMessage list \<Rightarrow> genParams \<Rightarrow> orch_state \<Rightarrow> (orch_error, completion) sum \<times> orch_state" where
  "callWorker g e jo w msgs p st =
     (case acquire_backend g e (w_Model w) 0 3 st of
        (Inl err, st1) \<Rightarrow> (Inl err, st1)
      | (Inr None, st1) \<Rightarrow> (Inl (WorkerAtCapacity (w_ID w) (w_Model w)), st1)
      | (Inr (Some be), st1) \<Rightarrow>
          (let b = s_bheap (os_store st1) be;
               rq = \<lparr>wr_URL = b_BaseURL b @ ''/chat/completions'', wr_Header = worker_headers b,
                     wr_Body = worker_body jo w msgs p, wr_TimeoutMS = worker_timeout g b\<rparr>;
               st2 = st1\<lparr>os_sent := os_sent st1 @ [(w, be, rq)], os_store := ce_during e (os_store st1)\<rparr>
           in case ce_answer e of
                BuildFailed err \<Rightarrow> (Inl (WorkerBuildRequest (w_ID w) err), release_slot be False st1)
              | DeadlineHit err \<Rightarrow>
                  (Inl (WorkerTimedOut (w_ID w) (b_ID b) err), emit g (IncTimeout (b_ID b) ''backend'') (release_slot be False st2))
              | NoConnection err \<Rightarrow>
                  (Inl (WorkerUnreachable (w_ID w) (b_ID b) err),
                   emit g (IncBackendError (b_ID b) ''unreachable'') (release_slot be False st2))
              | Answered code body \<Rightarrow>
                  read_answer g jo w (b_ID b) (ce_latency e) code body
                    (release_slot be (200 \<le> code \<and> code < 300) st2)))"

section \<open>The conductor\<close>

definition roleThinker :: string where "roleThinker = ''thinker''"
definition roleWorker :: string where "roleWorker = ''worker''"
definition roleVerifier :: string where "roleVerifier = ''verifier''"
definition roleSynthesizer :: string where "roleSynthesizer = ''synthesizer''"

definition thinkerPrompt :: string where
  "thinkerPrompt = ''You are the THINKER in a multi-model workflow. Do NOT answer the user's request directly. ''
     @ ''Instead, decompose it into a short, concrete plan (at most five steps) that another model will execute. ''
     @ ''Identify the key sub-problems, edge cases, and what a correct answer must contain. Be concise.''"

definition workerPrompt :: string where
  "workerPrompt = ''You are the WORKER in a multi-model workflow. Produce the best, complete answer to the user's request. ''
     @ ''If a plan is provided, follow it. Be correct and concrete.''"

definition verifierPrompt :: string where
  "verifierPrompt = ''You are the VERIFIER in a multi-model workflow, and you are a DIFFERENT model from the one that wrote the candidate answer. ''
     @ ''Critically review the candidate answer for correctness, missing cases, and mistakes. ''
     @ ''List concrete problems and corrections. If the answer is fully correct, say so explicitly. Do NOT rewrite the whole answer.''"

definition synthesizerPrompt :: string where
  "synthesizerPrompt = ''You are the SYNTHESIZER in a multi-model workflow. Using the draft answer and the reviewer feedback, ''
     @ ''produce the final, corrected answer for the user. Incorporate valid corrections and ignore incorrect feedback. ''
     @ ''Output only the final answer, with no meta-commentary about the process.''"

definition newline :: string where "newline = [char_of (10::nat)]"

definition stepMessages :: "string \<Rightarrow> chatMessage list \<Rightarrow> ctxBlock list \<Rightarrow> chatMessage list" where
  "stepMessages rolePrompt base ctx =
     \<lparr>cm_Role = ''system'',
      cm_Content = rolePrompt @ concat (map (\<lambda>b. newline @ newline @ ''--- '' @ cb_Label b @ '' ---'' @ newline @ cb_Text b) ctx)\<rparr>
     # base"

definition plannerParams :: "genParams \<Rightarrow> genParams" where
  "plannerParams p =
     (case gp_MaxTokens p of
        Some n \<Rightarrow> if n < 512 then p\<lparr>gp_MaxTokens := None\<rparr> else p
      | None \<Rightarrow> p)"

definition add_usage :: "Usage_block \<Rightarrow> Usage_block \<Rightarrow> Usage_block" where
  "add_usage u v =
     \<lparr>us_PromptTokens = add64 (us_PromptTokens u) (us_PromptTokens v),
      us_CompletionTokens = add64 (us_CompletionTokens u) (us_CompletionTokens v),
      us_TotalTokens = add64 (us_TotalTokens u) (us_TotalTokens v),
      us_ReasoningTokens = add64 (us_ReasoningTokens u) (us_ReasoningTokens v)\<rparr>"

text \<open>\<open>stepNo\<close> counts the steps appended so far.\<close>

definition addStep :: "Orchestrator \<Rightarrow> string \<Rightarrow> completion \<Rightarrow> Result \<times> orch_state \<Rightarrow> Result \<times> orch_state" where
  "addStep g role c = (\<lambda>(res, st).
     (res\<lparr>rs_Steps := rs_Steps res @ [\<lparr>si_Step = int (length (rs_Steps res)) + 1, si_Role = role,
            si_WorkerID = cp_WorkerID c, si_Model = cp_Model c, si_BackendID = cp_BackendID c,
            si_LatencyMS = cp_LatencyMS c\<rparr>],
          rs_Usage := add_usage (rs_Usage res) (cp_Usage c)\<rparr>,
      emit g (IncStep role (cp_WorkerID c)) st))"

text \<open>The four steps. A step that must succeed returns the error that ends the run.\<close>

definition step_think where
  "step_think g env jo base params eligible cls solver res st =
     (let thinker = (case selectWorker g TaskReasoning eligible of Some w \<Rightarrow> w | None \<Rightarrow> solver) in
      case callWorker g (env roleThinker) jo thinker (stepMessages thinkerPrompt base []) (plannerParams params) st of
        (Inl err, st1) \<Rightarrow>
          (Inl (StepFailed roleThinker err), res, emit g (IncRoute ''conductor'' (w_ID thinker) (cl_Task cls) ''error'') st1)
      | (Inr c, st1) \<Rightarrow> (case addStep g roleThinker c (res, st1) of (res1, st2) \<Rightarrow> (Inr (cp_Text c), res1, st2)))"

definition step_draft where
  "step_draft g env jo base params cls solver plan res st =
     (let ctx = (if plan \<noteq> [] then [\<lparr>cb_Label = ''DECOMPOSITION / PLAN'', cb_Text = plan\<rparr>] else []) in
      case callWorker g (env roleWorker) jo solver (stepMessages workerPrompt base ctx) params st of
        (Inl err, st1) \<Rightarrow>
          (Inl (StepFailed roleWorker err), res, emit g (IncRoute ''conductor'' (w_ID solver) (cl_Task cls) ''error'') st1)
      | (Inr c, st1) \<Rightarrow> (case addStep g roleWorker c (res, st1) of (res1, st2) \<Rightarrow> (Inr (cp_Text c), res1, st2)))"

definition step_verify where
  "step_verify g env jo base params eligible solver draft res st =
     (let verifier = selectVerifier solver eligible;
          st0 = (if w_ID verifier = w_ID solver then
                   logWarn g ''conductor: verifier falls back to same model as worker (only one eligible worker)'' st
                 else st)
      in case callWorker g (env roleVerifier) jo verifier
                (stepMessages verifierPrompt base [\<lparr>cb_Label = ''CANDIDATE ANSWER TO REVIEW'', cb_Text = draft\<rparr>])
                (plannerParams params) st0 of
           (Inl err, st1) \<Rightarrow> ([], res, logWarn g ''conductor: verifier step failed, returning unverified draft'' st1)
         | (Inr c, st1) \<Rightarrow> (case addStep g roleVerifier c (res, st1) of (res1, st2) \<Rightarrow> (cp_Text c, res1, st2)))"

definition step_synth where
  "step_synth g env jo base params solver draft critique res st =
     (case callWorker g (env roleSynthesizer) jo solver
             (stepMessages synthesizerPrompt base
                [\<lparr>cb_Label = ''DRAFT ANSWER'', cb_Text = draft\<rparr>, \<lparr>cb_Label = ''REVIEWER FEEDBACK'', cb_Text = critique\<rparr>])
             params st of
        (Inl err, st1) \<Rightarrow>
          (res\<lparr>rs_Content := draft\<rparr>, logWarn g ''conductor: synthesizer step failed, returning draft'' st1)
      | (Inr c, st1) \<Rightarrow> addStep g roleSynthesizer c (res\<lparr>rs_Content := cp_Text c\<rparr>, st1))"

definition pick_solver :: "Orchestrator \<Rightarrow> string \<Rightarrow> OrchestrationWorker list \<Rightarrow> OrchestrationWorker option" where
  "pick_solver g task eligible =
     (case selectWorker g task eligible of Some w \<Rightarrow> Some w | None \<Rightarrow> strongestWorker eligible)"

definition conductor_budget :: "Orchestrator \<Rightarrow> int" where
  "conductor_budget g = (if o_MaxSteps (og_cfg g) \<le> 0 then 5 else o_MaxSteps (og_cfg g))"

text \<open>The steps after the draft: review and synthesis when the budget allows both.\<close>

definition finish_conductor where
  "finish_conductor g env jo base params eligible cls solver doSynth draft res st =
     (let (critique, res1, st1) =
            (if doSynth then step_verify g env jo base params eligible solver draft res st else ([], res, st));
          (res2, st2) =
            (if doSynth \<and> critique \<noteq> [] then step_synth g env jo base params solver draft critique res1 st1
             else (res1\<lparr>rs_Content := draft\<rparr>, st1));
          outcome = (if rs_Content res2 = [] then ''empty'' else ''ok'')
      in (Some res2, None, emit g (IncRoute ''conductor'' (w_ID solver) (cl_Task cls) outcome) st2))"

definition runConductor ::
    "Orchestrator \<Rightarrow> (string \<Rightarrow> call_env) \<Rightarrow> orch_json \<Rightarrow> chatMessage list \<Rightarrow> genParams \<Rightarrow> OrchestrationWorker list \<Rightarrow>
     classification \<Rightarrow> bool \<Rightarrow> orch_state \<Rightarrow> (Result option \<times> orch_error option \<times> orch_state) option" where
  "runConductor g env jo base params eligible cls escalated st =
     (let budget = conductor_budget g;
          doSynth = 3 \<le> budget;
          doThinker = 4 \<le> budget \<or> budget = 2;
          res = \<lparr>rs_Content = [], rs_Usage = zero_usage, rs_Tier = ''conductor'', rs_Task = cl_Task cls,
                 rs_Confidence = cl_Confidence cls, rs_Escalated = escalated, rs_Steps = []\<rparr>
      in case pick_solver g (cl_Task cls) eligible of
           None \<Rightarrow> None
         | Some solver \<Rightarrow>
             (case (if doThinker then step_think g env jo base params eligible cls solver res st
                    else (Inr [], res, st)) of
                (Inl err, res1, st1) \<Rightarrow> Some (Some res1, Some err, st1)
              | (Inr plan, res1, st1) \<Rightarrow>
                  (case step_draft g env jo base params cls solver plan res1 st1 of
                     (Inl err, res2, st2) \<Rightarrow> Some (Some res2, Some err, st2)
                   | (Inr draft, res2, st2) \<Rightarrow>
                       Some (finish_conductor g env jo base params eligible cls solver doSynth draft res2 st2))))"

section \<open>Requests\<close>

text \<open>\<open>flattenContent\<close>: a string, or the texts of the parts joined by newlines.\<close>

fun join_parts :: "string list \<Rightarrow> string \<Rightarrow> string" where
  "join_parts [] b = b"
| "join_parts (t # ts) b =
     join_parts ts (if t \<noteq> [] then (if b \<noteq> [] then b @ newline else b) @ t else b)"

definition flattenContent :: "orch_json \<Rightarrow> string \<Rightarrow> string" where
  "flattenContent jo raw =
     (if raw = [] then []
      else (case oj_string jo raw of
              Some s \<Rightarrow> s
            | None \<Rightarrow> (case oj_parts jo raw of Some parts \<Rightarrow> join_parts parts [] | None \<Rightarrow> [])))"

definition parseRequest :: "orch_json \<Rightarrow> string \<Rightarrow> (orch_error, chatMessage list \<times> genParams) sum" where
  "parseRequest jo raw =
     (case oj_request jo raw of
        Inl err \<Rightarrow> Inl (InvalidOrchRequest err)
      | Inr (ms, params) \<Rightarrow>
          Inr (map (\<lambda>(r, c). \<lparr>cm_Role = r, cm_Content = flattenContent jo c\<rparr>) ms, params))"

definition lastUserText :: "chatMessage list \<Rightarrow> string" where
  "lastUserText msgs =
     (case find (\<lambda>m. EqualFold (cm_Role m) ''user'') (rev msgs) of
        Some m \<Rightarrow> cm_Content m
      | None \<Rightarrow> cm_Content (last msgs))"

definition single ::
    "Orchestrator \<Rightarrow> (string \<Rightarrow> call_env) \<Rightarrow> orch_json \<Rightarrow> OrchestrationWorker option \<Rightarrow> chatMessage list \<Rightarrow> genParams \<Rightarrow>
     classification \<Rightarrow> string \<Rightarrow> bool \<Rightarrow> orch_state \<Rightarrow> (Result option \<times> orch_error option \<times> orch_state) option" where
  "single g env jo w msgs params cls tier escalated st =
     (case w of
        None \<Rightarrow> None
      | Some w \<Rightarrow>
          (case callWorker g (env ''route'') jo w msgs params st of
             (Inl err, st1) \<Rightarrow> Some (None, Some err, emit g (IncRoute tier (w_ID w) (cl_Task cls) ''error'') st1)
           | (Inr c, st1) \<Rightarrow>
               Some (Some \<lparr>rs_Content = cp_Text c, rs_Usage = cp_Usage c, rs_Tier = tier, rs_Task = cl_Task cls,
                           rs_Confidence = cl_Confidence cls, rs_Escalated = escalated,
                           rs_Steps = [\<lparr>si_Step = 1, si_Role = ''route'', si_WorkerID = w_ID w, si_Model = w_Model w,
                                        si_BackendID = cp_BackendID c, si_LatencyMS = cp_LatencyMS c\<rparr>]\<rparr>,
                     None, emit g (IncRoute tier (w_ID w) (cl_Task cls) ''ok'') st1)))"

definition orch_Handle ::
    "Orchestrator \<Rightarrow> (string \<Rightarrow> call_env) \<Rightarrow> orch_json \<Rightarrow> string \<Rightarrow> string \<Rightarrow> int \<Rightarrow> orch_state \<Rightarrow>
     (Result option \<times> orch_error option \<times> orch_state) option" where
  "orch_Handle g env jo virtualModel rawBody secretLevel st =
     (case parseRequest jo rawBody of
        Inl err \<Rightarrow> Some (None, Some err, st)
      | Inr (msgs, params) \<Rightarrow>
          if msgs = [] then Some (None, Some NoMessages, st)
          else let eligible = eligibleWorkers g secretLevel; conductor = o_ConductorModel (og_cfg g) in
            if eligible = [] then Some (None, Some (NoWorkerPermitted secretLevel), st)
            else let cls = classify (lastUserText msgs) in
              if conductor \<noteq> [] \<and> virtualModel = conductor
              then runConductor g env jo msgs params eligible cls False st
              else if cl_Confidence cls < o_ConfidenceThreshold (og_cfg g)
              then let st1 = emit g (IncEscalation ''low_confidence'') st in
                if conductor \<noteq> [] then runConductor g env jo msgs params eligible cls True st1
                else single g env jo (strongestWorker eligible) msgs params cls ''router'' True st1
              else single g env jo (pick_solver g (cl_Task cls) eligible) msgs params cls ''router'' False st)"

section \<open>Selections\<close>

lemma best_worker_mem:
  "best_worker score best bs ws = Some w \<Longrightarrow> best = Some w \<or> w \<in> set ws"
  by (induction score best bs ws rule: best_worker.induct) (auto split: if_splits)

lemma best_worker_Some:
  "best \<noteq> None \<or> (\<exists>w \<in> set ws. bs < score w) \<Longrightarrow> best_worker score best bs ws \<noteq> None"
  by (induction score best bs ws rule: best_worker.induct) auto

lemma best_worker_max:
  "best_worker score best bs ws = Some w \<Longrightarrow> (best = Some w' \<Longrightarrow> score w' = bs) \<Longrightarrow>
     x \<in> set ws \<Longrightarrow> bs < score x \<Longrightarrow> score x \<le> score w"
proof (induction score best bs ws arbitrary: w' rule: best_worker.induct)
  case (2 score best bs y ys)
  have mono: "bs' \<le> score w" if "best_worker score (Some v) bs' vs = Some w" "score v = bs'" for v bs' vs
    using that by (induction vs arbitrary: v bs') (auto split: if_splits intro: order.trans [OF less_imp_le])
  show ?case
  proof (cases "bs < score y")
    case True
    then have b: "best_worker score (Some y) (score y) ys = Some w" using 2(3) by simp
    then have "score y \<le> score w" using mono by blast
    moreover have "score x \<le> score w" if "x \<in> set ys" "score y < score x"
      using 2(1) [OF True b] that by blast
    ultimately show ?thesis using 2(5) by (cases "x = y"; cases "score y < score x") auto
  next
    case False
    then show ?thesis using 2(2) [OF False] 2(3-6) by auto
  qed
qed simp

lemma pick_solver_mem: "pick_solver g task ws = Some w \<Longrightarrow> w \<in> set ws"
  by (auto simp: pick_solver_def selectWorker_def strongestWorker_def split: option.splits dest: best_worker_mem)

lemma selectWorker_mem: "selectWorker g task ws = Some w \<Longrightarrow> w \<in> set ws"
  by (auto simp: selectWorker_def dest: best_worker_mem)

lemma strongestWorker_mem: "strongestWorker ws = Some w \<Longrightarrow> w \<in> set ws"
  by (auto simp: strongestWorker_def dest: best_worker_mem)

lemma selectVerifier_mem: "p \<in> set ws \<Longrightarrow> selectVerifier p ws \<in> set ws"
  by (auto simp: selectVerifier_def split: option.split dest: best_worker_mem)

lemma eligible_iff:
  "w \<in> set (eligibleWorkers g lvl) \<longleftrightarrow>
     w \<in> set (o_Workers (og_cfg g)) \<and> (w_SecretMaxLevel w \<le> 0 \<or> lvl \<le> w_SecretMaxLevel w)"
  by (auto simp: eligibleWorkers_def Let_def)

section \<open>Which workers are called, and how often\<close>

definition sent_by :: "OrchestrationWorker set \<Rightarrow> nat \<Rightarrow> orch_state \<Rightarrow> orch_state \<Rightarrow> bool" where
  "sent_by W n st st' \<longleftrightarrow> (\<exists>new. os_sent st' = os_sent st @ new \<and> length new \<le> n \<and> fst ` set new \<subseteq> W)"

lemma sent_by_same: "os_sent st' = os_sent st \<Longrightarrow> sent_by W n st st'"
  by (simp add: sent_by_def)

lemma sent_by_trans:
  assumes "sent_by W n st st1" and "sent_by W m st1 st2" and "n + m \<le> k"
  shows "sent_by W k st st2"
proof -
  obtain a where a: "os_sent st1 = os_sent st @ a" "length a \<le> n" "fst ` set a \<subseteq> W"
    using assms(1) by (auto simp: sent_by_def)
  obtain b where b: "os_sent st2 = os_sent st1 @ b" "length b \<le> m" "fst ` set b \<subseteq> W"
    using assms(2) by (auto simp: sent_by_def)
  from a b assms(3) show ?thesis unfolding sent_by_def by (intro exI [of _ "a @ b"]) auto
qed

lemma sent_by_refl [simp]: "sent_by W n st st"
  by (simp add: sent_by_def)

lemma sent_by_mono: "sent_by W n st st' \<Longrightarrow> n \<le> m \<Longrightarrow> sent_by W m st st'"
  by (auto simp: sent_by_def)

lemma sent_frame [simp]:
  "os_sent (emit g m st) = os_sent st" "os_sent (logWarn g msg st) = os_sent st"
  "os_sent (release_slot p ok st) = os_sent st"
  by (simp_all add: emit_def logWarn_def release_slot_def)

lemma sent_by_end [simp]:
  "sent_by W n st (emit g m st') = sent_by W n st st'" "sent_by W n st (logWarn g msg st') = sent_by W n st st'"
  "sent_by W n (emit g m st) st' = sent_by W n st st'" "sent_by W n (logWarn g msg st) st' = sent_by W n st st'"
  by (simp_all add: sent_by_def)

lemma pickBackend_sent: "pickBackend g ord model st = (r, st1) \<Longrightarrow> os_sent st1 = os_sent st"
  by (auto simp: pickBackend_def Let_def split: if_splits prod.splits option.splits)

lemma acquire_backend_sent: "acquire_backend g e model k n st = (r, st1) \<Longrightarrow> os_sent st1 = os_sent st"
  by (induction g e model k n st arbitrary: st1 rule: acquire_backend.induct)
     (fastforce simp: Let_def dest: pickBackend_sent split: prod.splits sum.splits bool.splits)+

lemma read_answer_sent: "read_answer g jo w bid l code body st = (r, st1) \<Longrightarrow> os_sent st1 = os_sent st"
  by (auto simp: read_answer_def split: if_splits sum.splits list.splits)

lemma callWorker_sent:
  assumes "callWorker g e jo w msgs p st = (r, st1)" and "w \<in> W"
  shows "sent_by W 1 st st1"
proof -
  obtain a st0 where a: "acquire_backend g e (w_Model w) 0 3 st = (a, st0)" by (cases "acquire_backend g e (w_Model w) 0 3 st")
  have s0: "os_sent st0 = os_sent st" using acquire_backend_sent [OF a] .
  consider err where "a = Inl err" | "a = Inr None" | be where "a = Inr (Some be)"
    by (metis option.exhaust sum.exhaust_sel)
  then show ?thesis
  proof cases
    case 3
    have "os_sent st1 = os_sent st0 \<or> (\<exists>rq. os_sent st1 = os_sent st0 @ [(w, be, rq)])"
      using assms(1) unfolding callWorker_def a
      by (cases "ce_answer e") (auto simp: 3 Let_def dest!: read_answer_sent)
    then show ?thesis using s0 assms(2) by (auto simp: sent_by_def)
  qed (use assms(1) a s0 in \<open>auto simp: callWorker_def sent_by_def\<close>)
qed

lemma step_sent:
  assumes "solver \<in> set eligible"
  shows "step_think g env jo base params eligible cls solver res st = (r, res1, st1) \<Longrightarrow> sent_by (set eligible) 1 st st1"
    and "step_draft g env jo base params cls solver plan res st = (r, res1, st1) \<Longrightarrow> sent_by (set eligible) 1 st st1"
    and "step_verify g env jo base params eligible solver draft res st = (c, res1, st1) \<Longrightarrow> sent_by (set eligible) 1 st st1"
    and "step_synth g env jo base params solver draft critique res st = (res1, st1) \<Longrightarrow> sent_by (set eligible) 1 st st1"
proof -
  have thinker: "(case selectWorker g TaskReasoning eligible of Some w \<Rightarrow> w | None \<Rightarrow> solver) \<in> set eligible"
    using assms by (auto split: option.split dest: selectWorker_mem)
  show "step_think g env jo base params eligible cls solver res st = (r, res1, st1) \<Longrightarrow> sent_by (set eligible) 1 st st1"
    using thinker unfolding step_think_def Let_def
    by (auto simp: addStep_def split: prod.splits sum.splits dest: callWorker_sent)
  show "step_draft g env jo base params cls solver plan res st = (r, res1, st1) \<Longrightarrow> sent_by (set eligible) 1 st st1"
    using assms unfolding step_draft_def Let_def
    by (auto simp: addStep_def split: prod.splits sum.splits dest: callWorker_sent)
  show "step_synth g env jo base params solver draft critique res st = (res1, st1) \<Longrightarrow> sent_by (set eligible) 1 st st1"
    using assms unfolding step_synth_def
    by (auto simp: addStep_def split: prod.splits sum.splits dest: callWorker_sent)
  show "step_verify g env jo base params eligible solver draft res st = (c, res1, st1) \<Longrightarrow> sent_by (set eligible) 1 st st1"
    using selectVerifier_mem [OF assms] unfolding step_verify_def Let_def
    by (auto simp: addStep_def split: prod.splits sum.splits if_splits dest: callWorker_sent)
qed

lemma finish_conductor_sent:
  assumes "solver \<in> set eligible"
    and "finish_conductor g env jo base params eligible cls solver doSynth draft res st = (r, e, st')"
  shows "sent_by (set eligible) (if doSynth then 2 else 0) st st'"
proof (cases doSynth)
  case False
  then show ?thesis using assms(2) by (auto simp: finish_conductor_def Let_def sent_by_same)
next
  case True
  obtain c res1 st1 where v: "step_verify g env jo base params eligible solver draft res st = (c, res1, st1)"
    by (metis prod_cases3)
  obtain res2 st2 where y: "step_synth g env jo base params solver draft c res1 st1 = (res2, st2)"
    by (metis prod.exhaust)
  have 1: "sent_by (set eligible) 1 st st1" using step_sent(3) [OF assms(1) v] .
  have 2: "sent_by (set eligible) 1 st1 st2" using step_sent(4) [OF assms(1) y] .
  have 3: "sent_by (set eligible) 1 st1 st1" by (simp add: sent_by_same)
  show ?thesis using assms(2) True v y sent_by_trans [OF 1 2] sent_by_trans [OF 1 3]
    by (auto simp: finish_conductor_def Let_def split: if_splits)
qed

lemma runConductor_sent:
  assumes "runConductor g env jo base params eligible cls esc st = Some (r, e, st')"
  shows "sent_by (set eligible) (nat (min 4 (conductor_budget g))) st st'"
proof -
  let ?W = "set eligible"
  define B where "B = conductor_budget g"
  have B: "1 \<le> B" by (simp add: B_def conductor_budget_def)
  define T where "T = (4 \<le> B \<or> B = 2)"
  have le: "of_bool T + 1 \<le> nat (min 4 B)" using B by (auto simp: T_def)
  obtain solver where s: "pick_solver g (cl_Task cls) eligible = Some solver"
    using assms by (auto simp: runConductor_def Let_def split: option.splits)
  note mem = pick_solver_mem [OF s]
  define res where "res = \<lparr>rs_Content = [], rs_Usage = zero_usage, rs_Tier = ''conductor'', rs_Task = cl_Task cls,
    rs_Confidence = cl_Confidence cls, rs_Escalated = esc, rs_Steps = []\<rparr>"
  obtain t res1 st1 where t: "(if T then step_think g env jo base params eligible cls solver res st
      else (Inr [], res, st)) = (t, res1, st1)" by (metis prod_cases3)
  have sent1: "sent_by ?W (of_bool T) st st1"
    using t step_sent(1) [OF mem] by (cases T) (auto simp: sent_by_same)
  have run: "(case t of Inl err \<Rightarrow> Some (Some res1, Some err, st1)
      | Inr plan \<Rightarrow> (case step_draft g env jo base params cls solver plan res1 st1 of
          (Inl err, res2, st2) \<Rightarrow> Some (Some res2, Some err, st2)
        | (Inr draft, res2, st2) \<Rightarrow>
            Some (finish_conductor g env jo base params eligible cls solver (3 \<le> B) draft res2 st2))) = Some (r, e, st')"
    using assms s t unfolding runConductor_def Let_def B_def [symmetric] T_def [symmetric] res_def [symmetric]
    by (cases t; cases T) simp_all
  show ?thesis
  proof (cases t)
    case (Inl err)
    with run sent1 le show ?thesis by (auto simp: B_def [symmetric] intro: sent_by_mono)
  next
    case (Inr plan)
    obtain d res2 st2 where d: "step_draft g env jo base params cls solver plan res1 st1 = (d, res2, st2)"
      by (metis prod_cases3)
    have sent2: "sent_by ?W (of_bool T + 1) st st2"
      using sent_by_trans [OF sent1 step_sent(2) [OF mem d]] by simp
    show ?thesis
    proof (cases d)
      case (Inl err)
      with run Inr d sent2 le show ?thesis by (auto simp: B_def [symmetric] intro: sent_by_mono)
    next
      case f: (Inr draft)
      have "finish_conductor g env jo base params eligible cls solver (3 \<le> B) draft res2 st2 = (r, e, st')"
        using run Inr d f by simp
      moreover have "of_bool T + 1 + (if 3 \<le> B then 2 else 0) \<le> nat (min 4 B)" using B by (auto simp: T_def)
      ultimately show ?thesis using sent_by_trans [OF sent2 finish_conductor_sent [OF mem]] by (simp add: B_def)
    qed
  qed
qed

lemma single_sent:
  "single g env jo w msgs params cls tier esc st = Some (r, e, st') \<Longrightarrow> (\<And>x. w = Some x \<Longrightarrow> x \<in> W) \<Longrightarrow> sent_by W 1 st st'"
  by (auto simp: single_def split: option.splits prod.splits sum.splits dest: callWorker_sent)

lemma orch_Handle_cases:
  obtains (error) err where "orch_Handle g env jo model raw lvl st = Some (None, Some err, st)"
  | (conductor) msgs params cls esc st1 where "eligibleWorkers g lvl \<noteq> []" "st1 = st \<or> (\<exists>m. st1 = emit g m st)"
      "orch_Handle g env jo model raw lvl st = runConductor g env jo msgs params (eligibleWorkers g lvl) cls esc st1"
  | (router) w msgs params cls tier esc st1 task where "eligibleWorkers g lvl \<noteq> []" "st1 = st \<or> (\<exists>m. st1 = emit g m st)"
      "w = strongestWorker (eligibleWorkers g lvl) \<or> w = pick_solver g task (eligibleWorkers g lvl)"
      "orch_Handle g env jo model raw lvl st = single g env jo w msgs params cls tier esc st1"
proof (cases "parseRequest jo raw")
  case (Inl err)
  then show thesis by (intro error) (simp add: orch_Handle_def)
next
  case (Inr mp)
  obtain msgs params where mp: "mp = (msgs, params)" by (cases mp)
  note H = orch_Handle_def [of g env jo model raw lvl st, unfolded Let_def Inr mp sum.case prod.case]
  show thesis
  proof (cases "msgs = [] \<or> eligibleWorkers g lvl = []")
    case True
    then show thesis by (cases "msgs = []") (auto intro: error simp: H)
  next
    case False
    then have ne: "msgs \<noteq> []" "eligibleWorkers g lvl \<noteq> []" by simp_all
    define cls where "cls = classify (lastUserText msgs)"
    note H' = H [unfolded cls_def [symmetric]]
    consider "o_ConductorModel (og_cfg g) \<noteq> [] \<and> model = o_ConductorModel (og_cfg g)"
      | "\<not> (o_ConductorModel (og_cfg g) \<noteq> [] \<and> model = o_ConductorModel (og_cfg g))"
        "cl_Confidence cls < o_ConfidenceThreshold (og_cfg g)" "o_ConductorModel (og_cfg g) \<noteq> []"
      | "\<not> (o_ConductorModel (og_cfg g) \<noteq> [] \<and> model = o_ConductorModel (og_cfg g))"
        "cl_Confidence cls < o_ConfidenceThreshold (og_cfg g)" "o_ConductorModel (og_cfg g) = []"
      | "\<not> (o_ConductorModel (og_cfg g) \<noteq> [] \<and> model = o_ConductorModel (og_cfg g))"
        "\<not> cl_Confidence cls < o_ConfidenceThreshold (og_cfg g)"
      by blast
    then show thesis
    proof cases
      case 1
      then have "orch_Handle g env jo model raw lvl st = runConductor g env jo msgs params (eligibleWorkers g lvl) cls False st"
        using ne unfolding H' by simp
      then show thesis using ne conductor by blast
    next
      case 2
      then show thesis using ne
        by (intro conductor [of "emit g (IncEscalation ''low_confidence'') st"]) (auto simp: H')
    next
      case 3
      then show thesis using ne
        by (intro router [of "emit g (IncEscalation ''low_confidence'') st" "strongestWorker (eligibleWorkers g lvl)"])
           (auto simp: H')
    next
      case 4
      then have "orch_Handle g env jo model raw lvl st =
          single g env jo (pick_solver g (cl_Task cls) (eligibleWorkers g lvl)) msgs params cls ''router'' False st"
        using ne unfolding H' by auto
      then show thesis using ne router by blast
    qed
  qed
qed

lemma orch_Handle_total:
  assumes "\<forall>w \<in> set (o_Workers (og_cfg g)). no_score < workerStrength w"
  shows "\<exists>r e st'. orch_Handle g env jo model raw lvl st = Some (r, e, st') \<and> (r \<noteq> None \<or> e \<noteq> None)"
proof -
  let ?el = "eligibleWorkers g lvl"
  have strong: "strongestWorker ?el \<noteq> None" "pick_solver g task ?el \<noteq> None" if "?el \<noteq> []" for task
  proof -
    from that obtain w where "w \<in> set ?el" by (cases ?el) auto
    with assms show "strongestWorker ?el \<noteq> None"
      unfolding strongestWorker_def by (intro best_worker_Some) (auto simp: eligible_iff)
    then show "pick_solver g task ?el \<noteq> None" by (auto simp: pick_solver_def split: option.split)
  qed
  have run: "\<exists>r e st'. runConductor g env jo msgs params ?el cls esc s = Some (r, e, st') \<and> r \<noteq> None"
    if "?el \<noteq> []" for msgs params cls esc s
    using strong(2) [OF that, of "cl_Task cls"]
    by (auto simp: runConductor_def Let_def finish_conductor_def split: option.splits sum.splits prod.splits)
  have one: "\<exists>r e st'. single g env jo w msgs params cls tier esc s = Some (r, e, st') \<and> (r \<noteq> None \<or> e \<noteq> None)"
    if "w \<noteq> None" for w msgs params cls tier esc s
    using that by (auto simp: single_def split: sum.splits prod.splits)
  show ?thesis
  proof (cases g env jo model raw lvl st rule: orch_Handle_cases)
    case (error err)
    then show ?thesis by auto
  next
    case (conductor msgs params cls esc st1)
    then show ?thesis using run [OF conductor(1)] by metis
  next
    case (router w msgs params cls tier esc st1 task)
    then show ?thesis using strong [OF router(1)] one [of w] by auto
  qed
qed

lemma orch_Handle_sent:
  assumes "orch_Handle g env jo model raw lvl st = Some (r, e, st')"
  shows "\<exists>new. os_sent st' = os_sent st @ new \<and> int (length new) \<le> min 4 (conductor_budget g)
    \<and> (\<forall>(w, p, rq) \<in> set new. w \<in> set (o_Workers (og_cfg g)) \<and> (w_SecretMaxLevel w \<le> 0 \<or> lvl \<le> w_SecretMaxLevel w))"
proof -
  let ?W = "set (eligibleWorkers g lvl)" and ?n = "nat (min 4 (conductor_budget g))"
  have n: "1 \<le> ?n" by (auto simp: conductor_budget_def)
  have one: "sent_by ?W ?n s s'" if "sent_by ?W 1 s s'" for s s' using sent_by_mono [OF that n] .
  have "sent_by ?W ?n st st'"
  proof (cases g env jo model raw lvl st rule: orch_Handle_cases)
    case (error err)
    then show ?thesis using assms by simp
  next
    case (conductor msgs params cls esc st1)
    then have "runConductor g env jo msgs params (eligibleWorkers g lvl) cls esc st1 = Some (r, e, st')" using assms by simp
    then have "sent_by ?W ?n st1 st'" by (rule runConductor_sent)
    then show ?thesis using conductor(2) by auto
  next
    case (router w msgs params cls tier esc st1 task)
    have mem: "x \<in> ?W" if "w = Some x" for x
      using router(3) that strongestWorker_mem [of _ x] pick_solver_mem [of _ _ _ x] by auto
    have "single g env jo w msgs params cls tier esc st1 = Some (r, e, st')" using router assms by simp
    from single_sent [OF this mem] have "sent_by ?W 1 st1 st'" .
    then show ?thesis using router(2) one by auto
  qed
  then obtain new where "os_sent st' = os_sent st @ new" "length new \<le> ?n" "fst ` set new \<subseteq> ?W"
    by (auto simp: sent_by_def)
  with n show ?thesis by (intro exI [of _ new]) (auto simp: eligible_iff subset_iff image_iff)
qed

text \<open>
  C22. The access list of the orchestrator: whatever tier, classification, failures and races, a
  request of a given secret level is sent only to workers of the pool that are unlimited or whose
  maximal level admits it, and at most as often as the step budget (never more than four times).
\<close>

theorem orchestrator_access_list:
  assumes "orch_Handle g env jo model raw lvl st = Some (r, e, st')"
  shows "\<exists>new. os_sent st' = os_sent st @ new \<and> int (length new) \<le> min 4 (conductor_budget g)
    \<and> (\<forall>(w, p, rq) \<in> set new. w \<in> set (o_Workers (og_cfg g)) \<and> (w_SecretMaxLevel w \<le> 0 \<or> lvl \<le> w_SecretMaxLevel w))"
  using assms by (rule orch_Handle_sent)

section \<open>Slots are returned\<close>

definition in_flight :: "orch_state \<Rightarrow> addr \<Rightarrow> int" where
  "in_flight st p = b_activeRequests (s_bheap (os_store st) p)"

definition in_bounds :: "orch_state \<Rightarrow> bool" where
  "in_bounds st \<longleftrightarrow> (\<forall>p. 0 \<le> in_flight st p \<and> in_flight st p < max_int64)"

text \<open>Other requests do as they like, as long as their own slots cancel out meanwhile.\<close>

definition quiet :: "call_env \<Rightarrow> bool" where
  "quiet e \<longleftrightarrow>
     (\<forall>k s p. b_activeRequests (s_bheap (ce_race e k s) p) = b_activeRequests (s_bheap s p))
   \<and> (\<forall>s p. b_activeRequests (s_bheap (ce_during e s) p) = b_activeRequests (s_bheap s p))"

lemma in_flight_frame [simp]:
  "in_flight (emit g m st) = in_flight st" "in_flight (logWarn g msg st) = in_flight st"
  "in_flight (st\<lparr>os_balancer := b\<rparr>) = in_flight st" "in_flight (st\<lparr>os_sent := x\<rparr>) = in_flight st"
  by (simp_all add: in_flight_def emit_def logWarn_def fun_eq_iff)

lemma in_bounds_frame [simp]:
  "in_bounds (emit g m st) = in_bounds st" "in_bounds (logWarn g msg st) = in_bounds st"
  by (simp_all add: in_bounds_def)

lemma pickBackend_in_flight: "pickBackend g ord model st = (r, st1) \<Longrightarrow> in_flight st1 = in_flight st"
  by (auto simp: pickBackend_def Let_def split: if_splits prod.splits option.splits)

lemma read_answer_in_flight: "read_answer g jo w bid l code body st = (r, st1) \<Longrightarrow> in_flight st1 = in_flight st"
  by (auto simp: read_answer_def split: if_splits sum.splits list.splits)

lemma acquire_in_flight:
  assumes "quiet e" and "in_bounds st" and "acquire_backend g e model k n st = (r, st1)"
  shows "in_flight st1 = (case r of Inr (Some p) \<Rightarrow> (in_flight st)(p := in_flight st p + 1) | _ \<Rightarrow> in_flight st)"
  using assms
proof (induction g e model k n st arbitrary: st1 rule: acquire_backend.induct)
  case (2 g e model k n st)
  obtain q st2 where q: "pickBackend g (ce_order e k) model st = (q, st2)" by (cases "pickBackend g (ce_order e k) model st")
  note f2 = pickBackend_in_flight [OF q]
  show ?case
  proof (cases q)
    case (Inl err)
    with 2 q f2 show ?thesis by auto
  next
    case (Inr p)
    let ?s = "ce_race e k (os_store st2)"
    have same: "b_activeRequests (s_bheap ?s x) = in_flight st x" for x
      using 2(2) f2 by (simp add: quiet_def in_flight_def fun_eq_iff)
    obtain b ok where b: "AcquireSlot (s_bheap ?s p) = (b, ok)" by (cases "AcquireSlot (s_bheap ?s p)")
    show ?thesis
    proof (cases ok)
      case True
      have "add64 (in_flight st p) 1 = in_flight st p + 1"
        using 2(3) [unfolded in_bounds_def, rule_format, of p] by (intro add64_id) simp
      then have "b_activeRequests b = in_flight st p + 1"
        using b True same [of p] by (auto simp: AcquireSlot_def split: if_splits)
      moreover have "r = Inr (Some p)" "st1 = st2\<lparr>os_store := upd_backend p (\<lambda>_. b) ?s\<rparr>"
        using 2(4) q Inr b True by (auto simp: Let_def)
      ultimately show ?thesis using same by (auto simp: in_flight_def upd_backend_def fun_eq_iff)
    next
      case False
      let ?st = "st2\<lparr>os_store := ?s\<rparr>"
      have f: "in_flight ?st = in_flight st" using same by (simp add: in_flight_def fun_eq_iff)
      then have "in_bounds ?st" using 2(3) by (simp add: in_bounds_def)
      moreover have "acquire_backend g e model (Suc k) n ?st = (r, st1)"
        using 2(4) q Inr b False by (auto simp: Let_def)
      ultimately show ?thesis using 2(1) [OF q [symmetric] Inr refl b [symmetric]] 2(2) False f
        by (simp split: sum.split option.split)
    qed
  qed
qed (auto simp: fun_eq_iff)

lemma release_in_flight:
  "0 < in_flight st p \<Longrightarrow> in_flight st p \<le> max_int64 \<Longrightarrow>
     in_flight (release_slot p ok st) = (in_flight st)(p := in_flight st p - 1)"
  by (auto simp: in_flight_def release_slot_def upd_backend_def ReleaseSlot_def Let_def sub64_id fun_eq_iff)

lemma callWorker_in_flight:
  assumes "quiet e" and "in_bounds st" and "callWorker g e jo w msgs p st = (r, st1)"
  shows "in_flight st1 = in_flight st"
proof -
  obtain a st0 where a: "acquire_backend g e (w_Model w) 0 3 st = (a, st0)"
    by (cases "acquire_backend g e (w_Model w) 0 3 st")
  note f = acquire_in_flight [OF assms(1,2) a]
  consider err where "a = Inl err" | "a = Inr None" | be where "a = Inr (Some be)"
    by (metis option.exhaust sum.exhaust_sel)
  then show ?thesis
  proof cases
    case 3
    let ?st = "\<lambda>rq. st0\<lparr>os_sent := os_sent st0 @ [(w, be, rq)], os_store := ce_during e (os_store st0)\<rparr>"
    have f0: "in_flight st0 = (in_flight st)(be := in_flight st be + 1)" using f 3 by simp
    have d: "in_flight (?st rq) = in_flight st0" for rq
      using assms(1) by (simp add: quiet_def in_flight_def fun_eq_iff)
    have b: "0 \<le> in_flight st be" "in_flight st be < max_int64" using assms(2) by (simp_all add: in_bounds_def)
    have r0: "in_flight (release_slot be ok st0) = in_flight st" for ok
      using b by (subst release_in_flight) (simp_all add: f0)
    have r2: "in_flight (release_slot be ok (?st rq)) = in_flight st" for ok rq
      using b by (subst release_in_flight) (simp_all add: d f0)
    show ?thesis
      using assms(3) unfolding callWorker_def a
      by (cases "ce_answer e") (auto simp: 3 Let_def r0 r2 dest!: read_answer_in_flight)
  qed (use assms(3) a f in \<open>auto simp: callWorker_def\<close>)
qed

definition balanced :: "orch_state \<Rightarrow> orch_state \<Rightarrow> bool" where
  "balanced st st' \<longleftrightarrow> in_flight st' = in_flight st"

lemma balanced_bounds: "balanced st st' \<Longrightarrow> in_bounds st \<Longrightarrow> in_bounds st'"
  by (simp add: balanced_def in_bounds_def)

lemma step_balanced:
  assumes "\<forall>role. quiet (env role)" and "in_bounds st"
  shows "step_think g env jo base params eligible cls solver res st = (r, res1, st1) \<Longrightarrow> balanced st st1"
    and "step_draft g env jo base params cls solver plan res st = (r, res1, st1) \<Longrightarrow> balanced st st1"
    and "step_verify g env jo base params eligible solver draft res st = (c, res1, st1) \<Longrightarrow> balanced st st1"
    and "step_synth g env jo base params solver draft critique res st = (res1, st1) \<Longrightarrow> balanced st st1"
proof -
  have call: "in_flight s1 = in_flight st"
    if "callWorker g (env role) jo w msgs p s = (r, s1)" "in_flight s = in_flight st" for role w msgs p s r s1
    using that assms callWorker_in_flight [of "env role" s g jo w msgs p r s1] by (simp add: in_bounds_def)
  note unfolds = step_think_def step_draft_def step_verify_def step_synth_def Let_def balanced_def addStep_def
  show "step_think g env jo base params eligible cls solver res st = (r, res1, st1) \<Longrightarrow> balanced st st1"
    by (auto simp: unfolds split: prod.splits sum.splits dest: call)
  show "step_draft g env jo base params cls solver plan res st = (r, res1, st1) \<Longrightarrow> balanced st st1"
    unfolding unfolds by (auto split: prod.splits sum.splits dest: call [OF _ refl])
  show "step_verify g env jo base params eligible solver draft res st = (c, res1, st1) \<Longrightarrow> balanced st st1"
    by (cases "w_ID (selectVerifier solver eligible) = w_ID solver")
       (auto simp: unfolds split: prod.splits sum.splits dest: call)
  show "step_synth g env jo base params solver draft critique res st = (res1, st1) \<Longrightarrow> balanced st st1"
    by (auto simp: unfolds split: prod.splits sum.splits dest: call)
qed

lemma balanced_trans: "balanced st st1 \<Longrightarrow> balanced st1 st2 \<Longrightarrow> balanced st st2"
  by (simp add: balanced_def)

lemma balanced_frame [simp]:
  "balanced st st" "balanced st (emit g m st') = balanced st st'" "balanced (emit g m st) st' = balanced st st'"
  by (simp_all add: balanced_def)

lemma finish_conductor_balanced:
  assumes "\<forall>role. quiet (env role)" and "in_bounds st"
    and "finish_conductor g env jo base params eligible cls solver doSynth draft res st = (r, e, st')"
  shows "balanced st st'"
proof (cases doSynth)
  case False
  then show ?thesis using assms(3) by (auto simp: finish_conductor_def Let_def)
next
  case True
  obtain c res1 st1 where v: "step_verify g env jo base params eligible solver draft res st = (c, res1, st1)"
    by (metis prod_cases3)
  obtain res2 st2 where y: "step_synth g env jo base params solver draft c res1 st1 = (res2, st2)"
    by (metis prod.exhaust)
  have 1: "balanced st st1" using step_balanced(3) [OF assms(1,2) v] .
  have 2: "balanced st1 st2" using step_balanced(4) [OF assms(1) balanced_bounds [OF 1 assms(2)] y] .
  show ?thesis using assms(3) True v y 1 balanced_trans [OF 1 2]
    by (auto simp: finish_conductor_def Let_def split: if_splits)
qed

lemma runConductor_balanced:
  assumes q: "\<forall>role. quiet (env role)" and b: "in_bounds st"
    and run: "runConductor g env jo base params eligible cls esc st = Some (r, e, st')"
  shows "balanced st st'"
proof -
  obtain solver where s: "pick_solver g (cl_Task cls) eligible = Some solver"
    using run by (auto simp: runConductor_def Let_def split: option.splits)
  define res where "res = \<lparr>rs_Content = [], rs_Usage = zero_usage, rs_Tier = ''conductor'', rs_Task = cl_Task cls,
    rs_Confidence = cl_Confidence cls, rs_Escalated = esc, rs_Steps = []\<rparr>"
  define T where "T = (4 \<le> conductor_budget g \<or> conductor_budget g = 2)"
  obtain t res1 st1 where t: "(if T then step_think g env jo base params eligible cls solver res st
      else (Inr [], res, st)) = (t, res1, st1)" by (metis prod_cases3)
  have 1: "balanced st st1" using t step_balanced(1) [OF q b] by (cases T) auto
  note b1 = balanced_bounds [OF 1 b]
  note run' = run [unfolded runConductor_def Let_def s option.case res_def [symmetric] T_def [symmetric] t prod.case]
  show ?thesis
  proof (cases t)
    case (Inl err)
    with run' 1 show ?thesis by simp
  next
    case (Inr plan)
    obtain d res2 st2 where d: "step_draft g env jo base params cls solver plan res1 st1 = (d, res2, st2)"
      by (metis prod_cases3)
    note 2 = balanced_trans [OF 1 step_balanced(2) [OF q b1 d]]
    from run' Inr d 2 balanced_trans [OF 2 finish_conductor_balanced [OF q balanced_bounds [OF 2 b]]] show ?thesis
      by (cases d) auto
  qed
qed

lemma single_balanced:
  assumes "\<forall>role. quiet (env role)" and "in_bounds st"
    and "single g env jo w msgs params cls tier esc st = Some (r, e, st')"
  shows "balanced st st'"
  using assms callWorker_in_flight [of "env ''route''" st]
  by (auto simp: single_def balanced_def split: option.splits prod.splits sum.splits)

lemma orch_Handle_balanced:
  assumes q: "\<forall>role. quiet (env role)" and b: "in_bounds st"
    and h: "orch_Handle g env jo model raw lvl st = Some (r, e, st')"
  shows "balanced st st'"
proof (cases g env jo model raw lvl st rule: orch_Handle_cases)
  case (error err)
  then show ?thesis using h by simp
next
  case (conductor msgs params cls esc st1)
  have "in_bounds st1" using conductor(2) b by auto
  moreover have "runConductor g env jo msgs params (eligibleWorkers g lvl) cls esc st1 = Some (r, e, st')"
    using conductor(3) h by simp
  ultimately have "balanced st1 st'" by (rule runConductor_balanced [OF q])
  then show ?thesis using conductor(2) by auto
next
  case (router w msgs params cls tier esc st1 task)
  have "in_bounds st1" using router(2) b by auto
  moreover have "single g env jo w msgs params cls tier esc st1 = Some (r, e, st')" using router(4) h by simp
  ultimately have "balanced st1 st'" by (rule single_balanced [OF q])
  then show ?thesis using router(2) by auto
qed

text \<open>
  C23. Orchestration always answers and returns its slots: when every worker of the pool has a
  strength above the sentinel of the scan, the request ends with a result or an error (no panic),
  and on every path, failures of any step included, the number of requests in flight at every
  backend is what it was before.
\<close>

theorem orchestration_returns_slots:
  assumes "\<forall>w \<in> set (o_Workers (og_cfg g)). no_score < workerStrength w"
    and "\<forall>role. quiet (env role)" and "in_bounds st"
  shows "\<exists>r e st'. orch_Handle g env jo model raw lvl st = Some (r, e, st')
    \<and> (\<forall>p. in_flight st' p = in_flight st p) \<and> (r \<noteq> None \<or> e \<noteq> None)"
proof -
  obtain r e st' where h: "orch_Handle g env jo model raw lvl st = Some (r, e, st')" "r \<noteq> None \<or> e \<noteq> None"
    using orch_Handle_total [OF assms(1)] by blast
  have "balanced st st'" using orch_Handle_balanced [OF assms(2,3) h(1)] .
  with h show ?thesis by (auto simp: balanced_def)
qed

section \<open>The verifier\<close>

text \<open>
  The verifier is another worker than the producer whenever the pool has an eligible one,
  and of these the one with the highest score. It is not always another model, as documented:
  workers are told apart by id, so two workers that serve the same model verify each other, also
  when a third worker with a different model is eligible.
\<close>

theorem verifier_is_another_worker:
  "(\<forall>producer eligible w. w \<in> set eligible \<longrightarrow> w_ID w \<noteq> w_ID producer \<longrightarrow> no_score < verify_score w \<longrightarrow>
      w_ID (selectVerifier producer eligible) \<noteq> w_ID producer
      \<and> selectVerifier producer eligible \<in> set eligible \<and> verify_score w \<le> verify_score (selectVerifier producer eligible))
   \<and> (\<exists>producer eligible. w_Model (selectVerifier producer eligible) = w_Model producer
      \<and> (\<exists>w \<in> set eligible. w_Model w \<noteq> w_Model producer))"
proof (intro conjI allI impI)
  fix producer w :: OrchestrationWorker and eligible
  assume w: "w \<in> set eligible" "w_ID w \<noteq> w_ID producer" "no_score < verify_score w"
  let ?ws = "filter (\<lambda>w. w_ID w \<noteq> w_ID producer) eligible"
  have mem: "w \<in> set ?ws" using w by simp
  then obtain v where v: "best_worker verify_score None no_score ?ws = Some v"
    using best_worker_Some [of None ?ws no_score verify_score] w(3) by blast
  then have sel: "selectVerifier producer eligible = v" by (simp add: selectVerifier_def)
  show "w_ID (selectVerifier producer eligible) \<noteq> w_ID producer" "selectVerifier producer eligible \<in> set eligible"
    using best_worker_mem [OF v] by (simp_all add: sel)
  show "verify_score w \<le> verify_score (selectVerifier producer eligible)"
    using best_worker_max [OF v, where w' = v] mem w(3) by (simp add: sel)
next
  let ?w = "\<lambda>n m s. \<lparr>w_ID = n, w_Model = m, w_Tasks = [], w_Strength = s, w_Cost = 0, w_SecretMaxLevel = 0, w_Tags = []\<rparr>"
  let ?el = "[?w ''a'' ''m'' 1, ?w ''b'' ''m'' 1, ?w ''c'' ''x'' (1/2)]"
  have "selectVerifier (?w ''a'' ''m'' 1) ?el = ?w ''b'' ''m'' 1"
    by (simp add: selectVerifier_def verify_score_def workerStrength_def no_score_def)
  then have "w_Model (selectVerifier (?w ''a'' ''m'' 1) ?el) = w_Model (?w ''a'' ''m'' 1)
      \<and> (\<exists>w \<in> set ?el. w_Model w \<noteq> w_Model (?w ''a'' ''m'' 1))" by simp
  then show "\<exists>producer eligible. w_Model (selectVerifier producer eligible) = w_Model producer
      \<and> (\<exists>w \<in> set eligible. w_Model w \<noteq> w_Model producer)" by blast
qed

section \<open>A pool\<close>

definition pool_worker :: "string \<Rightarrow> int \<Rightarrow> OrchestrationWorker" where
  "pool_worker n lvl = \<lparr>w_ID = n, w_Model = ''m-'' @ n, w_Tasks = [], w_Strength = 1, w_Cost = 0, w_SecretMaxLevel = lvl, w_Tags = []\<rparr>"

definition example_pool :: Orchestrator where
  "example_pool = \<lparr>og_cfg = \<lparr>o_Enabled = True, o_RouterModel = ''auto'', o_ConductorModel = [], o_ConfidenceThreshold = 0,
     o_MaxSteps = 3, o_CostPenalty = 0, o_RequestTimeoutMS = 1000, o_SecretLevelHeader = [],
     o_Workers = [pool_worker ''cloud'' 1, pool_worker ''local'' 0]\<rparr>, og_logger = False, og_metrics = False, og_allowDegraded = False\<rparr>"

definition example_codec :: orch_json where
  "example_codec = \<lparr>oj_request = (\<lambda>raw. Inr ([(''user'', raw)], \<lparr>gp_Temperature = None, gp_TopP = None, gp_MaxTokens = None\<rparr>)),
     oj_string = Some, oj_parts = (\<lambda>_. None), oj_encode = (\<lambda>_. []), oj_response = (\<lambda>_. Inl [])\<rparr>"

definition example_env :: "string \<Rightarrow> call_env" where
  "example_env = (\<lambda>_. \<lparr>ce_order = (\<lambda>_. id), ce_race = (\<lambda>_. id), ce_during = id, ce_answer = NoConnection ''refused'', ce_latency = 0\<rparr>)"

definition example_start :: orch_state where
  "example_start = \<lparr>os_store = (store_New [])\<lparr>s_backends := [(''b'', 0)],
     s_bheap := (\<lambda>_. zero_backend\<lparr>b_ID := ''b'', b_Enabled := True, b_Models := [''m-cloud'', ''m-local''], b_Weight := 1\<rparr>)\<rparr>,
     os_balancer = balancer_New, os_metrics = [], os_warnings = [], os_sent = []\<rparr>"

theorem verifier_is_another_worker_witness:
  "w_ID (selectVerifier (pool_worker ''cloud'' 1) [pool_worker ''cloud'' 1, pool_worker ''local'' 0]) \<noteq> ''cloud''"
proof -
  have "no_score < verify_score (pool_worker ''local'' 0)"
    by (simp add: no_score_def verify_score_def workerStrength_def pool_worker_def)
  from verifier_is_another_worker [THEN conjunct1, rule_format, OF _ _ this,
      of "[pool_worker ''cloud'' 1, pool_worker ''local'' 0]" "pool_worker ''cloud'' 1"]
  show ?thesis by (simp add: pool_worker_def)
qed

theorem orchestration_returns_slots_witness:
  "\<exists>r e st'. orch_Handle example_pool example_env example_codec ''auto'' ''hi'' 2 example_start = Some (r, e, st')
     \<and> (\<forall>p. in_flight st' p = 0)"
proof -
  have 1: "\<forall>w \<in> set (o_Workers (og_cfg example_pool)). no_score < workerStrength w"
    by (simp add: example_pool_def pool_worker_def workerStrength_def no_score_def)
  have 2: "\<forall>role. quiet (example_env role)" by (simp add: quiet_def example_env_def)
  have z: "in_flight example_start p = 0" for p
    by (simp add: in_flight_def example_start_def store_New_def zero_backend_def)
  then have 3: "in_bounds example_start" by (simp add: in_bounds_def)
  from orchestration_returns_slots [OF 1 2 3, of example_codec "''auto''" "''hi''" 2] z show ?thesis by auto
qed

theorem orchestrator_access_list_witness:
  "\<exists>r e st'. orch_Handle example_pool example_env example_codec ''auto'' ''hi'' 2 example_start = Some (r, e, st')
     \<and> length (os_sent st') \<le> 3 \<and> (\<forall>(w, p, rq) \<in> set (os_sent st'). w_ID w = ''local'')"
proof -
  have "\<forall>w \<in> set (o_Workers (og_cfg example_pool)). no_score < workerStrength w"
    by (simp add: example_pool_def pool_worker_def workerStrength_def no_score_def)
  from orch_Handle_total [OF this] obtain r e st' where
    h: "orch_Handle example_pool example_env example_codec ''auto'' ''hi'' 2 example_start = Some (r, e, st')" by metis
  obtain new where new: "os_sent st' = os_sent example_start @ new" "int (length new) \<le> min 4 (conductor_budget example_pool)"
    "\<forall>(w, p, rq) \<in> set new. w \<in> set (o_Workers (og_cfg example_pool)) \<and> (w_SecretMaxLevel w \<le> 0 \<or> 2 \<le> w_SecretMaxLevel w)"
    using orchestrator_access_list [OF h] by blast
  have "length (os_sent st') \<le> 3"
    using new(1,2) by (simp add: example_start_def conductor_budget_def example_pool_def)
  moreover have "\<forall>(w, p, rq) \<in> set (os_sent st'). w_ID w = ''local''"
    using new(1,3) by (fastforce simp: example_start_def example_pool_def pool_worker_def)
  ultimately show ?thesis using h by blast
qed

end
