(* ===== verification/Admission_Model.thy ===== *)
theory Admission_Model
  imports Orchestrator_Model Rate_Limit Quota_Model Queue_Model Log_Store
begin

text \<open>
  The state of the request handlers and admission control: \<^verbatim>\<open>internal/handlers/handlers.go\<close>
  (\<open>Handler\<close>, \<open>admit\<close> and the small helpers) with the blocking \<open>Acquire\<close> of
  \<^verbatim>\<open>internal/queue/queue.go\<close> as one call. The limiter is the in-process one; the Redis limiter
  answers alike. The closures that \<open>admit\<close> collects to undo its acquisitions are values of
  \<open>release\<close>. Metrics are the list of counter events.
\<close>

section \<open>The handler\<close>

datatype hmetric =
    RateLimitHits string string
  | QuotaHits string string
  | QueueDepth string int
  | ActiveInc string string
  | ActiveDec string string
  | TTFT string string
  | PromptTokens string string string int
  | CompletionTokens string string string int
  | TotalTokens string string string int
  | ReasoningTokens string string string int
  | BackendErrors string string
  | Timeouts string string
  | Requests "string list"
  | RequestLatency "string list"
  | OrchMetric metric

record Handler =
  hd_cfg :: Config
  hd_store :: Store
  hd_balancer :: Balancer
  hd_limiter :: Limiter
  hd_concurrency :: Concurrency
  hd_logstore :: "Memory option"
  hd_quota :: "quota_Manager option"
  hd_queue :: "queue_Manager option"
  hd_orchestrator :: "Orchestrator option"
  hd_metrics :: "hmetric list"

definition handler_New :: "Config \<Rightarrow> Store \<Rightarrow> Balancer \<Rightarrow> Limiter \<Rightarrow> Concurrency \<Rightarrow> Handler" where
  "handler_New cfg s b l c = \<lparr>hd_cfg = cfg, hd_store = s, hd_balancer = b, hd_limiter = l, hd_concurrency = c,
     hd_logstore = None, hd_quota = None, hd_queue = None, hd_orchestrator = None, hd_metrics = []\<rparr>"

definition WithLogStore :: "Memory \<Rightarrow> Handler \<Rightarrow> Handler" where
  "WithLogStore ls h = h\<lparr>hd_logstore := Some ls\<rparr>"

definition WithQuota :: "quota_Manager \<Rightarrow> Handler \<Rightarrow> Handler" where
  "WithQuota q h = h\<lparr>hd_quota := Some q\<rparr>"

definition WithQueue :: "queue_Manager \<Rightarrow> Handler \<Rightarrow> Handler" where
  "WithQueue q h = h\<lparr>hd_queue := Some q\<rparr>"

definition WithOrchestrator :: "Orchestrator \<Rightarrow> Handler \<Rightarrow> Handler" where
  "WithOrchestrator g h = h\<lparr>hd_orchestrator := Some g\<rparr>"

definition inc :: "hmetric \<Rightarrow> Handler \<Rightarrow> Handler" where
  "inc m h = h\<lparr>hd_metrics := hd_metrics h @ [m]\<rparr>"

definition the_key :: "Handler \<Rightarrow> addr option \<Rightarrow> APIKey option" where
  "the_key h kp = map_option (s_kheap (hd_store h)) kp"

definition apiKeyID :: "APIKey option \<Rightarrow> string" where
  "apiKeyID k = (case k of None \<Rightarrow> ''anonymous'' | Some k \<Rightarrow> k_ID k)"

definition isQuotaCode :: "string \<Rightarrow> bool" where
  "isQuotaCode code \<longleftrightarrow> code \<in> set [''daily_request_limit_exceeded'', ''daily_token_limit_exceeded'',
     ''daily_request_quota_exceeded'', ''daily_token_quota_exceeded'',
     ''monthly_request_quota_exceeded'', ''monthly_token_quota_exceeded'']"

section \<open>The queue as one call\<close>

text \<open>
  Which case of the \<open>select\<close> fires. A send can only fire when the semaphore has room, so the
  call times out when it never gets room.
\<close>

datatype select_case = SemSend | TimerFires | CtxDone

definition queue_put :: "string \<Rightarrow> queue_scope \<Rightarrow> queue_Manager \<Rightarrow> queue_Manager" where
  "queue_put scopeID s m = m\<lparr>qm_scopes := AList.update scopeID s (qm_scopes m)\<rparr>"

definition queue_Acquire :: "select_case \<Rightarrow> string \<Rightarrow> queue_Manager \<Rightarrow> queue_error option \<times> queue_Manager" where
  "queue_Acquire sel scopeID m =
     (let (s, m1) = queue_get scopeID m;
          (s1, queued) = queue_enter s;
          (err, s2) = (if queue_full s1 queued then (Some ErrFull, s1)
                       else (case sel of
                               SemSend \<Rightarrow> (case sem_send s1 of (s', True) \<Rightarrow> (None, s') | (s', False) \<Rightarrow> (Some ErrTimeout, s'))
                             | TimerFires \<Rightarrow> (Some ErrTimeout, s1)
                             | CtxDone \<Rightarrow> (Some ErrContext, s1)))
      in (err, queue_put scopeID (queue_leave s2) m1))"

definition queue_Release :: "string \<Rightarrow> queue_Manager \<Rightarrow> queue_Manager" where
  "queue_Release scopeID m =
     (case map_of (qm_scopes m) scopeID of
        None \<Rightarrow> m
      | Some s \<Rightarrow> queue_put scopeID (sem_receive s) m)"

section \<open>admit\<close>

datatype release = RelConc string int | RelQueue string

fun run_release :: "release \<Rightarrow> Handler \<Rightarrow> Handler" where
  "run_release (RelConc key limit) h = h\<lparr>hd_concurrency := conc_Release key limit (hd_concurrency h)\<rparr>"
| "run_release (RelQueue scope) h = h\<lparr>hd_queue := map_option (queue_Release scope) (hd_queue h)\<rparr>"

definition doRelease :: "release list \<Rightarrow> Handler \<Rightarrow> Handler" where
  "doRelease releases h = fold run_release (rev releases) h"

text \<open>The clock readings, whether the client leaves during the delay, and the queue's select.\<close>

record admit_env =
  an_time :: time
  an_now :: time
  an_canceled :: bool
  an_select :: select_case

definition admit_limits :: "Config \<Rightarrow> APIKey \<Rightarrow> int \<times> int \<times> int \<times> int" where
  "admit_limits cfg k =
     (let rpm0 = rl_DefaultRequestsPerMinute (c_RateLimit cfg);
          (rpm, tpm, dayReq0, dayTok0) =
            (case k_RateLimit k of
               Some r \<Rightarrow>
                 if krl_Enabled r then
                   (if 0 < krl_RequestsPerMinute r then krl_RequestsPerMinute r else rpm0, krl_TokensPerMinute r,
                    if 0 < krl_RequestsPerDay r then krl_RequestsPerDay r else 0,
                    if 0 < krl_TokensPerDay r then krl_TokensPerDay r else 0)
                 else (rpm0, 0, 0, 0)
             | None \<Rightarrow> (rpm0, 0, 0, 0));
          (dayReq, dayTok) =
            (case k_Quota k of
               Some q \<Rightarrow> (if 0 < kq_DailyRequests q then kq_DailyRequests q else dayReq0,
                          if 0 < kq_DailyTokens q then kq_DailyTokens q else dayTok0)
             | None \<Rightarrow> (dayReq0, dayTok0))
      in (rpm, tpm, dayReq, dayTok))"

definition conc_limit :: "APIKey \<Rightarrow> int" where
  "conc_limit k = (case k_RateLimit k of Some r \<Rightarrow> krl_ConcurrentRequests r | None \<Rightarrow> 0)"

type_synonym admission = "release list \<times> string \<times> int"

definition reject :: "release list \<Rightarrow> string \<Rightarrow> int \<Rightarrow> Handler \<Rightarrow> admission \<times> Handler" where
  "reject releases code status h = (([], code, status), doRelease releases h)"

text \<open>Steps 5 and 6: the queue of the model and the request count of the monthly quota.\<close>

definition admit_account :: "admit_env \<Rightarrow> APIKey option \<Rightarrow> release list \<Rightarrow> Handler \<Rightarrow> admission \<times> Handler" where
  "admit_account e k releases h =
     ((releases, [], 0),
      case (hd_quota h, k) of
        (Some q, Some key) \<Rightarrow> h\<lparr>hd_quota := Some (AddRequest (an_now e) (k_ID key) q)\<rparr>
      | _ \<Rightarrow> h)"

definition admit_queue :: "admit_env \<Rightarrow> APIKey option \<Rightarrow> string \<Rightarrow> release list \<Rightarrow> Handler \<Rightarrow> admission \<times> Handler" where
  "admit_queue e k internalModel releases h =
     (case hd_queue h of
        Some m \<Rightarrow>
          if qc_Enabled (c_Queue (hd_cfg h)) then
            let scope = ''model:'' @ internalModel; (err, m1) = queue_Acquire (an_select e) scope m;
                h1 = h\<lparr>hd_queue := Some m1\<rparr>
            in case err of
                 Some x \<Rightarrow>
                   let c = (if x = ErrFull then ''queue_full'' else ''queue_timeout'')
                   in reject releases c 429 (inc (RateLimitHits (apiKeyID k) c) h1)
               | None \<Rightarrow>
                   admit_account e k (releases @ [RelQueue scope]) (inc (QueueDepth scope (Depth scope m1)) h1)
          else admit_account e k releases h
      | None \<Rightarrow> admit_account e k releases h)"

text \<open>Steps 3 and 4: concurrency and delay.\<close>

definition admit_conc :: "admit_env \<Rightarrow> APIKey \<Rightarrow> string \<Rightarrow> Handler \<Rightarrow> admission \<times> Handler" where
  "admit_conc e k internalModel h =
     (let key = ''key:'' @ k_ID k; concLimit = conc_limit k in
      case conc_Acquire key concLimit (hd_concurrency h) of
        (c, False) \<Rightarrow>
          reject [] ''concurrent_limit'' 429 (inc (RateLimitHits (k_ID k) ''concurrent_limit'') (h\<lparr>hd_concurrency := c\<rparr>))
      | (c, True) \<Rightarrow>
          let h1 = h\<lparr>hd_concurrency := c\<rparr>; releases = [RelConc key concLimit] in
          if 0 < k_DelayMS k \<and> an_canceled e then reject releases ''client_canceled'' 499 h1
          else admit_queue e (Some k) internalModel releases h1)"

text \<open>Steps 1 and 2: rates and quotas.\<close>

definition admit_quota :: "admit_env \<Rightarrow> APIKey \<Rightarrow> string \<Rightarrow> Handler \<Rightarrow> admission \<times> Handler" where
  "admit_quota e k internalModel h =
     (case (hd_quota h, k_Quota k) of
        (Some q, Some kq) \<Rightarrow>
          (case quota_Check (an_now e) (k_ID k) 0 0 (kq_MonthlyRequests kq) (kq_MonthlyTokens kq) q of
             (r, q1) \<Rightarrow>
               let h1 = h\<lparr>hd_quota := Some q1\<rparr> in
               if r \<noteq> [] then reject [] r 429 (inc (QuotaHits (k_ID k) r) h1) else admit_conc e k internalModel h1)
      | _ \<Rightarrow> admit_conc e k internalModel h)"

definition admit :: "admit_env \<Rightarrow> addr option \<Rightarrow> string \<Rightarrow> Handler \<Rightarrow> admission \<times> Handler" where
  "admit e kp internalModel h =
     (case the_key h kp of
        None \<Rightarrow> admit_queue e None internalModel [] h
      | Some k \<Rightarrow>
          (case admit_limits (hd_cfg h) k of
             (rpm, tpm, dayReq, dayTok) \<Rightarrow>
               (case CheckAndReserve (an_time e) (an_now e) (''key:'' @ k_ID k) rpm tpm dayReq dayTok (hd_limiter h) of
                  (r, l) \<Rightarrow>
                    let h1 = h\<lparr>hd_limiter := l\<rparr> in
                    if r \<noteq> [] then
                      reject [] r 429 (inc (if isQuotaCode r then QuotaHits (k_ID k) r else RateLimitHits (k_ID k) r) h1)
                    else admit_quota e k internalModel h1)))"

section \<open>What a request holds\<close>

definition sem_of :: "queue_Manager option \<Rightarrow> string \<Rightarrow> int" where
  "sem_of q scope = (case q of None \<Rightarrow> 0 | Some m \<Rightarrow>
     (case map_of (qm_scopes m) scope of None \<Rightarrow> 0 | Some s \<Rightarrow> qs_sem s))"

definition waiting_of :: "queue_Manager option \<Rightarrow> string \<Rightarrow> int" where
  "waiting_of q scope = (case q of None \<Rightarrow> 0 | Some m \<Rightarrow> Depth scope m)"

text \<open>The shared counters: concurrency per key, semaphore and queue length per model.\<close>

definition held :: "Handler \<Rightarrow> (string \<Rightarrow> int) \<times> (string \<Rightarrow> int) \<times> (string \<Rightarrow> int)" where
  "held h = ((\<lambda>key. conc_Get key (hd_concurrency h)), sem_of (hd_queue h), waiting_of (hd_queue h))"

definition queue_ok :: "queue_Manager option \<Rightarrow> bool" where
  "queue_ok q \<longleftrightarrow> (\<forall>scope. 0 \<le> sem_of q scope \<and> 0 \<le> waiting_of q scope \<and> waiting_of q scope < max_int64)"

definition counters_ok :: "Handler \<Rightarrow> bool" where
  "counters_ok h \<longleftrightarrow>
     (\<forall>key. 0 \<le> conc_Get key (hd_concurrency h) \<and> conc_Get key (hd_concurrency h) < max_int64)
   \<and> queue_ok (hd_queue h)"

lemma held_frame [simp]:
  "held (inc m h) = held h" "held (h\<lparr>hd_limiter := l\<rparr>) = held h" "held (h\<lparr>hd_quota := q\<rparr>) = held h"
  "held (h\<lparr>hd_store := s\<rparr>) = held h" "held (h\<lparr>hd_balancer := b\<rparr>) = held h" "held (h\<lparr>hd_logstore := ls\<rparr>) = held h"
  by (simp_all add: held_def inc_def)

lemma counters_frame [simp]:
  "counters_ok (inc m h) = counters_ok h" "counters_ok (h\<lparr>hd_limiter := l\<rparr>) = counters_ok h"
  "counters_ok (h\<lparr>hd_quota := q\<rparr>) = counters_ok h"
  by (simp_all add: counters_ok_def inc_def)

lemma conc_Release_Get:
  "0 \<le> conc_Get key c \<Longrightarrow> conc_Get key c \<le> max_int64 \<Longrightarrow>
     conc_Get k (conc_Release key limit c) =
       (if 0 < limit \<and> k = key \<and> 0 < conc_Get key c then conc_Get k c - 1 else conc_Get k c)"
  by (auto simp: conc_Release_def Let_def sub64_id)

lemma conc_Acquire_Get:
  "conc_Acquire key limit c = (c', ok) \<Longrightarrow> 0 \<le> conc_Get key c \<Longrightarrow> conc_Get key c < max_int64 \<Longrightarrow>
     (\<forall>k. conc_Get k c' = (if ok \<and> 0 < limit \<and> k = key then conc_Get k c + 1 else conc_Get k c))
   \<and> (ok \<longleftrightarrow> limit \<le> 0 \<or> conc_Get key c < limit)"
  by (auto simp: conc_Acquire_def add64_id split: if_splits)

lemma queue_get_put:
  "queue_get scope m = (s, m1) \<Longrightarrow>
     sem_of (Some (queue_put scope s' m1)) x = (if x = scope then qs_sem s' else sem_of (Some m) x)
   \<and> waiting_of (Some (queue_put scope s' m1)) x = (if x = scope then qs_queued s' else waiting_of (Some m) x)
   \<and> qs_sem s = sem_of (Some m) scope \<and> qs_queued s = waiting_of (Some m) scope"
  by (auto simp: queue_get_def queue_put_def sem_of_def waiting_of_def Depth_def Let_def split: option.splits)

lemma queue_Acquire_held:
  assumes "queue_Acquire sel scope m = (err, m1)"
    and "0 \<le> waiting_of (Some m) scope" and "waiting_of (Some m) scope < max_int64"
  shows "sem_of (Some m1) x = sem_of (Some m) x + of_bool (err = None \<and> x = scope)"
    and "waiting_of (Some m1) x = waiting_of (Some m) x"
proof -
  obtain s m0 where g: "queue_get scope m = (s, m0)" by (cases "queue_get scope m")
  note G = queue_get_put [OF g]
  have q: "add64 (add64 (qs_queued s) 1) (- 1) = qs_queued s"
    using assms(2,3) G [of s x] by (simp add: add64_id)
  obtain s2 where s2: "m1 = queue_put scope (queue_leave s2) m0"
    "qs_queued s2 = add64 (qs_queued s) 1" "qs_sem s2 = qs_sem s + of_bool (err = None)"
    using assms(1) unfolding queue_Acquire_def g queue_enter_def Let_def
    by (cases sel) (auto simp: sem_send_def split: if_splits)
  show "sem_of (Some m1) x = sem_of (Some m) x + of_bool (err = None \<and> x = scope)"
    unfolding s2(1) using G [of "queue_leave s2" x] s2(3) by (auto simp: queue_leave_def)
  show "waiting_of (Some m1) x = waiting_of (Some m) x"
    unfolding s2(1) using G [of "queue_leave s2" x] s2(2) q by (auto simp: queue_leave_def)
qed

lemma queue_Release_held:
  "0 < sem_of (Some m) scope \<Longrightarrow> sem_of (Some (queue_Release scope m)) x = sem_of (Some m) x - of_bool (x = scope)"
  "waiting_of (Some (queue_Release scope m)) x = waiting_of (Some m) x"
  by (auto simp: queue_Release_def queue_put_def sem_receive_def sem_of_def waiting_of_def Depth_def split: option.splits)

text \<open>Undoing a concurrency slot depends only on the counters.\<close>

lemma RelConc_held:
  assumes "counters_ok h" and "held h' = held h"
  shows "held (run_release (RelConc key limit) h') = held (run_release (RelConc key limit) h)"
proof -
  have eq: "conc_Get k (hd_concurrency h') = conc_Get k (hd_concurrency h)" for k
    using assms(2) by (simp add: held_def fun_eq_iff)
  have "0 \<le> conc_Get key (hd_concurrency h)" "conc_Get key (hd_concurrency h) \<le> max_int64"
    using assms(1) by (simp_all add: counters_ok_def less_imp_le)
  then have "conc_Get k (conc_Release key limit (hd_concurrency h')) = conc_Get k (conc_Release key limit (hd_concurrency h))" for k
    by (simp add: conc_Release_Get eq)
  then show ?thesis using assms(2) by (simp add: held_def fun_eq_iff)
qed

lemma doRelease_append: "doRelease (xs @ ys) h = doRelease xs (doRelease ys h)"
  by (simp add: doRelease_def)

lemma doRelease_simps [simp]: "doRelease [] h = h" "doRelease (x # ys) h = run_release x (doRelease ys h)"
  by (simp_all add: doRelease_def)

lemma admit_account_facts:
  "admit_account e k rs h = ((rel, code, status), h') \<Longrightarrow>
     rel = rs \<and> code = [] \<and> hd_concurrency h' = hd_concurrency h \<and> hd_queue h' = hd_queue h"
  by (auto simp: admit_account_def split: option.splits)

text \<open>The queue step: rejected, it undoes what was acquired before; admitted, it adds at most its token.\<close>

lemma admit_queue_facts:
  assumes adm: "admit_queue e k model rs h = ((rel, code, status), h')" and ok: "queue_ok (hd_queue h)"
  shows "(code \<noteq> [] \<longrightarrow> rel = [] \<and> status = 429 \<and> (\<exists>h1. h' = doRelease rs h1 \<and> held h1 = held h))
    \<and> (code = [] \<longrightarrow> hd_concurrency h' = hd_concurrency h \<and> (\<exists>rel1. rel = rs @ rel1 \<and> held (doRelease rel1 h') = held h))"
proof (cases "\<exists>m. hd_queue h = Some m \<and> qc_Enabled (c_Queue (hd_cfg h))")
  case False
  then have "admit_account e k rs h = ((rel, code, status), h')"
    using adm by (auto simp: admit_queue_def split: option.splits)
  from admit_account_facts [OF this] show ?thesis by (auto simp: held_def)
next
  case True
  then obtain m where m: "hd_queue h = Some m" "qc_Enabled (c_Queue (hd_cfg h))" by blast
  define sc where "sc = ''model:'' @ model"
  obtain err m1 where a: "queue_Acquire (an_select e) sc m = (err, m1)" by (cases "queue_Acquire (an_select e) sc m")
  have b: "0 \<le> waiting_of (Some m) sc" "waiting_of (Some m) sc < max_int64" "0 \<le> sem_of (Some m) sc"
    using ok m(1) by (auto simp: queue_ok_def)
  note q = queue_Acquire_held [OF a b(1,2)]
  note A = adm [unfolded admit_queue_def m option.case if_True Let_def sc_def [symmetric] a prod.case]
  show ?thesis
  proof (cases err)
    case (Some x)
    have "held (h\<lparr>hd_queue := Some m1\<rparr>) = held h" using q Some m(1) by (auto simp: held_def fun_eq_iff)
    moreover have "h' = doRelease rs (inc (RateLimitHits (apiKeyID k) code) (h\<lparr>hd_queue := Some m1\<rparr>))"
      "rel = []" "status = 429" "code \<noteq> []"
      using A Some m(2) by (auto simp: reject_def split: if_splits)
    ultimately show ?thesis using held_frame(1) by metis
  next
    case None
    have acc: "rel = rs @ [RelQueue sc]" "code = []" "hd_concurrency h' = hd_concurrency h" "hd_queue h' = Some m1"
      using A None m(2) by (auto dest!: admit_account_facts simp: inc_def)
    have "0 < sem_of (Some m1) sc" using q(1) [of sc] None b(3) by simp
    then have "held (run_release (RelQueue sc) h') = held h"
      using acc(3,4) q None m(1) by (auto simp: held_def fun_eq_iff queue_Release_held)
    with acc show ?thesis by (auto intro!: exI [of _ "[RelQueue sc]"])
  qed
qed

lemma admit_conc_facts:
  assumes adm: "admit_conc e k model h = ((rel, code, status), h')" and ok: "counters_ok h"
  shows "(code \<noteq> [] \<longrightarrow> rel = [] \<and> status \<in> {429, 499} \<and> held h' = held h)
    \<and> (code = [] \<longrightarrow> held (doRelease rel h') = held h
        \<and> (0 < conc_limit k \<longrightarrow> conc_Get (''key:'' @ k_ID k) (hd_concurrency h') \<le> conc_limit k))"
proof -
  define key where "key = ''key:'' @ k_ID k"
  define limit where "limit = conc_limit k"
  obtain c got where a: "conc_Acquire key limit (hd_concurrency h) = (c, got)"
    by (cases "conc_Acquire key limit (hd_concurrency h)")
  have b: "0 \<le> conc_Get key (hd_concurrency h)" "conc_Get key (hd_concurrency h) < max_int64"
    using ok by (auto simp: counters_ok_def)
  note C = conc_Acquire_Get [OF a b]
  note A = adm [unfolded admit_conc_def Let_def key_def [symmetric] limit_def [symmetric] a prod.case]
  show ?thesis
  proof (cases got)
    case False
    then have "held (h\<lparr>hd_concurrency := c\<rparr>) = held h" using C by (auto simp: held_def)
    with A False show ?thesis by (auto simp: reject_def)
  next
    case True
    define h1 where "h1 = h\<lparr>hd_concurrency := c\<rparr>"
    have get: "conc_Get x (hd_concurrency h1) = conc_Get x (hd_concurrency h) + of_bool (0 < limit \<and> x = key)" for x
      using C True by (simp add: h1_def)
    have bound: "conc_Get key (hd_concurrency h1) \<le> limit" if "0 < limit" using C True that by (simp add: h1_def)
    have undo: "held (run_release (RelConc key limit) h2) = held h" if h2: "held h2 = held h1" for h2
    proof -
      have e: "conc_Get x (hd_concurrency h2) = conc_Get x (hd_concurrency h1)" for x
        using h2 by (simp add: held_def fun_eq_iff)
      have "conc_Get x (conc_Release key limit (hd_concurrency h2)) = conc_Get x (hd_concurrency h)" for x
        using b by (subst conc_Release_Get) (auto simp: e get)
      then show ?thesis using h2 by (simp add: held_def fun_eq_iff h1_def)
    qed
    show ?thesis
    proof (cases "0 < k_DelayMS k \<and> an_canceled e")
      case True
      with A \<open>got\<close> undo [OF refl] show ?thesis by (auto simp: reject_def h1_def)
    next
      case False
      with A \<open>got\<close> have Q: "admit_queue e (Some k) model [RelConc key limit] h1 = ((rel, code, status), h')"
        by (auto simp: h1_def)
      have "queue_ok (hd_queue h1)" using ok by (simp add: counters_ok_def h1_def)
      from admit_queue_facts [OF Q this] undo bound show ?thesis
        by (auto simp: doRelease_append key_def limit_def)
    qed
  qed
qed

lemma admit_quota_facts:
  assumes "admit_quota e k model h = ((rel, code, status), h')" and ok: "counters_ok h"
  shows "(code \<noteq> [] \<longrightarrow> rel = [] \<and> status \<in> {429, 499} \<and> held h' = held h)
    \<and> (code = [] \<longrightarrow> held (doRelease rel h') = held h
        \<and> (0 < conc_limit k \<longrightarrow> conc_Get (''key:'' @ k_ID k) (hd_concurrency h') \<le> conc_limit k))"
proof (cases "admit_conc e k model h = ((rel, code, status), h')")
  case True
  then show ?thesis by (rule admit_conc_facts [OF _ ok])
next
  case False
  with assms(1) obtain q1 where
    "code \<noteq> [] \<and> rel = [] \<and> status = 429 \<and> h' = inc (QuotaHits (k_ID k) code) (h\<lparr>hd_quota := Some q1\<rparr>)
     \<or> admit_conc e k model (h\<lparr>hd_quota := Some q1\<rparr>) = ((rel, code, status), h')"
    by (auto simp: admit_quota_def reject_def Let_def split: option.splits prod.splits if_splits)
  then show ?thesis
  proof
    assume "admit_conc e k model (h\<lparr>hd_quota := Some q1\<rparr>) = ((rel, code, status), h')"
    from admit_conc_facts [OF this] ok show ?thesis by simp
  qed simp
qed

lemma admit_facts:
  assumes "admit e kp model h = ((rel, code, status), h')" and "counters_ok h"
  shows "(code \<noteq> [] \<longrightarrow> rel = [] \<and> status \<in> {429, 499} \<and> held h' = held h)
    \<and> (code = [] \<longrightarrow> held (doRelease rel h') = held h
        \<and> (\<forall>k. the_key h kp = Some k \<longrightarrow> 0 < conc_limit k \<longrightarrow>
             conc_Get (''key:'' @ k_ID k) (hd_concurrency h') \<le> conc_limit k))"
proof (cases "the_key h kp")
  case None
  then have Q: "admit_queue e None model [] h = ((rel, code, status), h')" using assms(1) by (simp add: admit_def)
  have "queue_ok (hd_queue h)" using assms(2) by (simp add: counters_ok_def)
  from admit_queue_facts [OF Q this] None show ?thesis by auto
next
  case (Some k)
  obtain rpm tpm dr dt where lim: "admit_limits (hd_cfg h) k = (rpm, tpm, dr, dt)" by (metis prod_cases4)
  obtain r l where c: "CheckAndReserve (an_time e) (an_now e) (''key:'' @ k_ID k) rpm tpm dr dt (hd_limiter h) = (r, l)"
    by (metis prod.exhaust)
  note A = assms(1) [unfolded admit_def Some option.case lim prod.case c Let_def]
  show ?thesis
  proof (cases "r = []")
    case True
    with A have "admit_quota e k model (h\<lparr>hd_limiter := l\<rparr>) = ((rel, code, status), h')" by simp
    from admit_quota_facts [OF this] assms(2) Some show ?thesis by simp
  next
    case False
    with A show ?thesis by (auto simp: reject_def)
  qed
qed

text \<open>
  C10. Admission is all or nothing on the shared counters: a rejected request answers 429 or 499
  and leaves the concurrency count of every key and the semaphore and queue length of every
  model as they were; an admitted request holds at most the concurrency limit of its key, and
  the release function it is given restores all counters.
\<close>

theorem admit_all_or_nothing:
  assumes "admit e kp model h = ((rel, code, status), h')" and "counters_ok h"
  shows "(code \<noteq> [] \<longrightarrow> rel = [] \<and> status \<in> {429, 499} \<and> held h' = held h)
    \<and> (code = [] \<longrightarrow> held (doRelease rel h') = held h
        \<and> (\<forall>k. the_key h kp = Some k \<longrightarrow> 0 < conc_limit k \<longrightarrow>
             conc_Get (''key:'' @ k_ID k) (hd_concurrency h') \<le> conc_limit k))"
  using assms by (rule admit_facts)

definition example_key :: APIKey where
  "example_key = zero_key\<lparr>k_ID := ''k'', k_Enabled := True, k_RateLimit := Some \<lparr>krl_Enabled = False, krl_RequestsPerMinute = 0,
     krl_TokensPerMinute = 0, krl_RequestsPerDay = 0, krl_TokensPerDay = 0, krl_ConcurrentRequests = 1\<rparr>\<rparr>"

definition example_gateway :: "Concurrency \<Rightarrow> Handler" where
  "example_gateway c = handler_New (Default\<lparr>c_Queue := \<lparr>qc_Enabled = True, qc_MaxQueueSize = 0, qc_QueueTimeoutMS = 0, qc_PerModelLimit = 0\<rparr>\<rparr>)
     ((store_New [])\<lparr>s_kheap := (\<lambda>_. example_key)\<rparr>) balancer_New limiter_New c"

definition example_admit :: admit_env where
  "example_admit = \<lparr>an_time = 0, an_now = 0, an_canceled = False, an_select = SemSend\<rparr>"

lemma fresh_reserve:
  assumes "map_of l key = None"
  shows "fst (CheckAndReserve now0 now key rpm 0 0 0 l) = []"
proof -
  have "rb_count (rl_rollLocked now b) = 0" if "rb_count b = 0" for b
    using that by (simp add: rl_rollLocked_def Let_def)
  with assms show ?thesis by (auto simp: CheckAndReserve_sections reserve_locked_def new_bucket_def rl_get_def Let_def)
qed

theorem admit_all_or_nothing_witness:
  "\<exists>h'. admit example_admit (Some 0) ''m'' (example_gateway [(''key:k'', 1)]) = (([], ''concurrent_limit'', 429), h')
     \<and> held h' = held (example_gateway [(''key:k'', 1)])"
proof -
  let ?h = "example_gateway [(''key:k'', 1)]"
  obtain l where l: "CheckAndReserve 0 0 ''key:k'' 60 0 0 0 limiter_New = ([], l)"
    using fresh_reserve [of limiter_New "''key:k''" 0 0 60] by (metis limiter_New_def map_of.simps(1) prod.exhaust_sel)
  have lim: "admit_limits (hd_cfg ?h) example_key = (60, 0, 0, 0)"
    by (simp add: admit_limits_def example_key_def zero_key_def example_gateway_def handler_New_def Default_def)
  have k: "the_key ?h (Some 0) = Some example_key" "k_ID example_key = ''k''" "conc_limit example_key = 1" "k_Quota example_key = None"
    by (simp_all add: the_key_def example_gateway_def handler_New_def example_key_def conc_limit_def zero_key_def)
  have h: "hd_limiter ?h = limiter_New" "hd_concurrency ?h = [(''key:k'', 1)]" "hd_quota ?h = None"
    by (simp_all add: example_gateway_def handler_New_def)
  obtain h' where a: "admit example_admit (Some 0) ''m'' ?h = (([], ''concurrent_limit'', 429), h')"
    by (simp add: admit_def k lim h l example_admit_def admit_quota_def admit_conc_def conc_Acquire_def conc_Get_def reject_def Let_def)
  have "counters_ok ?h"
    by (simp add: counters_ok_def queue_ok_def sem_of_def waiting_of_def example_gateway_def handler_New_def conc_Get_def)
  from admit_all_or_nothing [OF a this] a show ?thesis by simp
qed

end
