(* ===== verification/Handler_Model.thy ===== *)
theory Handler_Model
  imports Admission_Model Capability_Model "HOL-Library.List_Lexorder" "HOL-Library.Char_ord"
begin

text \<open>
  The request handlers, \<^verbatim>\<open>internal/handlers/handlers.go\<close>: the catalog (\<open>ListModels\<close>) and the
  way of a JSON request through decoding, permission, capability and registry checks, admission,
  routing, the proxy and the accounting of its outcome (\<open>Forward\<close>). The JSON decoder is an
  argument (\<open>handler_json\<close>), and so is the environment of one request (\<open>fwd_env\<close>): clock
  readings, map orders, random numbers, what other requests do to the store at the points where
  they can interfere, and the answer of the backend. The record appended by \<open>recordLog\<close> in a
  goroutine of its own is appended at once. Trace spans and the text log are not modelled.
\<close>

section \<open>Requests and their environment\<close>

record handler_json =
  hj_peek :: "string \<Rightarrow> (string, string \<times> bool option \<times> int option) sum"
  hj_max :: "string \<Rightarrow> (int option \<times> int option) option"
  hj_object :: "string \<Rightarrow> string gomap option"
  hj_quote :: "string \<Rightarrow> string option"
  hj_emit :: "string gomap \<Rightarrow> string option"
  hj_caps :: json_ops
  hj_usage :: "string \<Rightarrow> Usage_block option"
  hj_orch :: orch_json

datatype body_read = Body string | BodyError string

record http_in =
  hi_path :: string
  hi_header :: http_Header
  hi_body :: body_read
  hi_key :: "addr option"
  hi_clientIP :: string

record exchange =
  ex_up :: upstream
  ex_turns :: "turn list"
  ex_reads :: "(string \<times> slice_end) list"

record fwd_env =
  fe_requestID :: string
  fe_logID :: string
  fe_now :: time
  fe_latency :: int
  fe_admit :: admit_env
  fe_order :: order
  fe_rnd :: "nat \<Rightarrow> nat"
  fe_race :: "nat \<Rightarrow> Store \<Rightarrow> Store"
  fe_during :: "Store \<Rightarrow> Store"
  fe_exchange :: exchange
  fe_ttft :: int
  fe_orch :: "string \<Rightarrow> call_env"

text \<open>What the client gets.\<close>

datatype answer =
    AnsError int APIError
  | AnsBody int http_Header string
  | AnsStream int http_Header string
  | AnsChat Result
  | AnsNone

section \<open>Small helpers\<close>

definition shouldLog :: "Config \<Rightarrow> APIKey option \<Rightarrow> string \<Rightarrow> bool" where
  "shouldLog cfg k field =
     (let lg = c_Logging cfg;
          def = (if field = ''log_metadata'' then lg_DefaultLogMetadata lg
                 else if field = ''log_input'' then lg_DefaultLogInput lg
                 else if field = ''log_output'' then lg_DefaultLogOutput lg
                 else if field = ''log_raw_request'' then lg_DefaultLogRawRequest lg
                 else if field = ''log_raw_response'' then lg_DefaultLogRawResponse lg
                 else if field = ''log_stream_chunks'' then lg_DefaultLogStreamChunks lg
                 else False)
      in case Option.bind k k_Logging of
           None \<Rightarrow> def
         | Some kl \<Rightarrow>
             (if field = ''log_metadata'' then kl_LogMetadata kl
              else if field = ''log_input'' then kl_LogInput kl
              else if field = ''log_output'' then kl_LogOutput kl
              else if field = ''log_raw_request'' then kl_LogRawRequest kl
              else if field = ''log_raw_response'' then kl_LogRawResponse kl
              else if field = ''log_stream_chunks'' then kl_LogStreamChunks kl
              else def))"

definition rawForLog :: "Config \<Rightarrow> APIKey option \<Rightarrow> string \<Rightarrow> string" where
  "rawForLog cfg k raw = (if \<not> shouldLog cfg k ''log_raw_request'' then [] else raw)"

definition statusCodeLabel :: "int \<Rightarrow> string" where
  "statusCodeLabel code = (if code \<le> 0 then ''unknown'' else Itoa code)"

definition boolLabel :: "bool \<Rightarrow> string" where
  "boolLabel b = (if b then ''true'' else ''false'')"

definition errorCodeFromForward :: "string option \<Rightarrow> int \<Rightarrow> string" where
  "errorCodeFromForward err statusCode =
     (if err \<noteq> None \<and> statusCode = 0 then ''forward_error''
      else if 400 \<le> statusCode then statusCodeLabel statusCode
      else [])"

definition estimateTokens :: "string \<Rightarrow> int \<Rightarrow> int" where
  "estimateTokens rawReq maxTokensFromBody =
     (let approx0 = int (length rawReq) div 4;
          approx = (if approx0 < 1 then 1 else approx0)
      in if 0 < maxTokensFromBody then add64 approx maxTokensFromBody else add64 approx 256)"

definition extractMaxTokens :: "handler_json \<Rightarrow> string \<Rightarrow> int" where
  "extractMaxTokens js raw =
     (case hj_max js raw of
        None \<Rightarrow> 0
      | Some (maxTokens, maxCompletionTokens) \<Rightarrow>
          (case maxCompletionTokens of
             Some n \<Rightarrow> if 0 < n then n else (case maxTokens of Some m \<Rightarrow> if 0 < m then m else 0 | None \<Rightarrow> 0)
           | None \<Rightarrow> (case maxTokens of Some m \<Rightarrow> if 0 < m then m else 0 | None \<Rightarrow> 0)))"

definition rewriteModelInBody :: "handler_json \<Rightarrow> string \<Rightarrow> string \<Rightarrow> string" where
  "rewriteModelInBody js raw newModel =
     (case hj_object js raw of
        None \<Rightarrow> raw
      | Some generic \<Rightarrow>
          (case hj_quote js newModel of
             None \<Rightarrow> raw
           | Some enc \<Rightarrow>
               (case hj_emit js (AList.update ''model'' enc generic) of None \<Rightarrow> raw | Some out \<Rightarrow> out)))"

definition filterRoutable :: "(addr \<Rightarrow> Backend) \<Rightarrow> addr list \<Rightarrow> bool \<Rightarrow> addr list" where
  "filterRoutable heap ps allowDegraded = FilterRoutable heap allowDegraded ps"

section \<open>Accounting\<close>

definition recordLog ::
    "fwd_env \<Rightarrow> APIKey option \<Rightarrow> string \<Rightarrow> string \<Rightarrow> string \<Rightarrow> string \<Rightarrow> string \<Rightarrow> bool \<Rightarrow> int \<Rightarrow> string \<Rightarrow>
     Usage_block option \<Rightarrow> int \<Rightarrow> string \<Rightarrow> string \<Rightarrow> Handler \<Rightarrow> Handler" where
  "recordLog e k clientIP model internalModel backendID endpoint stream statusCode errorCode usage ttftMS rawReq rawResp h =
     (case hd_logstore h of
        None \<Rightarrow> h
      | Some ls \<Rightarrow>
          let u = (case usage of Some u \<Rightarrow> u | None \<Rightarrow> zero_usage);
              rec = \<lparr>lr_ID = fe_logID e, lr_RequestID = fe_requestID e,
                     lr_APIKeyID = (case k of Some k \<Rightarrow> k_ID k | None \<Rightarrow> []),
                     lr_APIKeyName = (case k of Some k \<Rightarrow> k_Name k | None \<Rightarrow> []),
                     lr_ClientIP = clientIP, lr_Model = model, lr_InternalModel = internalModel,
                     lr_BackendID = backendID, lr_Endpoint = endpoint, lr_Stream = stream,
                     lr_StatusCode = statusCode, lr_ErrorCode = errorCode,
                     lr_PromptTokens = us_PromptTokens u, lr_CompletionTokens = us_CompletionTokens u,
                     lr_TotalTokens = us_TotalTokens u, lr_ReasoningTokens = us_ReasoningTokens u,
                     lr_LatencyMS = fe_latency e, lr_TTFTMS = ttftMS, lr_RawRequest = rawReq,
                     lr_RawResponse = rawResp, lr_Metadata = [], lr_CreatedAt = fe_now e\<rparr>
          in h\<lparr>hd_logstore := Some (AppendRequest rec ls)\<rparr>)"

definition inc_if :: "bool \<Rightarrow> hmetric \<Rightarrow> Handler \<Rightarrow> Handler" where
  "inc_if b m h = (if b then inc m h else h)"

definition recordUsage :: "fwd_env \<Rightarrow> Usage_block \<Rightarrow> string \<Rightarrow> string \<Rightarrow> string \<Rightarrow> addr option \<Rightarrow> Handler \<Rightarrow> Handler" where
  "recordUsage e u model backendID apiKeyLabel kp h =
     (let h1 = inc_if (0 < us_PromptTokens u) (PromptTokens model backendID apiKeyLabel (us_PromptTokens u)) h;
          h2 = inc_if (0 < us_CompletionTokens u) (CompletionTokens model backendID apiKeyLabel (us_CompletionTokens u)) h1;
          h3 = inc_if (0 < us_TotalTokens u) (TotalTokens model backendID apiKeyLabel (us_TotalTokens u)) h2;
          h4 = inc_if (0 < us_ReasoningTokens u) (ReasoningTokens model backendID apiKeyLabel (us_ReasoningTokens u)) h3;
          h5 = (case kp of
                  None \<Rightarrow> h4
                | Some p \<Rightarrow>
                    h4\<lparr>hd_store := upd_key p (key_AddTokens (fe_now e) (us_TotalTokens u)) (hd_store h4),
                       hd_limiter := rl_AddTokens (fe_now e) (fe_now e) (''key:'' @ k_ID (s_kheap (hd_store h4) p))
                         (us_TotalTokens u) (hd_limiter h4)\<rparr>)
      in if 0 < us_TotalTokens u
         then h5\<lparr>hd_quota := map_option (quota_AddTokens (fe_now e) apiKeyLabel (us_TotalTokens u)) (hd_quota h5)\<rparr>
         else h5)"

definition touch_key :: "fwd_env \<Rightarrow> addr option \<Rightarrow> Handler \<Rightarrow> Handler" where
  "touch_key e kp h =
     (case kp of None \<Rightarrow> h | Some p \<Rightarrow> h\<lparr>hd_store := upd_key p (TouchRequest (fe_now e)) (hd_store h)\<rparr>)"

section \<open>ListModels\<close>

record modelEntry =
  me_ID :: string
  me_Object :: string
  me_Created :: int
  me_OwnedBy :: string

definition addResolved :: "APIKey option \<Rightarrow> int \<Rightarrow> string \<times> string \<Rightarrow> modelEntry list \<Rightarrow> modelEntry list" where
  "addResolved k now = (\<lambda>(name, internal) out.
     (if name = [] then out
      else if name \<in> set (map me_ID out) then out
      else if (case k of Some k \<Rightarrow> \<not> ModelAllowedResolved k name internal | None \<Rightarrow> False) then out
      else out @ [\<lparr>me_ID = name, me_Object = ''model'', me_Created = now, me_OwnedBy = ''llmgateway''\<rparr>]))"

text \<open>
  The routing path looks a model up in the store. \<open>ListModels\<close> builds a registry by the names of the
  models first; in a well-formed store (\<open>models_wf\<close>) the table is keyed by these names, so that both
  are the same lookup.
\<close>

definition registry_off :: "Store \<Rightarrow> string \<Rightarrow> bool" where
  "registry_off s name = (case store_Model name s of Some m \<Rightarrow> \<not> m_Enabled m | None \<Rightarrow> False)"

text \<open>The names in the order they are offered, each with the model it stands for.\<close>

definition catalog_names :: "(nat \<Rightarrow> order) \<Rightarrow> Orchestrator option \<Rightarrow> Store \<Rightarrow> (string \<times> string) list" where
  "catalog_names ord g s =
     concat (map (\<lambda>p. let b = s_bheap s p in
        if \<not> b_Enabled b then []
        else map (\<lambda>n. (n, n)) (filter (\<lambda>n. \<not> registry_off s n) (b_Models b))) (Backends (ord 0) s))
     @ map (\<lambda>m. (m_Name m, m_Name m)) (filter m_Enabled (Models (ord 1) s))
     @ map (\<lambda>a. (a_Alias a, fst (ResolveAlias (a_Alias a) s)))
         (filter (\<lambda>a. a_Enabled a \<and> \<not> registry_off s (a_InternalModel a)) (ModelAliases (ord 2) s))
     @ map (\<lambda>n. (n, n)) (VirtualModels g)"

definition ListModels :: "(nat \<Rightarrow> order) \<Rightarrow> int \<Rightarrow> addr option \<Rightarrow> Handler \<Rightarrow> modelEntry list" where
  "ListModels ord now kp h =
     sort_key me_ID (fold (addResolved (the_key h kp) now) (catalog_names ord (hd_orchestrator h) (hd_store h)) [])"

section \<open>Forward: decoding and checks\<close>

definition body_limit :: "Config \<Rightarrow> int" where
  "body_limit cfg =
     (let l = w64 (w64 (sc_RequestBodyLimitMB (c_Server cfg) * 1024) * 1024)
      in if l \<le> 0 then 50 * 1024 * 1024 else l)"

text \<open>A rejection: status, code of the log entry, error for the client, and the body to log.\<close>

type_synonym rejection = "int \<times> string \<times> APIError \<times> string"

definition decode_request :: "handler_json \<Rightarrow> Config \<Rightarrow> body_read \<Rightarrow> (rejection, string \<times> string \<times> bool option \<times> int option) sum" where
  "decode_request js cfg body =
     (case body of
        BodyError err \<Rightarrow>
          Inl (400, ''invalid_body'', InvalidRequest (''Failed to read request body: '' @ err) ''invalid_body'', [])
      | Body raw \<Rightarrow>
          if body_limit cfg < int (length raw) then
            Inl (413, ''payload_too_large'', mk_error ''invalid_request_error'' ''Request body too large'' ''payload_too_large'', [])
          else if raw = [] then Inl (400, ''invalid_body'', InvalidRequest ''Empty request body'' ''invalid_body'', [])
          else (case hj_peek js raw of
                  Inl err \<Rightarrow> Inl (400, ''invalid_json'', InvalidRequest (''Invalid JSON: '' @ err) ''invalid_json'', raw)
                | Inr (model, stream, secret) \<Rightarrow>
                    if model = [] then
                      Inl (400, ''missing_model'', InvalidRequest ''Missing required field: model'' ''missing_model'', raw)
                    else Inr (raw, model, stream, secret)))"

definition is_stream :: "bool option \<Rightarrow> bool" where
  "is_stream stream \<longleftrightarrow> stream = Some True"

definition capability_reject :: "string \<Rightarrow> string \<Rightarrow> int \<times> string \<times> APIError" where
  "capability_reject model reason =
     (400, reason, InvalidRequest (''Model '' @ model @ '' does not support this capability: '' @ reason) reason)"

text \<open>Permission, then the virtual models, then registry, capabilities and candidates.\<close>

datatype checked =
    Refused "int \<times> string \<times> APIError"
  | Virtual
  | Candidates "addr list"

definition check_capability :: "handler_json \<Rightarrow> Store \<Rightarrow> string \<Rightarrow> string \<Rightarrow> string" where
  "check_capability js s internalModel raw =
     (case store_Model internalModel s of
        Some m \<Rightarrow> capability_Check (hj_caps js) (m_CapabilityMode m) (m_Capabilities m) raw
      | None \<Rightarrow> [])"

definition check_request :: "handler_json \<Rightarrow> order \<Rightarrow> APIKey option \<Rightarrow> string \<Rightarrow> string \<Rightarrow> string \<Rightarrow> Handler \<Rightarrow> checked" where
  "check_request js ord k model internalModel raw h =
     (let s = hd_store h; reason = check_capability js s internalModel raw in
      if (case k of Some k \<Rightarrow> \<not> ModelAllowedResolved k model internalModel | None \<Rightarrow> False) then
        Refused (403, ''model_not_allowed'',
          PermissionError (''The API key is not allowed to use model: '' @ model) ''model_not_allowed'')
      else if Handles (hd_orchestrator h) internalModel then
        (if reason \<noteq> [] then Refused (capability_reject model reason) else Virtual)
      else if registry_off s internalModel then
        Refused (404, ''model_not_found'', NotFound (''Model is disabled: '' @ model) ''model_not_found'')
      else if reason \<noteq> [] then Refused (capability_reject model reason)
      else let candidates = BackendsForModel ord internalModel s in
        if candidates = [] then
          Refused (404, ''model_not_found'', NotFound (''Unknown model: '' @ model) ''model_not_found'')
        else Candidates candidates)"

section \<open>Forward: routing\<close>

datatype routed = NoneHealthy | NonePicked | AtCapacity | Routed addr

definition routing_policy :: "Handler \<Rightarrow> string \<Rightarrow> string" where
  "routing_policy h internalModel =
     (case store_Model internalModel (hd_store h) of
        Some m \<Rightarrow> if m_RoutingPolicy m \<noteq> [] then m_RoutingPolicy m else rc_DefaultPolicy (c_Routing (hd_cfg h))
      | None \<Rightarrow> rc_DefaultPolicy (c_Routing (hd_cfg h)))"

text \<open>
  \<open>fe_race\<close> is what other requests do between the choice of a backend and the attempt to take
  its slot; after a lost race the choice is made once more.
\<close>

definition route :: "fwd_env \<Rightarrow> string \<Rightarrow> string \<Rightarrow> Hint \<Rightarrow> addr list \<Rightarrow> Handler \<Rightarrow> routed \<times> Handler" where
  "route e internalModel policy hint candidates h =
     (let ad = rc_AllowDegradedBackends (c_Routing (hd_cfg h)); s = hd_store h;
          ready = filterRoutable (s_bheap s) candidates ad
      in if ready = [] then (NoneHealthy, h)
         else case Choose (s_bheap s) (fe_rnd e 0) internalModel policy ready hint (hd_balancer h) of
           (None, b) \<Rightarrow> (NonePicked, h\<lparr>hd_balancer := b\<rparr>)
         | (Some p, b) \<Rightarrow>
             let s1 = fe_race e 0 s in
             (case AcquireSlot (s_bheap s1 p) of
                (x, True) \<Rightarrow> (Routed p, h\<lparr>hd_balancer := b, hd_store := upd_backend p (\<lambda>_. x) s1\<rparr>)
              | (x, False) \<Rightarrow>
                  let ready2 = filterRoutable (s_bheap s1) candidates ad in
                  (case Choose (s_bheap s1) (fe_rnd e 1) internalModel policy ready2 hint b of
                     (None, b2) \<Rightarrow> (AtCapacity, h\<lparr>hd_balancer := b2, hd_store := s1\<rparr>)
                   | (Some q, b2) \<Rightarrow>
                       let s2 = fe_race e 1 s1 in
                       (case AcquireSlot (s_bheap s2 q) of
                          (y, True) \<Rightarrow> (Routed q, h\<lparr>hd_balancer := b2, hd_store := upd_backend q (\<lambda>_. y) s2\<rparr>)
                        | (y, False) \<Rightarrow> (AtCapacity, h\<lparr>hd_balancer := b2, hd_store := s2\<rparr>)))))"

section \<open>Forward: the exchange with the backend\<close>

record exchanged =
  xc_status :: int
  xc_error :: "string option"
  xc_usage :: "Usage_block list"
  xc_raw :: string
  xc_chunks :: string
  xc_first :: bool
  xc_answer :: answer

definition of_relay :: "relay \<Rightarrow> exchanged" where
  "of_relay r = \<lparr>xc_status = re_status r, xc_error = re_error r, xc_usage = re_usage r,
     xc_raw = (case re_raw r of Some b \<Rightarrow> b | None \<Rightarrow> []), xc_chunks = [], xc_first = False,
     xc_answer = (case re_failure r of
        Some (status, err) \<Rightarrow> AnsError status err
      | None \<Rightarrow> (case re_written r of Some (code, hdr, body) \<Rightarrow> AnsBody code hdr body | None \<Rightarrow> AnsNone))\<rparr>"

text \<open>
  A stream ends at the latest when the client goes away, which is the turn appended here; the
  loop then has returned (\<open>stream_loop_ends\<close>).
\<close>

definition stream_exchange :: "handler_json \<Rightarrow> int \<Rightarrow> http_Header \<Rightarrow> http_Header \<Rightarrow> exchange \<Rightarrow> exchanged" where
  "stream_exchange js code hdr whdr ex =
     (let (err, st) = (case streamResponse (hj_usage js) (ex_turns ex @ [ClientDone]) (ex_reads ex) of
                         Some (Ended err, st) \<Rightarrow> (err, st)
                       | None \<Rightarrow> (None, stream_start))
      in \<lparr>xc_status = code, xc_error = err, xc_usage = sr_reports st, xc_raw = [], xc_chunks = sr_chunks st,
          xc_first = sr_first st, xc_answer = AnsStream code (stream_headers whdr hdr) (sr_written st)\<rparr>)"

definition do_exchange :: "handler_json \<Rightarrow> bool \<Rightarrow> http_Header \<Rightarrow> exchange \<Rightarrow> exchanged" where
  "do_exchange js isStream whdr ex =
     (case ex_up ex of
        Response code hdr body \<Rightarrow>
          if isStream \<and> isEventStream hdr then stream_exchange js code hdr whdr ex
          else of_relay (proxy_Forward (hj_usage js) (ex_up ex) whdr)
      | _ \<Rightarrow> of_relay (proxy_Forward (hj_usage js) (ex_up ex) whdr))"

definition xc_success :: "exchanged \<Rightarrow> bool" where
  "xc_success x \<longleftrightarrow> xc_error x = None \<and> 200 \<le> xc_status x \<and> xc_status x < 400"

definition forward_options :: "http_in \<Rightarrow> bool \<Rightarrow> string \<Rightarrow> string \<Rightarrow> string \<Rightarrow> string \<Rightarrow> Backend \<Rightarrow> ForwardOptions" where
  "forward_options r isStream internalModel forwardName apiKeyLabel forwardBody b =
     \<lparr>fo_Method = ''POST'', fo_Backend = b, fo_UpstreamPath = hi_path r, fo_Body = forwardBody, fo_IsStream = isStream,
      fo_StreamIdleTimeoutMS = b_StreamIdleTimeoutMS b, fo_TimeoutMS = b_TimeoutMS b, fo_Model = internalModel,
      fo_ForwardModel = forwardName, fo_APIKeyLabel = apiKeyLabel, fo_Endpoint = hi_path r, fo_ContentType = []\<rparr>"

text \<open>The usage the handler saw last, if any.\<close>

definition last_usage :: "exchanged \<Rightarrow> Usage_block option" where
  "last_usage x = (if xc_usage x = [] then None else Some (last (xc_usage x)))"

definition est_usage :: "handler_json \<Rightarrow> string \<Rightarrow> Usage_block" where
  "est_usage js raw = zero_usage\<lparr>us_TotalTokens := estimateTokens raw (extractMaxTokens js raw)\<rparr>"

text \<open>Everything after the exchange: the slot, counters, usage, statistics and the log entry.\<close>

definition account_exchange ::
    "fwd_env \<Rightarrow> handler_json \<Rightarrow> http_in \<Rightarrow> string \<Rightarrow> string \<Rightarrow> string \<Rightarrow> bool \<Rightarrow> string \<Rightarrow> addr \<Rightarrow> exchanged \<Rightarrow> Handler \<Rightarrow> Handler" where
  "account_exchange e js r raw model internalModel isStream policyLabel p x h =
     (let k = the_key h (hi_key r); label = apiKeyID k; bid = b_ID (s_bheap (hd_store h) p);
          cfg = hd_cfg h; ok = xc_success x; status = xc_status x;
          h1 = inc_if (xc_first x) (TTFT internalModel bid) h;
          h2 = fold (\<lambda>u. recordUsage e u internalModel bid label (hi_key r)) (xc_usage x) h1;
          h3 = h2\<lparr>hd_store := upd_backend p (ReleaseSlot ok) (hd_store h2)\<rparr>;
          h4 = inc_if (\<not> ok) (BackendErrors bid (statusCodeLabel status)) h3;
          h5 = (if status = 504 then inc (Timeouts bid ''backend'') h4
                else if xc_error x = Some ''stream idle timeout'' then inc (Timeouts bid ''stream_idle'') h4
                else h4);
          h6 = touch_key e (hi_key r) h5;
          estimate = ok \<and> xc_usage x = [] \<and> k \<noteq> None;
          h7 = (if estimate then recordUsage e (est_usage js raw) internalModel bid label (hi_key r) h6 else h6);
          captured = (if estimate then est_usage js raw
                      else (case last_usage x of Some u \<Rightarrow> u | None \<Rightarrow> zero_usage));
          h8 = inc (Requests [hi_path r, internalModel, bid, label, statusCodeLabel status, boolLabel isStream, policyLabel]) h7;
          h9 = inc (RequestLatency [hi_path r, internalModel, bid, boolLabel isStream, policyLabel]) h8;
          rawResp = (if isStream then (if shouldLog cfg k ''log_stream_chunks'' then xc_chunks x else [])
                     else if shouldLog cfg k ''log_raw_response'' then xc_raw x else [])
      in recordLog e k (hi_clientIP r) model internalModel bid (hi_path r) isStream status
           (errorCodeFromForward (xc_error x) status) (Some captured) (if xc_first x then fe_ttft e else 0)
           (rawForLog cfg k raw) rawResp h9)"

definition serve_backend ::
    "fwd_env \<Rightarrow> handler_json \<Rightarrow> http_in \<Rightarrow> string \<Rightarrow> string \<Rightarrow> string \<Rightarrow> string \<Rightarrow> bool \<Rightarrow> string \<Rightarrow> addr \<Rightarrow> Handler \<Rightarrow>
     answer \<times> ForwardOptions \<times> Handler" where
  "serve_backend e js r raw model internalModel forwardName isStream policyLabel p h =
     (let k = the_key h (hi_key r); b = s_bheap (hd_store h) p;
          forwardBody = (if forwardName \<noteq> model then rewriteModelInBody js raw forwardName else raw);
          opts = forward_options r isStream internalModel forwardName (apiKeyID k) forwardBody b;
          h1 = inc (ActiveInc internalModel (b_ID b)) h;
          h2 = h1\<lparr>hd_store := fe_during e (hd_store h1)\<rparr>;
          x = do_exchange js isStream (hdr_Set ''X-Request-ID'' (fe_requestID e) []) (fe_exchange e);
          h3 = account_exchange e js r raw model internalModel isStream policyLabel p x h2
      in (xc_answer x, opts, inc (ActiveDec internalModel (b_ID b)) h3))"

section \<open>Forward\<close>

definition reject_log :: "fwd_env \<Rightarrow> http_in \<Rightarrow> string \<Rightarrow> string \<Rightarrow> bool \<Rightarrow> int \<Rightarrow> string \<Rightarrow> string \<Rightarrow> Handler \<Rightarrow> Handler" where
  "reject_log e r model internalModel isStream status code raw h =
     (let k = the_key h (hi_key r)
      in recordLog e k (hi_clientIP r) model internalModel [] (hi_path r) isStream status code None 0
           (rawForLog (hd_cfg h) k raw) [] h)"

text \<open>The direct path, from admission on. The second component is what was sent, if anything.\<close>

definition forward_direct ::
    "fwd_env \<Rightarrow> handler_json \<Rightarrow> http_in \<Rightarrow> string \<Rightarrow> string \<Rightarrow> string \<Rightarrow> string \<Rightarrow> bool \<Rightarrow> addr list \<Rightarrow> Handler \<Rightarrow>
     answer \<times> (addr \<times> ForwardOptions) option \<times> Handler" where
  "forward_direct e js r raw model internalModel forwardName isStream candidates h =
     (case admit (fe_admit e) (hi_key r) internalModel h of
        ((rel, code, status), h1) \<Rightarrow>
          if code \<noteq> [] then
            (AnsError status (RateLimit (''Rejected: '' @ code) code), None,
             reject_log e r model internalModel isStream status code raw
               (inc_if (isQuotaCode code) (QuotaHits (apiKeyID (the_key h1 (hi_key r))) code) h1))
          else
            let policy = routing_policy h1 internalModel;
                hint = \<lparr>hint_APIKeyID = apiKeyID (the_key h1 (hi_key r)), hint_User = []\<rparr>;
                unavailable = BackendUnavailable (''No healthy backend available for model: '' @ model) ''no_healthy_backend''
            in case route e internalModel policy hint candidates h1 of
                 (NoneHealthy, h2) \<Rightarrow>
                   (AnsError 503 unavailable, None,
                    doRelease rel (reject_log e r model internalModel isStream 503 ''no_healthy_backend'' raw h2))
               | (NonePicked, h2) \<Rightarrow> (AnsError 503 unavailable, None, doRelease rel h2)
               | (AtCapacity, h2) \<Rightarrow>
                   (AnsError 503 (BackendUnavailable ''All matching backends at capacity'' ''backend_at_capacity''), None,
                    doRelease rel h2)
               | (Routed p, h2) \<Rightarrow>
                   (case serve_backend e js r raw model internalModel forwardName isStream
                           (if policy = [] then ''unknown'' else policy) p h2 of
                      (ans, opts, h3) \<Rightarrow> (ans, Some (p, opts), doRelease rel h3)))"

end
