(* ===== verification/Gateway_Forward.thy ===== *)
theory Gateway_Forward
  imports Handler_Model
begin

text \<open>
  The entry points of the request handlers: \<open>Forward\<close> with the hand-over of virtual models to
  the orchestrator (\<^verbatim>\<open>internal/handlers/orchestration.go\<close>) and \<open>ForwardMultipart\<close>
  (\<^verbatim>\<open>internal/handlers/audio.go\<close>), and what they guarantee: which backends a request can
  reach, and that every slot and token a request took is given back on every path.
\<close>

section \<open>Orchestrated requests\<close>

definition secretLevel :: "Config \<Rightarrow> http_Header \<Rightarrow> int option \<Rightarrow> int" where
  "secretLevel cfg header bodySecretLevel =
     (let hdr0 = o_SecretLevelHeader (c_Orchestration cfg);
          hdr = (if hdr0 = [] then ''X-Secret-Level'' else hdr0);
          v = hdr_Get hdr header
      in case (if v \<noteq> [] then Atoi v else None) of
           Some n \<Rightarrow> n
         | None \<Rightarrow> (case bodySecretLevel of Some n \<Rightarrow> n | None \<Rightarrow> 0))"

definition chargeUsage :: "fwd_env \<Rightarrow> handler_json \<Rightarrow> Result \<Rightarrow> string \<Rightarrow> addr option \<Rightarrow> string \<Rightarrow> bool \<Rightarrow> Handler \<Rightarrow> Result \<times> Handler" where
  "chargeUsage e js result model kp raw success h =
     (let k = the_key h kp;
          res = (if success \<and> us_TotalTokens (rs_Usage result) = 0 \<and> k \<noteq> None
                 then result\<lparr>rs_Usage := (rs_Usage result)\<lparr>us_TotalTokens := estimateTokens raw (extractMaxTokens js raw)\<rparr>\<rparr>
                 else result)
      in (res, recordUsage e (rs_Usage res) model ''orchestrator'' (apiKeyID k) kp h))"

definition orch_start :: "Handler \<Rightarrow> orch_state" where
  "orch_start h = \<lparr>os_store = hd_store h, os_balancer = hd_balancer h, os_metrics = [], os_warnings = [], os_sent = []\<rparr>"

definition orch_back :: "orch_state \<Rightarrow> Handler \<Rightarrow> Handler" where
  "orch_back st h = h\<lparr>hd_store := os_store st, hd_balancer := os_balancer st,
     hd_metrics := hd_metrics h @ map OrchMetric (os_metrics st)\<rparr>"

text \<open>The client's answer, or the error the orchestrator ended with (sent as a 502).\<close>

datatype served = Served answer | OrchFailed orch_error

definition orch_log :: "fwd_env \<Rightarrow> http_in \<Rightarrow> string \<Rightarrow> bool \<Rightarrow> int \<Rightarrow> string \<Rightarrow> Usage_block option \<Rightarrow> string \<Rightarrow> string \<Rightarrow> Handler \<Rightarrow> Handler" where
  "orch_log e r virtualModel isStream status code usage raw rawResp h =
     (let k = the_key h (hi_key r)
      in recordLog e k (hi_clientIP r) virtualModel virtualModel ''orchestrator'' ''/chat/completions'' isStream status code
           usage 0 (rawForLog (hd_cfg h) k raw) rawResp h)"

definition orch_failed ::
    "fwd_env \<Rightarrow> handler_json \<Rightarrow> http_in \<Rightarrow> string \<Rightarrow> string \<Rightarrow> bool \<Rightarrow> Result option \<Rightarrow> Handler \<Rightarrow> Handler" where
  "orch_failed e js r raw virtualModel isStream result h =
     (let (usage, h1) =
            (case result of
               None \<Rightarrow> (None, h)
             | Some res \<Rightarrow> (case chargeUsage e js res virtualModel (hi_key r) raw False h of
                              (res1, h1) \<Rightarrow> (Some (rs_Usage res1), touch_key e (hi_key r) h1)));
          h2 = orch_log e r virtualModel isStream 502 ''orchestration_failed'' usage raw [] h1
      in inc (Requests [''/chat/completions'', virtualModel, ''orchestrator'', apiKeyID (the_key h (hi_key r)), ''502'',
                        boolLabel isStream, ''orchestration'']) h2)"

text \<open>\<open>render\<close> is the JSON body of \<open>BuildChatCompletion\<close>; it is logged for whole answers only.\<close>

definition orch_done ::
    "fwd_env \<Rightarrow> handler_json \<Rightarrow> (Result \<Rightarrow> string) \<Rightarrow> http_in \<Rightarrow> string \<Rightarrow> string \<Rightarrow> bool \<Rightarrow> Result \<Rightarrow> Handler \<Rightarrow> Result \<times> Handler" where
  "orch_done e js render r raw virtualModel isStream result h =
     (case chargeUsage e js result virtualModel (hi_key r) raw True h of
        (res, h1) \<Rightarrow>
          let k = the_key h (hi_key r);
              h2 = touch_key e (hi_key r) h1;
              h3 = inc (Requests [''/chat/completions'', virtualModel, ''orchestrator'', apiKeyID k, ''200'',
                                  boolLabel isStream, ''orchestration'']) h2;
              h4 = inc (RequestLatency [''/chat/completions'', virtualModel, ''orchestrator'', boolLabel isStream, ''orchestration'']) h3;
              rawResp = (if \<not> isStream \<and> shouldLog (hd_cfg h) k ''log_raw_response'' then render res else [])
          in (res, orch_log e r virtualModel isStream 200 [] (Some (rs_Usage res)) raw rawResp h4))"

definition serveOrchestration ::
    "fwd_env \<Rightarrow> handler_json \<Rightarrow> (Result \<Rightarrow> string) \<Rightarrow> http_in \<Rightarrow> string \<Rightarrow> string \<Rightarrow> bool \<Rightarrow> int \<Rightarrow> Orchestrator \<Rightarrow> Handler \<Rightarrow>
     served \<times> (OrchestrationWorker \<times> addr \<times> worker_request) list \<times> Handler" where
  "serveOrchestration e js render r raw virtualModel isStream lvl g h =
     (case admit (fe_admit e) (hi_key r) virtualModel h of
        ((rel, code, status), h1) \<Rightarrow>
          if code \<noteq> [] then
            (Served (AnsError status (RateLimit (''Rejected: '' @ code) code)), [],
             orch_log e r virtualModel isStream status code None raw []
               (inc_if (isQuotaCode code) (QuotaHits (apiKeyID (the_key h1 (hi_key r))) code) h1))
          else
            let h2 = inc (ActiveInc virtualModel ''orchestrator'') h1;
                finish = (\<lambda>hx. doRelease rel (inc (ActiveDec virtualModel ''orchestrator'') hx))
            in case orch_Handle g (fe_orch e) (hj_orch js) virtualModel raw lvl (orch_start h2) of
                 None \<Rightarrow> (Served AnsNone, [], finish h2)
               | Some (result, Some err, st) \<Rightarrow>
                   (OrchFailed err, os_sent st, finish (orch_failed e js r raw virtualModel isStream result (orch_back st h2)))
               | Some (Some result, None, st) \<Rightarrow>
                   (case orch_done e js render r raw virtualModel isStream result (orch_back st h2) of
                      (res, h3) \<Rightarrow> (Served (AnsChat res), os_sent st, finish h3))
               | Some (None, None, st) \<Rightarrow> (Served AnsNone, os_sent st, finish (orch_back st h2)))"

section \<open>Forward\<close>

datatype sent = NotSent | SentTo addr ForwardOptions | SentWorkers "(OrchestrationWorker \<times> addr \<times> worker_request) list"

definition gateway_Forward ::
    "fwd_env \<Rightarrow> handler_json \<Rightarrow> (Result \<Rightarrow> string) \<Rightarrow> http_in \<Rightarrow> Handler \<Rightarrow> served \<times> sent \<times> Handler" where
  "gateway_Forward e js render r h =
     (case decode_request js (hd_cfg h) (hi_body r) of
        Inl (status, code, err, raw) \<Rightarrow>
          (Served (AnsError status err), NotSent, reject_log e r [] [] False status code raw h)
      | Inr (raw, model, stream, secret) \<Rightarrow>
          (case ResolveAlias model (hd_store h) of
             (internalModel, forwardName) \<Rightarrow>
               (case check_request js (fe_order e) (the_key h (hi_key r)) model internalModel raw h of
                  Refused (status, code, err) \<Rightarrow>
                    (Served (AnsError status err), NotSent,
                     reject_log e r model internalModel (is_stream stream) status code raw h)
                | Virtual \<Rightarrow>
                    (case hd_orchestrator h of
                       None \<Rightarrow> (Served AnsNone, NotSent, h)
                     | Some g \<Rightarrow>
                         (case serveOrchestration e js render r raw internalModel (is_stream stream)
                                 (secretLevel (hd_cfg h) (hi_header r) secret) g h of
                            (ans, ws, h1) \<Rightarrow> (ans, SentWorkers ws, h1)))
                | Candidates candidates \<Rightarrow>
                    (case forward_direct e js r raw model internalModel forwardName (is_stream stream) candidates h of
                       (ans, snt, h1) \<Rightarrow>
                         (Served ans, case snt of None \<Rightarrow> NotSent | Some (p, opts) \<Rightarrow> SentTo p opts, h1)))))"

section \<open>ForwardMultipart\<close>

text \<open>
  The parser of multipart forms is of another package: a form is the value of its field \<open>model\<close> and the
  body built again from it, which \<open>Multipart_Model\<close> defines.
\<close>

datatype form_read = FormTooLarge | FormError string | Form string

record multipart_in =
  mi_form :: form_read
  mi_rebuilt :: "(string, string \<times> string) sum"

definition multipart_options :: "http_in \<Rightarrow> string \<Rightarrow> string \<Rightarrow> string \<Rightarrow> string \<Rightarrow> string \<Rightarrow> Backend \<Rightarrow> ForwardOptions" where
  "multipart_options r model internalModel apiKeyLabel body ct b =
     \<lparr>fo_Method = ''POST'', fo_Backend = b, fo_UpstreamPath = hi_path r, fo_Body = body, fo_IsStream = False,
      fo_StreamIdleTimeoutMS = 0, fo_TimeoutMS = b_TimeoutMS b, fo_Model = internalModel, fo_ForwardModel = model,
      fo_APIKeyLabel = apiKeyLabel, fo_Endpoint = hi_path r, fo_ContentType = ct\<rparr>"

definition multipart_check :: "http_in \<Rightarrow> multipart_in \<Rightarrow> order \<Rightarrow> Handler \<Rightarrow> (int \<times> APIError, string \<times> string \<times> addr list) sum" where
  "multipart_check r mi ord h =
     (if \<not> HasPrefix (hdr_Get ''Content-Type'' (hi_header r)) ''multipart/form-data'' then
        Inl (400, InvalidRequest ''Expected multipart/form-data Content-Type'' ''invalid_content_type'')
      else (case mi_form mi of
        FormTooLarge \<Rightarrow> Inl (413, mk_error ''invalid_request_error'' ''Request body too large'' ''payload_too_large'')
      | FormError err \<Rightarrow> Inl (400, InvalidRequest (''Invalid multipart form: '' @ err) ''invalid_multipart'')
      | Form model \<Rightarrow>
          let s = hd_store h; internalModel = fst (ResolveAlias model s); candidates = BackendsForModel ord internalModel s in
          if model = [] then Inl (400, InvalidRequest ''Missing required field: model'' ''missing_model'')
          else if (case the_key h (hi_key r) of Some k \<Rightarrow> \<not> ModelAllowedResolved k model internalModel | None \<Rightarrow> False) then
            Inl (403, PermissionError (''The API key is not allowed to use model: '' @ model) ''model_not_allowed'')
          else if registry_off s internalModel then Inl (404, NotFound (''Model is disabled: '' @ model) ''model_not_found'')
          else if candidates = [] then Inl (404, NotFound (''Unknown model: '' @ model) ''model_not_found'')
          else Inr (model, internalModel, candidates)))"

definition multipart_serve ::
    "fwd_env \<Rightarrow> handler_json \<Rightarrow> http_in \<Rightarrow> string \<Rightarrow> string \<Rightarrow> string \<Rightarrow> string \<Rightarrow> addr \<Rightarrow> Handler \<Rightarrow> answer \<times> ForwardOptions \<times> Handler" where
  "multipart_serve e js r model internalModel body ct p h =
     (let k = the_key h (hi_key r); label = apiKeyID k; b = s_bheap (hd_store h) p; bid = b_ID b;
          policy = rc_DefaultPolicy (c_Routing (hd_cfg h)); policyLabel = (if policy = [] then ''unknown'' else policy);
          h1 = inc (ActiveInc internalModel bid) h;
          h2 = h1\<lparr>hd_store := fe_during e (hd_store h1)\<rparr>;
          x = do_exchange js False (hdr_Set ''X-Request-ID'' (fe_requestID e) []) (fe_exchange e);
          ok = xc_success x; status = xc_status x;
          h3 = h2\<lparr>hd_store := upd_backend p (ReleaseSlot ok) (hd_store h2)\<rparr>;
          h4 = inc_if (\<not> ok) (BackendErrors bid (statusCodeLabel status)) h3;
          h5 = inc (Requests [hi_path r, internalModel, bid, label, statusCodeLabel status, ''false'', policyLabel]) h4;
          h6 = inc (RequestLatency [hi_path r, internalModel, bid, ''false'', policyLabel]) h5;
          h7 = touch_key e (hi_key r) h6;
          h8 = recordLog e k (hi_clientIP r) model internalModel bid (hi_path r) False status
                 (errorCodeFromForward (xc_error x) status) None 0 [] [] h7
      in (xc_answer x, multipart_options r model internalModel label body ct b, inc (ActiveDec internalModel bid) h8))"

definition ForwardMultipart ::
    "fwd_env \<Rightarrow> handler_json \<Rightarrow> http_in \<Rightarrow> multipart_in \<Rightarrow> Handler \<Rightarrow> answer \<times> (addr \<times> ForwardOptions) option \<times> Handler" where
  "ForwardMultipart e js r mi h =
     (case multipart_check r mi (fe_order e) h of
        Inl (status, err) \<Rightarrow> (AnsError status err, None, h)
      | Inr (model, internalModel, candidates) \<Rightarrow>
          (case admit (fe_admit e) (hi_key r) internalModel h of
             ((rel, code, status), h1) \<Rightarrow>
               if code \<noteq> [] then (AnsError status (RateLimit (''Rejected: '' @ code) code), None, h1)
               else
                 let s = hd_store h1; ready = filterRoutable (s_bheap s) candidates (rc_AllowDegradedBackends (c_Routing (hd_cfg h1)));
                     hint = \<lparr>hint_APIKeyID = apiKeyID (the_key h1 (hi_key r)), hint_User = []\<rparr>;
                     capacity = AnsError 503 (BackendUnavailable ''All matching backends at capacity'' ''backend_at_capacity'')
                 in if ready = [] then
                      (AnsError 503 (BackendUnavailable (''No healthy backend available for model: '' @ model) ''no_healthy_backend''),
                       None, doRelease rel h1)
                    else case Choose (s_bheap s) (fe_rnd e 0) internalModel (rc_DefaultPolicy (c_Routing (hd_cfg h1))) ready hint (hd_balancer h1) of
                      (None, b) \<Rightarrow> (capacity, None, doRelease rel (h1\<lparr>hd_balancer := b\<rparr>))
                    | (Some p, b) \<Rightarrow>
                        let s1 = fe_race e 0 s in
                        (case AcquireSlot (s_bheap s1 p) of
                           (x, False) \<Rightarrow> (capacity, None, doRelease rel (h1\<lparr>hd_balancer := b, hd_store := s1\<rparr>))
                         | (x, True) \<Rightarrow>
                             let h2 = h1\<lparr>hd_balancer := b, hd_store := upd_backend p (\<lambda>_. x) s1\<rparr> in
                             (case mi_rebuilt mi of
                                Inl err \<Rightarrow>
                                  (AnsError 400 (InvalidRequest (''Failed to rebuild multipart body: '' @ err) ''invalid_multipart''), None,
                                   doRelease rel (h2\<lparr>hd_store := upd_backend p (ReleaseSlot False) (hd_store h2)\<rparr>))
                              | Inr (body, ct) \<Rightarrow>
                                  (case multipart_serve e js r model internalModel body ct p h2 of
                                     (ans, opts, h3) \<Rightarrow> (ans, Some (p, opts), doRelease rel h3))))))"

section \<open>What the steps leave alone\<close>

definition slots_of :: "Handler \<Rightarrow> addr \<Rightarrow> int" where
  "slots_of h p = b_activeRequests (s_bheap (hd_store h) p)"

definition pools :: "Handler \<Rightarrow> Concurrency \<times> queue_Manager option" where
  "pools h = (hd_concurrency h, hd_queue h)"

named_theorems frame "steps that touch neither the slots of backends nor the shared pools"

lemma pools_held: "pools h' = pools h \<Longrightarrow> held h' = held h"
  by (simp add: pools_def held_def)

lemma frame_fields [frame]:
  "slots_of (inc m h) = slots_of h" "pools (inc m h) = pools h"
  "slots_of (inc_if b m h) = slots_of h" "pools (inc_if b m h) = pools h"
  "slots_of (h\<lparr>hd_balancer := x\<rparr>) = slots_of h" "pools (h\<lparr>hd_balancer := x\<rparr>) = pools h"
  "slots_of (h\<lparr>hd_limiter := l\<rparr>) = slots_of h" "pools (h\<lparr>hd_limiter := l\<rparr>) = pools h"
  "slots_of (h\<lparr>hd_quota := q\<rparr>) = slots_of h" "pools (h\<lparr>hd_quota := q\<rparr>) = pools h"
  "pools (h\<lparr>hd_store := s\<rparr>) = pools h" "slots_of (h\<lparr>hd_metrics := ms\<rparr>) = slots_of h" "pools (h\<lparr>hd_metrics := ms\<rparr>) = pools h"
  by (simp_all add: slots_of_def pools_def inc_def inc_if_def fun_eq_iff)

lemma frame_key [frame]: "slots_of (h\<lparr>hd_store := upd_key p f (hd_store h)\<rparr>) = slots_of h"
  by (simp add: slots_of_def upd_key_def fun_eq_iff)

lemma frame_recordLog [frame]:
  "slots_of (recordLog e k ip m im bid ep st sc ec u tt rq rs h) = slots_of h"
  "pools (recordLog e k ip m im bid ep st sc ec u tt rq rs h) = pools h"
  by (simp_all add: recordLog_def slots_of_def pools_def Let_def fun_eq_iff split: option.split)

lemma frame_touch [frame]: "slots_of (touch_key e kp h) = slots_of h" "pools (touch_key e kp h) = pools h"
  by (simp_all add: touch_key_def frame split: option.split)

lemma frame_recordUsage [frame]:
  "slots_of (recordUsage e u m bid l kp h) = slots_of h" "pools (recordUsage e u m bid l kp h) = pools h"
proof -
  have "slots_of (h\<lparr>hd_store := upd_key p f (hd_store h), hd_limiter := l\<rparr>) = slots_of h"
    "pools (h\<lparr>hd_store := s, hd_limiter := l\<rparr>) = pools h" for h p f s l
    by (simp_all add: slots_of_def pools_def upd_key_def fun_eq_iff)
  then show "slots_of (recordUsage e u m bid l kp h) = slots_of h" "pools (recordUsage e u m bid l kp h) = pools h"
    by (simp_all add: recordUsage_def Let_def frame split: option.split)
qed

lemma frame_logs [frame]:
  "slots_of (reject_log e r m im st sc c raw h) = slots_of h" "pools (reject_log e r m im st sc c raw h) = pools h"
  "slots_of (orch_log e r vm st sc c u raw rs h) = slots_of h" "pools (orch_log e r vm st sc c u raw rs h) = pools h"
  by (simp_all add: reject_log_def orch_log_def Let_def frame)

lemma held_reject_log [frame]: "held (reject_log e r m im st sc c raw h) = held h"
  by (rule pools_held) (simp add: frame)

lemma frame_usages [frame]:
  "slots_of (fold (\<lambda>u. recordUsage e u m bid l kp) us h) = slots_of h"
  "pools (fold (\<lambda>u. recordUsage e u m bid l kp) us h) = pools h"
  by (induction us arbitrary: h) (simp_all add: frame)

lemma frame_charge [frame]:
  "chargeUsage e js res m kp raw ok h = (res', h') \<Longrightarrow> slots_of h' = slots_of h"
  "chargeUsage e js res m kp raw ok h = (res', h') \<Longrightarrow> pools h' = pools h"
  by (auto simp: chargeUsage_def Let_def frame)

lemma frame_orch_failed [frame]:
  "slots_of (orch_failed e js r raw vm st res h) = slots_of h" "pools (orch_failed e js r raw vm st res h) = pools h"
  by (auto simp: orch_failed_def Let_def frame split: option.split prod.split)

lemma frame_orch_done:
  "orch_done e js render r raw vm st res h = (res', h') \<Longrightarrow> slots_of h' = slots_of h \<and> pools h' = pools h"
  by (auto simp: orch_done_def Let_def frame split: prod.splits)

lemma run_release_store: "hd_store (run_release x h) = hd_store h" "hd_cfg (run_release x h) = hd_cfg h" "hd_balancer (run_release x h) = hd_balancer h"
  by (cases x; simp)+

lemma doRelease_store [simp]: "hd_store (doRelease rel h) = hd_store h" "hd_cfg (doRelease rel h) = hd_cfg h" "hd_balancer (doRelease rel h) = hd_balancer h"
  by (induction rel arbitrary: h) (simp_all add: run_release_store)

lemma doRelease_slots [frame]: "slots_of (doRelease rel h) = slots_of h"
  by (simp add: slots_of_def fun_eq_iff)

text \<open>A release acts on the pools only, so it can be moved past everything that leaves them alone.\<close>

lemma run_release_pools: "pools h' = pools h \<Longrightarrow> pools (run_release x h') = pools (run_release x h)"
  by (cases x) (auto simp: pools_def)

lemma doRelease_pools: "pools h' = pools h \<Longrightarrow> pools (doRelease rel h') = pools (doRelease rel h)"
proof (induction rel)
  case (Cons x rel)
  from run_release_pools [OF Cons.IH [OF Cons.prems]] show ?case by simp
qed simp

text \<open>Admission does not touch the catalog, the configuration or the log.\<close>

definition core :: "Handler \<Rightarrow> Store \<times> Config \<times> Balancer \<times> Orchestrator option \<times> Memory option" where
  "core h = (hd_store h, hd_cfg h, hd_balancer h, hd_orchestrator h, hd_logstore h)"

lemma core_fields [simp]:
  "core (inc m h) = core h" "core (h\<lparr>hd_limiter := l\<rparr>) = core h" "core (h\<lparr>hd_quota := q\<rparr>) = core h"
  "core (h\<lparr>hd_queue := m'\<rparr>) = core h" "core (h\<lparr>hd_concurrency := c\<rparr>) = core h"
  by (simp_all add: core_def inc_def)

lemma core_release [simp]: "core (doRelease rel h) = core h"
proof -
  have "core (run_release x h) = core h" for x h by (cases x) simp_all
  then show ?thesis by (induction rel arbitrary: h) simp_all
qed

lemma core_reject: "reject rs c st h = (a, h') \<Longrightarrow> core h' = core h"
  by (auto simp: reject_def)

lemma core_account: "admit_account e k rs h = (a, h') \<Longrightarrow> core h' = core h"
  by (auto simp: admit_account_def split: option.splits)

lemma core_queue: "admit_queue e k model rs h = (a, h') \<Longrightarrow> core h' = core h"
  unfolding admit_queue_def Let_def
  by (auto split: option.splits prod.splits if_splits dest!: core_account core_reject)

lemma core_conc: "admit_conc e k model h = (a, h') \<Longrightarrow> core h' = core h"
  unfolding admit_conc_def Let_def
  by (auto split: prod.splits if_splits bool.splits dest!: core_queue core_reject)

lemma core_quota: "admit_quota e k model h = (a, h') \<Longrightarrow> core h' = core h"
  unfolding admit_quota_def Let_def
  by (auto split: option.splits prod.splits if_splits dest!: core_conc core_reject)

lemma core_admit: "admit e kp model h = (a, h') \<Longrightarrow> core h' = core h"
  unfolding admit_def Let_def
  by (auto split: option.splits prod.splits if_splits dest!: core_quota core_queue core_reject)

lemma admit_store:
  assumes "admit e kp model h = (a, h')"
  shows "hd_store h' = hd_store h" "hd_cfg h' = hd_cfg h" "hd_balancer h' = hd_balancer h" "hd_logstore h' = hd_logstore h"
  using core_admit [OF assms] by (simp_all add: core_def)

section \<open>Everything is given back\<close>

definition slots_ok :: "Handler \<Rightarrow> bool" where
  "slots_ok h \<longleftrightarrow> (\<forall>p. 0 \<le> slots_of h p \<and> slots_of h p < max_int64)"

text \<open>Other requests may change anything in the store while their own slots cancel out.\<close>

definition calm :: "fwd_env \<Rightarrow> bool" where
  "calm e \<longleftrightarrow>
     (\<forall>i s p. b_activeRequests (s_bheap (fe_race e i s) p) = b_activeRequests (s_bheap s p))
   \<and> (\<forall>s p. b_activeRequests (s_bheap (fe_during e s) p) = b_activeRequests (s_bheap s p))
   \<and> (\<forall>role. quiet (fe_orch e role))"

lemma admit_cases:
  obtains rel code status h1 where "admit e kp model h = ((rel, code, status), h1)"
  by (metis prod.exhaust)

lemma admit_undone:
  assumes "admit e kp model h = ((rel, code, status), h1)" and "counters_ok h" and "pools h2 = pools h1"
  shows "code \<noteq> [] \<Longrightarrow> held h2 = held h" and "code = [] \<Longrightarrow> held (doRelease rel h2) = held h"
  using admit_facts [OF assms(1,2)] pools_held [OF assms(3)] pools_held [OF doRelease_pools [OF assms(3), of rel]] by auto

lemma slots_store: "slots_of (h\<lparr>hd_balancer := b, hd_store := s\<rparr>) p = b_activeRequests (s_bheap s p)"
  "slots_of (h\<lparr>hd_store := s\<rparr>) p = b_activeRequests (s_bheap s p)"
  by (simp_all add: slots_of_def)

lemma pools_store [frame]: "pools (h\<lparr>hd_balancer := b, hd_store := s\<rparr>) = pools h"
  by (simp add: pools_def)

lemma acquire_count:
  assumes "AcquireSlot (s_bheap s p) = (x, True)" and "slots_ok h" and "\<forall>q. b_activeRequests (s_bheap s q) = slots_of h q"
  shows "b_activeRequests (s_bheap (upd_backend p (\<lambda>_. x) s) q) = ((slots_of h)(p := slots_of h p + 1)) q"
proof -
  have "add64 (slots_of h p) 1 = slots_of h p + 1"
    using assms(2) [unfolded slots_ok_def, rule_format, of p] by (intro add64_id) simp
  with assms(1,3) show ?thesis by (auto simp: AcquireSlot_def upd_backend_def split: if_splits)
qed

lemma release_count:
  assumes "0 < slots_of h p" and "slots_of h p \<le> max_int64"
  shows "slots_of (h\<lparr>hd_store := upd_backend p (ReleaseSlot ok) (hd_store h)\<rparr>) = (slots_of h)(p := slots_of h p - 1)"
  using assms by (auto simp: slots_of_def upd_backend_def ReleaseSlot_def Let_def sub64_id fun_eq_iff)

lemma route_slots:
  assumes r: "route e m pol hint cands h = (res, h')" and c: "calm e" and ok: "slots_ok h"
  shows "pools h' = pools h"
    and "slots_of h' = (case res of Routed p \<Rightarrow> (slots_of h)(p := slots_of h p + 1) | _ \<Rightarrow> slots_of h)"
proof -
  let ?s = "hd_store h" let ?s1 = "fe_race e 0 ?s" let ?s2 = "fe_race e (Suc 0) ?s1"
  have s0: "\<forall>q. b_activeRequests (s_bheap ?s q) = slots_of h q" by (simp add: slots_of_def)
  then have s1: "\<forall>q. b_activeRequests (s_bheap ?s1 q) = slots_of h q" using c by (simp add: calm_def)
  then have s2: "\<forall>q. b_activeRequests (s_bheap ?s2 q) = slots_of h q" using c by (simp add: calm_def)
  note acq = acquire_count [OF _ ok s1] acquire_count [OF _ ok s2]
  show "pools h' = pools h"
    using r unfolding route_def Let_def
    by (auto simp: frame split: if_splits prod.splits option.splits bool.splits)
  show "slots_of h' = (case res of Routed p \<Rightarrow> (slots_of h)(p := slots_of h p + 1) | _ \<Rightarrow> slots_of h)"
    using r unfolding route_def Let_def
    by (auto simp: fun_eq_iff slots_store frame s1 s2 acq split: if_splits prod.splits option.splits bool.splits)
qed

lemma account_slots:
  assumes "0 < slots_of h p" and "slots_of h p \<le> max_int64"
  shows "slots_of (account_exchange e js r raw m im st pl p x h) = (slots_of h)(p := slots_of h p - 1)"
    and "pools (account_exchange e js r raw m im st pl p x h) = pools h"
  using assms by (simp_all add: account_exchange_def Let_def frame release_count)

lemma during_slots:
  "calm e \<Longrightarrow> slots_of (h\<lparr>hd_store := fe_during e (hd_store h)\<rparr>) = slots_of h"
  by (simp add: calm_def slots_of_def fun_eq_iff)

lemma serve_slots:
  assumes "serve_backend e js r raw m im fn st pl p h = (ans, opts, h')" and "calm e"
    and "0 < slots_of h p" and "slots_of h p \<le> max_int64"
  shows "slots_of h' = (slots_of h)(p := slots_of h p - 1) \<and> pools h' = pools h"
  using assms by (auto simp: serve_backend_def Let_def frame account_slots during_slots)

lemma forward_direct_balanced:
  assumes f: "forward_direct e js r raw m im fn st cands h = (ans, snt, h')"
    and c: "calm e" and ok: "slots_ok h" "counters_ok h"
  shows "held h' = held h \<and> slots_of h' = slots_of h"
proof -
  obtain rel code status h1 where a: "admit (fe_admit e) (hi_key r) im h = ((rel, code, status), h1)" by (rule admit_cases)
  note undo = admit_undone [OF a ok(2)]
  have h1: "slots_of h1 = slots_of h" by (simp add: slots_of_def admit_store [OF a] fun_eq_iff)
  show ?thesis
  proof (cases "code = []")
    case False
    then show ?thesis using f a h1 undo(1) by (auto simp: forward_direct_def frame)
  next
    case True
    define policy where "policy = routing_policy h1 im"
    define hint where "hint = \<lparr>hint_APIKeyID = apiKeyID (the_key h1 (hi_key r)), hint_User = []\<rparr>"
    obtain res h2 where ro: "route e im policy hint cands h1 = (res, h2)" by (metis prod.exhaust)
    have ok1: "slots_ok h1" using ok(1) h1 by (simp add: slots_ok_def)
    note R = route_slots [OF ro c ok1]
    note F = f [unfolded forward_direct_def a Let_def prod.case policy_def [symmetric] hint_def [symmetric] ro]
    note undo2 = undo(2) [OF _ True]
    show ?thesis
    proof (cases res)
      case (Routed p)
      obtain ans' opts h3 where s: "serve_backend e js r raw m im fn st (if policy = [] then ''unknown'' else policy) p h2 = (ans', opts, h3)"
        by (metis prod_cases3)
      have "0 < slots_of h2 p" "slots_of h2 p \<le> max_int64"
        using R(2) Routed ok1 [unfolded slots_ok_def, rule_format, of p] by auto
      from serve_slots [OF s c this] have "pools h3 = pools h1" "slots_of h3 = slots_of h1"
        using R Routed by (auto simp: fun_eq_iff)
      moreover have "h' = doRelease rel h3" using F True Routed s by simp
      ultimately show ?thesis using undo2 h1 by (simp add: frame)
    qed (use F True R h1 undo2 in \<open>auto simp: frame\<close>)
  qed
qed

lemma orch_back_slots:
  "slots_of (orch_back st h) p = in_flight st p" "pools (orch_back st h) = pools h"
  by (simp_all add: orch_back_def slots_of_def in_flight_def pools_def)

lemma orch_start_slots: "in_flight (orch_start h) = slots_of h"
  by (simp add: orch_start_def slots_of_def in_flight_def fun_eq_iff)

lemma serveOrchestration_balanced:
  assumes f: "serveOrchestration e js render r raw vm st lvl g h = (ans, ws, h')"
    and c: "calm e" and ok: "slots_ok h" "counters_ok h"
  shows "held h' = held h \<and> slots_of h' = slots_of h"
proof -
  obtain rel code status h1 where a: "admit (fe_admit e) (hi_key r) vm h = ((rel, code, status), h1)" by (rule admit_cases)
  note undo = admit_undone [OF a ok(2)]
  have h1: "slots_of h1 = slots_of h" by (simp add: slots_of_def admit_store [OF a] fun_eq_iff)
  show ?thesis
  proof (cases "code = []")
    case False
    then show ?thesis using f a h1 undo(1) by (auto simp: serveOrchestration_def frame)
  next
    case True
    define h2 where "h2 = inc (ActiveInc vm ''orchestrator'') h1"
    have h2: "slots_of h2 = slots_of h" "pools h2 = pools h1" by (simp_all add: h2_def frame h1)
    have done_ok: "held (doRelease rel (inc m hx)) = held h \<and> slots_of (doRelease rel (inc m hx)) = slots_of h"
      if "pools hx = pools h1" "slots_of hx = slots_of h" for hx m
      using that undo(2) [OF _ True, of "inc m hx"] by (simp add: frame)
    note F = f [unfolded serveOrchestration_def a prod.case Let_def h2_def [symmetric]]
    show ?thesis
    proof (cases "orch_Handle g (fe_orch e) (hj_orch js) vm raw lvl (orch_start h2)")
      case None
      then show ?thesis using F True done_ok [OF h2(2,1)] by auto
    next
      case (Some t)
      obtain result err os where t: "t = (result, err, os)" by (cases t)
      have "in_bounds (orch_start h2)" using ok(1) h2(1) by (simp add: in_bounds_def orch_start_slots slots_ok_def)
      moreover have "\<forall>role. quiet (fe_orch e role)" using c by (simp add: calm_def)
      ultimately have "in_flight os = slots_of h"
        using orch_Handle_balanced Some t h2(1) by (simp add: balanced_def orch_start_slots)
      then have b: "slots_of (orch_back os h2) = slots_of h" "pools (orch_back os h2) = pools h1"
        by (simp_all add: orch_back_slots fun_eq_iff h2)
      show ?thesis
      proof (cases err)
        case e: (Some x)
        have "h' = doRelease rel (inc (ActiveDec vm ''orchestrator'') (orch_failed e js r raw vm st result (orch_back os h2)))"
          using F True Some t e by (cases result) auto
        then show ?thesis using b done_ok [of "orch_failed e js r raw vm st result (orch_back os h2)"] by (simp add: frame)
      next
        case e: None
        show ?thesis
        proof (cases result)
          case None
          then show ?thesis using F True Some t e done_ok [OF b(2,1)] by auto
        next
          case r: (Some res)
          obtain res1 h3 where d: "orch_done e js render r raw vm st res (orch_back os h2) = (res1, h3)" by (metis prod.exhaust)
          with frame_orch_done [OF d] b have "pools h3 = pools h1" "slots_of h3 = slots_of h" by simp_all
          then show ?thesis using F True Some t e r d done_ok by auto
        qed
      qed
    qed
  qed
qed

text \<open>
  C3. A request gives back everything it took: whatever the answer of the backend and whichever
  check, limit or race ends the request, after \<open>Forward\<close> the concurrency count of every key, the
  semaphore and queue of every model and the number of requests in flight at every backend are
  as they were before, on the direct and on the orchestrated path.
\<close>

theorem forward_gives_back:
  assumes f: "gateway_Forward e js render r h = (ans, snt, h')"
    and c: "calm e" and ok: "slots_ok h" "counters_ok h"
  shows "held h' = held h \<and> slots_of h' = slots_of h"
proof (cases "decode_request js (hd_cfg h) (hi_body r)")
  case (Inl rej)
  then show ?thesis using f by (cases rej) (auto simp: gateway_Forward_def frame)
next
  case (Inr t)
  obtain raw model stream secret where t: "t = (raw, model, stream, secret)" by (rule prod_cases4)
  obtain im fn where al: "ResolveAlias model (hd_store h) = (im, fn)" by (rule prod.exhaust)
  note F = f [unfolded gateway_Forward_def Inr t sum.case prod.case al]
  show ?thesis
  proof (cases "check_request js (fe_order e) (the_key h (hi_key r)) model im raw h")
    case (Refused x)
    then show ?thesis using F by (cases x) (auto simp: frame)
  next
    case Virtual
    show ?thesis
    proof (cases "hd_orchestrator h")
      case None
      then show ?thesis using F Virtual by auto
    next
      case (Some g)
      then show ?thesis using F Virtual
        by (auto split: prod.splits dest: serveOrchestration_balanced [OF _ c ok])
    qed
  next
    case (Candidates cands)
    then show ?thesis using F by (auto split: prod.splits dest: forward_direct_balanced [OF _ c ok])
  qed
qed

lemma release_during:
  assumes "calm e" and "0 < slots_of h p" and "slots_of h p \<le> max_int64"
  shows "slots_of (h\<lparr>hd_store := upd_backend p (ReleaseSlot ok) (fe_during e (hd_store h))\<rparr>) = (slots_of h)(p := slots_of h p - 1)"
  using release_count [of "h\<lparr>hd_store := fe_during e (hd_store h)\<rparr>" p ok] during_slots [OF assms(1), of h] assms(2,3) by simp

lemma multipart_serve_slots:
  assumes "multipart_serve e js r m im body ct p h = (ans, opts, h')" and "calm e"
    and "0 < slots_of h p" and "slots_of h p \<le> max_int64"
  shows "slots_of h' = (slots_of h)(p := slots_of h p - 1) \<and> pools h' = pools h"
  using assms by (auto simp: multipart_serve_def Let_def frame release_during)

lemma multipart_gives_back:
  assumes f: "ForwardMultipart e js r mi h = (ans, snt, h')" and c: "calm e" and ok: "slots_ok h" "counters_ok h"
  shows "held h' = held h \<and> slots_of h' = slots_of h"
proof (cases "multipart_check r mi (fe_order e) h")
  case (Inl x)
  then show ?thesis using f by (cases x) (auto simp: ForwardMultipart_def)
next
  case (Inr t)
  obtain m im cands where t: "t = (m, im, cands)" by (rule prod_cases3)
  obtain rel code status h1 where a: "admit (fe_admit e) (hi_key r) im h = ((rel, code, status), h1)" by (rule admit_cases)
  have h1: "slots_of h1 = slots_of h" by (simp add: slots_of_def admit_store [OF a] fun_eq_iff)
  show ?thesis
  proof (cases "code = []")
    case False
    then show ?thesis using f Inr t a h1 admit_undone(1) [OF a ok(2) refl] by (auto simp: ForwardMultipart_def)
  next
    case True
    let ?s1 = "fe_race e 0 (hd_store h1)"
    have s1: "\<forall>q. b_activeRequests (s_bheap ?s1 q) = slots_of h1 q" using c by (simp add: calm_def slots_of_def)
    have ok1: "slots_ok h1" using ok(1) h1 by (simp add: slots_ok_def)
    have fin: "held (doRelease rel hx) = held h \<and> slots_of (doRelease rel hx) = slots_of h"
      if "pools hx = pools h1" "slots_of hx = slots_of h1" for hx
      using admit_undone(2) [OF a ok(2) that(1) True] that(2) h1 by (simp add: frame)
    have lost: "slots_of (h1\<lparr>hd_balancer := b, hd_store := ?s1\<rparr>) = slots_of h1" for b
      using s1 by (simp add: slots_store fun_eq_iff)
    have won: "slots_of (h1\<lparr>hd_balancer := b, hd_store := upd_backend p (\<lambda>_. x) ?s1\<rparr>) = (slots_of h1)(p := slots_of h1 p + 1)"
      if "AcquireSlot (s_bheap ?s1 p) = (x, True)" for p x b
      using acquire_count [OF that ok1 s1] by (simp add: slots_store fun_eq_iff)
    note F = f [unfolded ForwardMultipart_def Inr t sum.case prod.case a Let_def]
    let ?ready = "filterRoutable (s_bheap (hd_store h1)) cands (rc_AllowDegradedBackends (c_Routing (hd_cfg h1)))"
    obtain pick b where ch: "Choose (s_bheap (hd_store h1)) (fe_rnd e 0) im (rc_DefaultPolicy (c_Routing (hd_cfg h1))) ?ready
        \<lparr>hint_APIKeyID = apiKeyID (the_key h1 (hi_key r)), hint_User = []\<rparr> (hd_balancer h1) = (pick, b)" by (rule prod.exhaust)
    show ?thesis
    proof (cases "?ready = [] \<or> pick = None")
      case none: True
      then have "h' = doRelease rel h1 \<or> h' = doRelease rel (h1\<lparr>hd_balancer := b\<rparr>)"
        using F True ch by (cases "?ready = []") auto
      then show ?thesis using fin [of h1] fin [of "h1\<lparr>hd_balancer := b\<rparr>"] by (auto simp: frame)
    next
      case False
      then obtain p where p: "pick = Some p" "?ready \<noteq> []" by auto
      obtain x got where acq: "AcquireSlot (s_bheap ?s1 p) = (x, got)" by (rule prod.exhaust)
      note F' = F [unfolded ch p(1) prod.case option.case acq]
      show ?thesis
      proof (cases got)
        case False
        then show ?thesis using F' True p(2) fin [OF _ lost] by (auto simp: frame)
      next
        case g: True
        let ?h2 = "h1\<lparr>hd_balancer := b, hd_store := upd_backend p (\<lambda>_. x) ?s1\<rparr>"
        have w: "slots_of ?h2 = (slots_of h1)(p := slots_of h1 p + 1)" using won acq g by simp
        have pos: "0 < slots_of ?h2 p" "slots_of ?h2 p \<le> max_int64"
          using w ok1 [unfolded slots_ok_def, rule_format, of p] by auto
        show ?thesis
        proof (cases "mi_rebuilt mi")
          case (Inl err)
          have "h' = doRelease rel (?h2\<lparr>hd_store := upd_backend p (ReleaseSlot False) (hd_store ?h2)\<rparr>)"
            using F' True p(2) g Inl by auto
          then show ?thesis using fin [of "?h2\<lparr>hd_store := upd_backend p (ReleaseSlot False) (hd_store ?h2)\<rparr>"]
              release_count [OF pos] w pools_store by (simp add: frame fun_upd_idem)
        next
          case rb: (Inr bc)
          obtain body ct where bc: "bc = (body, ct)" by (rule prod.exhaust)
          obtain ans' opts h3 where sv: "multipart_serve e js r m im body ct p ?h2 = (ans', opts, h3)" by (rule prod_cases3)
          have "h' = doRelease rel h3" using F' True p(2) g rb bc sv by auto
          moreover have "slots_of h3 = slots_of h1" "pools h3 = pools h1"
            using multipart_serve_slots [OF sv c pos] w pools_store by auto
          ultimately show ?thesis using fin by simp
        qed
      qed
    qed
  qed
qed

section \<open>Where a request can go\<close>

lemma elem_at_mem: "elem_at xs i = Some x \<Longrightarrow> x \<in> set xs"
  by (auto simp: elem_at_def split: if_splits)

lemma Choose_mem:
  assumes "Choose heap rnd model policy cs hint b = (Some p, b')"
  shows "p \<in> set cs"
proof -
  from assms have ne: "cs \<noteq> []" by (auto simp: Choose_def)
  have l: "p \<in> set cs" if "chooseLeast heap cs = Some p"
    using chooseLeast_loop_min [where best = None and bestActive = "- 1" and heap = heap and cs = cs] ne that by (auto simp: chooseLeast_def)
  have ll: "p \<in> set cs" if "chooseLeastLatency heap cs = Some p"
    using chooseLeastLatency_loop_mem [of None cs heap "- 1"] ne that by (auto simp: chooseLeastLatency_def)
  have h: "p \<in> set cs" if "chooseHash cs hint = Some p"
    using that by (auto simp: chooseHash_def Let_def dest: elem_at_mem split: if_splits)
  have st: "p \<in> set cs" if "chooseSticky heap model cs hint b = (Some p, b')"
    using chooseSticky_mem [OF ne, of heap model hint b] that by simp
  have w: "p \<in> set cs" if "chooseWeightedRR heap cs model b = (Some p, b')"
    using chooseWeightedRR_mem [OF ne, of heap model b] that by simp
  show ?thesis
    using assms l ll h st w elem_at_mem [of cs _ p] by (auto simp: Choose_def split: if_splits prod.splits)
qed

lemma route_picks:
  assumes "route e m pol hint cands h = (Routed p, h')"
  shows "p \<in> set cands \<and> (\<exists>s \<in> {hd_store h, fe_race e 0 (hd_store h)}.
    routable (rc_AllowDegradedBackends (c_Routing (hd_cfg h))) (s_bheap s p))"
proof -
  have "p \<in> set (filterRoutable (s_bheap (hd_store h)) cands (rc_AllowDegradedBackends (c_Routing (hd_cfg h))))
    \<or> p \<in> set (filterRoutable (s_bheap (fe_race e 0 (hd_store h))) cands (rc_AllowDegradedBackends (c_Routing (hd_cfg h))))"
    using assms unfolding route_def Let_def
    by (auto split: if_splits prod.splits option.splits bool.splits dest: Choose_mem)
  then show ?thesis by (auto simp: filterRoutable_def FilterRoutable_filter)
qed

lemma forward_direct_sent:
  assumes f: "forward_direct e js r raw m im fn st cands h = (ans, Some (p, opts), h')"
  shows "p \<in> set cands \<and> (\<exists>s \<in> {hd_store h, fe_race e 0 (hd_store h)}.
      routable (rc_AllowDegradedBackends (c_Routing (hd_cfg h))) (s_bheap s p))
    \<and> fo_Model opts = im \<and> fo_ForwardModel opts = fn
    \<and> fo_Body opts = (if fn \<noteq> m then rewriteModelInBody js raw fn else raw)"
proof -
  obtain rel code status h1 where a: "admit (fe_admit e) (hi_key r) im h = ((rel, code, status), h1)" by (rule admit_cases)
  note st = admit_store [OF a]
  obtain res h2 where ro: "route e im (routing_policy h1 im) \<lparr>hint_APIKeyID = apiKeyID (the_key h1 (hi_key r)), hint_User = []\<rparr> cands h1 = (res, h2)"
    by (rule prod.exhaust)
  note F = f [unfolded forward_direct_def a Let_def prod.case ro]
  from F have "res = Routed p" "fo_Model opts = im \<and> fo_ForwardModel opts = fn \<and> fo_Body opts = (if fn \<noteq> m then rewriteModelInBody js raw fn else raw)"
    by (auto simp: serve_backend_def forward_options_def Let_def split: if_splits routed.splits)
  then show ?thesis using route_picks [of e im "routing_policy h1 im" _ cands h1 p h2] ro st by auto
qed

lemma serveOrchestration_sent:
  assumes f: "serveOrchestration e js render r raw vm st lvl g h = (ans, ws, h')"
  shows "\<forall>(w, p, rq) \<in> set ws. w \<in> set (o_Workers (og_cfg g)) \<and> (w_SecretMaxLevel w \<le> 0 \<or> lvl \<le> w_SecretMaxLevel w)"
proof -
  obtain rel code status h1 where a: "admit (fe_admit e) (hi_key r) vm h = ((rel, code, status), h1)" by (rule admit_cases)
  let ?st0 = "orch_start (inc (ActiveInc vm ''orchestrator'') h1)"
  have "ws = [] \<or> (\<exists>res err os. orch_Handle g (fe_orch e) (hj_orch js) vm raw lvl ?st0 = Some (res, err, os) \<and> ws = os_sent os)"
    using f unfolding serveOrchestration_def a prod.case Let_def
    by (auto split: if_splits option.splits prod.splits)
  moreover have "os_sent ?st0 = []" by (simp add: orch_start_def)
  ultimately show ?thesis using orch_Handle_sent by fastforce
qed

lemma forward_checked:
  assumes f: "gateway_Forward e js render r h = (ans, snt, h')" and "snt \<noteq> NotSent"
  obtains raw model stream secret im fn where "decode_request js (hd_cfg h) (hi_body r) = Inr (raw, model, stream, secret)"
    "ResolveAlias model (hd_store h) = (im, fn)"
    "\<forall>k. the_key h (hi_key r) = Some k \<longrightarrow> ModelAllowedResolved k model im"
    "check_capability js (hd_store h) im raw = []"
proof -
  obtain raw model stream secret where d: "decode_request js (hd_cfg h) (hi_body r) = Inr (raw, model, stream, secret)"
    using f assms(2) by (auto simp: gateway_Forward_def split: sum.splits prod.splits)
  obtain im fn where al: "ResolveAlias model (hd_store h) = (im, fn)" by (rule prod.exhaust)
  note F = f [unfolded gateway_Forward_def d al sum.case prod.case]
  let ?chk = "check_request js (fe_order e) (the_key h (hi_key r)) model im raw h"
  have "?chk = Virtual \<or> (\<exists>cs. ?chk = Candidates cs)"
    using F assms(2) by (cases ?chk) (auto split: prod.splits)
  then have "\<forall>k. the_key h (hi_key r) = Some k \<longrightarrow> ModelAllowedResolved k model im" "check_capability js (hd_store h) im raw = []"
    by (auto simp: check_request_def Let_def split: if_splits option.splits)
  then show thesis by (rule that [OF d al])
qed

text \<open>
  C2. What a forwarded request has passed: a request that reaches a backend decoded to a model
  name, its key is allowed to use that name and the model it resolves to, that model is no
  virtual model, is not switched off in the registry and supports what the request uses, and the
  backend is a candidate for the model that was routable when it was chosen; the backend gets the
  resolved model, or the name it asked for when the alias keeps it. A request served by the
  orchestrator has passed the same permission and capability checks for the virtual model, and
  goes only to workers that admit its secret level.
\<close>

theorem forward_only_permitted:
  assumes f: "gateway_Forward e js render r h = (ans, snt, h')" and "snt \<noteq> NotSent"
  shows "\<exists>raw model stream secret im fn.
      decode_request js (hd_cfg h) (hi_body r) = Inr (raw, model, stream, secret)
    \<and> ResolveAlias model (hd_store h) = (im, fn)
    \<and> (\<forall>k. the_key h (hi_key r) = Some k \<longrightarrow> ModelAllowedResolved k model im)
    \<and> check_capability js (hd_store h) im raw = []
    \<and> (case snt of
         SentTo p opts \<Rightarrow>
           \<not> Handles (hd_orchestrator h) im \<and> \<not> registry_off (hd_store h) im
         \<and> p \<in> set (BackendsForModel (fe_order e) im (hd_store h))
         \<and> (\<exists>s \<in> {hd_store h, fe_race e 0 (hd_store h)}.
              routable (rc_AllowDegradedBackends (c_Routing (hd_cfg h))) (s_bheap s p))
         \<and> fo_Model opts = im \<and> fo_Body opts = (if fn \<noteq> model then rewriteModelInBody js raw fn else raw)
       | SentWorkers ws \<Rightarrow>
           Handles (hd_orchestrator h) im
         \<and> (\<forall>g. hd_orchestrator h = Some g \<longrightarrow> (\<forall>(w, p, rq) \<in> set ws. w \<in> set (o_Workers (og_cfg g))
              \<and> (w_SecretMaxLevel w \<le> 0 \<or> secretLevel (hd_cfg h) (hi_header r) secret \<le> w_SecretMaxLevel w)))
       | NotSent \<Rightarrow> False)"
proof -
  obtain raw model stream secret im fn where d: "decode_request js (hd_cfg h) (hi_body r) = Inr (raw, model, stream, secret)"
    and al: "ResolveAlias model (hd_store h) = (im, fn)"
    and perm: "\<forall>k. the_key h (hi_key r) = Some k \<longrightarrow> ModelAllowedResolved k model im"
    and cap: "check_capability js (hd_store h) im raw = []"
    by (rule forward_checked [OF assms])
  note F = f [unfolded gateway_Forward_def d al sum.case prod.case]
  let ?chk = "check_request js (fe_order e) (the_key h (hi_key r)) model im raw h"
  show ?thesis
  proof (cases ?chk)
    case (Refused x)
    then show ?thesis using F assms(2) by (cases x) auto
  next
    case Virtual
    then have v: "Handles (hd_orchestrator h) im" by (auto simp: check_request_def Let_def split: if_splits)
    show ?thesis
    proof (cases "hd_orchestrator h")
      case None
      then show ?thesis using F Virtual assms(2) by auto
    next
      case (Some g)
      obtain a ws h1 where so: "serveOrchestration e js render r raw im (is_stream stream)
          (secretLevel (hd_cfg h) (hi_header r) secret) g h = (a, ws, h1)" by (rule prod_cases3)
      have "snt = SentWorkers ws" using F Virtual Some so by auto
      then show ?thesis using serveOrchestration_sent [OF so] d al perm cap v Some by auto
    qed
  next
    case (Candidates cs)
    obtain a s1 h1 where fd: "forward_direct e js r raw model im fn (is_stream stream) cs h = (a, s1, h1)" by (rule prod_cases3)
    obtain p opts where s1: "s1 = Some (p, opts)" "snt = SentTo p opts"
      using F Candidates fd assms(2) by (auto split: option.splits)
    have c: "\<not> Handles (hd_orchestrator h) im" "\<not> registry_off (hd_store h) im" "cs = BackendsForModel (fe_order e) im (hd_store h)"
      using Candidates by (auto simp: check_request_def Let_def split: if_splits)
    show ?thesis using forward_direct_sent [OF fd [unfolded s1(1)]] d al perm cap c s1(2) by auto
  qed
qed

text \<open>One backend that has not been probed, and an anonymous request for its model.\<close>

definition example_handler :: Handler where
  "example_handler = handler_New Default ((store_New [])\<lparr>s_backends := [(''b1'', 0)], s_bheap := (\<lambda>_. example_backend)\<rparr>)
     balancer_New limiter_New []"

definition example_request :: http_in where
  "example_request = \<lparr>hi_path = ''/chat/completions'', hi_header = [], hi_body = Body ''{}'', hi_key = None, hi_clientIP = []\<rparr>"

definition example_codecs :: handler_json where
  "example_codecs = \<lparr>hj_peek = (\<lambda>_. Inr (''m1'', None, None)), hj_max = (\<lambda>_. None), hj_object = (\<lambda>_. None), hj_quote = (\<lambda>_. None),
     hj_emit = (\<lambda>_. None), hj_caps = \<lparr>js_object = (\<lambda>_. None), js_messages = (\<lambda>_. None)\<rparr>, hj_usage = (\<lambda>_. None), hj_orch = example_codec\<rparr>"

definition example_fwd :: fwd_env where
  "example_fwd = \<lparr>fe_requestID = ''r'', fe_logID = ''l'', fe_now = 0, fe_latency = 0, fe_admit = example_admit, fe_order = id,
     fe_rnd = (\<lambda>_. 0), fe_race = (\<lambda>_. id), fe_during = id,
     fe_exchange = \<lparr>ex_up = Unreachable ''refused'', ex_turns = [], ex_reads = []\<rparr>, fe_ttft = 0, fe_orch = example_env\<rparr>"

lemma example_handler_simps:
  "hd_store example_handler = (store_New [])\<lparr>s_backends := [(''b1'', 0)], s_bheap := (\<lambda>_. example_backend)\<rparr>"
  "hd_cfg example_handler = Default" "hd_orchestrator example_handler = None" "hd_queue example_handler = None" "hd_quota example_handler = None"
  by (simp_all add: example_handler_def handler_New_def)

lemma example_decoded: "decode_request example_codecs Default (Body ''{}'') = Inr (''{}'', ''m1'', None, None)"
  by (simp add: decode_request_def example_codecs_def body_limit_def Default_def Let_def w64_def)

lemma example_checked:
  "ResolveAlias ''m1'' (hd_store example_handler) = (''m1'', ''m1'')"
  "check_request example_codecs id None ''m1'' ''m1'' ''{}'' example_handler = Candidates [0]"
proof -
  show "ResolveAlias ''m1'' (hd_store example_handler) = (''m1'', ''m1'')"
    by (simp add: ResolveAlias_def resolve_loop.simps [of "[]"] example_handler_simps store_New_def)
  show "check_request example_codecs id None ''m1'' ''m1'' ''{}'' example_handler = Candidates [0]"
    by (simp add: check_request_def example_handler_simps check_capability_def store_Model_def store_New_def Handles_def registry_off_def
        BackendsForModel_def range_map_def map_filter_def SupportsModel_def example_backend_def)
qed

lemma example_routed:
  "\<exists>h1. route example_fwd ''m1'' pol hint [0] example_handler = (Routed 0, h1)"
  by (simp add: route_def example_fwd_def filterRoutable_def FilterRoutable_filter example_handler_simps store_New_def routable_def
      example_backend_def Default_def Choose_def elem_at_def AcquireSlot_def)

lemma example_forwarded:
  obtains ans opts h' where "gateway_Forward example_fwd example_codecs (\<lambda>_. []) example_request example_handler = (ans, SentTo 0 opts, h')"
proof -
  have key: "the_key example_handler None = None" by (simp add: the_key_def)
  have adm: "admit (fe_admit example_fwd) None ''m1'' example_handler = (([], [], 0), example_handler)"
    by (simp add: admit_def key admit_queue_def example_handler_simps admit_account_def)
  obtain h1 where ro: "route example_fwd ''m1'' (routing_policy example_handler ''m1'') \<lparr>hint_APIKeyID = apiKeyID None, hint_User = []\<rparr> [0]
      example_handler = (Routed 0, h1)" using example_routed by blast
  show thesis
    by (rule that) (simp add: gateway_Forward_def example_request_def example_decoded example_checked key adm ro forward_direct_def
        example_handler_simps(2) example_fwd_def [THEN arg_cong [of _ _ fe_order]] serve_backend_def Let_def)
qed

theorem forward_gives_back_witness:
  "\<exists>ans opts h'. gateway_Forward example_fwd example_codecs (\<lambda>_. []) example_request example_handler = (ans, SentTo 0 opts, h')
     \<and> held h' = held example_handler \<and> slots_of h' = slots_of example_handler"
proof -
  obtain ans opts h' where f: "gateway_Forward example_fwd example_codecs (\<lambda>_. []) example_request example_handler = (ans, SentTo 0 opts, h')"
    by (rule example_forwarded)
  have "calm example_fwd" by (simp add: calm_def quiet_def example_fwd_def example_env_def)
  moreover have "slots_ok example_handler"
    by (simp add: slots_ok_def slots_of_def example_handler_simps example_backend_def)
  moreover have "counters_ok example_handler"
    by (simp add: counters_ok_def queue_ok_def sem_of_def waiting_of_def example_handler_def handler_New_def conc_Get_def)
  ultimately show ?thesis using forward_gives_back [OF f] f by blast
qed

theorem forward_only_permitted_witness:
  "\<exists>ans opts h'. gateway_Forward example_fwd example_codecs (\<lambda>_. []) example_request example_handler = (ans, SentTo 0 opts, h')
     \<and> 0 \<in> set (BackendsForModel id ''m1'' (hd_store example_handler)) \<and> fo_Model opts = ''m1''"
proof -
  obtain ans opts h' where f: "gateway_Forward example_fwd example_codecs (\<lambda>_. []) example_request example_handler = (ans, SentTo 0 opts, h')"
    by (rule example_forwarded)
  from forward_only_permitted [OF f] f show ?thesis
    by (auto simp: example_request_def example_handler_simps(2) example_decoded example_checked(1) example_fwd_def)
qed

end
