(* ===== verification/Forward_Log.thy ===== *)
theory Forward_Log
  imports Gateway_Forward
begin

text \<open>
  Two more guarantees of the request handlers: the model catalog a client is shown, and the
  request log, which has one record per request to \<open>Forward\<close> but for a rejection at capacity, and
  one per request that \<open>ForwardMultipart\<close> sends.
\<close>

section \<open>The model catalog\<close>

text \<open>A name offered to clients, with the model it stands for.\<close>

definition offered :: "Handler \<Rightarrow> string \<Rightarrow> string \<Rightarrow> bool" where
  "offered h name internal \<longleftrightarrow>
     (let s = hd_store h in
      (\<exists>i p. map_of (s_backends s) i = Some p \<and> b_Enabled (s_bheap s p) \<and> name \<in> set (b_Models (s_bheap s p))
         \<and> \<not> registry_off s name \<and> internal = name)
    \<or> (\<exists>i m. map_of (s_models s) i = Some m \<and> m_Enabled m \<and> name = m_Name m \<and> internal = name)
    \<or> (\<exists>i a. map_of (s_modelAliases s) i = Some a \<and> a_Enabled a \<and> \<not> registry_off s (a_InternalModel a)
         \<and> name = a_Alias a \<and> internal = fst (ResolveAlias name s))
    \<or> (name \<in> set (VirtualModels (hd_orchestrator h)) \<and> internal = name))"

lemma catalog_offered:
  assumes "\<And>i. is_order (ord i)"
  shows "(name, internal) \<in> set (catalog_names ord (hd_orchestrator h) (hd_store h)) \<longleftrightarrow> offered h name internal"
  unfolding catalog_names_def offered_def Backends_def Models_def ModelAliases_def Let_def
  by (auto simp: set_range_map [OF assms] ran_def split: if_splits)

lemma addResolved_ids:
  "me_ID ` set (addResolved k now (name, internal) out) =
     me_ID ` set out \<union> (if name \<noteq> [] \<and> (\<forall>x. k = Some x \<longrightarrow> ModelAllowedResolved x name internal) then {name} else {})"
  by (auto simp: addResolved_def split: option.splits)

lemma fold_addResolved:
  "me_ID ` set (fold (addResolved k now) xs out) =
     me_ID ` set out \<union> {name. name \<noteq> [] \<and> (\<exists>internal. (name, internal) \<in> set xs \<and> (\<forall>x. k = Some x \<longrightarrow> ModelAllowedResolved x name internal))}"
proof (induction xs arbitrary: out)
  case (Cons x xs)
  obtain name internal where x: "x = (name, internal)" by (rule prod.exhaust)
  show ?case unfolding fold_Cons o_apply Cons.IH x addResolved_ids by auto
qed simp

lemma addResolved_distinct: "distinct (map me_ID out) \<Longrightarrow> distinct (map me_ID (addResolved k now x out))"
  by (auto simp: addResolved_def split: prod.split)

lemma fold_addResolved_distinct: "distinct (map me_ID out) \<Longrightarrow> distinct (map me_ID (fold (addResolved k now) xs out))"
  by (induction xs arbitrary: out) (auto intro: addResolved_distinct)

lemma distinct_sort_key: "distinct (map f (sort_key f xs)) = distinct (map f xs)"
  by (metis mset_map mset_sort distinct_count_atmost_1 mset_eq_imp_distinct_iff)

text \<open>
  C39. The catalog a client sees: \<open>ListModels\<close> returns, sorted and without repetition, exactly
  the names that a backend, the registry, an alias or the orchestrator offers and that the key of
  the client permits, an alias being judged by the model it resolves to as well.
\<close>

theorem ListModels_catalog:
  assumes "\<And>i. is_order (ord i)"
  shows "sorted (map me_ID (ListModels ord now kp h)) \<and> distinct (map me_ID (ListModels ord now kp h))
    \<and> (name \<in> set (map me_ID (ListModels ord now kp h)) \<longleftrightarrow>
         name \<noteq> [] \<and> (\<exists>internal. offered h name internal
           \<and> (\<forall>k. the_key h kp = Some k \<longrightarrow> ModelAllowedResolved k name internal)))"
  using fold_addResolved_distinct [of "[]"] fold_addResolved [of "the_key h kp" now _ "[]"] catalog_offered [OF assms]
  by (auto simp: ListModels_def distinct_sort_key)

theorem ListModels_catalog_witness:
  "distinct (map me_ID (ListModels (\<lambda>_. id) 0 None example_handler)) \<and> ''m1'' \<in> set (map me_ID (ListModels (\<lambda>_. id) 0 None example_handler))"
proof -
  have "offered example_handler ''m1'' ''m1''"
    by (simp add: offered_def example_handler_simps store_New_def example_backend_def registry_off_def store_Model_def Let_def
        exI [of _ "''b1''"])
  moreover have "is_order id" by (simp add: is_order_def)
  ultimately show ?thesis using ListModels_catalog [of "\<lambda>_. id" 0 None example_handler "''m1''"] by (auto simp: the_key_def)
qed

section \<open>The request log\<close>

definition request_logged :: "fwd_env \<Rightarrow> http_in \<Rightarrow> Handler \<Rightarrow> Handler \<Rightarrow> int option \<Rightarrow> bool" where
  "request_logged e r h h' status \<longleftrightarrow>
     (case hd_logstore h of
        None \<Rightarrow> hd_logstore h' = None
      | Some ls \<Rightarrow> (\<exists>rec. hd_logstore h' = Some (AppendRequest rec ls) \<and> lr_RequestID rec = fe_requestID e
          \<and> lr_ClientIP rec = hi_clientIP r \<and> (\<forall>st. status = Some st \<longrightarrow> lr_StatusCode rec = st)))"

named_theorems log_frame "steps that leave the request log alone"

lemma log_fields [log_frame]:
  "hd_logstore (inc m h) = hd_logstore h" "hd_logstore (inc_if b m h) = hd_logstore h"
  "hd_logstore (touch_key e kp h) = hd_logstore h" "hd_logstore (recordUsage e u mo bid l kp h) = hd_logstore h"
  by (simp_all add: inc_def inc_if_def touch_key_def recordUsage_def Let_def split: option.split)

lemma log_usages [log_frame]: "hd_logstore (fold (\<lambda>u. recordUsage e u m bid l kp) us h) = hd_logstore h"
  by (induction us arbitrary: h) (simp_all add: log_frame)

lemma log_release [log_frame]: "hd_logstore (doRelease rel h) = hd_logstore h"
  using core_release [of rel h] by (simp add: core_def)

lemma logged_record:
  "hd_logstore hx = hd_logstore h \<Longrightarrow> (\<And>st. status = Some st \<Longrightarrow> sc = st) \<Longrightarrow>
   request_logged e r h (recordLog e k (hi_clientIP r) m im bid ep str sc ec u tt rq rs hx) status"
  by (auto simp: request_logged_def recordLog_def Let_def split: option.split)

lemma logged_after: "hd_logstore h2 = hd_logstore h1 \<Longrightarrow> request_logged e r h h2 st = request_logged e r h h1 st"
  by (cases "hd_logstore h") (simp_all add: request_logged_def)

lemma logged_before: "hd_logstore h1 = hd_logstore h \<Longrightarrow> request_logged e r h1 h2 st = request_logged e r h h2 st"
  by (simp add: request_logged_def)

lemma logged_reject: "hd_logstore hx = hd_logstore h \<Longrightarrow> request_logged e r h (reject_log e r m im str sc c raw hx) (Some sc)"
  unfolding reject_log_def Let_def by (rule logged_record) simp_all

lemma logged_orch: "hd_logstore hx = hd_logstore h \<Longrightarrow> request_logged e r h (orch_log e r vm str sc c u raw rs hx) (Some sc)"
  unfolding orch_log_def Let_def by (rule logged_record) simp_all

lemma account_logged:
  assumes "hd_logstore hx = hd_logstore h"
  shows "request_logged e r h (account_exchange e js r raw m im str pl p x hx) None"
  unfolding account_exchange_def Let_def by (rule logged_record) (simp_all add: log_frame assms)

lemma serve_logged:
  assumes "serve_backend e js r raw m im fn str pl p h = (ans, opts, h')"
  shows "request_logged e r h h' None"
proof -
  obtain x hx mt where h': "h' = inc mt (account_exchange e js r raw m im str pl p x hx)" and hx: "hd_logstore hx = hd_logstore h"
    using assms by (fastforce simp: serve_backend_def Let_def log_frame)
  show ?thesis unfolding h' logged_after [OF log_fields(1)] by (rule account_logged [OF hx])
qed

lemma route_log: "route e im pol hint cands h = (res, h') \<Longrightarrow> hd_logstore h' = hd_logstore h"
  unfolding route_def Let_def by (auto split: if_splits prod.splits option.splits bool.splits)

text \<open>
  The backends a request may choose from: it passed the checks and was admitted, and these are the
  candidates that are routable then. When there are some, a choice is made; with a random number in
  range it is one of them.
\<close>

definition routable_for :: "fwd_env \<Rightarrow> http_in \<Rightarrow> string \<Rightarrow> addr list \<Rightarrow> Handler \<Rightarrow> addr list \<Rightarrow> bool" where
  "routable_for e r im cands h ready \<longleftrightarrow>
     (\<exists>rel status h1. admit (fe_admit e) (hi_key r) im h = ((rel, [], status), h1)
        \<and> ready = filterRoutable (s_bheap (hd_store h1)) cands (rc_AllowDegradedBackends (c_Routing (hd_cfg h1))))"

definition choosing :: "fwd_env \<Rightarrow> handler_json \<Rightarrow> http_in \<Rightarrow> Handler \<Rightarrow> addr list \<Rightarrow> bool" where
  "choosing e js r h ready \<longleftrightarrow>
     (\<exists>raw model stream secret im fn cands. decode_request js (hd_cfg h) (hi_body r) = Inr (raw, model, stream, secret)
        \<and> ResolveAlias model (hd_store h) = (im, fn)
        \<and> check_request js (fe_order e) (the_key h (hi_key r)) model im raw h = Candidates cands
        \<and> routable_for e r im cands h ready)"

definition lost_reject :: "fwd_env \<Rightarrow> addr list \<Rightarrow> answer \<Rightarrow> bool" where
  "lost_reject e ready ans \<longleftrightarrow> ready \<noteq> []
     \<and> (\<exists>err. ans = AnsError 503 err \<and> (fe_rnd e 0 < length ready \<and> length ready < 2 ^ 32 \<longrightarrow> er_Code err = ''backend_at_capacity''))"

lemma route_none:
  assumes "route e im pol hint cands h = (NonePicked, h')"
    and "ready = filterRoutable (s_bheap (hd_store h)) cands (rc_AllowDegradedBackends (c_Routing (hd_cfg h)))"
  shows "ready \<noteq> [] \<and> \<not> (fe_rnd e 0 < length ready \<and> length ready < 2 ^ 32)"
proof -
  have "ready \<noteq> []" and "fst (Choose (s_bheap (hd_store h)) (fe_rnd e 0) im pol ready hint (hd_balancer h)) = None"
    using assms by (auto simp: route_def Let_def split: if_splits prod.splits option.splits bool.splits)
  then show ?thesis using Choose_total [of "fe_rnd e 0" ready "s_bheap (hd_store h)" im pol hint "hd_balancer h"] by auto
qed

lemma route_capacity:
  "route e im pol hint cands h = (AtCapacity, h') \<Longrightarrow>
   filterRoutable (s_bheap (hd_store h)) cands (rc_AllowDegradedBackends (c_Routing (hd_cfg h))) \<noteq> []"
  by (auto simp: route_def Let_def split: if_splits)

lemma forward_direct_logged:
  assumes f: "forward_direct e js r raw m im fn str cands h = (ans, snt, h')"
  shows "request_logged e r h h' (case ans of AnsError st err \<Rightarrow> if snt = None then Some st else None | _ \<Rightarrow> None)
    \<or> hd_logstore h' = hd_logstore h \<and> snt = None \<and> (\<exists>ready. routable_for e r im cands h ready \<and> lost_reject e ready ans)"
proof -
  obtain rel code status h1 where a: "admit (fe_admit e) (hi_key r) im h = ((rel, code, status), h1)" by (rule admit_cases)
  note l1 = admit_store(4) [OF a]
  show ?thesis
  proof (cases "code = []")
    case False
    then have "ans = AnsError status (RateLimit (''Rejected: '' @ code) code)" "snt = None"
      "h' = reject_log e r m im str status code raw (inc_if (isQuotaCode code) (QuotaHits (apiKeyID (the_key h1 (hi_key r))) code) h1)"
      using f a by (auto simp: forward_direct_def)
    then show ?thesis by (simp add: logged_reject log_frame l1)
  next
    case True
    obtain res h2 where ro: "route e im (routing_policy h1 im) \<lparr>hint_APIKeyID = apiKeyID (the_key h1 (hi_key r)), hint_User = []\<rparr> cands h1 = (res, h2)"
      by (rule prod.exhaust)
    have l2: "hd_logstore h2 = hd_logstore h" using route_log [OF ro] l1 by simp
    note F = f [unfolded forward_direct_def a Let_def prod.case ro]
    let ?ready = "filterRoutable (s_bheap (hd_store h1)) cands (rc_AllowDegradedBackends (c_Routing (hd_cfg h1)))"
    have ready: "routable_for e r im cands h ?ready" using a True by (auto simp: routable_for_def)
    show ?thesis
    proof (cases res)
      case NoneHealthy
      then show ?thesis using F True by (auto simp: logged_after [OF log_release] logged_reject l2)
    next
      case (Routed p)
      obtain ans' opts h3 where s: "serve_backend e js r raw m im fn str (if routing_policy h1 im = [] then ''unknown'' else routing_policy h1 im) p h2
          = (ans', opts, h3)" by (rule prod_cases3)
      have "h' = doRelease rel h3" "snt = Some (p, opts)" using F True Routed s by auto
      then show ?thesis using serve_logged [OF s] l2
        by (simp add: logged_after [OF log_release] logged_before [OF l2] split: answer.split)
    next
      case NonePicked
      have "lost_reject e ?ready ans" "hd_logstore h' = hd_logstore h" "snt = None"
        using F True NonePicked l2 route_none [OF ro [unfolded NonePicked] refl] by (auto simp: lost_reject_def log_frame)
      then show ?thesis using ready by blast
    next
      case AtCapacity
      have "lost_reject e ?ready ans" "hd_logstore h' = hd_logstore h" "snt = None"
        using F True AtCapacity l2 route_capacity [OF ro [unfolded AtCapacity]]
        by (auto simp: lost_reject_def log_frame BackendUnavailable_def mk_error_def)
      then show ?thesis using ready by blast
    qed
  qed
qed

lemma orch_done_log: "orch_done e js render r raw vm str res hx = (res', h') \<Longrightarrow> hd_logstore hx = hd_logstore h \<Longrightarrow> request_logged e r h h' None"
proof -
  assume d: "orch_done e js render r raw vm str res hx = (res', h')" and l: "hd_logstore hx = hd_logstore h"
  obtain res1 h1 where c: "chargeUsage e js res vm (hi_key r) raw True hx = (res1, h1)" by (rule prod.exhaust)
  have l1: "hd_logstore h1 = hd_logstore h" using c l by (auto simp: chargeUsage_def Let_def log_frame)
  show ?thesis using d unfolding orch_done_def c prod.case Let_def orch_log_def
    by (auto simp: log_frame l1 intro!: logged_record)
qed

lemma orch_failed_log:
  assumes "hd_logstore hx = hd_logstore h"
  shows "request_logged e r h (orch_failed e js r raw vm str res hx) None"
proof (cases res)
  case None
  then show ?thesis
    unfolding orch_failed_def orch_log_def Let_def
    by (auto simp: logged_after [OF log_fields(1)] assms intro!: logged_record)
next
  case (Some x)
  obtain res1 h1 where c: "chargeUsage e js x vm (hi_key r) raw False hx = (res1, h1)" by (rule prod.exhaust)
  have "hd_logstore h1 = hd_logstore h" using c assms by (auto simp: chargeUsage_def Let_def log_frame)
  with Some c show ?thesis
    unfolding orch_failed_def orch_log_def Let_def
    by (auto simp: logged_after [OF log_fields(1)] log_frame intro!: logged_record)
qed

lemma serveOrchestration_logged:
  assumes f: "serveOrchestration e js render r raw vm str lvl g h = (ans, ws, h')"
    and w: "\<forall>w \<in> set (o_Workers (og_cfg g)). no_score < workerStrength w"
  shows "request_logged e r h h' None"
proof -
  obtain rel code status h1 where a: "admit (fe_admit e) (hi_key r) vm h = ((rel, code, status), h1)" by (rule admit_cases)
  note l1 = admit_store(4) [OF a]
  have weaken: "request_logged e r h hx (Some sc) \<Longrightarrow> request_logged e r h hx None" for hx sc
    by (cases "hd_logstore h") (auto simp: request_logged_def)
  let ?h2 = "inc (ActiveInc vm ''orchestrator'') h1"
  obtain res err st where oh: "orch_Handle g (fe_orch e) (hj_orch js) vm raw lvl (orch_start ?h2) = Some (res, err, st)" "res \<noteq> None \<or> err \<noteq> None"
    using orch_Handle_total [OF w] by blast
  have bk: "hd_logstore (orch_back st ?h2) = hd_logstore h" by (simp add: orch_back_def log_frame l1)
  have fin: "request_logged e r h (doRelease rel (inc m hx)) None = request_logged e r h hx None" for m hx
    by (rule logged_after) (simp add: log_frame)
  note F = f [unfolded serveOrchestration_def a prod.case Let_def oh(1) option.case]
  show ?thesis
  proof (cases "code = []")
    case False
    then have "h' = orch_log e r vm str status code None raw [] (inc_if (isQuotaCode code) (QuotaHits (apiKeyID (the_key h1 (hi_key r))) code) h1)"
      using F by auto
    then show ?thesis by (auto intro!: weaken logged_orch simp: log_frame l1)
  next
    case True
    show ?thesis
    proof (cases err)
      case (Some x)
      then show ?thesis using F True orch_failed_log [OF bk] by (cases res) (auto simp: fin)
    next
      case None
      then obtain y where y: "res = Some y" using oh(2) by auto
      obtain y1 h3 where d: "orch_done e js render r raw vm str y (orch_back st ?h2) = (y1, h3)" by (rule prod.exhaust)
      then show ?thesis using F True None y orch_done_log [OF d bk] by (auto simp: fin)
    qed
  qed
qed

lemma forward_logged_or_lost:
  assumes f: "gateway_Forward e js render r h = (ans, snt, h')"
    and w: "\<forall>g. hd_orchestrator h = Some g \<longrightarrow> (\<forall>w \<in> set (o_Workers (og_cfg g)). no_score < workerStrength w)"
  shows "request_logged e r h h' (case (ans, snt) of (Served (AnsError st err), NotSent) \<Rightarrow> Some st | _ \<Rightarrow> None)
    \<or> hd_logstore h' = hd_logstore h \<and> snt = NotSent \<and> (\<exists>a ready. ans = Served a \<and> choosing e js r h ready \<and> lost_reject e ready a)"
proof (cases "decode_request js (hd_cfg h) (hi_body r)")
  case (Inl rej)
  obtain status code err raw where "rej = (status, code, err, raw)" by (rule prod_cases4)
  then show ?thesis using f Inl by (auto simp: gateway_Forward_def logged_reject)
next
  case (Inr t)
  obtain raw model stream secret where t: "t = (raw, model, stream, secret)" by (rule prod_cases4)
  obtain im fn where al: "ResolveAlias model (hd_store h) = (im, fn)" by (rule prod.exhaust)
  note F = f [unfolded gateway_Forward_def Inr t sum.case prod.case al]
  show ?thesis
  proof (cases "check_request js (fe_order e) (the_key h (hi_key r)) model im raw h")
    case (Refused x)
    obtain status code err where "x = (status, code, err)" by (rule prod_cases3)
    then show ?thesis using F Refused by (auto simp: logged_reject)
  next
    case Virtual
    then have "hd_orchestrator h \<noteq> None" by (auto simp: check_request_def Handles_def Let_def split: if_splits option.splits)
    then obtain g where g: "hd_orchestrator h = Some g" by auto
    obtain a ws h1 where so: "serveOrchestration e js render r raw im (is_stream stream) (secretLevel (hd_cfg h) (hi_header r) secret) g h = (a, ws, h1)"
      by (rule prod_cases3)
    then have "snt = SentWorkers ws" "h' = h1" using F Virtual g by auto
    then show ?thesis using serveOrchestration_logged [OF so] w g by (auto split: served.split answer.split)
  next
    case (Candidates cs)
    obtain a s1 h1 where fd: "forward_direct e js r raw model im fn (is_stream stream) cs h = (a, s1, h1)" by (rule prod_cases3)
    have "ans = Served a" "h' = h1" "snt = (case s1 of None \<Rightarrow> NotSent | Some (p, opts) \<Rightarrow> SentTo p opts)"
      using F Candidates fd by auto
    moreover have "choosing e js r h ready" if "routable_for e r im cs h ready" for ready
      using Inr t al Candidates that unfolding choosing_def by blast
    ultimately show ?thesis using forward_direct_logged [OF fd]
      by (cases s1) (auto split: answer.splits prod.splits)
  qed
qed

text \<open>What \<open>ForwardMultipart\<close> sends is logged, what it rejects is not.\<close>

lemma multipart_serve_logged:
  assumes "multipart_serve e js r m im body ct p h = (ans, opts, h')"
  shows "request_logged e r h h' None"
proof -
  obtain k bid sc ec hx mt where h': "h' = inc mt (recordLog e k (hi_clientIP r) m im bid (hi_path r) False sc ec None 0 [] [] hx)"
    and hx: "hd_logstore hx = hd_logstore h"
    using assms by (fastforce simp: multipart_serve_def Let_def log_frame)
  show ?thesis unfolding h' logged_after [OF log_fields(1)] by (rule logged_record [OF hx]) simp
qed

lemma multipart_logged:
  assumes f: "ForwardMultipart e js r mi h = (ans, snt, h')"
  shows "if snt = None then hd_logstore h' = hd_logstore h else request_logged e r h h' None"
proof (cases "multipart_check r mi (fe_order e) h")
  case (Inl x)
  then show ?thesis using f by (cases x) (auto simp: ForwardMultipart_def)
next
  case (Inr t)
  obtain m im cands where t: "t = (m, im, cands)" by (rule prod_cases3)
  obtain rel code status h1 where a: "admit (fe_admit e) (hi_key r) im h = ((rel, code, status), h1)" by (rule admit_cases)
  note l1 = admit_store(4) [OF a]
  note F = f [unfolded ForwardMultipart_def Inr t sum.case prod.case a Let_def]
  show ?thesis
  proof (cases snt)
    case None
    then show ?thesis using F l1 by (auto simp: log_frame split: if_splits prod.splits option.splits bool.splits sum.splits)
  next
    case (Some po)
    obtain body ct p hx ans' opts h3 where s: "multipart_serve e js r m im body ct p hx = (ans', opts, h3)"
      and hx: "hd_logstore hx = hd_logstore h" and h': "h' = doRelease rel h3"
      using F l1 Some by (auto split: if_splits prod.splits option.splits bool.splits sum.splits)
    show ?thesis using multipart_serve_logged [OF s] by (simp add: Some h' logged_after [OF log_release] logged_before [OF hx])
  qed
qed



end
