(* ===== verification/Admin_Api.thy ===== *)
theory Admin_Api
  imports Admin_Auth Health_Model Log_Store Proxy_Model Quota_Model Netutil_Model
begin

text \<open>
  The handlers of the admin API (\<^verbatim>\<open>internal/admin/admin.go\<close>, \<^verbatim>\<open>admin_keys.go\<close>,
  \<^verbatim>\<open>admin_models.go\<close>, \<^verbatim>\<open>admin_extra.go\<close>): what each does to the catalog, the health checker,
  the accounts and the audit log, and what it answers. A decoded request body is an argument
  (\<open>Inl\<close> with the message of a decoding error). The environment of one request (\<open>admin_env\<close>)
  holds the authenticated user, clock, random bytes, map orders, the time parser and printer and
  what the network answers to a probe. The goroutine that appends an audit event runs at once.
  A handler of the Go program that mutates an object it reached through a pointer is the update
  of that object in the store, also when the request is rejected afterwards.
\<close>

section \<open>Server, environment, replies\<close>

record Server =
  sv_admin :: AdminServer
  sv_store :: Store
  sv_health :: "HealthChecker option"
  sv_logs :: "Memory option"
  sv_quota :: "quota_Manager option"

record admin_env =
  av_user :: "User option"
  av_now :: time
  av_eventID :: string
  av_IP :: string
  av_UserAgent :: string
  av_probe :: probe_answer
  av_order :: "nat \<Rightarrow> order"
  av_random :: string
  av_parse :: "string \<Rightarrow> time option"
  av_format :: "time \<Rightarrow> string"
  av_hmac :: "string \<Rightarrow> string \<Rightarrow> string"
  av_pw :: pw_ops
  av_query :: "string \<Rightarrow> string"

text \<open>
  \<open>JSONList\<close> has the rows of the field \<open>data\<close> and the fields beside it; statistics and log records
  are sent as they are; \<open>Aborted\<close> is a panic of the handler, which the HTTP server turns into a
  closed connection.
\<close>

datatype reply = JSON int "json gomap" | JSONList "json gomap list" "json gomap"
  | JSONStats Stats | JSONLogs "RequestLog list" | JSONAudit "AuditEvent list" | Rejected int APIError | NoContent | Aborted

type_synonym handler = "Server \<Rightarrow> reply \<times> Server"

definition sv_users :: "Server \<Rightarrow> Users" where
  "sv_users s = (case as_users (sv_admin s) of Some us \<Rightarrow> us | None \<Rightarrow> [])"

definition set_users :: "Users \<Rightarrow> Server \<Rightarrow> Server" where
  "set_users us s = s\<lparr>sv_admin := (sv_admin s)\<lparr>as_users := Some us\<rparr>\<rparr>"

definition with_perm :: "string \<Rightarrow> admin_env \<Rightarrow> handler \<Rightarrow> handler" where
  "with_perm action e body s =
     (case requirePerm action (av_user e) of
        None \<Rightarrow> body s
      | Some (status, code) \<Rightarrow>
          (Rejected status (case av_user e of
             None \<Rightarrow> Unauthorized ''No admin user in context'' code
           | Some u \<Rightarrow> PermissionError (''Role '' @ u_Role u @ '' not allowed: '' @ action) code), s))"

definition decoded :: "(string, 'b) sum \<Rightarrow> ('b \<Rightarrow> handler) \<Rightarrow> handler" where
  "decoded body k s =
     (case body of
        Inl err \<Rightarrow> (Rejected 400 (InvalidRequest (''Invalid JSON: '' @ err) ''invalid_json''), s)
      | Inr b \<Rightarrow> k b s)"

text \<open>The address recorded in audit events; \<open>extractor\<close> is the list of trusted proxies, if one is set.\<close>

definition admin_clientIP :: "('i, 'n) net_ops \<Rightarrow> 'n list option \<Rightarrow> http_request \<Rightarrow> string" where
  "admin_clientIP net extractor r =
     (let direct = (case net_SplitHostPort net (rq_RemoteAddr r) of Some (host, _) \<Rightarrow> host | None \<Rightarrow> rq_RemoteAddr r)
      in case extractor of
           Some trusted \<Rightarrow> if ClientIP net trusted r \<noteq> [] then ClientIP net trusted r else direct
         | None \<Rightarrow> direct)"

definition audit :: "admin_env \<Rightarrow> string \<Rightarrow> string \<Rightarrow> string \<Rightarrow> json gomap option \<Rightarrow> json gomap option \<Rightarrow> Server \<Rightarrow> Server" where
  "audit e action targetType targetID oldVal newVal s =
     (case sv_logs s of
        None \<Rightarrow> s
      | Some m \<Rightarrow>
          let evt = \<lparr>ae_ID = av_eventID e,
                     ae_AdminUser = (case av_user e of Some u \<Rightarrow> u_Username u | None \<Rightarrow> ''anonymous''),
                     ae_Action = action, ae_TargetType = targetType, ae_TargetID = targetID,
                     ae_OldValue = oldVal, ae_NewValue = newVal, ae_IP = av_IP e,
                     ae_UserAgent = av_UserAgent e, ae_CreatedAt = av_now e\<rparr>
          in s\<lparr>sv_logs := Some (AppendAudit evt m)\<rparr>)"

definition not_found :: "string \<Rightarrow> string \<Rightarrow> reply" where
  "not_found msg code = Rejected 404 (NotFound msg code)"

section \<open>Backends\<close>

text \<open>The zero time is printed as the first day of year 1.\<close>

definition format_time :: "admin_env \<Rightarrow> time option \<Rightarrow> string" where
  "format_time e t = (case t of Some t \<Rightarrow> av_format e t | None \<Rightarrow> ''0001-01-01T00:00:00Z'')"

definition backend_row :: "admin_env \<Rightarrow> Backend \<Rightarrow> json gomap" where
  "backend_row e b =
     [(''id'', JString (b_ID b)), (''name'', JString (b_Name b)), (''base_url'', JString (b_BaseURL b)),
      (''enabled'', JBool (b_Enabled b)), (''status'', JString (status_text (Status b))),
      (''models'', JStrings (b_Models b)), (''weight'', JInt (b_Weight b)),
      (''max_concurrent_requests'', JInt (b_MaxConcurrentRequests b)),
      (''active_requests'', JInt (b_activeRequests b)), (''total_requests'', JInt (b_totalRequests b)),
      (''total_errors'', JInt (b_totalErrors b))]
     @ (if b_lastError b = [] then [] else [(''last_error'', JString (b_lastError b))])
     @ [(''last_latency_ms'', JInt (b_lastLatencyMS b))]
     @ (case b_lastHealthCheckAt b of None \<Rightarrow> [] | Some t \<Rightarrow> [(''last_health_check'', JString (av_format e t))])
     @ [(''tags'', JStrings (b_Tags b))]"

definition list_reply :: "json gomap list \<Rightarrow> reply" where
  "list_reply rows = JSONList rows [(''object'', JString ''list'')]"

definition listBackends :: "admin_env \<Rightarrow> handler" where
  "listBackends e s =
     (let st = sv_store s in (list_reply (map (\<lambda>p. backend_row e (s_bheap st p)) (Backends (av_order e 0) st)), s))"

record backendBody =
  bb_ID :: string
  bb_Name :: string
  bb_BaseURL :: string
  bb_APIKey :: string
  bb_Enabled :: "bool option"
  bb_Models :: "string list"
  bb_Weight :: int
  bb_MaxConcurrentRequests :: int
  bb_TimeoutMS :: int
  bb_StreamIdleTimeoutMS :: int
  bb_HealthCheck :: "HealthCheckConfig option"
  bb_Tags :: "string list option"

definition backend_of_body :: "backendBody \<Rightarrow> Backend" where
  "backend_of_body b =
     zero_backend\<lparr>b_ID := bb_ID b, b_Name := bb_Name b, b_BaseURL := TrimRight (bb_BaseURL b) (CHR ''/''),
       b_APIKey := bb_APIKey b, b_Enabled := (case bb_Enabled b of Some x \<Rightarrow> x | None \<Rightarrow> True), b_Models := bb_Models b,
       b_Weight := bb_Weight b, b_MaxConcurrentRequests := bb_MaxConcurrentRequests b, b_TimeoutMS := bb_TimeoutMS b,
       b_StreamIdleTimeoutMS := bb_StreamIdleTimeoutMS b, b_HealthCheck := bb_HealthCheck b,
       b_Tags := (case bb_Tags b of Some ts \<Rightarrow> ts | None \<Rightarrow> [])\<rparr>"

definition CheckOnce :: "admin_env \<Rightarrow> HealthChecker \<Rightarrow> addr \<Rightarrow> Store \<Rightarrow> Store" where
  "CheckOnce e hc p st = upd_backend p (\<lambda>b. fst (checkOne (h_defaults hc) (av_now e) (av_probe e) b)) st"

definition probe_and_add :: "admin_env \<Rightarrow> addr \<Rightarrow> Server \<Rightarrow> Server" where
  "probe_and_add e p s =
     (case sv_health s of
        None \<Rightarrow> s
      | Some hc \<Rightarrow>
          let st = CheckOnce e hc p (sv_store s)
          in s\<lparr>sv_store := st, sv_health := Some (AddBackend (s_bheap st) p hc)\<rparr>)"

definition createBackend :: "admin_env \<Rightarrow> (string, backendBody) sum \<Rightarrow> handler" where
  "createBackend e body =
     with_perm ''manage_backends'' e (decoded body (\<lambda>b s.
       if bb_ID b = [] \<or> bb_BaseURL b = [] \<or> bb_Models b = [] then
         (Rejected 400 (InvalidRequest ''id, base_url and models are required'' ''missing_fields''), s)
       else
         case new_backend (backend_of_body b) (sv_store s) of (p, st) \<Rightarrow>
         let s1 = probe_and_add e p (s\<lparr>sv_store := UpsertBackend p st\<rparr>);
             bk = s_bheap (sv_store s1) p
         in (JSON 201 [(''id'', JString (bb_ID b)), (''status'', JString ''created'')],
             audit e ''backend.create'' ''backend'' (bb_ID b) None
               (Some [(''id'', JString (bb_ID b)), (''base_url'', JString (b_BaseURL bk)),
                      (''models'', JStrings (b_Models bk)), (''enabled'', JBool (b_Enabled bk))]) s1)))"

definition backend_detail :: "admin_env \<Rightarrow> Backend \<Rightarrow> json gomap" where
  "backend_detail e b =
     [(''id'', JString (b_ID b)), (''name'', JString (b_Name b)), (''base_url'', JString (b_BaseURL b)),
      (''enabled'', JBool (b_Enabled b)), (''status'', JString (status_text (Status b))),
      (''models'', JStrings (b_Models b)), (''weight'', JInt (b_Weight b)),
      (''max_concurrent_requests'', JInt (b_MaxConcurrentRequests b)),
      (''active_requests'', JInt (b_activeRequests b)), (''total_requests'', JInt (b_totalRequests b)),
      (''total_errors'', JInt (b_totalErrors b)), (''last_error'', JString (b_lastError b)),
      (''last_latency_ms'', JInt (b_lastLatencyMS b)),
      (''last_health_check'', JString (format_time e (b_lastHealthCheckAt b))), (''tags'', JStrings (b_Tags b))]"

text \<open>The lookup with which the handlers of one backend begin.\<close>

definition with_backend :: "string \<Rightarrow> (addr \<Rightarrow> handler) \<Rightarrow> handler" where
  "with_backend bid k s =
     (case store_Backend bid (sv_store s) of
        None \<Rightarrow> (not_found ''Backend not found'' ''backend_not_found'', s)
      | Some p \<Rightarrow> k p s)"

definition getBackend :: "admin_env \<Rightarrow> string \<Rightarrow> handler" where
  "getBackend e bid = with_backend bid (\<lambda>p s. (JSON 200 (backend_detail e (s_bheap (sv_store s) p)), s))"

definition patch_fields :: "backendBody \<Rightarrow> Backend \<Rightarrow> Backend" where
  "patch_fields d b =
     b\<lparr>b_Name := (if bb_Name d \<noteq> [] then bb_Name d else b_Name b),
       b_BaseURL := (if bb_BaseURL d \<noteq> [] then TrimRight (bb_BaseURL d) (CHR ''/'') else b_BaseURL b),
       b_APIKey := (if bb_APIKey d \<noteq> [] then bb_APIKey d else b_APIKey b),
       b_Enabled := (case bb_Enabled d of Some x \<Rightarrow> x | None \<Rightarrow> b_Enabled b),
       b_Models := (if bb_Models d \<noteq> [] then bb_Models d else b_Models b),
       b_Weight := (if 0 < bb_Weight d then bb_Weight d else b_Weight b),
       b_MaxConcurrentRequests := (if 0 < bb_MaxConcurrentRequests d then bb_MaxConcurrentRequests d else b_MaxConcurrentRequests b),
       b_TimeoutMS := (if 0 < bb_TimeoutMS d then bb_TimeoutMS d else b_TimeoutMS b),
       b_StreamIdleTimeoutMS := (if 0 < bb_StreamIdleTimeoutMS d then bb_StreamIdleTimeoutMS d else b_StreamIdleTimeoutMS b),
       b_HealthCheck := (case bb_HealthCheck d of Some hc \<Rightarrow> Some hc | None \<Rightarrow> b_HealthCheck b),
       b_Tags := (case bb_Tags d of Some ts \<Rightarrow> ts | None \<Rightarrow> b_Tags b)\<rparr>"

definition backend_values :: "Backend \<Rightarrow> json gomap" where
  "backend_values b =
     [(''id'', JString (b_ID b)), (''base_url'', JString (b_BaseURL b)), (''enabled'', JBool (b_Enabled b)),
      (''weight'', JInt (b_Weight b)), (''max_concurrent_requests'', JInt (b_MaxConcurrentRequests b)),
      (''models'', JStrings (b_Models b))]"

definition restart_loop :: "addr \<Rightarrow> Server \<Rightarrow> Server" where
  "restart_loop p s =
     (let heap = s_bheap (sv_store s)
      in s\<lparr>sv_health := map_option (\<lambda>hc. AddBackend heap p (RemoveBackend (b_ID (heap p)) hc)) (sv_health s)\<rparr>)"

definition patchBackend :: "admin_env \<Rightarrow> string \<Rightarrow> (string, backendBody) sum \<Rightarrow> handler" where
  "patchBackend e bid body =
     with_perm ''manage_backends'' e (with_backend bid (\<lambda>p. decoded body (\<lambda>d s.
       let old = s_bheap (sv_store s) p;
           s1 = s\<lparr>sv_store := UpsertBackend p (upd_backend p (patch_fields d) (sv_store s))\<rparr>;
           s2 = (if bb_HealthCheck d \<noteq> None then restart_loop p s1 else s1);
           b = s_bheap (sv_store s2) p
       in (JSON 200 [(''id'', JString (b_ID b)), (''status'', JString ''updated'')],
           audit e ''backend.update'' ''backend'' (b_ID b) (Some (backend_values old)) (Some (backend_values b)) s2))))"

definition deleteBackend :: "admin_env \<Rightarrow> string \<Rightarrow> handler" where
  "deleteBackend e bid =
     with_perm ''manage_backends'' e (\<lambda>s.
       (NoContent, audit e ''backend.delete'' ''backend'' bid None None
          (s\<lparr>sv_store := DeleteBackend bid (sv_store s), sv_health := map_option (RemoveBackend bid) (sv_health s)\<rparr>)))"

definition set_backend_enabled :: "bool \<Rightarrow> string \<Rightarrow> admin_env \<Rightarrow> string \<Rightarrow> handler" where
  "set_backend_enabled on action e bid =
     with_perm ''backend_toggle'' e (with_backend bid (\<lambda>p s.
       (JSON 200 [(''id'', JString bid), (''enabled'', JBool on)],
        audit e action ''backend'' bid None None
          (s\<lparr>sv_store := UpsertBackend p (upd_backend p (\<lambda>b. b\<lparr>b_Enabled := on\<rparr>) (sv_store s))\<rparr>))))"

definition enableBackend :: "admin_env \<Rightarrow> string \<Rightarrow> handler" where
  "enableBackend = set_backend_enabled True ''backend.enable''"

definition disableBackend :: "admin_env \<Rightarrow> string \<Rightarrow> handler" where
  "disableBackend = set_backend_enabled False ''backend.disable''"

definition healthCheck :: "admin_env \<Rightarrow> string \<Rightarrow> handler" where
  "healthCheck e bid =
     with_perm ''backend_toggle'' e (with_backend bid (\<lambda>p s.
       case sv_health s of
         None \<Rightarrow> (Aborted, s)
       | Some hc \<Rightarrow>
           let st = CheckOnce e hc p (sv_store s); b = s_bheap st p
           in (JSON 200 [(''id'', JString (b_ID b)), (''status'', JString (status_text (Status b))),
                         (''last_error'', JString (b_lastError b)), (''last_latency_ms'', JInt (b_lastLatencyMS b)),
                         (''last_health_check'', JString (format_time e (b_lastHealthCheckAt b)))],
               s\<lparr>sv_store := st\<rparr>)))"

text \<open>\<open>on\<close> is \<open>None\<close> when the body does not say it; a body that cannot be decoded is ignored.\<close>

definition toggleMaintenance :: "admin_env \<Rightarrow> string \<Rightarrow> bool option \<Rightarrow> handler" where
  "toggleMaintenance e bid on =
     with_perm ''backend_toggle'' e (with_backend bid (\<lambda>p s.
       let x = (case on of Some v \<Rightarrow> v | None \<Rightarrow> True);
           s1 = s\<lparr>sv_store := upd_backend p (MarkMaintenance x) (sv_store s)\<rparr>
       in (JSON 200 [(''id'', JString bid), (''status'', JString (status_text (Status (s_bheap (sv_store s1) p))))],
           audit e (if x then ''backend.maintenance_on'' else ''backend.maintenance_off'') ''backend'' bid None
             (Some [(''on'', JBool x)]) s1)))"

section \<open>Models and aliases\<close>

definition validCapabilityMode :: "string \<Rightarrow> bool" where
  "validCapabilityMode m \<longleftrightarrow> m = ''passthrough'' \<or> m = ''declared'' \<or> m = ''strict''"

definition validForwardingMode :: "string \<Rightarrow> bool" where
  "validForwardingMode m \<longleftrightarrow> m = ''use_internal'' \<or> m = ''keep_external''"

definition model_values :: "Model \<Rightarrow> json gomap" where
  "model_values m =
     [(''name'', JString (m_Name m)), (''type'', JString (m_Type m)), (''enabled'', JBool (m_Enabled m)),
      (''context_length'', JInt (m_ContextLength m)), (''capability_mode'', JString (m_CapabilityMode m)),
      (''capabilities'', JObject (map (\<lambda>(k, v). (k, JBool v)) (m_Capabilities m))),
      (''routing_policy'', JString (m_RoutingPolicy m))]"

definition listModels :: "admin_env \<Rightarrow> handler" where
  "listModels e s =
     (list_reply (map (\<lambda>m. filter (\<lambda>(k, v). \<not> (k = ''capabilities'' \<and> m_Capabilities m = [])) (model_values m))
        (Models (av_order e 0) (sv_store s))), s)"

record modelBody =
  mb_Name :: string
  mb_Type :: string
  mb_Enabled :: "bool option"
  mb_ContextLength :: int
  mb_CapabilityMode :: string
  mb_Capabilities :: "bool gomap"
  mb_RoutingPolicy :: string

definition bad_mode :: reply where
  "bad_mode = Rejected 400 (InvalidRequest ''capability_mode must be one of passthrough/declared/strict'' ''invalid_capability_mode'')"

definition upsertModel :: "admin_env \<Rightarrow> (string, modelBody) sum \<Rightarrow> handler" where
  "upsertModel e body =
     with_perm ''manage_models'' e (decoded body (\<lambda>b s.
       if mb_Name b = [] then (Rejected 400 (InvalidRequest ''name is required'' ''missing_name''), s)
       else
         let enabled = (case mb_Enabled b of Some x \<Rightarrow> x | None \<Rightarrow> True);
             ty = (if mb_Type b = [] then ''chat'' else mb_Type b);
             mode = (if mb_CapabilityMode b = [] then ''passthrough'' else mb_CapabilityMode b);
             m = \<lparr>m_Name = mb_Name b, m_Type = ty, m_Enabled = enabled, m_ContextLength = mb_ContextLength b,
                  m_CapabilityMode = mode, m_Capabilities = mb_Capabilities b, m_RoutingPolicy = mb_RoutingPolicy b\<rparr>
         in if \<not> validCapabilityMode mode then (bad_mode, s)
            else (JSON 200 [(''name'', JString (mb_Name b)), (''status'', JString ''ok'')],
                  audit e ''model.upsert'' ''model'' (mb_Name b) None
                    (Some [(''name'', JString (mb_Name b)), (''enabled'', JBool enabled)])
                    (s\<lparr>sv_store := UpsertModel m (sv_store s)\<rparr>))))"

definition deleteModel :: "admin_env \<Rightarrow> string \<Rightarrow> handler" where
  "deleteModel e name =
     with_perm ''manage_models'' e (\<lambda>s.
       (NoContent, audit e ''model.delete'' ''model'' name None None (s\<lparr>sv_store := DeleteModel name (sv_store s)\<rparr>)))"

definition getModel :: "string \<Rightarrow> handler" where
  "getModel name s =
     (case store_Model name (sv_store s) of
        None \<Rightarrow> (not_found ''Model not found'' ''model_not_found'', s)
      | Some m \<Rightarrow> (JSON 200 (model_values m), s))"

record modelPatch =
  mp_Type :: "string option"
  mp_Enabled :: "bool option"
  mp_ContextLength :: "int option"
  mp_CapabilityMode :: "string option"
  mp_Capabilities :: "bool gomap option"
  mp_RoutingPolicy :: "string option"

definition given :: "'a option \<Rightarrow> 'a \<Rightarrow> 'a" where
  "given x old = (case x of Some v \<Rightarrow> v | None \<Rightarrow> old)"

text \<open>The object behind the pointer is changed field by field, before and after the mode is checked.\<close>

definition patch_model_first :: "modelPatch \<Rightarrow> Model \<Rightarrow> Model" where
  "patch_model_first d m = m\<lparr>m_Type := given (mp_Type d) (m_Type m), m_Enabled := given (mp_Enabled d) (m_Enabled m),
     m_ContextLength := given (mp_ContextLength d) (m_ContextLength m)\<rparr>"

definition patch_model_rest :: "modelPatch \<Rightarrow> Model \<Rightarrow> Model" where
  "patch_model_rest d m = m\<lparr>m_CapabilityMode := given (mp_CapabilityMode d) (m_CapabilityMode m),
     m_Capabilities := given (mp_Capabilities d) (m_Capabilities m), m_RoutingPolicy := given (mp_RoutingPolicy d) (m_RoutingPolicy m)\<rparr>"

definition set_model :: "string \<Rightarrow> Model \<Rightarrow> Store \<Rightarrow> Store" where
  "set_model name m st = st\<lparr>s_models := AList.update name m (s_models st)\<rparr>"

definition patchModel :: "admin_env \<Rightarrow> string \<Rightarrow> (string, modelPatch) sum \<Rightarrow> handler" where
  "patchModel e name body =
     with_perm ''manage_models'' e (\<lambda>s.
       case store_Model name (sv_store s) of
         None \<Rightarrow> (not_found ''Model not found'' ''model_not_found'', s)
       | Some m \<Rightarrow> decoded body (\<lambda>d s.
           let m1 = patch_model_first d m; m2 = patch_model_rest d m1
           in if \<not> (case mp_CapabilityMode d of Some c \<Rightarrow> validCapabilityMode c | None \<Rightarrow> True)
              then (bad_mode, s\<lparr>sv_store := set_model name m1 (sv_store s)\<rparr>)
              else (JSON 200 (model_values m2),
                    audit e ''model.update'' ''model'' (m_Name m2) (Some (model_values m)) (Some (model_values m2))
                      (s\<lparr>sv_store := UpsertModel m2 (set_model name m2 (sv_store s))\<rparr>))) s)"

definition aliasEntry :: "ModelAlias \<Rightarrow> json gomap" where
  "aliasEntry a = [(''alias'', JString (a_Alias a)), (''internal_model'', JString (a_InternalModel a)),
     (''forwarding_mode'', JString (a_ForwardingMode a)), (''enabled'', JBool (a_Enabled a))]"

definition listAliases :: "admin_env \<Rightarrow> handler" where
  "listAliases e s = (list_reply (map aliasEntry (ModelAliases (av_order e 0) (sv_store s))), s)"

record aliasBody =
  ab_Alias :: string
  ab_InternalModel :: string
  ab_ForwardingMode :: string
  ab_Enabled :: "bool option"

definition bad_forwarding :: reply where
  "bad_forwarding = Rejected 400 (InvalidRequest ''forwarding_mode must be use_internal or keep_external'' ''invalid_forwarding_mode'')"

definition upsertAlias :: "admin_env \<Rightarrow> (string, aliasBody) sum \<Rightarrow> handler" where
  "upsertAlias e body =
     with_perm ''manage_models'' e (decoded body (\<lambda>b s.
       if ab_Alias b = [] \<or> ab_InternalModel b = [] then
         (Rejected 400 (InvalidRequest ''alias and internal_model are required'' ''missing_fields''), s)
       else
         let mode = (if ab_ForwardingMode b = [] then ''use_internal'' else ab_ForwardingMode b);
             a = \<lparr>a_Alias = ab_Alias b, a_InternalModel = ab_InternalModel b, a_ForwardingMode = mode,
                  a_Enabled = given (ab_Enabled b) True\<rparr>
         in if \<not> validForwardingMode mode then (bad_forwarding, s)
            else (JSON 200 [(''alias'', JString (ab_Alias b)), (''status'', JString ''ok'')],
                  audit e ''alias.upsert'' ''alias'' (ab_Alias b) None
                    (Some [(''alias'', JString (ab_Alias b)), (''internal_model'', JString (ab_InternalModel b))])
                    (s\<lparr>sv_store := UpsertModelAlias a (sv_store s)\<rparr>))))"

definition deleteAlias :: "admin_env \<Rightarrow> string \<Rightarrow> handler" where
  "deleteAlias e alias =
     with_perm ''manage_models'' e (\<lambda>s.
       (NoContent, audit e ''alias.delete'' ''alias'' alias None None (s\<lparr>sv_store := DeleteModelAlias alias (sv_store s)\<rparr>)))"

record aliasPatch =
  ap_InternalModel :: "string option"
  ap_ForwardingMode :: "string option"
  ap_Enabled :: "bool option"

definition lookupAlias :: "order \<Rightarrow> string \<Rightarrow> Store \<Rightarrow> ModelAlias option" where
  "lookupAlias ord name st = find (\<lambda>a. a_Alias a = name) (ModelAliases ord st)"

definition set_alias :: "ModelAlias \<Rightarrow> Store \<Rightarrow> Store" where
  "set_alias a st = st\<lparr>s_modelAliases := AList.update (a_Alias a) a (s_modelAliases st)\<rparr>"

definition patchAlias :: "admin_env \<Rightarrow> string \<Rightarrow> (string, aliasPatch) sum \<Rightarrow> handler" where
  "patchAlias e alias body =
     with_perm ''manage_models'' e (\<lambda>s.
       case lookupAlias (av_order e 0) alias (sv_store s) of
         None \<Rightarrow> (not_found ''Alias not found'' ''alias_not_found'', s)
       | Some a \<Rightarrow> decoded body (\<lambda>d s.
           let a1 = a\<lparr>a_InternalModel := given (ap_InternalModel d) (a_InternalModel a)\<rparr>;
               a2 = a1\<lparr>a_ForwardingMode := given (ap_ForwardingMode d) (a_ForwardingMode a1),
                       a_Enabled := given (ap_Enabled d) (a_Enabled a1)\<rparr>
           in if \<not> (case ap_ForwardingMode d of Some c \<Rightarrow> validForwardingMode c | None \<Rightarrow> True)
              then (bad_forwarding, s\<lparr>sv_store := set_alias a1 (sv_store s)\<rparr>)
              else (JSON 200 (aliasEntry a2),
                    audit e ''alias.update'' ''alias'' (a_Alias a2) (Some (aliasEntry a)) (Some (aliasEntry a2))
                      (s\<lparr>sv_store := UpsertModelAlias a2 (set_alias a2 (sv_store s))\<rparr>))) s)"

section \<open>API keys\<close>

definition rate_limit_json :: "APIKeyRateLimit option \<Rightarrow> json" where
  "rate_limit_json r = (case r of
     None \<Rightarrow> JNull
   | Some l \<Rightarrow> JObject ([(''enabled'', JBool (krl_Enabled l)), (''requests_per_minute'', JInt (krl_RequestsPerMinute l)),
         (''tokens_per_minute'', JInt (krl_TokensPerMinute l))]
       @ (if krl_RequestsPerDay l = 0 then [] else [(''requests_per_day'', JInt (krl_RequestsPerDay l))])
       @ (if krl_TokensPerDay l = 0 then [] else [(''tokens_per_day'', JInt (krl_TokensPerDay l))])
       @ [(''concurrent_requests'', JInt (krl_ConcurrentRequests l))]))"

definition quota_json :: "APIKeyQuota option \<Rightarrow> json" where
  "quota_json q = (case q of
     None \<Rightarrow> JNull
   | Some q \<Rightarrow> JObject (map (\<lambda>(k, v). (k, JInt v)) (filter (\<lambda>(k, v). v \<noteq> 0)
       [(''daily_requests'', kq_DailyRequests q), (''daily_tokens'', kq_DailyTokens q),
        (''monthly_requests'', kq_MonthlyRequests q), (''monthly_tokens'', kq_MonthlyTokens q)])))"

definition key_logging_json :: "APIKeyLogging option \<Rightarrow> json" where
  "key_logging_json l = (case l of
     None \<Rightarrow> JNull
   | Some l \<Rightarrow> JObject [(''log_metadata'', JBool (kl_LogMetadata l)), (''log_input'', JBool (kl_LogInput l)),
       (''log_output'', JBool (kl_LogOutput l)), (''log_raw_request'', JBool (kl_LogRawRequest l)),
       (''log_raw_response'', JBool (kl_LogRawResponse l)), (''log_stream_chunks'', JBool (kl_LogStreamChunks l))])"

definition summarizeKey :: "admin_env \<Rightarrow> APIKey \<Rightarrow> json gomap" where
  "summarizeKey e k =
     (case key_Stats k of (lastUsed, totalReqs, totalToks) \<Rightarrow>
       [(''id'', JString (k_ID k)), (''name'', JString (k_Name k)), (''key_prefix'', JString (k_KeyPrefix k)),
        (''enabled'', JBool (k_Enabled k)), (''allowed_models'', JStrings (k_AllowedModels k)),
        (''denied_models'', JStrings (k_DeniedModels k)), (''allowed_client_ips'', JStrings (k_AllowedClientIPs k)),
        (''denied_client_ips'', JStrings (k_DeniedClientIPs k)), (''rate_limit'', rate_limit_json (k_RateLimit k)),
        (''quota'', quota_json (k_Quota k)), (''delay_ms'', JInt (k_DelayMS k)), (''logging'', key_logging_json (k_Logging k)),
        (''total_requests'', JInt totalReqs), (''total_tokens'', JInt totalToks)]
       @ (case lastUsed of None \<Rightarrow> [] | Some t \<Rightarrow> [(''last_used_at'', JString (av_format e t))])
       @ (case k_ExpiresAt k of None \<Rightarrow> [] | Some t \<Rightarrow> [(''expires_at'', JString (av_format e t))]))"

definition listAPIKeys :: "admin_env \<Rightarrow> handler" where
  "listAPIKeys e s =
     (let st = sv_store s in (list_reply (map (\<lambda>p. summarizeKey e (s_kheap st p)) (APIKeys (av_order e 0) st)), s))"

record apiKeyBody =
  kb_ID :: string
  kb_Name :: string
  kb_Key :: string
  kb_Enabled :: "bool option"
  kb_AllowedModels :: "string list"
  kb_DeniedModels :: "string list"
  kb_AllowedClientIPs :: "string list"
  kb_DeniedClientIPs :: "string list"
  kb_RateLimit :: "APIKeyRateLimit option"
  kb_Quota :: "APIKeyQuota option"
  kb_DelayMS :: int
  kb_Logging :: "APIKeyLogging option"
  kb_ExpiresAt :: string

definition generateAPIKey :: "admin_env \<Rightarrow> string" where
  "generateAPIKey e = ''sk-'' @ av_random e"

definition key_of_body :: "admin_env \<Rightarrow> apiKeyBody \<Rightarrow> APIKey" where
  "key_of_body e b =
     zero_key\<lparr>k_ID := kb_ID b, k_Name := kb_Name b, k_Enabled := given (kb_Enabled b) True, k_AllowedModels := kb_AllowedModels b,
       k_DeniedModels := kb_DeniedModels b, k_AllowedClientIPs := kb_AllowedClientIPs b, k_DeniedClientIPs := kb_DeniedClientIPs b,
       k_RateLimit := kb_RateLimit b, k_Quota := kb_Quota b, k_DelayMS := kb_DelayMS b, k_Logging := kb_Logging b,
       k_ExpiresAt := (if kb_ExpiresAt b \<noteq> [] then av_parse e (kb_ExpiresAt b) else None)\<rparr>"

definition createAPIKey :: "admin_env \<Rightarrow> (string, apiKeyBody) sum \<Rightarrow> handler" where
  "createAPIKey e body =
     with_perm ''manage_keys'' e (decoded body (\<lambda>b s.
       let raw = (if kb_Key b = [] then generateAPIKey e else kb_Key b) in
       case new_key (key_of_body e b) (sv_store s) of (p, st) \<Rightarrow>
       let st1 = UpsertAPIKey (av_hmac e) p raw st; k = s_kheap st1 p
       in (JSON 201 [(''id'', JString (k_ID k)), (''key_prefix'', JString (k_KeyPrefix k)), (''key'', JString raw),
                     (''warning'', JString ''Save this key. It will not be shown again.'')],
           audit e ''api_key.create'' ''api_key'' (k_ID k) None
             (Some [(''id'', JString (k_ID k)), (''allowed_models'', JStrings (k_AllowedModels k))])
             (s\<lparr>sv_store := st1\<rparr>))))"

definition deleteAPIKey :: "admin_env \<Rightarrow> string \<Rightarrow> handler" where
  "deleteAPIKey e kid =
     with_perm ''manage_keys'' e (\<lambda>s.
       (NoContent, audit e ''api_key.delete'' ''api_key'' kid None None (s\<lparr>sv_store := DeleteAPIKey kid (sv_store s)\<rparr>)))"

definition with_key :: "string \<Rightarrow> (addr \<Rightarrow> handler) \<Rightarrow> handler" where
  "with_key kid k s =
     (case store_APIKey kid (sv_store s) of
        None \<Rightarrow> (not_found ''API key not found'' ''api_key_not_found'', s)
      | Some p \<Rightarrow> k p s)"

definition getAPIKey :: "admin_env \<Rightarrow> string \<Rightarrow> handler" where
  "getAPIKey e kid = with_key kid (\<lambda>p s. (JSON 200 (summarizeKey e (s_kheap (sv_store s) p)), s))"

record keyPatch =
  kp_Name :: "string option"
  kp_Enabled :: "bool option"
  kp_AllowedModels :: "string list option"
  kp_DeniedModels :: "string list option"
  kp_AllowedClientIPs :: "string list option"
  kp_DeniedClientIPs :: "string list option"
  kp_RateLimit :: "APIKeyRateLimit option"
  kp_Quota :: "APIKeyQuota option"
  kp_DelayMS :: "int option"
  kp_Logging :: "APIKeyLogging option"
  kp_ExpiresAt :: "string option"

definition patch_key :: "admin_env \<Rightarrow> keyPatch \<Rightarrow> APIKey \<Rightarrow> APIKey" where
  "patch_key e d k =
     k\<lparr>k_Name := given (kp_Name d) (k_Name k), k_Enabled := given (kp_Enabled d) (k_Enabled k),
       k_AllowedModels := given (kp_AllowedModels d) (k_AllowedModels k),
       k_DeniedModels := given (kp_DeniedModels d) (k_DeniedModels k),
       k_AllowedClientIPs := given (kp_AllowedClientIPs d) (k_AllowedClientIPs k),
       k_DeniedClientIPs := given (kp_DeniedClientIPs d) (k_DeniedClientIPs k),
       k_RateLimit := (case kp_RateLimit d of Some l \<Rightarrow> Some l | None \<Rightarrow> k_RateLimit k),
       k_Quota := (case kp_Quota d of Some q \<Rightarrow> Some q | None \<Rightarrow> k_Quota k),
       k_DelayMS := given (kp_DelayMS d) (k_DelayMS k),
       k_Logging := (case kp_Logging d of Some l \<Rightarrow> Some l | None \<Rightarrow> k_Logging k),
       k_ExpiresAt := (case kp_ExpiresAt d of
          None \<Rightarrow> k_ExpiresAt k
        | Some x \<Rightarrow> if x = [] then None else (case av_parse e x of Some t \<Rightarrow> Some t | None \<Rightarrow> k_ExpiresAt k))\<rparr>"

definition patchAPIKey :: "admin_env \<Rightarrow> string \<Rightarrow> (string, keyPatch) sum \<Rightarrow> handler" where
  "patchAPIKey e kid body =
     with_perm ''manage_keys'' e (with_key kid (\<lambda>p. decoded body (\<lambda>d s.
       let old = s_kheap (sv_store s) p;
           st = UpsertAPIKey (av_hmac e) p [] (upd_key p (patch_key e d) (sv_store s)); k = s_kheap st p
       in (JSON 200 (summarizeKey e k),
           audit e ''api_key.update'' ''api_key'' (k_ID k) (Some (summarizeKey e old)) (Some (summarizeKey e k))
             (s\<lparr>sv_store := st\<rparr>)))))"

definition setAPIKeyEnabled :: "bool \<Rightarrow> admin_env \<Rightarrow> string \<Rightarrow> handler" where
  "setAPIKeyEnabled enabled e kid =
     with_key kid (\<lambda>p s.
       let old = s_kheap (sv_store s) p;
           st = UpsertAPIKey (av_hmac e) p [] (upd_key p (\<lambda>k. k\<lparr>k_Enabled := enabled\<rparr>) (sv_store s))
       in (JSON 200 [(''id'', JString kid), (''enabled'', JBool enabled)],
           audit e (if enabled then ''api_key.enable'' else ''api_key.disable'') ''api_key'' kid
             (Some (summarizeKey e old)) (Some (summarizeKey e (s_kheap st p))) (s\<lparr>sv_store := st\<rparr>)))"

definition enableAPIKey :: "admin_env \<Rightarrow> string \<Rightarrow> handler" where
  "enableAPIKey e kid = with_perm ''manage_keys'' e (setAPIKeyEnabled True e kid)"

definition disableAPIKey :: "admin_env \<Rightarrow> string \<Rightarrow> handler" where
  "disableAPIKey e kid = with_perm ''manage_keys'' e (setAPIKeyEnabled False e kid)"

text \<open>\<open>key\<close> is the key of the body, empty when the body has none or cannot be decoded.\<close>

definition rotateAPIKey :: "admin_env \<Rightarrow> string \<Rightarrow> string \<Rightarrow> handler" where
  "rotateAPIKey e kid key =
     with_perm ''manage_keys'' e (with_key kid (\<lambda>p s.
       let raw = (if key = [] then generateAPIKey e else key);
           st1 = DeleteAPIKey (k_ID (s_kheap (sv_store s) p)) (sv_store s);
           st2 = upd_key p (\<lambda>k. k\<lparr>k_KeyPrefix := [], k_KeyHash := []\<rparr>) st1;
           st3 = UpsertAPIKey (av_hmac e) p raw st2; k = s_kheap st3 p
       in (JSON 200 [(''id'', JString kid), (''key_prefix'', JString (k_KeyPrefix k)), (''key'', JString raw),
                     (''warning'', JString ''Save this key. The previous key has been invalidated and this value will not be shown again.'')],
           audit e ''api_key.rotate'' ''api_key'' kid None
             (Some [(''id'', JString kid), (''key_prefix'', JString (k_KeyPrefix k))]) (s\<lparr>sv_store := st3\<rparr>))))"

definition keyUsage :: "admin_env \<Rightarrow> string \<Rightarrow> handler" where
  "keyUsage e kid s =
     (case sv_quota s of
        None \<Rightarrow> (JSON 200 [(''id'', JString kid), (''usage'', JNull)], s)
      | Some q \<Rightarrow>
          (case Usage (av_now e) kid q of
             ((dayR, dayT, monR, monT), q') \<Rightarrow>
               (JSON 200 [(''id'', JString kid), (''day_requests'', JInt dayR), (''day_tokens'', JInt dayT),
                          (''month_requests'', JInt monR), (''month_tokens'', JInt monT)], s\<lparr>sv_quota := Some q'\<rparr>)))"

section \<open>Accounts\<close>

definition admin_me :: "admin_env \<Rightarrow> handler" where
  "admin_me e s =
     (case av_user e of
        None \<Rightarrow> (JSON 200 [(''authenticated'', JBool False)], s)
      | Some u \<Rightarrow> (JSON 200 [(''username'', JString (u_Username u)), (''email'', JString (u_Email u)),
                             (''role'', JString (u_Role u)), (''authenticated'', JBool True)], s))"

definition user_row :: "User \<Rightarrow> json gomap" where
  "user_row u = [(''username'', JString (u_Username u))] @ (if u_Email u = [] then [] else [(''email'', JString (u_Email u))])
     @ [(''role'', JString (u_Role u))]"

definition listUsers :: "admin_env \<Rightarrow> handler" where
  "listUsers e = with_perm ''manage_users'' e (\<lambda>s. (list_reply (map user_row (users_List (av_order e 0) (sv_users s))), s))"

definition user_of_body :: "pw_ops \<Rightarrow> userBody \<Rightarrow> User" where
  "user_of_body pw b =
     \<lparr>u_Username = ub_Username b, u_Email = ub_Email b, u_PasswordHash = pw_Bcrypt pw (ub_Password b),
      u_Role = (if NormalizeRole (ub_Role b) = [] then ''viewer'' else NormalizeRole (ub_Role b))\<rparr>"

definition createUser_handler :: "admin_env \<Rightarrow> (string, userBody) sum \<Rightarrow> handler" where
  "createUser_handler e body =
     with_perm ''manage_users'' e (decoded body (\<lambda>b s.
       if ub_Username b = [] \<or> ub_Password b = [] then
         (Rejected 400 (InvalidRequest ''username and password required'' ''missing_fields''), s)
       else
         let u = user_of_body (av_pw e) b;
             out = [(''username'', JString (u_Username u)), (''role'', JString (u_Role u))]
         in (JSON 201 out, audit e ''user.create'' ''user'' (u_Username u) None (Some out)
               (set_users (users_Upsert u (sv_users s)) s))))"

definition deleteUser_handler :: "admin_env \<Rightarrow> string \<Rightarrow> handler" where
  "deleteUser_handler e username =
     with_perm ''manage_users'' e (\<lambda>s.
       (NoContent, audit e ''user.delete'' ''user'' username None None (set_users (users_Delete username (sv_users s)) s)))"

section \<open>Statistics and logs\<close>

definition totalActiveRequests :: "order \<Rightarrow> Store \<Rightarrow> int" where
  "totalActiveRequests ord st = fold (\<lambda>p n. add64 n (b_activeRequests (s_bheap st p))) (Backends ord st) 0"

definition healthyBackends :: "order \<Rightarrow> Store \<Rightarrow> nat" where
  "healthyBackends ord st = length (filter (\<lambda>p. Status (s_bheap st p) = StatusHealthy) (Backends ord st))"

definition statsOverview :: "admin_env \<Rightarrow> handler" where
  "statsOverview e s =
     (let st = sv_store s; ps = Backends (av_order e 0) st;
          row = (\<lambda>b. [(''id'', JString (b_ID b)), (''status'', JString (status_text (Status b))),
                      (''active_requests'', JInt (b_activeRequests b)), (''total_requests'', JInt (b_totalRequests b)),
                      (''total_errors'', JInt (b_totalErrors b)), (''last_latency_ms'', JInt (b_lastLatencyMS b))]);
          sum = (\<lambda>f. fold (\<lambda>p n. add64 n (f (s_bheap st p))) ps 0)
      in (JSONList (map (\<lambda>p. row (s_bheap st p)) ps)
            [(''backends_total'', JInt (int (length ps))), (''backends_healthy'', JInt (int (healthyBackends (av_order e 0) st))),
             (''api_keys_total'', JInt (int (length (APIKeys (av_order e 1) st)))),
             (''models_total'', JInt (int (length (Models (av_order e 2) st)))),
             (''active_requests'', JInt (sum b_activeRequests)), (''total_requests'', JInt (sum b_totalRequests)),
             (''total_errors'', JInt (sum b_totalErrors))], s))"

definition since_param :: "admin_env \<Rightarrow> time \<Rightarrow> time" where
  "since_param e def =
     (if av_query e ''since'' \<noteq> [] then (case av_parse e (av_query e ''since'') of Some t \<Rightarrow> t | None \<Rightarrow> def) else def)"

definition windowSince :: "admin_env \<Rightarrow> time" where
  "windowSince e = since_param e (av_now e - 24 * hour_ns)"

definition statsRange :: "admin_env \<Rightarrow> handler" where
  "statsRange e s =
     (case sv_logs s of
        None \<Rightarrow> (JSONStats (StatsSince 0 (NewMemory 0)), s)
      | Some m \<Rightarrow> (JSONStats (StatsSince (windowSince e) m), s))"

text \<open>
  One table of the statistics, most requests first. The order of equal counts is that of the map
  iteration and of an unstable sort, both of which \<open>av_order\<close> stands for.
\<close>

definition stat_rows :: "order \<Rightarrow> string \<Rightarrow> ModelStat gomap \<Rightarrow> json gomap list" where
  "stat_rows ord column stats =
     (let ks = filter (\<lambda>k. map_of stats k \<noteq> None) (ord (keys_of stats));
          val = (\<lambda>k. the (map_of stats k));
          row = (\<lambda>k. [(column, JString k), (''requests'', JInt (ms_Requests (val k))), (''errors'', JInt (ms_Errors (val k))),
                      (''tokens'', JInt (ms_Tokens (val k)))])
      in map row (sort_key (\<lambda>k. - ms_Requests (val k)) ks))"

definition stats_table :: "string \<Rightarrow> (Stats \<Rightarrow> ModelStat gomap) \<Rightarrow> admin_env \<Rightarrow> handler" where
  "stats_table column sel e s =
     (case sv_logs s of
        None \<Rightarrow> (list_reply [], s)
      | Some m \<Rightarrow>
          (JSONList (stat_rows (av_order e 0) column (sel (StatsSince (windowSince e) m)))
             [(''object'', JString ''list''), (''window_since'', JString (av_format e (windowSince e)))], s))"

definition statsModels :: "admin_env \<Rightarrow> handler" where
  "statsModels = stats_table ''model'' ss_ByModel"

definition statsBackends :: "admin_env \<Rightarrow> handler" where
  "statsBackends = stats_table ''backend'' ss_ByBackend"

definition statsAPIKeys :: "admin_env \<Rightarrow> handler" where
  "statsAPIKeys = stats_table ''api_key'' ss_ByAPIKey"

definition adminMetrics :: "admin_env \<Rightarrow> handler" where
  "adminMetrics e =
     with_perm ''view_logs'' e (\<lambda>s.
       let st = sv_store s;
           base = [(''backends_total'', JInt (int (length (Backends (av_order e 0) st)))),
                   (''backends_healthy'', JInt (int (healthyBackends (av_order e 1) st))),
                   (''models_total'', JInt (int (length (Models (av_order e 2) st)))),
                   (''api_keys_total'', JInt (int (length (APIKeys (av_order e 3) st)))),
                   (''active_requests'', JInt (totalActiveRequests (av_order e 4) st))]
       in (JSON 200 (base @ (case sv_logs s of
             None \<Rightarrow> []
           | Some m \<Rightarrow>
               let since = since_param e (av_now e - 15 * minute_ns); x = StatsSince since m;
                   elapsed = rat_of_int (av_now e - since) / rat_of_int second_ns
               in [(''window_since'', JString (av_format e since)), (''total_requests'', JInt (ss_TotalRequests x)),
                   (''success_total'', JInt (ss_SuccessTotal x)), (''error_total'', JInt (ss_ErrorTotal x)),
                   (''total_tokens'', JInt (ss_TotalTokens x))]
                  @ (if 0 < elapsed then [(''qps'', JNumber (rat_of_int (ss_TotalRequests x) / elapsed)),
                                          (''tokens_per_second'', JNumber (rat_of_int (ss_TotalTokens x) / elapsed))]
                     else []))), s))"

definition int_param :: "admin_env \<Rightarrow> string \<Rightarrow> int" where
  "int_param e name = (case Atoi (av_query e name) of Some i \<Rightarrow> i | None \<Rightarrow> 0)"

definition time_param :: "admin_env \<Rightarrow> string \<Rightarrow> time option" where
  "time_param e name = (if av_query e name = [] then None else av_parse e (av_query e name))"

definition log_query :: "admin_env \<Rightarrow> LogQuery" where
  "log_query e =
     \<lparr>lq_RequestID = av_query e ''request_id'', lq_APIKeyID = av_query e ''api_key_id'', lq_ClientIP = av_query e ''client_ip'',
      lq_Model = av_query e ''model'', lq_BackendID = av_query e ''backend_id'', lq_Endpoint = av_query e ''endpoint'',
      lq_StatusCode = int_param e ''status_code'', lq_ErrorCode = av_query e ''error_code'',
      lq_Stream = (let v = av_query e ''stream'' in if v = [] then None else Some (ToLower v = ''true'' \<or> v = ''1'')),
      lq_Since = time_param e ''since'', lq_Until = time_param e ''until'',
      lq_Limit = int_param e ''limit'', lq_Offset = int_param e ''offset''\<rparr>"

definition listLogs :: "admin_env \<Rightarrow> handler" where
  "listLogs e =
     with_perm ''view_logs'' e (\<lambda>s.
       case sv_logs s of None \<Rightarrow> (list_reply [], s) | Some m \<Rightarrow> (JSONLogs (QueryRequests (log_query e) m), s))"

definition audit_query :: "admin_env \<Rightarrow> AuditQuery" where
  "audit_query e =
     \<lparr>aq_AdminUser = av_query e ''admin_user'', aq_Action = av_query e ''action'', aq_TargetType = av_query e ''target_type'',
      aq_TargetID = av_query e ''target_id'', aq_Since = None, aq_Until = None, aq_Limit = int_param e ''limit'', aq_Offset = 0\<rparr>"

definition listAudit :: "admin_env \<Rightarrow> handler" where
  "listAudit e =
     with_perm ''view_audit'' e (\<lambda>s.
       case sv_logs s of
         None \<Rightarrow> (list_reply [], s)
       | Some m \<Rightarrow> (case QueryAudit (audit_query e) m of None \<Rightarrow> (Aborted, s) | Some rows \<Rightarrow> (JSONAudit rows, s)))"

section \<open>Routes\<close>

datatype admin_op =
    ListBackends | CreateBackend "(string, backendBody) sum" | GetBackend string
  | PatchBackend string "(string, backendBody) sum" | DeleteBackendOp string
  | EnableBackend string | DisableBackend string | HealthCheck string | ToggleMaintenance string "bool option"
  | ListModelsOp | UpsertModelOp "(string, modelBody) sum" | GetModel string
  | PatchModel string "(string, modelPatch) sum" | DeleteModelOp string
  | ListAliases | UpsertAlias "(string, aliasBody) sum" | PatchAlias string "(string, aliasPatch) sum" | DeleteAlias string
  | ListAPIKeys | CreateAPIKey "(string, apiKeyBody) sum" | GetAPIKey string
  | PatchAPIKey string "(string, keyPatch) sum" | DeleteAPIKeyOp string
  | EnableAPIKey string | DisableAPIKey string | RotateAPIKey string string | KeyUsage string
  | StatsOverview | StatsRange | StatsModels | StatsBackends | StatsAPIKeys | AdminMetrics
  | ListLogs | ListAudit | ListUsers | CreateUser "(string, userBody) sum" | DeleteUser string | Me

fun admin_handle :: "admin_env \<Rightarrow> admin_op \<Rightarrow> handler" where
  "admin_handle e ListBackends = listBackends e"
| "admin_handle e (CreateBackend b) = createBackend e b"
| "admin_handle e (GetBackend i) = getBackend e i"
| "admin_handle e (PatchBackend i b) = patchBackend e i b"
| "admin_handle e (DeleteBackendOp i) = deleteBackend e i"
| "admin_handle e (EnableBackend i) = enableBackend e i"
| "admin_handle e (DisableBackend i) = disableBackend e i"
| "admin_handle e (HealthCheck i) = healthCheck e i"
| "admin_handle e (ToggleMaintenance i on) = toggleMaintenance e i on"
| "admin_handle e ListModelsOp = listModels e"
| "admin_handle e (UpsertModelOp b) = upsertModel e b"
| "admin_handle e (GetModel n) = getModel n"
| "admin_handle e (PatchModel n b) = patchModel e n b"
| "admin_handle e (DeleteModelOp n) = deleteModel e n"
| "admin_handle e ListAliases = listAliases e"
| "admin_handle e (UpsertAlias b) = upsertAlias e b"
| "admin_handle e (PatchAlias n b) = patchAlias e n b"
| "admin_handle e (DeleteAlias n) = deleteAlias e n"
| "admin_handle e ListAPIKeys = listAPIKeys e"
| "admin_handle e (CreateAPIKey b) = createAPIKey e b"
| "admin_handle e (GetAPIKey i) = getAPIKey e i"
| "admin_handle e (PatchAPIKey i b) = patchAPIKey e i b"
| "admin_handle e (DeleteAPIKeyOp i) = deleteAPIKey e i"
| "admin_handle e (EnableAPIKey i) = enableAPIKey e i"
| "admin_handle e (DisableAPIKey i) = disableAPIKey e i"
| "admin_handle e (RotateAPIKey i k) = rotateAPIKey e i k"
| "admin_handle e (KeyUsage i) = keyUsage e i"
| "admin_handle e StatsOverview = statsOverview e"
| "admin_handle e StatsRange = statsRange e"
| "admin_handle e StatsModels = statsModels e"
| "admin_handle e StatsBackends = statsBackends e"
| "admin_handle e StatsAPIKeys = statsAPIKeys e"
| "admin_handle e AdminMetrics = adminMetrics e"
| "admin_handle e ListLogs = listLogs e"
| "admin_handle e ListAudit = listAudit e"
| "admin_handle e ListUsers = listUsers e"
| "admin_handle e (CreateUser b) = createUser_handler e b"
| "admin_handle e (DeleteUser n) = deleteUser_handler e n"
| "admin_handle e Me = admin_me e"

text \<open>A request to an admin route: the middleware, then the handler as the user it found.\<close>

definition admin_serve :: "token_ops \<Rightarrow> string \<Rightarrow> (string \<times> string) option \<Rightarrow> admin_env \<Rightarrow> admin_op \<Rightarrow> handler" where
  "admin_serve tk authz basic e op s =
     (case authMiddleware (av_pw e) tk (av_now e) (sv_admin s) authz basic of
        AdminDenied status code \<Rightarrow>
          (Rejected status (if status = 403 then PermissionError ''Admin API is disabled'' code
                            else Unauthorized ''Invalid admin credentials'' code), s)
      | AdminAs u \<Rightarrow> admin_handle (e\<lparr>av_user := Some u\<rparr>) op s)"

end
