(* ===== verification/Admin_Safety.thy ===== *)
theory Admin_Safety
  imports Admin_Api
begin

text \<open>
  What the admin API guarantees: every change is made by a user whose role permits it, and which
  changes leave an audit event and which do not.
\<close>

section \<open>Who can change what\<close>

fun write_perm :: "admin_op \<Rightarrow> string option" where
  "write_perm (CreateBackend b) = Some ''manage_backends''"
| "write_perm (PatchBackend i b) = Some ''manage_backends''"
| "write_perm (DeleteBackendOp i) = Some ''manage_backends''"
| "write_perm (EnableBackend i) = Some ''backend_toggle''"
| "write_perm (DisableBackend i) = Some ''backend_toggle''"
| "write_perm (HealthCheck i) = Some ''backend_toggle''"
| "write_perm (ToggleMaintenance i on) = Some ''backend_toggle''"
| "write_perm (UpsertModelOp b) = Some ''manage_models''"
| "write_perm (PatchModel n b) = Some ''manage_models''"
| "write_perm (DeleteModelOp n) = Some ''manage_models''"
| "write_perm (UpsertAlias b) = Some ''manage_models''"
| "write_perm (PatchAlias n b) = Some ''manage_models''"
| "write_perm (DeleteAlias n) = Some ''manage_models''"
| "write_perm (CreateAPIKey b) = Some ''manage_keys''"
| "write_perm (PatchAPIKey i b) = Some ''manage_keys''"
| "write_perm (DeleteAPIKeyOp i) = Some ''manage_keys''"
| "write_perm (EnableAPIKey i) = Some ''manage_keys''"
| "write_perm (DisableAPIKey i) = Some ''manage_keys''"
| "write_perm (RotateAPIKey i k) = Some ''manage_keys''"
| "write_perm (CreateUser b) = Some ''manage_users''"
| "write_perm (DeleteUser n) = Some ''manage_users''"
| "write_perm op = None"

fun accepted :: "reply \<Rightarrow> bool" where
  "accepted (Rejected st err) = False"
| "accepted Aborted = False"
| "accepted r = True"

definition admin_core :: "Server \<Rightarrow> AdminServer \<times> Store \<times> HealthChecker option" where
  "admin_core s = (sv_admin s, sv_store s, sv_health s)"

text \<open>One event of the caller was appended, when there is an audit log.\<close>

definition audited :: "admin_env \<Rightarrow> Server \<Rightarrow> Server \<Rightarrow> bool" where
  "audited e s s' \<longleftrightarrow>
     (case sv_logs s of
        None \<Rightarrow> sv_logs s' = None
      | Some m \<Rightarrow> (\<exists>evt. sv_logs s' = Some (AppendAudit evt m)
          \<and> (\<forall>u. av_user e = Some u \<longrightarrow> ae_AdminUser evt = u_Username u)
          \<and> ae_IP evt = av_IP e \<and> ae_CreatedAt evt = av_now e))"

text \<open>The outcome of a handler that takes the permission \<open>a\<close>.\<close>

definition guarded :: "string \<Rightarrow> admin_env \<Rightarrow> Server \<Rightarrow> reply \<times> Server \<Rightarrow> bool" where
  "guarded a e s o' \<longleftrightarrow>
     (case o' of (r, s') \<Rightarrow>
        (admin_core s' \<noteq> admin_core s \<or> accepted r \<longrightarrow> (\<exists>u. av_user e = Some u \<and> HasPermission (u_Role u) a))
      \<and> (if accepted r then audited e s s' else s' = s))"

lemma audit_frame [simp]:
  "sv_admin (audit e a t i ov nv s) = sv_admin s" "sv_store (audit e a t i ov nv s) = sv_store s"
  "sv_health (audit e a t i ov nv s) = sv_health s" "sv_quota (audit e a t i ov nv s) = sv_quota s"
  by (simp_all add: audit_def Let_def split: option.split)

lemma audit_audited:
  "sv_logs s1 = sv_logs s \<Longrightarrow> audited e s (audit e a t i ov nv s1)"
  by (auto simp: audited_def audit_def Let_def split: option.split)

lemma guardedI:
  "(\<And>u. av_user e = Some u \<Longrightarrow> HasPermission (u_Role u) a \<Longrightarrow>
      case k s of (r, s') \<Rightarrow> if accepted r then audited e s s' else s' = s)
   \<Longrightarrow> guarded a e s (with_perm a e k s)"
  by (auto simp: guarded_def with_perm_def requirePerm_def split: option.split prod.split)

lemma probe_and_add_logs [simp]: "sv_logs (probe_and_add e p s) = sv_logs s"
  by (simp add: probe_and_add_def Let_def split: option.split)

lemma restart_loop_logs [simp]: "sv_logs (restart_loop p s) = sv_logs s"
  by (simp add: restart_loop_def Let_def)

lemma set_users_logs [simp]: "sv_logs (set_users us s) = sv_logs s"
  by (simp add: set_users_def)

named_theorems handler_defs "the handlers that change the catalog"

lemmas [handler_defs] = createBackend_def patchBackend_def deleteBackend_def enableBackend_def disableBackend_def
  set_backend_enabled_def toggleMaintenance_def upsertModel_def deleteModel_def upsertAlias_def deleteAlias_def
  createAPIKey_def patchAPIKey_def deleteAPIKey_def enableAPIKey_def disableAPIKey_def setAPIKeyEnabled_def rotateAPIKey_def
  createUser_handler_def deleteUser_handler_def

lemma handlers_guarded:
  "guarded ''manage_backends'' e s (createBackend e bb s)" "guarded ''manage_backends'' e s (patchBackend e i bb s)"
  "guarded ''manage_backends'' e s (deleteBackend e i s)" "guarded ''backend_toggle'' e s (enableBackend e i s)"
  "guarded ''backend_toggle'' e s (disableBackend e i s)" "guarded ''backend_toggle'' e s (toggleMaintenance e i on s)"
  "guarded ''manage_models'' e s (upsertModel e mb s)" "guarded ''manage_models'' e s (deleteModel e i s)"
  "guarded ''manage_models'' e s (upsertAlias e ab s)" "guarded ''manage_models'' e s (deleteAlias e i s)"
  "guarded ''manage_keys'' e s (createAPIKey e kb s)" "guarded ''manage_keys'' e s (patchAPIKey e i kp s)"
  "guarded ''manage_keys'' e s (deleteAPIKey e i s)" "guarded ''manage_keys'' e s (enableAPIKey e i s)"
  "guarded ''manage_keys'' e s (disableAPIKey e i s)" "guarded ''manage_keys'' e s (rotateAPIKey e i key s)"
  "guarded ''manage_users'' e s (createUser_handler e ub s)" "guarded ''manage_users'' e s (deleteUser_handler e i s)"
  unfolding handler_defs
  by (rule guardedI, simp add: decoded_def with_backend_def with_key_def not_found_def bad_mode_def bad_forwarding_def Let_def
      audit_audited split: sum.split option.split prod.split)+

text \<open>The remaining handlers: a probe is not audited, and the two patches of models and aliases change the object before they reject.\<close>

lemma healthCheck_effect:
  assumes "healthCheck e i s = (r, s')"
  shows "(s' \<noteq> s \<longrightarrow> accepted r \<and> (\<exists>u. av_user e = Some u \<and> HasPermission (u_Role u) ''backend_toggle''))
    \<and> sv_logs s' = sv_logs s"
  using assms
  by (auto simp: healthCheck_def with_perm_def requirePerm_def with_backend_def Let_def split: option.splits if_splits)

lemma patchModel_effect:
  assumes "patchModel e n d s = (r, s')"
  shows "(s' \<noteq> s \<longrightarrow> (\<exists>u. av_user e = Some u \<and> HasPermission (u_Role u) ''manage_models''))
    \<and> (if accepted r then audited e s s' else sv_logs s' = sv_logs s
         \<and> (s' \<noteq> s \<longrightarrow> r = bad_mode \<and> (\<exists>b c. d = Inr b \<and> mp_CapabilityMode b = Some c \<and> \<not> validCapabilityMode c)))"
  using assms
  by (auto simp: patchModel_def with_perm_def requirePerm_def decoded_def Let_def not_found_def bad_mode_def audit_audited
      split: option.splits if_splits sum.splits)

lemma patchAlias_effect:
  assumes "patchAlias e n d s = (r, s')"
  shows "(s' \<noteq> s \<longrightarrow> (\<exists>u. av_user e = Some u \<and> HasPermission (u_Role u) ''manage_models''))
    \<and> (if accepted r then audited e s s' else sv_logs s' = sv_logs s
         \<and> (s' \<noteq> s \<longrightarrow> r = bad_forwarding \<and> (\<exists>b c. d = Inr b \<and> ap_ForwardingMode b = Some c \<and> \<not> validForwardingMode c)))"
  using assms
  by (auto simp: patchAlias_def with_perm_def requirePerm_def decoded_def Let_def not_found_def bad_forwarding_def audit_audited
      split: option.splits if_splits sum.splits)

lemma guardedD:
  assumes "guarded a e s (r, s')"
  shows "s' \<noteq> s \<longrightarrow> (\<exists>u. av_user e = Some u \<and> HasPermission (u_Role u) a)"
    and "if accepted r then audited e s s' else s' = s"
  using assms by (auto simp: guarded_def split: if_splits)

lemma with_perm_same:
  "with_perm a e k s = (r, s') \<Longrightarrow> snd (k s) = s \<Longrightarrow> s' = s"
  by (auto simp: with_perm_def split: option.splits)

lemmas read_defs = listBackends_def getBackend_def with_backend_def listModels_def getModel_def listAliases_def listAPIKeys_def
  getAPIKey_def with_key_def statsOverview_def statsRange_def statsModels_def statsBackends_def statsAPIKeys_def stats_table_def
  admin_me_def Let_def

lemma reads_change_nothing:
  assumes "admin_handle e op s = (r, s')" and "write_perm op = None" and "\<And>i. op \<noteq> KeyUsage i"
  shows "s' = s"
proof (cases op)
  case AdminMetrics then show ?thesis using assms(1) by (auto simp: adminMetrics_def Let_def elim!: with_perm_same)
next
  case ListLogs then show ?thesis using assms(1) by (auto simp: listLogs_def elim!: with_perm_same split: option.splits)
next
  case ListAudit then show ?thesis using assms(1) by (auto simp: listAudit_def elim!: with_perm_same split: option.splits)
next
  case ListUsers then show ?thesis using assms(1) by (auto simp: listUsers_def elim!: with_perm_same)
qed (use assms in \<open>auto simp: read_defs split: option.splits\<close>)

text \<open>
  The changes that leave no event: a probe on request, and a patch of a model or an alias that is
  rejected for its mode after the fields before it have been changed.
\<close>

definition slips_by :: "admin_op \<Rightarrow> reply \<Rightarrow> bool" where
  "slips_by op r \<longleftrightarrow> (\<exists>i. op = HealthCheck i)
     \<or> (\<exists>n b c. op = PatchModel n (Inr b) \<and> mp_CapabilityMode b = Some c \<and> \<not> validCapabilityMode c \<and> r = bad_mode)
     \<or> (\<exists>n b c. op = PatchAlias n (Inr b) \<and> ap_ForwardingMode b = Some c \<and> \<not> validForwardingMode c \<and> r = bad_forwarding)"

definition changed_by :: "admin_env \<Rightarrow> admin_op \<Rightarrow> Server \<Rightarrow> reply \<times> Server \<Rightarrow> bool" where
  "changed_by e op s o' \<longleftrightarrow>
     (case o' of (r, s') \<Rightarrow>
        (s' \<noteq> s \<longrightarrow> (\<exists>u a. av_user e = Some u \<and> write_perm op = Some a \<and> HasPermission (u_Role u) a) \<or> (\<exists>i. op = KeyUsage i))
      \<and> (write_perm op \<noteq> None \<and> accepted r \<longrightarrow> audited e s s' \<or> (\<exists>i. op = HealthCheck i))
      \<and> (s' \<noteq> s \<longrightarrow> audited e s s' \<or> (\<exists>i. op = KeyUsage i) \<or> slips_by op r \<and> sv_logs s' = sv_logs s))"

lemma guarded_changed: "guarded a e s o' \<Longrightarrow> write_perm op = Some a \<Longrightarrow> changed_by e op s o'"
proof -
  assume g: "guarded a e s o'" and w: "write_perm op = Some a"
  obtain r s' where o': "o' = (r, s')" by (rule prod.exhaust)
  show "changed_by e op s o'" using guardedD [OF g [unfolded o']] w by (cases "accepted r") (auto simp: changed_by_def o')
qed

lemma writes_changed: "write_perm op \<noteq> None \<Longrightarrow> changed_by e op s (admin_handle e op s)"
proof (cases op)
  case (HealthCheck i)
  then show ?thesis using healthCheck_effect [of e i s] by (auto simp: changed_by_def slips_by_def)
next
  case (PatchModel n d)
  obtain r s' where o': "patchModel e n d s = (r, s')" by (rule prod.exhaust)
  show ?thesis using patchModel_effect [OF o'] o' PatchModel by (cases "accepted r") (auto simp: changed_by_def slips_by_def)
next
  case (PatchAlias n d)
  obtain r s' where o': "patchAlias e n d s = (r, s')" by (rule prod.exhaust)
  show ?thesis using patchAlias_effect [OF o'] o' PatchAlias by (cases "accepted r") (auto simp: changed_by_def slips_by_def)
qed (auto intro: guarded_changed handlers_guarded)

lemma admin_handle_changed: "changed_by e op s (admin_handle e op s)"
proof (cases "write_perm op")
  case None
  then show ?thesis using reads_change_nothing [of e op s] by (fastforce simp: changed_by_def split: prod.split)
qed (auto intro: writes_changed)

text \<open>
  C19. Every change through the admin API is made by an authenticated user whose role has the
  permission of the operation, except that a usage query, which needs no permission, rolls quota
  counters over. Every operation that changes the catalog or the accounts and is answered with
  success leaves one event in the audit log under the name and address of that user, except a probe
  on request. Of all changes, accepted or rejected, those that leave no event are of three
  kinds only: the rolled counters, a probe on request, and a patch of a model or an alias that is rejected
  for an invalid mode after the fields before the mode have been changed.
\<close>

theorem admin_changes_audited:
  assumes "admin_serve tk authz basic e op s = (r, s')"
  shows "(s' \<noteq> s \<longrightarrow> (\<exists>u. authMiddleware (av_pw e) tk (av_now e) (sv_admin s) authz basic = AdminAs u
            \<and> ((\<exists>a. write_perm op = Some a \<and> HasPermission (u_Role u) a)
              \<or> (\<exists>i q. op = KeyUsage i \<and> s' = s\<lparr>sv_quota := q\<rparr>))))
       \<and> (accepted r \<and> write_perm op \<noteq> None \<and> (\<forall>i. op \<noteq> HealthCheck i) \<longrightarrow>
            (\<exists>u. authMiddleware (av_pw e) tk (av_now e) (sv_admin s) authz basic = AdminAs u
              \<and> audited (e\<lparr>av_user := Some u\<rparr>) s s'))
       \<and> (s' \<noteq> s \<longrightarrow> (\<exists>u. authMiddleware (av_pw e) tk (av_now e) (sv_admin s) authz basic = AdminAs u \<and> audited (e\<lparr>av_user := Some u\<rparr>) s s')
            \<or> (\<exists>i q. op = KeyUsage i \<and> s' = s\<lparr>sv_quota := q\<rparr>)
            \<or> sv_logs s' = sv_logs s \<and>
               ((\<exists>i. op = HealthCheck i)
                \<or> (\<exists>n b c. op = PatchModel n (Inr b) \<and> mp_CapabilityMode b = Some c \<and> \<not> validCapabilityMode c \<and> r = bad_mode)
                \<or> (\<exists>n b c. op = PatchAlias n (Inr b) \<and> ap_ForwardingMode b = Some c \<and> \<not> validForwardingMode c \<and> r = bad_forwarding)))"
proof (cases "authMiddleware (av_pw e) tk (av_now e) (sv_admin s) authz basic")
  case (AdminAs u)
  then have h: "admin_handle (e\<lparr>av_user := Some u\<rparr>) op s = (r, s')" using assms by (simp add: admin_serve_def)
  have "\<exists>q. s' = s\<lparr>sv_quota := q\<rparr>" if "op = KeyUsage i" for i
    using h that by (auto simp: keyUsage_def split: option.splits prod.splits intro: exI [of _ "sv_quota s"])
  with admin_handle_changed [of "e\<lparr>av_user := Some u\<rparr>" op s, unfolded h changed_by_def slips_by_def prod.case] show ?thesis
    unfolding AdminAs by auto
qed (use assms in \<open>auto simp: admin_serve_def\<close>)

definition root_server :: Server where
  "root_server = \<lparr>sv_admin = \<lparr>as_cfg = \<lparr>ad_Enabled = True, ad_Username = [], ad_Password = [], ad_BindToken = ''t''\<rparr>,
       as_users = Some [], as_sessions = None\<rparr>,
     sv_store = UpsertModel \<lparr>m_Name = ''m'', m_Type = ''chat'', m_Enabled = True, m_ContextLength = 0, m_CapabilityMode = ''strict'',
       m_Capabilities = [], m_RoutingPolicy = []\<rparr> example_keys,
     sv_health = None, sv_logs = Some (NewMemory 10), sv_quota = None\<rparr>"

definition root_env :: admin_env where
  "root_env = \<lparr>av_user = Some \<lparr>u_Username = ''token'', u_Email = [], u_PasswordHash = [], u_Role = ''super_admin''\<rparr>, av_now = 0,
     av_eventID = ''e'', av_IP = ''::1'', av_UserAgent = [], av_probe = NoAnswer 0 [], av_order = (\<lambda>_. id), av_random = ''00'',
     av_parse = (\<lambda>_. None), av_format = (\<lambda>_. []), av_hmac = (@), av_pw = example_pw, av_query = (\<lambda>_. [])\<rparr>"

lemma root_authenticated:
  "authMiddleware (av_pw root_env) example_tokens (av_now root_env) (sv_admin root_server) ''Bearer t'' None
   = AdminAs \<lparr>u_Username = ''token'', u_Email = [], u_PasswordHash = [], u_Role = ''super_admin''\<rparr>"
  by (simp add: authMiddleware_def root_server_def bearer_def HasPrefix_def TrimPrefix_def)

lemma root_user: "av_user root_env = Some \<lparr>u_Username = ''token'', u_Email = [], u_PasswordHash = [], u_Role = ''super_admin''\<rparr>"
  "HasPermission ''super_admin'' a"
  by (simp_all add: root_env_def HasPermission_def)

theorem admin_changes_audited_witness:
  "\<exists>s'. admin_serve example_tokens ''Bearer t'' None root_env (DeleteModelOp ''m'') root_server = (NoContent, s')
     \<and> audited root_env root_server s'"
proof -
  have env: "root_env\<lparr>av_user := Some \<lparr>u_Username = ''token'', u_Email = [], u_PasswordHash = [], u_Role = ''super_admin''\<rparr>\<rparr> = root_env"
    by (simp add: root_env_def)
  obtain s' where s': "admin_serve example_tokens ''Bearer t'' None root_env (DeleteModelOp ''m'') root_server = (NoContent, s')"
    by (simp add: admin_serve_def root_authenticated env deleteModel_def with_perm_def requirePerm_def root_user)
  then show ?thesis using admin_changes_audited [OF s'] by (auto simp: root_authenticated env)
qed

end
