(* ===== verification/Admin_Catalog.thy ===== *)
theory Admin_Catalog
  imports Admin_Safety
begin

text \<open>
  The catalog under administration: the invariant that ties the tables of the store to one another
  and to the probing goroutines, and its preservation by every operation of the admin API; and
  what happens to the credentials when a key is rotated.
\<close>

section \<open>The key table\<close>

definition ids_ok :: "Store \<Rightarrow> bool" where
  "ids_ok st \<longleftrightarrow> map_of (s_apiKeys st) [] = None"

definition catalog_ok :: "Store \<Rightarrow> bool" where
  "catalog_ok st \<longleftrightarrow> store_wf st \<and> keys_linked st \<and> ids_ok st"

lemma catalog_okD:
  assumes "catalog_ok st"
  shows "store_wf st" "keys_wf st" "keys_linked st" "ids_ok st"
  using assms by (simp_all add: catalog_ok_def store_wf_def)

text \<open>Operations that leave the key table alone.\<close>

lemma catalog_frame:
  assumes "catalog_ok st" and "store_wf st'"
    and "s_apiKeys st' = s_apiKeys st" "s_keyByHash st' = s_keyByHash st" "s_kheap st' = s_kheap st"
  shows "catalog_ok st'"
  using assms by (simp add: catalog_ok_def keys_linked_def ids_ok_def)

lemma catalog_store_ops:
  assumes "catalog_ok st"
  shows "catalog_ok (UpsertModel m st)" "catalog_ok (DeleteModel n st)" "catalog_ok (UpsertModelAlias a st)"
    "catalog_ok (DeleteModelAlias n st)" "catalog_ok (DeleteBackend n st)"
proof -
  note wf = catalog_okD(1) [OF assms]
  show "catalog_ok (UpsertModel m st)" by (rule catalog_frame [OF assms UpsertModel_wf [OF wf]]) (simp_all add: UpsertModel_def)
  show "catalog_ok (DeleteModel n st)" by (rule catalog_frame [OF assms DeleteModel_wf [OF wf]]) (simp_all add: DeleteModel_def)
  show "catalog_ok (UpsertModelAlias a st)"
    by (rule catalog_frame [OF assms UpsertModelAlias_wf [OF wf]]) (simp_all add: UpsertModelAlias_def Let_def)
  show "catalog_ok (DeleteModelAlias n st)"
    by (rule catalog_frame [OF assms DeleteModelAlias_wf [OF wf]]) (simp_all add: DeleteModelAlias_def)
  show "catalog_ok (DeleteBackend n st)" by (rule catalog_frame [OF assms DeleteBackend_wf [OF wf]]) (simp_all add: DeleteBackend_def)
qed

lemma catalog_set_model:
  assumes "catalog_ok st" and "m_Name m = n"
  shows "catalog_ok (set_model n m st)"
  using catalog_store_ops(1) [OF assms(1), of m] assms(2) by (simp add: set_model_def UpsertModel_def)

lemma catalog_set_alias:
  assumes "catalog_ok st" and "a_ForwardingMode a \<noteq> []"
  shows "catalog_ok (set_alias a st)"
  using catalog_store_ops(3) [OF assms(1), of a] assms(2) by (simp add: set_alias_def UpsertModelAlias_def)

lemma catalog_DeleteAPIKey: "catalog_ok st \<Longrightarrow> catalog_ok (DeleteAPIKey i st)"
  using DeleteAPIKey_wf [of st i] DeleteAPIKey_linked [of st i]
  by (auto simp: catalog_ok_def ids_ok_def store_wf_def DeleteAPIKey_def Let_def split: option.splits)

text \<open>Updates of a key that keep its id and hash.\<close>

lemma catalog_upd_key:
  assumes "catalog_ok st" and "\<And>k. k_ID (f k) = k_ID k" and "\<And>k. k_KeyHash (f k) = k_KeyHash k"
  shows "catalog_ok (upd_key p f st)"
  using assms by (auto simp: catalog_ok_def ids_ok_def keys_linked_def wf_defs upd_key_def)

lemma Upsert_registered:
  assumes c: "catalog_ok st" and p: "store_APIKey i st = Some p"
  shows "map_of (s_apiKeys (UpsertAPIKey hmac p [] st)) = map_of (s_apiKeys st)"
    "map_of (s_keyByHash (UpsertAPIKey hmac p [] st)) = map_of (s_keyByHash st)"
    "s_kheap (UpsertAPIKey hmac p [] st) = s_kheap st"
proof -
  have "k_ID (s_kheap st p) = i" "i \<noteq> []"
    using c p by (auto simp: catalog_ok_def wf_defs ids_ok_def store_APIKey_def)
  moreover have "k_KeyHash (s_kheap st p) \<noteq> [] \<Longrightarrow> map_of (s_keyByHash st) (k_KeyHash (s_kheap st p)) = Some p"
    using c p by (auto simp: catalog_ok_def keys_linked_def store_APIKey_def)
  ultimately show "map_of (s_apiKeys (UpsertAPIKey hmac p [] st)) = map_of (s_apiKeys st)"
    "map_of (s_keyByHash (UpsertAPIKey hmac p [] st)) = map_of (s_keyByHash st)"
    "s_kheap (UpsertAPIKey hmac p [] st) = s_kheap st"
    using p by (auto simp: UpsertAPIKey_def index_key_def Let_def store_APIKey_def fun_eq_iff)
qed

lemma linked_cong:
  assumes "map_of (s_apiKeys st') = map_of (s_apiKeys st)" "map_of (s_keyByHash st') = map_of (s_keyByHash st)"
    "s_kheap st' = s_kheap st"
  shows "keys_linked st' = keys_linked st" "ids_ok st' = ids_ok st"
  using assms by (simp_all add: keys_linked_def ids_ok_def)

lemma catalog_Upsert_registered:
  assumes c: "catalog_ok st" and p: "store_APIKey i st = Some p"
  shows "catalog_ok (UpsertAPIKey hmac p [] st)"
proof -
  have "store_wf (UpsertAPIKey hmac p [] st)"
    using catalog_okD [OF c] p by (intro UpsertAPIKey_wf) (auto simp: wf_defs ids_ok_def store_APIKey_def)
  then show ?thesis using linked_cong [OF Upsert_registered [OF c p]] c by (simp add: catalog_ok_def)
qed

text \<open>
  A key object that is in no table, entered with a raw key whose hash is not in use: a new key,
  or one that is rotated.
\<close>

definition detached :: "addr \<Rightarrow> Store \<Rightarrow> bool" where
  "detached p st \<longleftrightarrow> p < s_next st \<and> (\<forall>i. map_of (s_apiKeys st) i \<noteq> Some p) \<and> (\<forall>h. map_of (s_keyByHash st) h \<noteq> Some p)"

definition entry_id :: "APIKey \<Rightarrow> string \<Rightarrow> string" where
  "entry_id k raw = (if k_ID k \<noteq> [] then k_ID k else if k_KeyPrefix k \<noteq> [] then k_KeyPrefix k else if 8 \<le> length raw then take 8 raw else [])"

lemma Upsert_detached:
  assumes raw: "raw \<noteq> []" "HashKey hmac st raw \<noteq> []" and eid: "entry_id (s_kheap st p) raw \<noteq> []"
  shows "map_of (s_apiKeys (UpsertAPIKey hmac p raw st)) = (map_of (s_apiKeys st))(entry_id (s_kheap st p) raw \<mapsto> p)"
    "map_of (s_keyByHash (UpsertAPIKey hmac p raw st)) = (map_of (s_keyByHash st))(HashKey hmac st raw \<mapsto> p)"
    "k_ID (s_kheap (UpsertAPIKey hmac p raw st) p) = entry_id (s_kheap st p) raw"
    "k_KeyHash (s_kheap (UpsertAPIKey hmac p raw st) p) = HashKey hmac st raw"
    "q \<noteq> p \<Longrightarrow> s_kheap (UpsertAPIKey hmac p raw st) q = s_kheap st q"
  using assms by (auto simp: UpsertAPIKey_def index_key_def upd_key_def entry_id_def Let_def split: if_splits)

lemma catalog_Upsert_detached:
  assumes c: "catalog_ok st" and d: "detached p st" and raw: "raw \<noteq> []" "HashKey hmac st raw \<noteq> []"
    and eid: "entry_id (s_kheap st p) raw \<noteq> []" "map_of (s_apiKeys st) (entry_id (s_kheap st p) raw) = None"
    and h: "map_of (s_keyByHash st) (HashKey hmac st raw) = None"
  shows "catalog_ok (UpsertAPIKey hmac p raw st)"
proof -
  note U = Upsert_detached [OF raw eid(1)]
  have "store_wf (UpsertAPIKey hmac p raw st)"
    using catalog_okD [OF c] d by (intro UpsertAPIKey_wf) (auto simp: detached_def)
  moreover have "ids_ok (UpsertAPIKey hmac p raw st)"
    using c eid by (simp add: ids_ok_def catalog_ok_def U)
  moreover have "keys_linked (UpsertAPIKey hmac p raw st)"
    unfolding keys_linked_def
  proof (intro conjI allI impI)
    fix x q assume q: "map_of (s_keyByHash (UpsertAPIKey hmac p raw st)) x = Some q"
    show "map_of (s_apiKeys (UpsertAPIKey hmac p raw st)) (k_ID (s_kheap (UpsertAPIKey hmac p raw st) q)) = Some q"
    proof (cases "q = p")
      case False
      then have "map_of (s_keyByHash st) x = Some q" using q by (auto simp: U split: if_splits)
      then have "map_of (s_apiKeys st) (k_ID (s_kheap st q)) = Some q" using c by (simp add: catalog_ok_def keys_linked_def)
      then show ?thesis using eid(2) False by (auto simp: U)
    qed (simp add: U)
  next
    fix i q assume q: "map_of (s_apiKeys (UpsertAPIKey hmac p raw st)) i = Some q"
      and ne: "k_KeyHash (s_kheap (UpsertAPIKey hmac p raw st) q) \<noteq> []"
    show "map_of (s_keyByHash (UpsertAPIKey hmac p raw st)) (k_KeyHash (s_kheap (UpsertAPIKey hmac p raw st) q)) = Some q"
    proof (cases "q = p")
      case False
      then have "map_of (s_apiKeys st) i = Some q" using q by (auto simp: U split: if_splits)
      then have "map_of (s_keyByHash st) (k_KeyHash (s_kheap st q)) = Some q"
        using c ne False by (simp add: catalog_ok_def keys_linked_def U)
      then show ?thesis using h False by (auto simp: U)
    qed (simp add: U)
  qed
  ultimately show ?thesis by (simp add: catalog_ok_def)
qed

section \<open>Backends and their probes\<close>

text \<open>
  The goroutines that run are those of the registered objects: under the channel that the table has
  for an id, the object that the catalog has for it is probed, unless its checks are switched off.
\<close>

definition probing :: "(addr \<Rightarrow> Backend) \<Rightarrow> (string \<rightharpoonup> addr) \<Rightarrow> HealthChecker \<Rightarrow> bool" where
  "probing heap bes hc \<longleftrightarrow>
     (\<forall>ch p. (ch, p) \<in> set (h_running hc) \<longleftrightarrow>
        (\<exists>i. map_of (h_loops hc) i = Some ch \<and> bes i = Some p \<and> loop_starts (h_defaults hc) (heap p)))"

definition probes_ok :: "Server \<Rightarrow> bool" where
  "probes_ok s \<longleftrightarrow>
     (\<forall>hc. sv_health s = Some hc \<longrightarrow> loops_wf hc
        \<and> (h_started hc \<longrightarrow> dom (map_of (h_loops hc)) = dom (map_of (s_backends (sv_store s)))
            \<and> probing (s_bheap (sv_store s)) (map_of (s_backends (sv_store s))) hc))"

definition server_ok :: "Server \<Rightarrow> bool" where
  "server_ok s \<longleftrightarrow> catalog_ok (sv_store s) \<and> probes_ok s"

text \<open>What a probe leaves alone.\<close>

lemma MarkDegraded_frame: "b_ID (MarkDegraded t l m b) = b_ID b \<and> b_Weight (MarkDegraded t l m b) = b_Weight b
    \<and> b_BaseURL (MarkDegraded t l m b) = b_BaseURL b"
  by (simp add: MarkDegraded_def Let_def)

lemma probe_result_frame:
  "RecordHealthCheck t ok l m b = (b', c, st) \<Longrightarrow> b_ID b' = b_ID b \<and> b_Weight b' = b_Weight b \<and> b_BaseURL b' = b_BaseURL b"
  by (auto simp: RecordHealthCheck_def Let_def split: if_splits)

lemma health_record_frame:
  "b_ID (fst (health_record t ok l m b)) = b_ID b \<and> b_Weight (fst (health_record t ok l m b)) = b_Weight b
    \<and> b_BaseURL (fst (health_record t ok l m b)) = b_BaseURL b"
  by (auto simp: health_record_def Let_def dest: probe_result_frame split: prod.split)

lemma checkOne_frame:
  "b_ID (fst (checkOne d t a b)) = b_ID b \<and> b_Weight (fst (checkOne d t a b)) = b_Weight b
    \<and> b_BaseURL (fst (checkOne d t a b)) = b_BaseURL b"
  by (auto simp: checkOne_def httpProbe_def tcpProbe_def recordDegraded_def health_record_frame MarkDegraded_frame Let_def
      split: probe_answer.split)

text \<open>Updates of a backend that keep its id and the constraints on its entry.\<close>

definition keeps_entry :: "(Backend \<Rightarrow> Backend) \<Rightarrow> bool" where
  "keeps_entry f \<longleftrightarrow> (\<forall>b. b_ID (f b) = b_ID b \<and> (backend_entry_ok b \<longrightarrow> backend_entry_ok (f b)))"

lemma keeps_entry_ops:
  "keeps_entry (patch_fields d)" "keeps_entry (\<lambda>b. b\<lparr>b_Enabled := on\<rparr>)" "keeps_entry (MarkMaintenance on)"
  "keeps_entry (\<lambda>b. fst (checkOne dd t a b))"
  using TrimRight_entry
  by (auto simp: keeps_entry_def patch_fields_def backend_entry_ok_def MarkMaintenance_def checkOne_frame)

lemma catalog_upd_backend:
  assumes "catalog_ok st" and "keeps_entry f"
  shows "catalog_ok (upd_backend p f st)"
proof (rule catalog_frame [OF assms(1)])
  show "store_wf (upd_backend p f st)"
    using assms by (auto simp: catalog_ok_def keeps_entry_def wf_defs upd_backend_def)
qed (simp_all add: upd_backend_def)

lemma UpsertBackend_tables:
  "map_of (s_backends (UpsertBackend p st)) = (map_of (s_backends st))(b_ID (s_bheap st p) \<mapsto> p)"
  "s_apiKeys (UpsertBackend p st) = s_apiKeys st" "s_keyByHash (UpsertBackend p st) = s_keyByHash st"
  "s_kheap (UpsertBackend p st) = s_kheap st" "b_ID (s_bheap (UpsertBackend p st) q) = b_ID (s_bheap st q)"
  "b_HealthCheck (s_bheap (UpsertBackend p st) q) = b_HealthCheck (s_bheap st q)"
  by (simp_all add: UpsertBackend_def upd_backend_def Let_def)

lemma catalog_UpsertBackend:
  assumes c: "catalog_ok st" and p: "p < s_next st" "\<And>i. map_of (s_backends st) i = Some p \<Longrightarrow> i = b_ID (s_bheap st p)"
  shows "catalog_ok (UpsertBackend p st)"
  by (rule catalog_frame [OF c UpsertBackend_wf [OF catalog_okD(1) [OF c] p]]) (simp_all add: UpsertBackend_tables)

lemma registered_backend:
  assumes "catalog_ok st" and "store_Backend i st = Some p"
  shows "p < s_next st" "b_ID (s_bheap st p) = i"
  using assms by (auto simp: catalog_ok_def wf_defs store_Backend_def)

text \<open>Changing a registered backend and entering it again.\<close>

lemma reenter_backend:
  assumes c: "catalog_ok st" and p: "store_Backend i st = Some p" and f: "keeps_entry f"
  shows "catalog_ok (UpsertBackend p (upd_backend p f st))"
    and "map_of (s_backends (UpsertBackend p (upd_backend p f st))) = map_of (s_backends st)"
    and "b_ID (s_bheap (UpsertBackend p (upd_backend p f st)) p) = i"
proof -
  let ?st = "upd_backend p f st"
  have c': "catalog_ok ?st" by (rule catalog_upd_backend [OF c f])
  have same: "s_next ?st = s_next st" "s_backends ?st = s_backends st" by (simp_all add: upd_backend_def)
  have b: "b_ID (s_bheap ?st p) = i" using registered_backend(2) [OF c p] f by (simp add: upd_backend_def keeps_entry_def)
  show "catalog_ok (UpsertBackend p ?st)"
    using registered_backend [OF c p] c same b
    by (intro catalog_UpsertBackend [OF c']) (auto simp: catalog_ok_def wf_defs)
  show "map_of (s_backends (UpsertBackend p ?st)) = map_of (s_backends st)"
    using p by (auto simp: UpsertBackend_tables same b store_Backend_def fun_eq_iff)
  show "b_ID (s_bheap (UpsertBackend p ?st) p) = i" using b by (simp add: UpsertBackend_tables)
qed

lemma enter_backend:
  assumes c: "catalog_ok st" and n: "new_backend b st = (p, st1)"
  shows "catalog_ok (UpsertBackend p st1)"
    and "dom (map_of (s_backends (UpsertBackend p st1))) = insert (b_ID b) (dom (map_of (s_backends st)))"
    and "b_ID (s_bheap (UpsertBackend p st1) p) = b_ID b"
proof -
  have wf: "store_wf st1" using c n wf_fresh [OF catalog_okD(1) [OF c]]
    by (auto simp: catalog_ok_def new_backend_def wf_defs less_SucI)
  have fresh: "map_of (s_backends st1) i \<noteq> Some p" for i
    using wf_fresh(1) [OF catalog_okD(1) [OF c]] n by (auto simp: new_backend_def)
  have c1: "catalog_ok st1" by (rule catalog_frame [OF c wf]) (use n in \<open>auto simp: new_backend_def\<close>)
  show "catalog_ok (UpsertBackend p st1)" by (rule catalog_UpsertBackend [OF c1]) (use fresh n in \<open>auto simp: new_backend_def\<close>)
  show "dom (map_of (s_backends (UpsertBackend p st1))) = insert (b_ID b) (dom (map_of (s_backends st)))"
    "b_ID (s_bheap (UpsertBackend p st1) p) = b_ID b"
    using n by (auto simp: UpsertBackend_tables new_backend_def)
qed

lemma AddBackend_facts:
  "loops_wf hc \<Longrightarrow> loops_wf (AddBackend heap p hc)" "h_started (AddBackend heap p hc) = h_started hc"
  "h_started hc \<Longrightarrow> dom (map_of (h_loops (AddBackend heap p hc))) = insert (b_ID (heap p)) (dom (map_of (h_loops hc)))"
  by (auto simp: AddBackend_def spawn_wf spawn_facts)

lemma RemoveBackend_facts:
  "loops_wf hc \<Longrightarrow> loops_wf (RemoveBackend i hc)" "h_started (RemoveBackend i hc) = h_started hc"
  "dom (map_of (h_loops (RemoveBackend i hc))) = dom (map_of (h_loops hc)) - {i}"
proof -
  have del: "AList.delete i m = filter (\<lambda>(k, v). k \<in> - {i}) m" for m :: "nat gomap"
    by (induction m) auto
  show "loops_wf (RemoveBackend i hc)" if wf: "loops_wf hc"
  proof (cases "map_of (h_loops hc) i")
    case None
    then show ?thesis using that by (simp add: RemoveBackend_def)
  next
    case (Some ch)
    have "distinct (map snd (h_loops hc))" "distinct (keys_of (h_loops hc))" using that by (simp_all add: loops_wf_def)
    then have *: "ch' \<in> set (map snd (AList.delete i (h_loops hc)))" if "ch' \<in> set (map snd (h_loops hc))" "ch' \<noteq> ch" for ch'
      using that Some by (force simp: del dest: map_of_is_SomeI)
    have "distinct (map snd (AList.delete i (h_loops hc)))"
      using \<open>distinct (map snd (h_loops hc))\<close> by (simp add: del distinct_map_filter)
    moreover have sub: "set (map snd (AList.delete i (h_loops hc))) \<subseteq> set (map snd (h_loops hc))" by (auto simp: del)
    moreover have "set (map fst (filter (\<lambda>g. fst g \<noteq> ch) (h_running hc))) \<subseteq> set (map snd (AList.delete i (h_loops hc)))"
    proof
      fix x assume "x \<in> set (map fst (filter (\<lambda>g. fst g \<noteq> ch) (h_running hc)))"
      then have "x \<in> set (map fst (h_running hc))" "x \<noteq> ch" by auto
      then show "x \<in> set (map snd (AList.delete i (h_loops hc)))" using * wf unfolding loops_wf_def by blast
    qed
    moreover have "\<forall>c \<in> set (map snd (AList.delete i (h_loops hc))). c < h_nextch hc" using sub wf unfolding loops_wf_def by blast
    ultimately show ?thesis
      using wf Some by (simp add: loops_wf_def RemoveBackend_def close_channel_def AList.distinct_delete distinct_map_filter)
  qed
  show "h_started (RemoveBackend i hc) = h_started hc" by (simp add: RemoveBackend_def close_channel_def split: option.split)
  show "dom (map_of (h_loops (RemoveBackend i hc))) = dom (map_of (h_loops hc)) - {i}"
    by (auto simp: RemoveBackend_def close_channel_def split: option.split if_splits)
qed

lemma loop_starts_cong: "b_HealthCheck b' = b_HealthCheck b \<Longrightarrow> loop_starts d b' = loop_starts d b"
  by (simp add: loop_starts_def effective_def)

text \<open>What a change of the catalog must leave alone for the goroutines to stay right.\<close>

lemma probing_frame:
  assumes "probing heap bes hc"
    and "\<And>i. i \<in> dom (map_of (h_loops hc)) \<Longrightarrow> bes' i = bes i"
    and "\<And>i p. i \<in> dom (map_of (h_loops hc)) \<Longrightarrow> bes i = Some p \<Longrightarrow> b_HealthCheck (heap' p) = b_HealthCheck (heap p)"
  shows "probing heap' bes' hc"
proof -
  have "map_of (h_loops hc) i = Some ch \<and> bes' i = Some p \<and> loop_starts (h_defaults hc) (heap' p) \<longleftrightarrow>
      map_of (h_loops hc) i = Some ch \<and> bes i = Some p \<and> loop_starts (h_defaults hc) (heap p)" for i ch p
    using assms(2) [of i] assms(3) [of i p] loop_starts_cong [of "heap' p" "heap p" "h_defaults hc"] by (auto simp: dom_def)
  then show ?thesis using assms(1) by (simp add: probing_def)
qed

lemma spawn_probing:
  assumes "probing heap bes hc" and "bes (b_ID (heap p)) = Some p"
  shows "probing heap bes (spawn heap p hc)"
proof (cases "map_of (h_loops hc) (b_ID (heap p))")
  case None
  let ?i = "b_ID (heap p)" and ?s = "spawn heap p hc"
  have loops: "map_of (h_loops ?s) = (map_of (h_loops hc))(?i \<mapsto> h_nextch hc)" "h_defaults ?s = h_defaults hc"
    and run: "set (h_running ?s) = (if loop_starts (h_defaults hc) (heap p) then insert (h_nextch hc, p) (set (h_running hc)) else set (h_running hc))"
    using None by (simp_all add: spawn_def Let_def update_conv')
  show ?thesis unfolding probing_def
  proof (intro allI)
    fix ch q
    have "(\<exists>i. map_of (h_loops ?s) i = Some ch \<and> bes i = Some q \<and> loop_starts (h_defaults ?s) (heap q)) \<longleftrightarrow>
        (\<exists>i. map_of (h_loops hc) i = Some ch \<and> bes i = Some q \<and> loop_starts (h_defaults hc) (heap q))
        \<or> (ch = h_nextch hc \<and> q = p \<and> loop_starts (h_defaults hc) (heap p))"
      unfolding loops fun_upd_apply using None assms(2) by (metis option.distinct(1) option.inject)
    then show "(ch, q) \<in> set (h_running ?s) \<longleftrightarrow> (\<exists>i. map_of (h_loops ?s) i = Some ch \<and> bes i = Some q \<and> loop_starts (h_defaults ?s) (heap q))"
      using assms(1) unfolding probing_def by (simp add: run) blast
  qed
qed (use assms in \<open>simp add: spawn_def\<close>)

lemma RemoveBackend_probing:
  assumes wf: "loops_wf hc" and pr: "probing heap bes hc"
    and other: "\<And>j. j \<noteq> i \<Longrightarrow> bes' j = bes j" "\<And>j q. j \<noteq> i \<Longrightarrow> bes j = Some q \<Longrightarrow> b_HealthCheck (heap' q) = b_HealthCheck (heap q)"
  shows "probing heap' bes' (RemoveBackend i hc)"
proof (cases "map_of (h_loops hc) i")
  case None
  then have ne: "j \<noteq> i" if "j \<in> dom (map_of (h_loops hc))" for j using that by auto
  have "probing heap' bes' hc" by (rule probing_frame [OF pr]) (use other ne in blast)+
  then show ?thesis using None by (simp add: RemoveBackend_def)
next
  case (Some ch)
  have inj: "j = i" if "map_of (h_loops hc) j = Some ch" for j
  proof -
    have "inj_on snd (set (h_loops hc))" using wf by (simp add: loops_wf_def distinct_map)
    from inj_onD [OF this, of "(j, ch)" "(i, ch)"] show ?thesis using that Some by (simp add: map_of_SomeD)
  qed
  let ?h = "hc\<lparr>h_loops := AList.delete i (h_loops hc), h_running := filter (\<lambda>g. fst g \<noteq> ch) (h_running hc)\<rparr>"
  have "probing heap bes ?h"
    unfolding probing_def
  proof (intro allI)
    fix c q
    have "(c, q) \<in> set (h_running ?h) \<longleftrightarrow> c \<noteq> ch \<and> (\<exists>j. map_of (h_loops hc) j = Some c \<and> bes j = Some q \<and> loop_starts (h_defaults hc) (heap q))"
      using pr [unfolded probing_def, rule_format, of c q] by simp blast
    also have "\<dots> \<longleftrightarrow> (\<exists>j. j \<noteq> i \<and> map_of (h_loops hc) j = Some c \<and> bes j = Some q \<and> loop_starts (h_defaults hc) (heap q))"
    proof -
      have "c \<noteq> ch \<longleftrightarrow> j \<noteq> i" if "map_of (h_loops hc) j = Some c" for j using that Some inj by (metis option.inject)
      then show ?thesis by blast
    qed
    also have "\<dots> \<longleftrightarrow> (\<exists>j. map_of (h_loops ?h) j = Some c \<and> bes j = Some q \<and> loop_starts (h_defaults ?h) (heap q))"
      by (simp add: AList.delete_conv' fun_upd_apply if_distrib [of "\<lambda>x. x = _"] cong: if_cong) blast
    finally show "(c, q) \<in> set (h_running ?h) \<longleftrightarrow> (\<exists>j. map_of (h_loops ?h) j = Some c \<and> bes j = Some q \<and> loop_starts (h_defaults ?h) (heap q))" .
  qed
  then have "probing heap' bes' ?h" by (rule probing_frame) (use other in \<open>auto simp: AList.delete_conv' split: if_splits\<close>)
  then show ?thesis using Some by (simp add: RemoveBackend_def close_channel_def)
qed

section \<open>Every operation keeps the catalog well-formed\<close>

definition keeps :: "handler \<Rightarrow> Server \<Rightarrow> bool" where
  "keeps k s \<longleftrightarrow> (server_ok s \<longrightarrow> server_ok (snd (k s)))"

lemma keeps_perm: "keeps k s \<Longrightarrow> keeps (with_perm a e k) s"
  by (auto simp: keeps_def with_perm_def split: option.split)

lemma keeps_decoded: "(\<And>b. body = Inr b \<Longrightarrow> keeps (k b) s) \<Longrightarrow> keeps (decoded body k) s"
  by (auto simp: keeps_def decoded_def split: sum.split)

lemma keeps_backend: "(\<And>p. store_Backend i (sv_store s) = Some p \<Longrightarrow> keeps (k p) s) \<Longrightarrow> keeps (with_backend i k) s"
  by (auto simp: keeps_def with_backend_def split: option.split)

lemma keeps_key: "(\<And>p. store_APIKey i (sv_store s) = Some p \<Longrightarrow> keeps (k p) s) \<Longrightarrow> keeps (with_key i k) s"
  by (auto simp: keeps_def with_key_def split: option.split)

lemmas keeps_rules = keeps_perm keeps_decoded keeps_backend keeps_key

lemma server_ok_audit [simp]:
  "probes_ok (audit e a t i ov nv s) = probes_ok s" "server_ok (audit e a t i ov nv s) = server_ok s"
  by (simp_all add: server_ok_def probes_ok_def)

text \<open>Updates of the store that leave the table of backends and their health-check blocks as they are.\<close>

lemma server_ok_store:
  assumes "server_ok s" and "catalog_ok st" and "map_of (s_backends st) = map_of (s_backends (sv_store s))"
    and "\<And>i p. map_of (s_backends (sv_store s)) i = Some p \<Longrightarrow> b_HealthCheck (s_bheap st p) = b_HealthCheck (s_bheap (sv_store s) p)"
  shows "server_ok (s\<lparr>sv_store := st\<rparr>)"
proof -
  have "probing (s_bheap st) (map_of (s_backends (sv_store s))) hc"
    if "probing (s_bheap (sv_store s)) (map_of (s_backends (sv_store s))) hc" for hc
    by (rule probing_frame [OF that]) (use assms(4) in auto)
  then show ?thesis using assms(1-3) by (simp add: server_ok_def probes_ok_def)
qed

lemma server_ok_users [simp]: "server_ok (set_users us s) = server_ok s" "server_ok (s\<lparr>sv_quota := q\<rparr>) = server_ok s"
  by (simp_all add: server_ok_def probes_ok_def set_users_def)

lemma server_catalog: "server_ok s \<Longrightarrow> catalog_ok (sv_store s)"
  by (simp add: server_ok_def)

lemma upd_backend_tables: "s_backends (upd_backend p f st) = s_backends st"
  by (simp add: upd_backend_def)

lemma DeleteBackend_dom: "dom (map_of (s_backends (DeleteBackend i st))) = dom (map_of (s_backends st)) - {i}"
  by (auto simp: DeleteBackend_def split: if_splits)

lemma restart_probes:
  assumes ok: "server_ok s" and c: "catalog_ok st" and p: "map_of (s_backends st) i = Some p" "b_ID (s_bheap st p) = i"
    and same: "map_of (s_backends st) = map_of (s_backends (sv_store s))"
    and other: "\<And>q. q \<noteq> p \<Longrightarrow> b_HealthCheck (s_bheap st q) = b_HealthCheck (s_bheap (sv_store s) q)"
  shows "server_ok (restart_loop p (s\<lparr>sv_store := st\<rparr>))"
proof (cases "sv_health s")
  case None
  then show ?thesis using c by (simp add: restart_loop_def server_ok_def probes_ok_def Let_def)
next
  case (Some hc)
  let ?h = "AddBackend (s_bheap st) p (RemoveBackend i hc)"
  have wf: "loops_wf hc" using ok Some by (simp add: server_ok_def probes_ok_def)
  have "probing (s_bheap st) (map_of (s_backends st)) ?h" if "h_started hc"
  proof -
    have pr: "probing (s_bheap (sv_store s)) (map_of (s_backends (sv_store s))) hc" using ok Some that by (simp add: server_ok_def probes_ok_def)
    have ids: "b_ID (s_bheap st q) = j" if "map_of (s_backends st) j = Some q" for j q
      using registered_backend(2) [OF c] that by (simp add: store_Backend_def)
    have "q \<noteq> p" if "j \<noteq> i" "map_of (s_backends (sv_store s)) j = Some q" for j q
      using ids [of j q] p that same by auto
    then have "probing (s_bheap st) (map_of (s_backends st)) (RemoveBackend i hc)"
      using other by (intro RemoveBackend_probing [OF wf pr]) (auto simp: same)
    then show ?thesis using that p spawn_probing [of "s_bheap st" _ "RemoveBackend i hc" p] by (simp add: AddBackend_def RemoveBackend_facts(2))
  qed
  moreover have "dom (map_of (h_loops ?h)) = dom (map_of (s_backends st))" if "h_started hc"
    using ok Some that p same by (auto simp: server_ok_def probes_ok_def AddBackend_facts RemoveBackend_facts)
  ultimately show ?thesis
    using c Some wf p by (simp add: restart_loop_def server_ok_def probes_ok_def Let_def AddBackend_facts RemoveBackend_facts)
qed

lemma patch_keeps_health: "bb_HealthCheck d = None \<Longrightarrow> b_HealthCheck (patch_fields d b) = b_HealthCheck b"
  "b_HealthCheck (MarkMaintenance on b) = b_HealthCheck b" "b_HealthCheck (fst (checkOne dd t a b)) = b_HealthCheck b"
  by (simp_all add: patch_fields_def MarkMaintenance_def checkOne_def httpProbe_def tcpProbe_def health_record_def recordDegraded_def
      RecordHealthCheck_def MarkDegraded_def Let_def split: probe_answer.split)

lemma keeps_backend_ops:
  "keeps (patchBackend e i bb) s" "keeps (deleteBackend e i) s" "keeps (set_backend_enabled on a e i) s"
  "keeps (healthCheck e i) s" "keeps (toggleMaintenance e i on') s"
proof -
  have rm: "probing (s_bheap (sv_store s)) (map_of (s_backends (DeleteBackend i (sv_store s)))) (RemoveBackend i hc)"
    if "loops_wf hc" "probing (s_bheap (sv_store s)) (map_of (s_backends (sv_store s))) hc" for hc
    by (rule RemoveBackend_probing [OF that]) (auto simp: DeleteBackend_def AList.delete_conv')
  have "s_bheap (DeleteBackend i (sv_store s)) = s_bheap (sv_store s)" by (simp add: DeleteBackend_def)
  then have "probes_ok (s\<lparr>sv_store := DeleteBackend i (sv_store s), sv_health := map_option (RemoveBackend i) (sv_health s)\<rparr>)"
    if "probes_ok s"
    using that rm by (cases "sv_health s") (simp_all add: probes_ok_def RemoveBackend_facts DeleteBackend_dom)
  then show "keeps (deleteBackend e i) s"
    unfolding deleteBackend_def by (intro keeps_perm) (simp add: keeps_def server_ok_def catalog_store_ops)
  have re: "server_ok (s\<lparr>sv_store := UpsertBackend p (upd_backend p f (sv_store s))\<rparr>)"
    if "server_ok s" "store_Backend i (sv_store s) = Some p" "keeps_entry f" "b_HealthCheck (f (s_bheap (sv_store s) p)) = b_HealthCheck (s_bheap (sv_store s) p)" for p f
    using reenter_backend [OF server_catalog [OF that(1)] that(2,3)] that(4)
    by (intro server_ok_store [OF that(1)]) (simp_all add: UpsertBackend_tables(6) upd_backend_def)
  show "keeps (set_backend_enabled on a e i) s"
    unfolding set_backend_enabled_def by (intro keeps_rules) (simp add: keeps_def re keeps_entry_ops)
  have "server_ok (restart_loop p (s\<lparr>sv_store := UpsertBackend p (upd_backend p f (sv_store s))\<rparr>))"
    if "server_ok s" "store_Backend i (sv_store s) = Some p" "keeps_entry f" for p f
    using reenter_backend [OF server_catalog [OF that(1)] that(2,3)] that(2)
    by (intro restart_probes [OF that(1), of _ i]) (simp_all add: store_Backend_def UpsertBackend_tables(6) upd_backend_def)
  then show "keeps (patchBackend e i bb) s"
    unfolding patchBackend_def by (intro keeps_rules) (simp add: keeps_def re keeps_entry_ops patch_keeps_health Let_def)
  have up: "server_ok (s\<lparr>sv_store := upd_backend p f (sv_store s)\<rparr>)"
    if "server_ok s" "keeps_entry f" "b_HealthCheck (f (s_bheap (sv_store s) p)) = b_HealthCheck (s_bheap (sv_store s) p)" for p f
    using catalog_upd_backend [OF server_catalog [OF that(1)] that(2)] that(3)
    by (intro server_ok_store [OF that(1)]) (simp_all add: upd_backend_tables, simp add: upd_backend_def)
  show "keeps (toggleMaintenance e i on') s"
    unfolding toggleMaintenance_def by (intro keeps_rules) (simp add: keeps_def up keeps_entry_ops patch_keeps_health Let_def)
  show "keeps (healthCheck e i) s"
    unfolding healthCheck_def CheckOnce_def
    by (intro keeps_rules) (simp add: keeps_def up keeps_entry_ops patch_keeps_health Let_def split: option.split)
qed

lemma keeps_createBackend:
  assumes "\<And>b. bb = Inr b \<Longrightarrow> map_of (s_backends (sv_store s)) (bb_ID b) = None"
  shows "keeps (createBackend e bb) s"
proof -
  have "server_ok (probe_and_add e p (s\<lparr>sv_store := UpsertBackend p st\<rparr>))"
    if ok: "server_ok s" and n: "new_backend (backend_of_body b) (sv_store s) = (p, st)" and b: "bb = Inr b" for b p st
  proof -
    note E = enter_backend [OF server_catalog [OF ok] n]
    show ?thesis
    proof (cases "sv_health s")
      case None
      then show ?thesis using E(1) by (simp add: probe_and_add_def server_ok_def probes_ok_def)
    next
      case (Some hc)
      let ?st = "CheckOnce e hc p (UpsertBackend p st)"
      have "catalog_ok ?st" unfolding CheckOnce_def by (rule catalog_upd_backend [OF E(1) keeps_entry_ops(4)])
      moreover have "s_backends ?st = s_backends (UpsertBackend p st)" "b_ID (s_bheap ?st p) = b_ID (backend_of_body b)"
        using E(3) by (simp_all add: CheckOnce_def upd_backend_def checkOne_frame)
      moreover have "probing (s_bheap ?st) (map_of (s_backends (UpsertBackend p st))) (AddBackend (s_bheap ?st) p hc)" if "h_started hc"
      proof -
        have pr: "probing (s_bheap (sv_store s)) (map_of (s_backends (sv_store s))) hc"
          and d: "dom (map_of (h_loops hc)) = dom (map_of (s_backends (sv_store s)))" using ok Some that by (simp_all add: server_ok_def probes_ok_def)
        have fresh: "map_of (s_backends (sv_store s)) j \<noteq> Some p" for j
          using wf_fresh(1) [OF catalog_okD(1) [OF server_catalog [OF ok]]] n by (auto simp: new_backend_def)
        have tab: "map_of (s_backends (UpsertBackend p st)) = (map_of (s_backends (sv_store s)))(bb_ID b \<mapsto> p)"
          using n by (auto simp: UpsertBackend_tables new_backend_def backend_of_body_def)
        have heap: "s_bheap ?st q = s_bheap (sv_store s) q" if "q \<noteq> p" for q
          using that n by (auto simp: CheckOnce_def upd_backend_def UpsertBackend_def Let_def new_backend_def)
        have "probing (s_bheap ?st) (map_of (s_backends (UpsertBackend p st))) hc"
          by (rule probing_frame [OF pr]) (use assms [OF b] fresh heap in \<open>auto simp: tab d, metis\<close>)
        moreover have "b_ID (s_bheap ?st p) = bb_ID b" using E(3) by (simp add: CheckOnce_def upd_backend_def checkOne_frame backend_of_body_def)
        ultimately show ?thesis using that tab spawn_probing [of "s_bheap ?st" _ hc p] by (simp add: AddBackend_def)
      qed
      ultimately show ?thesis
        using Some ok E(2)
        by (auto simp: probe_and_add_def server_ok_def probes_ok_def AddBackend_facts Let_def)
    qed
  qed
  then show ?thesis
    unfolding createBackend_def by (intro keeps_rules) (auto simp: keeps_def Let_def split: prod.split)
qed

lemma lookupAlias_found:
  assumes "catalog_ok st" and "lookupAlias ord n st = Some a"
  shows "a_ForwardingMode a \<noteq> []"
proof -
  have "a \<in> set (ModelAliases ord st)" using assms(2) by (auto simp: lookupAlias_def find_Some_iff)
  then obtain k where "map_of (s_modelAliases st) k = Some a"
    by (auto simp: ModelAliases_def range_map_def map_filter_def)
  then show ?thesis using assms(1) by (auto simp: catalog_ok_def wf_defs)
qed

lemma given_simps [simp]: "given None x = x" "given (Some v) x = v" "\<not> validForwardingMode []"
  by (simp_all add: given_def validForwardingMode_def)

lemma keeps_model_ops:
  "keeps (upsertModel e mb) s" "keeps (deleteModel e i) s" "keeps (patchModel e i mp) s"
  "keeps (upsertAlias e ab) s" "keeps (deleteAlias e i) s" "keeps (patchAlias e i ap) s"
proof -
  have m: "server_ok (s\<lparr>sv_store := st\<rparr>)"
    if "server_ok s" "catalog_ok st" "s_backends st = s_backends (sv_store s)" "s_bheap st = s_bheap (sv_store s)" for st
    using server_ok_store [OF that(1,2)] that(3,4) by simp
  have frame: "s_backends (UpsertModel m st) = s_backends st" "s_backends (DeleteModel n st) = s_backends st"
    "s_backends (UpsertModelAlias a st) = s_backends st" "s_backends (DeleteModelAlias n st) = s_backends st"
    "s_backends (set_model n m st) = s_backends st" "s_backends (set_alias a st) = s_backends st"
    "s_bheap (UpsertModel m st) = s_bheap st" "s_bheap (DeleteModel n st) = s_bheap st"
    "s_bheap (UpsertModelAlias a st) = s_bheap st" "s_bheap (DeleteModelAlias n st) = s_bheap st"
    "s_bheap (set_model n m st) = s_bheap st" "s_bheap (set_alias a st) = s_bheap st" for m n a st
    by (simp_all add: UpsertModel_def DeleteModel_def UpsertModelAlias_def DeleteModelAlias_def set_model_def set_alias_def Let_def)
  note c = m catalog_store_ops [OF server_catalog] frame
  show "keeps (upsertModel e mb) s" "keeps (deleteModel e i) s" "keeps (upsertAlias e ab) s" "keeps (deleteAlias e i) s"
    unfolding upsertModel_def deleteModel_def upsertAlias_def deleteAlias_def
    by (intro keeps_rules, simp add: keeps_def Let_def c)+
  have "m_Name m = i" if "server_ok s" "store_Model i (sv_store s) = Some m" for m
    using that by (auto simp: server_ok_def catalog_ok_def wf_defs store_Model_def)
  then have n: "catalog_ok (set_model i (patch_model_first d m) (sv_store s))"
    "catalog_ok (set_model i (patch_model_rest d (patch_model_first d m)) (sv_store s))"
    if "server_ok s" "store_Model i (sv_store s) = Some m" for d m
    using that server_catalog by (auto intro!: catalog_set_model simp: patch_model_first_def patch_model_rest_def)
  show "keeps (patchModel e i mp) s"
    unfolding patchModel_def
    by (intro keeps_perm) (auto simp: keeps_def decoded_def Let_def m n frame catalog_store_ops(1) split: option.split sum.split)
  show "keeps (patchAlias e i ap) s"
    unfolding patchAlias_def
    by (intro keeps_perm)
      (auto simp: keeps_def decoded_def Let_def frame split: option.split sum.split
        intro!: m catalog_store_ops(3) catalog_set_alias server_catalog dest: lookupAlias_found [OF server_catalog])
qed

section \<open>Keys under administration\<close>

text \<open>
  A created or rotated key may not take the credential of another key, and a created key or backend
  needs an id that is not in use.
\<close>

definition raw_of :: "admin_env \<Rightarrow> string \<Rightarrow> string" where
  "raw_of e key = (if key = [] then generateAPIKey e else key)"

fun op_fresh :: "admin_env \<Rightarrow> admin_op \<Rightarrow> Store \<Rightarrow> bool" where
  "op_fresh e (CreateAPIKey (Inr b)) st \<longleftrightarrow>
     (let raw = raw_of e (kb_Key b); h = HashKey (av_hmac e) st raw; i = entry_id (key_of_body e b) raw
      in h \<noteq> [] \<and> map_of (s_keyByHash st) h = None \<and> i \<noteq> [] \<and> map_of (s_apiKeys st) i = None)"
| "op_fresh e (RotateAPIKey i key) st \<longleftrightarrow>
     (let h = HashKey (av_hmac e) st (raw_of e key)
      in h \<noteq> [] \<and> (\<forall>p. map_of (s_keyByHash st) h = Some p \<longrightarrow> store_APIKey i st = Some p))"
| "op_fresh e (CreateBackend (Inr b)) st \<longleftrightarrow> map_of (s_backends st) (bb_ID b) = None"
| "op_fresh e op st \<longleftrightarrow> True"

lemma raw_of_ne: "raw_of e key \<noteq> []"
  by (simp add: raw_of_def generateAPIKey_def)

lemma key_ops_backends:
  "s_backends (UpsertAPIKey hmac p raw st) = s_backends st" "s_backends (DeleteAPIKey i st) = s_backends st"
  "s_backends (upd_key p f st) = s_backends st"
  "s_bheap (UpsertAPIKey hmac p raw st) = s_bheap st" "s_bheap (DeleteAPIKey i st) = s_bheap st" "s_bheap (upd_key p f st) = s_bheap st"
  by (simp_all add: UpsertAPIKey_def index_key_def upd_key_def DeleteAPIKey_def Let_def split: option.split)

text \<open>After the old credential is taken out, the key object is in no table; its policy is unchanged.\<close>

lemma rotate_detached:
  assumes c: "catalog_ok st" and p: "store_APIKey i st = Some p"
    and st2: "st2 = upd_key p (\<lambda>k. k\<lparr>k_KeyPrefix := [], k_KeyHash := []\<rparr>) (DeleteAPIKey i st)"
  shows "catalog_ok st2" "detached p st2" "s_kheap st2 p = (s_kheap st p)\<lparr>k_KeyPrefix := [], k_KeyHash := []\<rparr>"
    "k_ID (s_kheap st p) = i" "i \<noteq> []" "map_of (s_apiKeys st2) = (map_of (s_apiKeys st))(i := None)"
    "map_of (s_keyByHash st2) x = (if map_of (s_keyByHash st) x = Some p then None else map_of (s_keyByHash st) x)"
    "HashKey hmac st2 = HashKey hmac st"
proof -
  note C = catalog_okD [OF c]
  have pi: "p < s_next st" "k_ID (s_kheap st p) = i" "i \<noteq> []"
    using C(2,4) p by (auto simp: keys_wf_def ids_ok_def store_APIKey_def)
  then show "k_ID (s_kheap st p) = i" "i \<noteq> []" by simp_all
  have wf: "keys_wf (DeleteAPIKey i st)" "keys_linked (DeleteAPIKey i st)" "ids_ok (DeleteAPIKey i st)" "store_wf (DeleteAPIKey i st)"
    using catalog_okD [OF catalog_DeleteAPIKey [OF c, of i]] by simp_all
  have heap: "s_kheap (DeleteAPIKey i st) = s_kheap st" "s_next (DeleteAPIKey i st) = s_next st"
    by (simp_all add: DeleteAPIKey_def Let_def split: option.split)
  have ids: "map_of (s_apiKeys (DeleteAPIKey i st)) = (map_of (s_apiKeys st))(i := None)"
    by (simp add: DeleteAPIKey_def Let_def split: option.split)
  have owner: "map_of (s_keyByHash st) x = Some p \<longleftrightarrow> x = k_KeyHash (s_kheap st p) \<and> x \<noteq> []" for x
    using C(2,3) p by (auto simp: keys_wf_def keys_linked_def store_APIKey_def)
  have no_empty: "map_of (s_keyByHash st) [] = None" by (rule wf_fresh(4) [OF C(1)])
  have hash: "map_of (s_keyByHash (DeleteAPIKey i st)) x = (if map_of (s_keyByHash st) x = Some p then None else map_of (s_keyByHash st) x)" for x
    using p owner [of x] no_empty by (auto simp: DeleteAPIKey_def Let_def store_APIKey_def)
  show "s_kheap st2 p = (s_kheap st p)\<lparr>k_KeyPrefix := [], k_KeyHash := []\<rparr>"
    "map_of (s_apiKeys st2) = (map_of (s_apiKeys st))(i := None)"
    "map_of (s_keyByHash st2) x = (if map_of (s_keyByHash st) x = Some p then None else map_of (s_keyByHash st) x)"
    "HashKey hmac st2 = HashKey hmac st"
    by (simp_all add: st2 upd_key_def heap ids hash)
  have only: "map_of (s_apiKeys st) j \<noteq> Some p" if "j \<noteq> i" for j
    using that pi C(2) by (auto simp: keys_wf_def)
  then have free: "map_of (s_apiKeys (DeleteAPIKey i st)) j \<noteq> Some p" "map_of (s_keyByHash (DeleteAPIKey i st)) x \<noteq> Some p" for j x
    by (auto simp: ids hash)
  then show "detached p st2" using pi by (simp add: detached_def st2 upd_key_def heap)
  have "store_wf st2" using wf(4) free by (auto simp: wf_defs st2 upd_key_def)
  moreover have "keys_linked st2" using wf(2) free unfolding keys_linked_def st2 upd_key_def by auto
  ultimately show "catalog_ok st2" using wf(3) by (simp add: catalog_ok_def ids_ok_def st2 upd_key_def)
qed

lemma rotate_catalog:
  assumes c: "catalog_ok st" and p: "store_APIKey i st = Some p" and f: "op_fresh e (RotateAPIKey i key) st"
    and st2: "st2 = upd_key p (\<lambda>k. k\<lparr>k_KeyPrefix := [], k_KeyHash := []\<rparr>) (DeleteAPIKey i st)"
    and st3: "st3 = UpsertAPIKey (av_hmac e) p (raw_of e key) st2"
  shows "catalog_ok st3"
    and "map_of (s_keyByHash st3) = (map_of (s_keyByHash st2))(HashKey (av_hmac e) st (raw_of e key) \<mapsto> p)"
    and "map_of (s_apiKeys st3) = map_of (s_apiKeys st)"
    and "s_kheap st3 p = (s_kheap st p)\<lparr>k_KeyHash := HashKey (av_hmac e) st (raw_of e key),
           k_KeyPrefix := (if 8 \<le> length (raw_of e key) then take 8 (raw_of e key) else [])\<rparr>"
proof -
  note D = rotate_detached [OF c p st2]
  let ?h = "HashKey (av_hmac e) st (raw_of e key)"
  have h: "?h \<noteq> []" "map_of (s_keyByHash st2) ?h = None"
    using f p by (cases "map_of (s_keyByHash st) ?h"; auto simp: D(7) Let_def)+
  have eid: "entry_id (s_kheap st2 p) (raw_of e key) = i" using D(3-5) by (simp add: entry_id_def)
  have H: "HashKey (av_hmac e) st2 (raw_of e key) = ?h" by (simp add: D(8))
  have "HashKey (av_hmac e) st2 (raw_of e key) \<noteq> []" "entry_id (s_kheap st2 p) (raw_of e key) \<noteq> []" using h(1) H eid D(5) by simp_all
  note U = Upsert_detached [OF raw_of_ne this, unfolded H eid]
  show "catalog_ok st3"
    unfolding st3 by (rule catalog_Upsert_detached [OF D(1,2) raw_of_ne]) (use h eid D(5,6) H in auto)
  show "map_of (s_keyByHash st3) = (map_of (s_keyByHash st2))(?h \<mapsto> p)" unfolding st3 by (rule U(2))
  show "map_of (s_apiKeys st3) = map_of (s_apiKeys st)"
    using U(1) D(6) p by (auto simp: st3 store_APIKey_def fun_eq_iff)
  show "s_kheap st3 p = (s_kheap st p)\<lparr>k_KeyHash := ?h, k_KeyPrefix := (if 8 \<le> length (raw_of e key) then take 8 (raw_of e key) else [])\<rparr>"
    using raw_of_ne [of e key] D(3,4,5) by (simp add: st3 UpsertAPIKey_def index_key_def upd_key_def H Let_def)
qed

lemma create_catalog:
  assumes c: "catalog_ok st" and n: "new_key (key_of_body e b) st = (p, st1)" and f: "op_fresh e (CreateAPIKey (Inr b)) st"
  shows "catalog_ok (UpsertAPIKey (av_hmac e) p (raw_of e (kb_Key b)) st1)"
proof -
  have p: "p = s_next st" "s_kheap st1 p = key_of_body e b" "s_apiKeys st1 = s_apiKeys st" "s_keyByHash st1 = s_keyByHash st"
    using n by (auto simp: new_key_def)
  have fresh: "map_of (s_apiKeys st) i \<noteq> Some p" "map_of (s_keyByHash st) h \<noteq> Some p" for i h
    using wf_fresh [OF catalog_okD(1) [OF c]] p(1) by auto
  have wf: "store_wf st1" "p < s_next st1" using new_key_wf [OF catalog_okD(1) [OF c] n] by simp_all
  have other: "s_kheap st1 q = s_kheap st q" if "q \<noteq> p" for q using n that by (auto simp: new_key_def)
  have "keys_linked st1"
    using catalog_okD(3) [OF c] fresh p(3,4) other unfolding keys_linked_def by metis
  then have c1: "catalog_ok st1" using wf catalog_okD(4) [OF c] by (simp add: catalog_ok_def ids_ok_def p(3))
  have H: "HashKey (av_hmac e) st1 = HashKey (av_hmac e) st" by (rule HashKey_new_key [OF n])
  show ?thesis
    by (rule catalog_Upsert_detached [OF c1]) (use f fresh wf p raw_of_ne in \<open>auto simp: detached_def H Let_def\<close>)
qed

lemma keeps_key_ops:
  "keeps (deleteAPIKey e i) s" "keeps (patchAPIKey e i kp) s" "keeps (setAPIKeyEnabled on e i) s"
  "op_fresh e (CreateAPIKey kb) (sv_store s) \<Longrightarrow> keeps (createAPIKey e kb) s"
  "op_fresh e (RotateAPIKey i key) (sv_store s) \<Longrightarrow> keeps (rotateAPIKey e i key) s"
proof -
  have m: "server_ok (s\<lparr>sv_store := st\<rparr>)"
    if "server_ok s" "catalog_ok st" "s_backends st = s_backends (sv_store s)" "s_bheap st = s_bheap (sv_store s)" for st
    using server_ok_store [OF that(1,2)] that(3,4) by simp
  show "keeps (deleteAPIKey e i) s"
    unfolding deleteAPIKey_def by (intro keeps_rules) (simp add: keeps_def m key_ops_backends catalog_DeleteAPIKey server_catalog)
  have u: "server_ok (s\<lparr>sv_store := UpsertAPIKey hmac p [] (upd_key p f (sv_store s))\<rparr>)"
    if "server_ok s" "store_APIKey i (sv_store s) = Some p" "\<And>k. k_ID (f k) = k_ID k" "\<And>k. k_KeyHash (f k) = k_KeyHash k" for p f hmac
    using that(2) catalog_upd_key [OF server_catalog [OF that(1)] that(3,4), of p]
    by (intro m [OF that(1)] catalog_Upsert_registered [of _ i]) (simp_all add: key_ops_backends store_APIKey_def upd_key_def)
  show "keeps (patchAPIKey e i kp) s" "keeps (setAPIKeyEnabled on e i) s"
    unfolding patchAPIKey_def setAPIKeyEnabled_def by (intro keeps_rules, simp add: keeps_def u patch_key_def Let_def)+
  show "keeps (createAPIKey e kb) s" if "op_fresh e (CreateAPIKey kb) (sv_store s)"
    unfolding createAPIKey_def
    using that create_catalog [OF server_catalog]
    by (intro keeps_rules)
      (auto simp: keeps_def Let_def raw_of_def [symmetric] key_ops_backends new_key_def intro!: m split: prod.split)
  show "keeps (rotateAPIKey e i key) s" if "op_fresh e (RotateAPIKey i key) (sv_store s)"
  proof -
    have "k_ID (s_kheap (sv_store s) p) = i" if "server_ok s" "store_APIKey i (sv_store s) = Some p" for p
      using rotate_detached(4) [OF server_catalog [OF that(1)] that(2) refl] .
    then show ?thesis
      unfolding rotateAPIKey_def
      using rotate_catalog(1) [OF server_catalog _ that refl refl]
      by (intro keeps_rules) (auto simp: keeps_def Let_def raw_of_def [symmetric] key_ops_backends intro!: m)
  qed
qed

lemma keeps_user_ops: "keeps (createUser_handler e ub) s" "keeps (deleteUser_handler e n) s"
  unfolding createUser_handler_def deleteUser_handler_def by (intro keeps_rules, simp add: keeps_def Let_def)+


text \<open>
  C21. Rotating a key exchanges exactly its credential: the new raw key authenticates as the same
  key object from then on, the previous raw key as nobody, every other raw key as before; ids are
  unchanged, and of the key object only hash and prefix differ.
\<close>

theorem key_rotation:
  assumes u: "av_user e = Some u" "HasPermission (u_Role u) ''manage_keys''"
    and ok: "server_ok s" and p: "store_APIKey i (sv_store s) = Some p"
    and fresh: "op_fresh e (RotateAPIKey i key) (sv_store s)"
    and r: "rotateAPIKey e i key s = (r, s')"
  shows "APIKeyByRaw (av_hmac e) (raw_of e key) (sv_store s') = Some p
    \<and> (\<forall>other. HashKey (av_hmac e) (sv_store s) other \<noteq> HashKey (av_hmac e) (sv_store s) (raw_of e key) \<longrightarrow>
         APIKeyByRaw (av_hmac e) other (sv_store s') =
           (if APIKeyByRaw (av_hmac e) other (sv_store s) = Some p then None else APIKeyByRaw (av_hmac e) other (sv_store s)))
    \<and> (\<forall>j. store_APIKey j (sv_store s') = store_APIKey j (sv_store s))
    \<and> (\<exists>h pre. s_kheap (sv_store s') p = (s_kheap (sv_store s) p)\<lparr>k_KeyHash := h, k_KeyPrefix := pre\<rparr>)
    \<and> accepted r \<and> audited e s s'"
proof -
  let ?st = "sv_store s"
  define st2 where "st2 = upd_key p (\<lambda>k. k\<lparr>k_KeyPrefix := [], k_KeyHash := []\<rparr>) (DeleteAPIKey i ?st)"
  define st3 where "st3 = UpsertAPIKey (av_hmac e) p (raw_of e key) st2"
  note c = server_catalog [OF ok]
  note D = rotate_detached [OF c p st2_def] note R = rotate_catalog [OF c p fresh st2_def st3_def]
  from r u p have s': "sv_store s' = st3" "accepted r" "audited e s s'"
    by (auto simp: rotateAPIKey_def with_perm_def requirePerm_def with_key_def D(4) Let_def raw_of_def st2_def st3_def intro!: audit_audited)
  have H: "HashKey (av_hmac e) st3 = HashKey (av_hmac e) ?st" using D(8) by (simp add: st3_def)
  show ?thesis using s'(2,3) R(4) by (auto simp: s'(1) APIKeyByRaw_def H R(2,3) D(7) store_APIKey_def)
qed

text \<open>
  A rejected change of a model can take effect: a patch with an unknown capability mode is
  answered with status 400 and leaves no audit event, but the fields that come before the mode
  (type, enabled flag, context length) have been changed in the live object, so a model can be
  switched off for routing by a request that is reported as invalid.
\<close>

theorem rejected_patch_takes_effect:
  assumes "av_user e = Some u" and "HasPermission (u_Role u) ''manage_models''"
    and "store_Model n (sv_store s) = Some m"
    and "mp_CapabilityMode d = Some c" and "\<not> validCapabilityMode c"
    and "patchModel e n (Inr d) s = (r, s')"
  shows "r = bad_mode \<and> sv_logs s' = sv_logs s \<and> store_Model n (sv_store s') = Some (patch_model_first d m)"
  using assms by (auto simp: patchModel_def with_perm_def requirePerm_def decoded_def store_Model_def set_model_def Let_def)

section \<open>Examples\<close>

lemma root_ok: "server_ok root_server"
proof -
  have "backends_wf example_keys" "models_wf example_keys" "keys_linked example_keys" "ids_ok example_keys"
    by (simp_all add: backends_wf_def models_wf_def keys_linked_def ids_ok_def example_keys_def create_key_def new_key_def UpsertAPIKey_def
        index_key_def upd_key_def store_New_def Let_def HashKey_def zero_key_def)
  with example_keys_wf have "catalog_ok example_keys" by (simp add: catalog_ok_def store_wf_def)
  then show ?thesis by (simp add: server_ok_def probes_ok_def root_server_def catalog_store_ops)
qed

text \<open>A gateway that probes its backends gets one more.\<close>

definition probing_server :: Server where
  "probing_server = root_server\<lparr>sv_health := Some ((NewHealthChecker (c_HealthCheck Default))\<lparr>h_started := True\<rparr>)\<rparr>"

definition example_body :: backendBody where
  "example_body = \<lparr>bb_ID = ''b1'', bb_Name = [], bb_BaseURL = ''http://h'', bb_APIKey = [], bb_Enabled = None, bb_Models = [''m''],
     bb_Weight = 1, bb_MaxConcurrentRequests = 0, bb_TimeoutMS = 0, bb_StreamIdleTimeoutMS = 0, bb_HealthCheck = None, bb_Tags = None\<rparr>"

lemma probing_server_ok: "server_ok probing_server" "map_of (s_backends (sv_store probing_server)) i = None"
proof -
  show "map_of (s_backends (sv_store probing_server)) i = None" for i
    by (simp add: probing_server_def root_server_def UpsertModel_def example_keys_def create_key_def new_key_def UpsertAPIKey_def
        index_key_def upd_key_def store_New_def Let_def)
  then show "server_ok probing_server"
    using root_ok by (simp add: server_ok_def probes_ok_def probing_def loops_wf_def probing_server_def NewHealthChecker_def dom_def)
qed


theorem key_rotation_witness:
  "\<exists>r s'. rotateAPIKey root_env ''team-a'' ''sk-next'' root_server = (r, s')
     \<and> APIKeyByRaw (@) ''sk-next'' (sv_store s') = Some 0 \<and> APIKeyByRaw (@) ''sk-old'' (sv_store s') = None"
proof -
  obtain r s' where r: "rotateAPIKey root_env ''team-a'' ''sk-next'' root_server = (r, s')" by (rule prod.exhaust)
  have st: "HashKey (@) (sv_store root_server) x = HashKey (@) example_keys x" "s_keyByHash (sv_store root_server) = s_keyByHash example_keys"
    "s_apiKeys (sv_store root_server) = s_apiKeys example_keys" for x
    by (simp_all add: root_server_def UpsertModel_def HashKey_def)
  have k: "store_APIKey ''team-a'' (sv_store root_server) = Some 0" "APIKeyByRaw (@) ''sk-old'' (sv_store root_server) = Some 0"
    using example_keys_facts by (simp_all add: store_APIKey_def APIKeyByRaw_def st)
  have fresh: "op_fresh root_env (RotateAPIKey ''team-a'' ''sk-next'') (sv_store root_server)"
    by (simp add: raw_of_def root_env_def st Let_def example_keys_def create_key_def new_key_def UpsertAPIKey_def index_key_def upd_key_def
        store_New_def HashKey_def zero_key_def)
  have "HashKey (@) (sv_store root_server) ''sk-old'' \<noteq> HashKey (@) (sv_store root_server) ''sk-next''" by (simp add: HashKey_def)
  with key_rotation [OF root_user(1) _ root_ok k(1) fresh r] k(2) r root_user(2) show ?thesis
    by (simp add: raw_of_def root_env_def)
qed

theorem rejected_patch_takes_effect_witness:
  "\<exists>s' m. patchModel root_env ''m'' (Inr \<lparr>mp_Type = None, mp_Enabled = Some False, mp_ContextLength = None, mp_CapabilityMode = Some ''lax'',
        mp_Capabilities = None, mp_RoutingPolicy = None\<rparr>) root_server = (bad_mode, s')
     \<and> store_Model ''m'' (sv_store s') = Some m \<and> \<not> m_Enabled m"
proof -
  let ?d = "\<lparr>mp_Type = None, mp_Enabled = Some False, mp_ContextLength = None, mp_CapabilityMode = Some ''lax'',
        mp_Capabilities = None, mp_RoutingPolicy = None\<rparr>"
  obtain r s' where r: "patchModel root_env ''m'' (Inr ?d) root_server = (r, s')" by (rule prod.exhaust)
  obtain m where m: "store_Model ''m'' (sv_store root_server) = Some m" by (simp add: store_Model_def root_server_def UpsertModel_def)
  have "\<not> validCapabilityMode ''lax''" by (simp add: validCapabilityMode_def)
  with rejected_patch_takes_effect [OF root_user(1) _ m _ _ r, of "''lax''"] r root_user(2) show ?thesis
    by (auto simp: patch_model_first_def)
qed

end
