(* ===== verification/Tracing_Model.thy ===== *)
theory Tracing_Model
  imports Gateway_Config
begin

text \<open>
  The tracer, \<^verbatim>\<open>internal/tracing/tracing.go\<close>: spans with their parents, the bounded queue of
  finished spans and the batch that is exported. Random identifiers are arguments, the context is
  the span it carries, and the collector's answer plays no role because it is not used.
\<close>

section \<open>Spans\<close>

datatype attr = AString string | ABool bool | AInt int | AFloat rat | AOther string

record Span =
  sp_TraceID :: string
  sp_SpanID :: string
  sp_ParentID :: string
  sp_Name :: string
  sp_Start :: time
  sp_End :: "time option"
  sp_Attributes :: "attr gomap"
  sp_Status :: string

record Tracer =
  t_cfg :: TracingConfig
  t_queue :: "Span list"

definition maxQueue :: nat where "maxQueue = 1024"

definition tracer_New :: "TracingConfig \<Rightarrow> Tracer" where
  "tracer_New cfg = \<lparr>t_cfg = cfg, t_queue = []\<rparr>"

definition tracer_Start :: "string \<Rightarrow> string \<Rightarrow> time \<Rightarrow> Span option \<Rightarrow> string \<Rightarrow> Span" where
  "tracer_Start newTrace newSpan now parent name =
     (let s = \<lparr>sp_TraceID = [], sp_SpanID = [], sp_ParentID = [], sp_Name = name, sp_Start = now, sp_End = None,
               sp_Attributes = [], sp_Status = []\<rparr>;
          s1 = (case parent of
                  Some p \<Rightarrow> s\<lparr>sp_TraceID := sp_TraceID p, sp_ParentID := sp_SpanID p\<rparr>
                | None \<Rightarrow> s\<lparr>sp_TraceID := newTrace\<rparr>)
      in s1\<lparr>sp_SpanID := newSpan\<rparr>)"

definition SetAttr :: "string \<Rightarrow> attr \<Rightarrow> Span option \<Rightarrow> Span option" where
  "SetAttr k v = map_option (\<lambda>s. s\<lparr>sp_Attributes := AList.update k v (sp_Attributes s)\<rparr>)"

definition span_SetStatus :: "string \<Rightarrow> Span option \<Rightarrow> Span option" where
  "span_SetStatus status = map_option (\<lambda>s. s\<lparr>sp_Status := status\<rparr>)"

definition tracer_End :: "time \<Rightarrow> Span option \<Rightarrow> Tracer \<Rightarrow> Tracer" where
  "tracer_End now sp t =
     (case sp of
        None \<Rightarrow> t
      | Some s \<Rightarrow>
          if \<not> tc_Enabled (t_cfg t) then t
          else
            let q = (if maxQueue \<le> length (t_queue t) then drop (length (t_queue t) div 2) (t_queue t) else t_queue t)
            in t\<lparr>t_queue := q @ [s\<lparr>sp_End := Some now\<rparr>]\<rparr>)"

section \<open>Export\<close>

datatype otlp_value = StringValue string | BoolValue bool | IntValue string | DoubleValue rat

definition valueForOTLP :: "attr \<Rightarrow> otlp_value" where
  "valueForOTLP v =
     (case v of AString x \<Rightarrow> StringValue x | ABool x \<Rightarrow> BoolValue x | AInt x \<Rightarrow> IntValue (Itoa x)
      | AFloat x \<Rightarrow> DoubleValue x | AOther printed \<Rightarrow> StringValue printed)"

definition attrsToOTLP :: "order \<Rightarrow> attr gomap \<Rightarrow> (string \<times> otlp_value) list" where
  "attrsToOTLP ord m = List.map_filter (\<lambda>k. map_option (\<lambda>v. (k, valueForOTLP v)) (map_of m k)) (ord (keys_of m))"

definition statusCode :: "string \<Rightarrow> int" where
  "statusCode s = (if s = ''error'' then 2 else if s = ''ok'' then 1 else 0)"

record otlp_span =
  ot_traceId :: string
  ot_spanId :: string
  ot_parentSpanId :: string
  ot_name :: string
  ot_kind :: int
  ot_start :: string
  ot_end :: string
  ot_attributes :: "(string \<times> otlp_value) list"
  ot_status :: int

record otlp_request =
  or_url :: string
  or_resource :: "(string \<times> otlp_value) list"
  or_scope :: string
  or_spans :: "otlp_span list"

definition to_otlp :: "order \<Rightarrow> Span \<Rightarrow> otlp_span" where
  "to_otlp ord s =
     \<lparr>ot_traceId = sp_TraceID s, ot_spanId = sp_SpanID s, ot_parentSpanId = sp_ParentID s, ot_name = sp_Name s, ot_kind = 2,
      ot_start = Itoa (sp_Start s), ot_end = Itoa (case sp_End s of Some t \<Rightarrow> t | None \<Rightarrow> 0),
      ot_attributes = attrsToOTLP ord (sp_Attributes s), ot_status = statusCode (sp_Status s)\<rparr>"

definition flush :: "order \<Rightarrow> Tracer \<Rightarrow> Tracer \<times> otlp_request option" where
  "flush ord t =
     (if \<not> tc_Enabled (t_cfg t) \<or> tc_Endpoint (t_cfg t) = [] then (t\<lparr>t_queue := []\<rparr>, None)
      else
        let batch = t_queue t; t' = t\<lparr>t_queue := []\<rparr> in
        if batch = [] then (t', None)
        else
          let serviceName = (if tc_Service (t_cfg t) = [] then ''llmgateway'' else tc_Service (t_cfg t))
          in (t', Some \<lparr>or_url = tc_Endpoint (t_cfg t) @ ''/v1/traces'',
                        or_resource = attrsToOTLP ord [(''service.name'', AString serviceName)],
                        or_scope = ''llmgateway'', or_spans = map (to_otlp ord) batch\<rparr>))"

section \<open>The queue\<close>

datatype trace_op = Finish time Span | Flush order

fun trace_step :: "trace_op \<Rightarrow> Tracer \<times> otlp_request list \<Rightarrow> Tracer \<times> otlp_request list" where
  "trace_step (Finish now s) (t, out) = (tracer_End now (Some s) t, out)"
| "trace_step (Flush ord) (t, out) =
     (case flush ord t of (t', None) \<Rightarrow> (t', out) | (t', Some r) \<Rightarrow> (t', out @ [r]))"

text \<open>The spans finished since the last flush.\<close>

fun pending :: "trace_op list \<Rightarrow> Span list" where
  "pending [] = []"
| "pending (Finish now s # ops) = pending ops @ [s\<lparr>sp_End := Some now\<rparr>]"
| "pending (Flush ord # ops) = []"

lemma End_queue:
  assumes "tc_Enabled (t_cfg t)"
  shows "t_queue (tracer_End now (Some s) t) =
      (if maxQueue \<le> length (t_queue t) then drop (length (t_queue t) div 2) (t_queue t) else t_queue t) @ [s\<lparr>sp_End := Some now\<rparr>]"
    "t_cfg (tracer_End now (Some s) t) = t_cfg t"
  using assms by (simp_all add: tracer_End_def Let_def)

lemma flush_queue: "fst (flush ord t) = t\<lparr>t_queue := []\<rparr>"
  by (simp add: flush_def Let_def)

text \<open>
  The invariant, over histories with the latest operation first: the queue is bounded, and it is a
  final part of what was finished since the last flush, with more than half the capacity left
  when anything was dropped.
\<close>

definition span_queue_inv :: "trace_op list \<Rightarrow> Tracer \<Rightarrow> bool" where
  "span_queue_inv ops t \<longleftrightarrow> length (t_queue t) \<le> maxQueue
     \<and> (\<exists>dropped. pending ops = dropped @ t_queue t \<and> (dropped \<noteq> [] \<longrightarrow> maxQueue div 2 < length (t_queue t)))"

lemma span_queue_inv_End:
  assumes "span_queue_inv ops t" and "tc_Enabled (t_cfg t)"
  shows "span_queue_inv (Finish now s # ops) (tracer_End now (Some s) t)"
proof -
  obtain d where d: "pending ops = d @ t_queue t" "d \<noteq> [] \<Longrightarrow> maxQueue div 2 < length (t_queue t)" "length (t_queue t) \<le> maxQueue"
    using assms(1) by (auto simp: span_queue_inv_def)
  show ?thesis
  proof (cases "maxQueue \<le> length (t_queue t)")
    case True
    let ?n = "length (t_queue t) div 2"
    have "pending (Finish now s # ops) = (d @ take ?n (t_queue t)) @ t_queue (tracer_End now (Some s) t)"
      using True by (simp add: End_queue [OF assms(2)] d(1))
    moreover have "length (t_queue (tracer_End now (Some s) t)) = maxQueue div 2 + 1"
      using True d(3) by (simp add: End_queue [OF assms(2)] maxQueue_def)
    ultimately show ?thesis unfolding span_queue_inv_def
      by (intro conjI exI [of _ "d @ take ?n (t_queue t)"]) (simp_all add: maxQueue_def)
  next
    case False
    then show ?thesis unfolding span_queue_inv_def using d(1,2) by (intro conjI exI [of _ d]) (auto simp: End_queue [OF assms(2)])
  qed
qed

text \<open>
  The span queue never holds more than 1024 spans, whatever the collector does: it is always
  the latest of the spans finished since the last export, in order; spans are dropped, oldest
  first, only when the queue is full, and then the latest 512 are kept.
\<close>

theorem span_queue_bounded:
  assumes "tc_Enabled cfg"
  shows "length (t_queue (fst (foldr trace_step ops (tracer_New cfg, [])))) \<le> maxQueue
    \<and> (\<exists>dropped. pending ops = dropped @ t_queue (fst (foldr trace_step ops (tracer_New cfg, [])))
        \<and> (dropped \<noteq> [] \<longrightarrow> maxQueue div 2 < length (t_queue (fst (foldr trace_step ops (tracer_New cfg, []))))))"
proof -
  have "span_queue_inv ops (fst (foldr trace_step ops (tracer_New cfg, []))) \<and> t_cfg (fst (foldr trace_step ops (tracer_New cfg, []))) = cfg"
  proof (induction ops)
    case (Cons x ops)
    obtain t out where t: "foldr trace_step ops (tracer_New cfg, []) = (t, out)" by (rule prod.exhaust)
    have ih: "span_queue_inv ops t" "t_cfg t = cfg" using Cons.IH t by simp_all
    show ?case
    proof (cases x)
      case (Finish now s)
      then show ?thesis using span_queue_inv_End [OF ih(1)] End_queue(2) ih(2) assms by (simp add: t)
    next
      case (Flush ord)
      then show ?thesis using ih(2) flush_queue [of ord t]
        by (cases "flush ord t") (auto simp: t span_queue_inv_def split: option.split)
    qed
  qed (simp add: tracer_New_def span_queue_inv_def)
  then show ?thesis by (simp add: span_queue_inv_def)
qed

section \<open>Stop\<close>

text \<open>\<open>run\<close> flushes at every tick; \<open>Stop\<close> ends it and flushes what is left.\<close>

definition tracer_Stop :: "order \<Rightarrow> Tracer \<times> otlp_request list \<Rightarrow> Tracer \<times> otlp_request list" where
  "tracer_Stop ord st = (if \<not> tc_Enabled (t_cfg (fst st)) then st else trace_step (Flush ord) st)"

definition exported_ids :: "otlp_request list \<Rightarrow> string list" where
  "exported_ids out = concat (map (\<lambda>r. map ot_spanId (or_spans r)) out)"

fun finished_ids :: "trace_op list \<Rightarrow> string list" where
  "finished_ids [] = []"
| "finished_ids (Finish now s # ops) = finished_ids ops @ [sp_SpanID s]"
| "finished_ids (Flush ord # ops) = finished_ids ops"

text \<open>At no moment have more spans been finished since the last tick than the queue holds.\<close>

fun bursts_fit :: "trace_op list \<Rightarrow> bool" where
  "bursts_fit [] = True"
| "bursts_fit (x # ops) \<longleftrightarrow> length (pending (x # ops)) \<le> maxQueue \<and> bursts_fit ops"

lemma flush_exports:
  assumes "tc_Enabled (t_cfg t)" and "tc_Endpoint (t_cfg t) \<noteq> []"
  shows "exported_ids (snd (trace_step (Flush ord) (t, out))) = exported_ids out @ map sp_SpanID (t_queue t)"
    and "fst (trace_step (Flush ord) (t, out)) = t\<lparr>t_queue := []\<rparr>"
  using assms by (auto simp: flush_def Let_def exported_ids_def to_otlp_def comp_def)

lemma nothing_dropped:
  assumes "tc_Enabled cfg" and "tc_Endpoint cfg \<noteq> []" and "bursts_fit ops" and "foldr trace_step ops (tracer_New cfg, []) = (t, out)"
  shows "t_cfg t = cfg \<and> t_queue t = pending ops \<and> exported_ids out @ map sp_SpanID (t_queue t) = finished_ids ops"
  using assms(3,4)
proof (induction ops arbitrary: t out)
  case Nil
  then show ?case by (auto simp: tracer_New_def exported_ids_def)
next
  case (Cons x ops)
  obtain t0 out0 where p: "foldr trace_step ops (tracer_New cfg, []) = (t0, out0)" by (rule prod.exhaust)
  have ih: "t_cfg t0 = cfg" "t_queue t0 = pending ops" "exported_ids out0 @ map sp_SpanID (t_queue t0) = finished_ids ops"
    using Cons.IH [OF _ p] Cons.prems(1) by auto
  have step: "trace_step x (t0, out0) = (t, out)" using Cons.prems(2) p by simp
  show ?case
  proof (cases x)
    case (Finish now s)
    have "length (t_queue t0) < maxQueue" using Cons.prems(1) Finish ih(2) by simp
    then show ?thesis using step ih End_queue [of t0 now s] assms(1) by (auto simp: Finish)
  next
    case (Flush ord)
    then show ?thesis using step ih flush_exports [of t0 ord out0] assms(1,2) by (auto simp del: trace_step.simps)
  qed
qed

text \<open>
  When the bursts fit the queue, the tracer has exported every finished span exactly once and in
  order by the time \<open>Stop\<close> returns.
\<close>

theorem tracer_exports_all:
  assumes "tc_Enabled cfg" and "tc_Endpoint cfg \<noteq> []" and "bursts_fit ops"
  shows "exported_ids (snd (tracer_Stop ord (foldr trace_step ops (tracer_New cfg, [])))) = finished_ids ops"
proof -
  obtain t out where p: "foldr trace_step ops (tracer_New cfg, []) = (t, out)" by (rule prod.exhaust)
  from nothing_dropped [OF assms p] flush_exports(1) [of t ord out] assms(1,2) show ?thesis
    by (auto simp: tracer_Stop_def p simp del: trace_step.simps)
qed

end
