(* ===== verification/Smtp_Model.thy ===== *)
theory Smtp_Model
  imports Gateway_Config
begin

text \<open>
  The e-mail transport of the notifier, second half of \<^verbatim>\<open>internal/notify/notify.go\<close>. The first
  section is the part of Go's \<open>net/smtp\<close> client the transport calls. The mail server is an
  arbitrary function from the lines it has received so far to its next reply, so it may refuse,
  break the connection or advertise what it likes at any point. Every line the client writes is
  recorded with a flag that tells whether the connection was encrypted at that moment; the
  theorems are about this record.
\<close>

section \<open>The SMTP client of the standard library\<close>

datatype smtp_line =
    EHLO | HELO | STARTTLS
  | AUTH_PLAIN string string
  | AUTH_ABORT
  | MAIL string "string list"
  | RCPT string
  | DATA
  | MESSAGE string
  | QUIT

datatype smtp_reply = Reply int "string list" | Broken string

type_synonym wire = "(bool \<times> smtp_line) list"
type_synonym peer = "wire \<Rightarrow> smtp_reply"

record smtp_client =
  cl_tls :: bool
  cl_hello :: "string option option"   \<comment> \<open>the outcome of the greeting, once it was said\<close>
  cl_ext :: "string list option"
  cl_wire :: wire

type_synonym smtp_op = "smtp_client \<Rightarrow> string option \<times> smtp_client"

fun Join :: "string list \<Rightarrow> string \<Rightarrow> string" where
  "Join [] sep = []"
| "Join [x] sep = x"
| "Join (x # y # ys) sep = x @ sep @ Join (y # ys) sep"

text \<open>Do \<open>m\<close> and, unless it failed, \<open>k\<close>.\<close>

definition seq_ok :: "smtp_op \<Rightarrow> smtp_op \<Rightarrow> smtp_op" where
  "seq_ok m k c = (case m c of (Some err, c') \<Rightarrow> (Some err, c') | (None, c') \<Rightarrow> k c')"

definition code_matches :: "int \<Rightarrow> int \<Rightarrow> bool" where
  "code_matches expect code \<longleftrightarrow>
     (if expect = 0 then True
      else if expect < 10 then code div 100 = expect
      else if expect < 100 then code div 10 = expect
      else code = expect)"

definition reply_error :: "int \<Rightarrow> string list \<Rightarrow> string" where
  "reply_error code ls = Itoa code @ '' '' @ Join ls [CHR 10]"

definition smtp_cmd :: "peer \<Rightarrow> int \<Rightarrow> smtp_line \<Rightarrow> smtp_client \<Rightarrow> (string + int \<times> string list) \<times> smtp_client" where
  "smtp_cmd peer expect l c =
     (let c' = c\<lparr>cl_wire := cl_wire c @ [(cl_tls c, l)]\<rparr> in
      case peer (cl_wire c') of
        Broken err \<Rightarrow> (Inl err, c')
      | Reply code ls \<Rightarrow>
          if code_matches expect code then (Inr (code, ls), c') else (Inl (reply_error code ls), c'))"

definition smtp_do :: "peer \<Rightarrow> int \<Rightarrow> smtp_line \<Rightarrow> smtp_op" where
  "smtp_do peer expect l c =
     (case smtp_cmd peer expect l c of (Inl err, c') \<Rightarrow> (Some err, c') | (Inr _, c') \<Rightarrow> (None, c'))"

definition smtp_ehlo :: "peer \<Rightarrow> smtp_op" where
  "smtp_ehlo peer c =
     (case smtp_cmd peer 250 EHLO c of
        (Inl err, c') \<Rightarrow> (Some err, c')
      | (Inr (_, ls), c') \<Rightarrow> (None, c'\<lparr>cl_ext := Some (map (takeWhile (\<lambda>x. x \<noteq> CHR '' '')) (tl ls))\<rparr>))"

definition smtp_helo :: "peer \<Rightarrow> smtp_op" where
  "smtp_helo peer c = smtp_do peer 250 HELO (c\<lparr>cl_ext := None\<rparr>)"

definition smtp_hello :: "peer \<Rightarrow> smtp_op" where
  "smtp_hello peer c =
     (case cl_hello c of
        Some err \<Rightarrow> (err, c)
      | None \<Rightarrow>
          case smtp_ehlo peer c of
            (None, c') \<Rightarrow> (None, c'\<lparr>cl_hello := Some None\<rparr>)
          | (Some _, c') \<Rightarrow>
              case smtp_helo peer c' of (err, c'') \<Rightarrow> (err, c''\<lparr>cl_hello := Some err\<rparr>))"

definition has_ext :: "string \<Rightarrow> smtp_client \<Rightarrow> bool" where
  "has_ext x c = (case cl_ext c of None \<Rightarrow> False | Some xs \<Rightarrow> x \<in> set xs)"

definition smtp_Extension :: "peer \<Rightarrow> string \<Rightarrow> smtp_client \<Rightarrow> bool \<times> smtp_client" where
  "smtp_Extension peer x c =
     (case smtp_hello peer c of (Some _, c') \<Rightarrow> (False, c') | (None, c') \<Rightarrow> (has_ext x c', c'))"

definition smtp_StartTLS :: "peer \<Rightarrow> smtp_op" where
  "smtp_StartTLS peer =
     seq_ok (smtp_hello peer) (seq_ok (smtp_do peer 220 STARTTLS) (\<lambda>c. smtp_ehlo peer (c\<lparr>cl_tls := True\<rparr>)))"

definition smtp_Quit :: "peer \<Rightarrow> smtp_op" where
  "smtp_Quit peer = seq_ok (smtp_hello peer) (smtp_do peer 221 QUIT)"

definition isLocalhost :: "string \<Rightarrow> bool" where
  "isLocalhost name \<longleftrightarrow> name \<in> set [''localhost'', ''127.0.0.1'', ''::1'']"

text \<open>
  Authentication with the mechanism PLAIN, whose \<open>Start\<close> refuses an unencrypted connection to
  another machine, and whose \<open>Next\<close> refuses a challenge.
\<close>

definition smtp_Auth :: "peer \<Rightarrow> string \<Rightarrow> string \<times> string \<Rightarrow> smtp_op" where
  "smtp_Auth peer host auth = seq_ok (smtp_hello peer) (\<lambda>c.
     if \<not> cl_tls c \<and> \<not> isLocalhost host then
       (Some ''unencrypted connection'', snd (smtp_Quit peer c))
     else
       case smtp_cmd peer 0 (AUTH_PLAIN (fst auth) (snd auth)) c of
         (Inl err, c') \<Rightarrow> (Some err, c')
       | (Inr (code, ls), c') \<Rightarrow>
           if code = 235 then (None, c')
           else (Some (if code = 334 then ''unexpected server challenge'' else reply_error code ls),
                 snd (smtp_Quit peer (snd (smtp_do peer 501 AUTH_ABORT c')))))"

definition validateLine :: "string \<Rightarrow> bool" where
  "validateLine l \<longleftrightarrow> CHR 10 \<notin> set l \<and> CHR 13 \<notin> set l"

definition mail_options :: "smtp_client \<Rightarrow> string list" where
  "mail_options c = filter (\<lambda>x. has_ext x c) [''8BITMIME'', ''SMTPUTF8'']"

definition smtp_Mail :: "peer \<Rightarrow> string \<Rightarrow> smtp_op" where
  "smtp_Mail peer from_addr c =
     (if \<not> validateLine from_addr then (Some ''smtp: A line must not contain CR or LF'', c)
      else seq_ok (smtp_hello peer) (\<lambda>c. smtp_do peer 250 (MAIL from_addr (mail_options c)) c) c)"

definition smtp_Rcpt :: "peer \<Rightarrow> string \<Rightarrow> smtp_op" where
  "smtp_Rcpt peer to_addr c =
     (if \<not> validateLine to_addr then (Some ''smtp: A line must not contain CR or LF'', c)
      else smtp_do peer 25 (RCPT to_addr) c)"

section \<open>The sender\<close>

fun rcpt_loop :: "peer \<Rightarrow> string list \<Rightarrow> smtp_op" where
  "rcpt_loop peer [] c = (None, c)"
| "rcpt_loop peer (a # as) c = seq_ok (smtp_Rcpt peer a) (rcpt_loop peer as) c"

definition upgrade :: "peer \<Rightarrow> bool \<Rightarrow> smtp_op" where
  "upgrade peer startTLS c =
     (if startTLS then
        (case smtp_Extension peer ''STARTTLS'' c of
           (False, c') \<Rightarrow> (Some ''smtp: start_tls=true but server does not advertise STARTTLS'', c')
         | (True, c') \<Rightarrow> smtp_StartTLS peer c')
      else (None, c))"

definition authenticate :: "peer \<Rightarrow> string \<Rightarrow> (string \<times> string) option \<Rightarrow> bool \<Rightarrow> smtp_op" where
  "authenticate peer host auth tlsActive c =
     (case auth of
        None \<Rightarrow> (None, c)
      | Some a \<Rightarrow>
          if \<not> tlsActive then
            (Some ''smtp: refusing to authenticate over plaintext; set use_tls or start_tls'', c)
          else case smtp_Extension peer ''AUTH'' c of
                 (True, c') \<Rightarrow> smtp_Auth peer host a c'
               | (False, c') \<Rightarrow> (None, c'))"

text \<open>\<open>smtp.NewClient\<close> reads the greeting of the server, which is \<open>peer []\<close>.\<close>

definition NewClient :: "peer \<Rightarrow> bool \<Rightarrow> string option \<times> smtp_client" where
  "NewClient peer over_tls =
     (let c = \<lparr>cl_tls = over_tls, cl_hello = None, cl_ext = None, cl_wire = []\<rparr> in
      case peer [] of
        Broken err \<Rightarrow> (Some err, c)
      | Reply code ls \<Rightarrow> if code_matches 220 code then (None, c) else (Some (reply_error code ls), c))"

definition transmit :: "peer \<Rightarrow> string \<Rightarrow> string list \<Rightarrow> string \<Rightarrow> smtp_op" where
  "transmit peer from_addr to_addrs msg =
     seq_ok (smtp_Mail peer from_addr)
       (seq_ok (rcpt_loop peer to_addrs)
         (seq_ok (smtp_do peer 354 DATA)
           (seq_ok (smtp_do peer 250 (MESSAGE msg)) (smtp_Quit peer))))"

definition sendOverConn ::
  "peer \<Rightarrow> string \<Rightarrow> (string \<times> string) option \<Rightarrow> string \<Rightarrow> string list \<Rightarrow> string \<Rightarrow> bool \<Rightarrow> bool \<Rightarrow> string option \<times> smtp_client" where
  "sendOverConn peer host auth from_addr to_addrs msg startTLS tlsAlreadyActive =
     (case NewClient peer tlsAlreadyActive of
        (Some err, c) \<Rightarrow> (Some err, c)
      | (None, c) \<Rightarrow>
          seq_ok (upgrade peer startTLS)
            (seq_ok (authenticate peer host auth (tlsAlreadyActive \<or> startTLS))
              (transmit peer from_addr to_addrs msg)) c)"

definition crlf :: string where "crlf = [CHR 13, CHR 10]"

definition buildMIME :: "string \<Rightarrow> string list \<Rightarrow> string \<Rightarrow> string \<Rightarrow> string" where
  "buildMIME from_addr to_addrs subject body =
     ''From: '' @ from_addr @ crlf @ ''To: '' @ Join to_addrs '', '' @ crlf @ ''Subject: '' @ subject @ crlf
     @ ''MIME-Version: 1.0'' @ crlf @ ''Content-Type: text/plain; charset=UTF-8'' @ crlf @ crlf @ body"

definition JoinHostPort :: "string \<Rightarrow> string \<Rightarrow> string" where
  "JoinHostPort host port =
     (if CHR '':'' \<in> set host then ''['' @ host @ '']:'' @ port else host @ '':'' @ port)"

text \<open>What dialling an address gives, over TLS or over plain TCP: an error or a server.\<close>

type_synonym dialer = "bool \<Rightarrow> string \<Rightarrow> string + peer"

definition smtp_Send :: "EmailNotifierConfig \<Rightarrow> dialer \<Rightarrow> string \<Rightarrow> string \<Rightarrow> string list \<Rightarrow> string option \<times> wire" where
  "smtp_Send cfg dial subject body to_addrs =
     (if to_addrs = [] then (Some ''no recipients configured'', [])
      else
        let address = JoinHostPort (em_SMTPHost cfg) (Itoa (em_SMTPPort cfg));
            msg = buildMIME (em_From cfg) to_addrs subject body;
            auth = (if em_Username cfg \<noteq> [] then Some (em_Username cfg, em_Password cfg) else None)
        in case dial (em_UseTLS cfg) address of
             Inl err \<Rightarrow> (Some err, [])
           | Inr peer \<Rightarrow>
               (case sendOverConn peer (em_SMTPHost cfg) auth (em_From cfg) to_addrs msg
                       (\<not> em_UseTLS cfg \<and> em_StartTLS cfg) (em_UseTLS cfg) of
                  (err, c) \<Rightarrow> (err, cl_wire c)))"

section \<open>What an operation writes\<close>

definition carries_password :: "smtp_line \<Rightarrow> bool" where
  "carries_password l = (case l of AUTH_PLAIN _ _ \<Rightarrow> True | _ \<Rightarrow> False)"

definition carries_mail :: "smtp_line \<Rightarrow> bool" where
  "carries_mail l = (case l of MAIL _ _ \<Rightarrow> True | RCPT _ \<Rightarrow> True | DATA \<Rightarrow> True | MESSAGE _ \<Rightarrow> True | _ \<Rightarrow> False)"

text \<open>
  From \<open>c\<close> to \<open>c'\<close> the encryption of the connection stays as it is and only lines that satisfy
  \<open>K\<close> are written.
\<close>

definition wrote :: "(smtp_line \<Rightarrow> bool) \<Rightarrow> smtp_client \<Rightarrow> smtp_client \<Rightarrow> bool" where
  "wrote K c c' \<longleftrightarrow> cl_tls c' = cl_tls c
     \<and> (\<exists>ls. cl_wire c' = cl_wire c @ map (Pair (cl_tls c)) ls \<and> (\<forall>l \<in> set ls. K l))"

lemma wrote_refl [simp]: "wrote K c c"
  by (simp add: wrote_def)

lemma wrote_trans:
  assumes "wrote K c c'" and "wrote K c' c''"
  shows "wrote K c c''"
proof -
  obtain ls ls' where "cl_wire c' = cl_wire c @ map (Pair (cl_tls c)) ls" "cl_tls c' = cl_tls c" "cl_tls c'' = cl_tls c"
    "cl_wire c'' = cl_wire c' @ map (Pair (cl_tls c)) ls'" "\<forall>l \<in> set (ls @ ls'). K l"
    using assms by (fastforce simp: wrote_def)
  then show ?thesis unfolding wrote_def by (intro conjI exI [of _ "ls @ ls'"]) simp_all
qed

lemma wrote_fields [simp]:
  "wrote K c (c'\<lparr>cl_ext := x\<rparr>) = wrote K c c'" "wrote K c (c'\<lparr>cl_hello := y\<rparr>) = wrote K c c'"
  "wrote K (c\<lparr>cl_ext := x\<rparr>) c' = wrote K c c'"
  by (simp_all add: wrote_def)

lemma wrote_cmd: "K l \<Longrightarrow> wrote K c (snd (smtp_cmd peer e l c))"
  by (simp add: wrote_def smtp_cmd_def Let_def split: smtp_reply.split) (simp add: exI [of _ "[l]"])

lemma wrote_cmdD: "smtp_cmd peer e l c = (r, c') \<Longrightarrow> K l \<Longrightarrow> wrote K c c'"
  using wrote_cmd [of K l c peer e] by simp

lemma wrote_do: "K l \<Longrightarrow> wrote K c (snd (smtp_do peer e l c))"
  by (auto simp: smtp_do_def dest: wrote_cmdD split: prod.split sum.split)

lemma wrote_seq:
  assumes "wrote K c (snd (m c))" and "\<And>c'. wrote K c c' \<Longrightarrow> wrote K c' (snd (k c'))"
  shows "wrote K c (snd (seq_ok m k c))"
  using assms by (cases "m c") (auto simp: seq_ok_def split: option.split intro: wrote_trans)

lemma wrote_ehlo: "K EHLO \<Longrightarrow> wrote K c (snd (smtp_ehlo peer c))"
  by (auto simp: smtp_ehlo_def dest: wrote_cmdD split: prod.split sum.split)

lemma wrote_hello:
  assumes "K EHLO" and "K HELO"
  shows "wrote K c (snd (smtp_hello peer c))"
proof -
  obtain r c' where r: "smtp_ehlo peer c = (r, c')" by (rule prod.exhaust)
  obtain r2 c'' where r2: "smtp_helo peer c' = (r2, c'')" by (rule prod.exhaust)
  have w: "wrote K c c'" using wrote_ehlo [of K c peer, OF assms(1)] r by simp
  have "wrote K c' c''" using wrote_do [of K HELO "c'\<lparr>cl_ext := None\<rparr>" peer 250, OF assms(2)] r2 by (simp add: smtp_helo_def)
  from wrote_trans [OF w this] show ?thesis
    using w by (simp add: smtp_hello_def r r2 split: option.split)
qed

lemma wrote_Quit: "K EHLO \<Longrightarrow> K HELO \<Longrightarrow> K QUIT \<Longrightarrow> wrote K c (snd (smtp_Quit peer c))"
  unfolding smtp_Quit_def by (intro wrote_seq wrote_hello wrote_do)

lemma wrote_rcpts: "(\<And>a. K (RCPT a)) \<Longrightarrow> wrote K c (snd (rcpt_loop peer as c))"
  by (induction as arbitrary: c) (auto intro!: wrote_seq simp: smtp_Rcpt_def wrote_do)

lemma wrote_transmit:
  assumes "\<And>l. \<not> carries_password l \<Longrightarrow> K l"
  shows "wrote K c (snd (transmit peer a as msg c))"
  unfolding transmit_def smtp_Mail_def
  by (intro wrote_seq wrote_rcpts wrote_Quit wrote_do assms)
     (simp_all add: carries_password_def wrote_seq wrote_hello wrote_do assms)

lemma wrote_Extension: "K EHLO \<Longrightarrow> K HELO \<Longrightarrow> wrote K c (snd (smtp_Extension peer x c))"
  using wrote_hello [of K c peer] by (auto simp: smtp_Extension_def split: prod.split option.split)

lemma wrote_Auth:
  assumes "K EHLO" and "K HELO" and "K QUIT" and "K AUTH_ABORT" and "K (AUTH_PLAIN (fst a) (snd a))"
  shows "wrote K c (snd (smtp_Auth peer host a c))"
  unfolding smtp_Auth_def
proof (rule wrote_seq [OF wrote_hello], rule assms, rule assms, goal_cases)
  case (1 c')
  have q: "wrote K d (snd (smtp_Quit peer d))" for d by (rule wrote_Quit) (rule assms)+
  obtain r d where r: "smtp_cmd peer 0 (AUTH_PLAIN (fst a) (snd a)) c' = (r, d)" by (rule prod.exhaust)
  have "wrote K c' d" using r assms(5) by (rule wrote_cmdD)
  moreover have "wrote K d (snd (smtp_Quit peer (snd (smtp_do peer 501 AUTH_ABORT d))))"
    by (rule wrote_trans [OF wrote_do q]) (rule assms)
  ultimately show ?case by (auto simp: r q split: sum.split intro: wrote_trans)
qed

lemma wrote_authenticate:
  assumes "\<And>l. \<not> carries_mail l \<Longrightarrow> K l"
  shows "wrote K c (snd (authenticate peer host auth tls c))"
proof (cases auth)
  case (Some a)
  have K: "K EHLO" "K HELO" "K QUIT" "K AUTH_ABORT" "K (AUTH_PLAIN (fst a) (snd a))" by (simp_all add: assms carries_mail_def)
  obtain b c' where b: "smtp_Extension peer ''AUTH'' c = (b, c')" by (rule prod.exhaust)
  have "wrote K c c'" using wrote_Extension [of K c peer "''AUTH''", OF K(1,2)] b by simp
  moreover have "wrote K c' (snd (smtp_Auth peer host a c'))" by (rule wrote_Auth) (rule K)+
  ultimately show ?thesis by (auto simp: authenticate_def Some b split: bool.split intro: wrote_trans)
qed (simp add: authenticate_def)

lemma authenticate_plaintext: "\<not> tls \<Longrightarrow> snd (authenticate peer host auth tls c) = c"
  by (simp add: authenticate_def split: option.split)

text \<open>The upgrade: nothing of the mail is written, and success leaves the connection encrypted.\<close>

definition silent :: "smtp_client \<Rightarrow> smtp_client \<Rightarrow> bool" where
  "silent c c' \<longleftrightarrow> (\<exists>ls. cl_wire c' = cl_wire c @ ls \<and> (\<forall>x \<in> set ls. \<not> carries_password (snd x) \<and> \<not> carries_mail (snd x)))"

lemma silent_trans:
  assumes "silent c c'" and "silent c' c''"
  shows "silent c c''"
proof -
  obtain ls ls' where "cl_wire c'' = cl_wire c @ ls @ ls'"
    "\<forall>x \<in> set (ls @ ls'). \<not> carries_password (snd x) \<and> \<not> carries_mail (snd x)"
    using assms by (fastforce simp: silent_def)
  then show ?thesis unfolding silent_def by blast
qed

lemma wrote_silent: "wrote (\<lambda>l. \<not> carries_password l \<and> \<not> carries_mail l) c c' \<Longrightarrow> silent c c'"
  by (fastforce simp: wrote_def silent_def)

lemma StartTLS_effect:
  assumes "smtp_StartTLS peer c = (err, c')"
  shows "silent c c'" and "err = None \<Longrightarrow> cl_tls c'"
proof -
  let ?K = "\<lambda>l. \<not> carries_password l \<and> \<not> carries_mail l"
  have K: "?K EHLO" "?K HELO" "?K STARTTLS" by (simp_all add: carries_password_def carries_mail_def)
  obtain r1 c1 where r1: "smtp_hello peer c = (r1, c1)" by (rule prod.exhaust)
  obtain r2 c2 where r2: "smtp_do peer 220 STARTTLS c1 = (r2, c2)" by (rule prod.exhaust)
  have q1: "silent c c1" using wrote_hello [of ?K c peer, OF K(1,2)] r1 by (simp add: wrote_silent)
  have q2: "silent c1 c2" using wrote_do [of ?K STARTTLS c1 peer 220, OF K(3)] r2 by (simp add: wrote_silent)
  have w: "wrote ?K (c2\<lparr>cl_tls := True\<rparr>) (snd (smtp_ehlo peer (c2\<lparr>cl_tls := True\<rparr>)))" by (rule wrote_ehlo) (rule K)
  then have q3: "silent c2 (snd (smtp_ehlo peer (c2\<lparr>cl_tls := True\<rparr>)))" by (auto simp: silent_def dest: wrote_silent)
  have q: "silent c c2" and q': "silent c (snd (smtp_ehlo peer (c2\<lparr>cl_tls := True\<rparr>)))"
    using q1 q2 q3 by (blast intro: silent_trans)+
  show "silent c c'" using assms q1 q q' by (auto simp: smtp_StartTLS_def seq_ok_def r1 r2 split: option.splits)
  show "cl_tls c'" if "err = None"
    using assms w that by (auto simp: smtp_StartTLS_def seq_ok_def r1 r2 wrote_def split: option.splits)
qed

lemma upgrade_effect:
  assumes "upgrade peer True c = (err, c')"
  shows "silent c c'" and "err = None \<Longrightarrow> cl_tls c'"
proof -
  obtain b c1 where b: "smtp_Extension peer ''STARTTLS'' c = (b, c1)" by (rule prod.exhaust)
  have q: "silent c c1"
    using wrote_Extension [of "\<lambda>l. \<not> carries_password l \<and> \<not> carries_mail l" c peer "''STARTTLS''"] b
    by (simp add: wrote_silent carries_password_def carries_mail_def)
  show "silent c c'"
    using assms q StartTLS_effect(1) by (auto simp: upgrade_def b split: bool.splits intro: silent_trans)
  show "cl_tls c'" if "err = None"
    using assms that StartTLS_effect(2) by (auto simp: upgrade_def b split: bool.splits)
qed

section \<open>Confidentiality\<close>

text \<open>
  A record of a connection is safe when no password is on it in the clear and, if encryption was
  asked for, nothing of the mail either.
\<close>

definition wire_safe :: "bool \<Rightarrow> wire \<Rightarrow> bool" where
  "wire_safe encrypted w \<longleftrightarrow>
     (\<forall>(enc, l) \<in> set w. (carries_password l \<longrightarrow> enc) \<and> (encrypted \<and> carries_mail l \<longrightarrow> enc))"

lemma wire_safe_wrote: "cl_tls c \<Longrightarrow> wrote K c c' \<Longrightarrow> wire_safe s (cl_wire c) \<Longrightarrow> wire_safe s (cl_wire c')"
  by (auto simp: wire_safe_def wrote_def)

lemma wire_safe_silent: "silent c c' \<Longrightarrow> wire_safe s (cl_wire c) \<Longrightarrow> wire_safe s (cl_wire c')"
  by (fastforce simp: wire_safe_def silent_def)

lemma wire_safe_clear:
  "wrote (\<lambda>l. \<not> carries_password l) c c' \<Longrightarrow> wire_safe False (cl_wire c) \<Longrightarrow> wire_safe False (cl_wire c')"
  by (fastforce simp: wire_safe_def wrote_def)

abbreviation session :: "peer \<Rightarrow> string \<Rightarrow> (string \<times> string) option \<Rightarrow> bool \<Rightarrow> string \<Rightarrow> string list \<Rightarrow> string \<Rightarrow> smtp_op" where
  "session peer host auth tls a as msg \<equiv> seq_ok (authenticate peer host auth tls) (transmit peer a as msg)"

lemma session_encrypted:
  assumes "cl_tls c" and "wire_safe s (cl_wire c)"
  shows "wire_safe s (cl_wire (snd (session peer host auth tls a as msg c)))"
  by (rule wire_safe_wrote [OF assms(1) _ assms(2)], rule wrote_seq [of "\<lambda>_. True"])
     (simp_all add: wrote_authenticate wrote_transmit)

lemma session_clear:
  assumes "wire_safe False (cl_wire c)"
  shows "wire_safe False (cl_wire (snd (session peer host auth False a as msg c)))"
  by (rule wire_safe_clear [OF wrote_seq assms]) (simp_all add: authenticate_plaintext wrote_transmit)

lemma sendOverConn_safe:
  "wire_safe (startTLS \<or> tls) (cl_wire (snd (sendOverConn peer host auth a as msg startTLS tls)))"
proof -
  obtain r c where c: "NewClient peer tls = (r, c)" by (rule prod.exhaust)
  then have new: "cl_tls c = tls" "cl_wire c = []" by (auto simp: NewClient_def Let_def split: smtp_reply.splits if_splits)
  then have s0: "wire_safe s (cl_wire c)" for s by (simp add: wire_safe_def)
  obtain r1 c1 where u: "upgrade peer startTLS c = (r1, c1)" by (rule prod.exhaust)
  let ?rest = "session peer host auth (tls \<or> startTLS) a as msg"
  have eq: "snd (sendOverConn peer host auth a as msg startTLS tls) = (if r = None then (if r1 = None then snd (?rest c1) else c1) else c)"
    by (simp add: sendOverConn_def c seq_ok_def [of "upgrade peer startTLS"] u split: option.split)
  show ?thesis
  proof (cases startTLS)
    case True
    with u have u': "upgrade peer True c = (r1, c1)" by simp
    have "wire_safe True (cl_wire c1)" using upgrade_effect(1) [OF u'] s0 by (rule wire_safe_silent)
    then show ?thesis unfolding eq using upgrade_effect(2) [OF u'] s0 True by (simp add: session_encrypted)
  next
    case False
    then have "r1 = None" "c1 = c" using u by (simp_all add: upgrade_def)
    then show ?thesis unfolding eq using False s0 new(1) by (cases tls) (simp_all add: session_encrypted session_clear)
  qed
qed

lemma smtp_Send_dialled:
  assumes "to_addrs \<noteq> []" and "dial (em_UseTLS cfg) (JoinHostPort (em_SMTPHost cfg) (Itoa (em_SMTPPort cfg))) = Inr peer"
  shows "smtp_Send cfg dial subject body to_addrs =
    apsnd cl_wire (sendOverConn peer (em_SMTPHost cfg)
      (if em_Username cfg \<noteq> [] then Some (em_Username cfg, em_Password cfg) else None) (em_From cfg) to_addrs
      (buildMIME (em_From cfg) to_addrs subject body) (\<not> em_UseTLS cfg \<and> em_StartTLS cfg) (em_UseTLS cfg))"
  unfolding smtp_Send_def Let_def using assms by (simp only: if_False sum.case apsnd_def map_prod_def case_prod_unfold id_apply)

text \<open>
  C28. Confidentiality of the alert mails, against every mail server: the SMTP password is never
  written to an unencrypted connection, and when \<open>use_tls\<close> or \<open>start_tls\<close> is set nothing of the
  mail is (neither sender, recipients nor text), also not to a server that does not advertise
  STARTTLS or breaks off the upgrade: there is no downgrade.
\<close>

theorem smtp_confidential:
  "wire_safe (em_UseTLS cfg \<or> em_StartTLS cfg) (snd (smtp_Send cfg dial subject body to_addrs))"
proof (cases "to_addrs = []")
  case False
  show ?thesis
  proof (cases "dial (em_UseTLS cfg) (JoinHostPort (em_SMTPHost cfg) (Itoa (em_SMTPPort cfg)))")
    case (Inr peer)
    have b: "(em_UseTLS cfg \<or> em_StartTLS cfg) = (\<not> em_UseTLS cfg \<and> em_StartTLS cfg \<or> em_UseTLS cfg)" by blast
    show ?thesis
      unfolding smtp_Send_dialled [of _ dial, OF False Inr] snd_apsnd by (subst b) (rule sendOverConn_safe)
  qed (simp add: smtp_Send_def Let_def wire_safe_def)
qed (simp add: smtp_Send_def wire_safe_def)

section \<open>Delivery\<close>

lemma do_ok: "smtp_do peer e l c = (None, c') \<Longrightarrow> c' = c\<lparr>cl_wire := cl_wire c @ [(cl_tls c, l)]\<rparr>"
  by (auto simp: smtp_do_def smtp_cmd_def Let_def split: smtp_reply.splits if_splits)

lemma seq_okD: "seq_ok m k c = (None, c') \<Longrightarrow> \<exists>d. m c = (None, d) \<and> k d = (None, c')"
  by (auto simp: seq_ok_def split: prod.splits option.splits)

lemma hello_ok: "smtp_hello peer c = (None, c') \<Longrightarrow> cl_hello c' = Some None"
  by (auto simp: smtp_hello_def split: option.splits prod.splits)

lemma rcpts_ok:
  "rcpt_loop peer as c = (None, c') \<Longrightarrow> c' = c\<lparr>cl_wire := cl_wire c @ map (\<lambda>a. (cl_tls c, RCPT a)) as\<rparr>"
proof (induction as arbitrary: c)
  case (Cons a as)
  obtain d where d: "smtp_Rcpt peer a c = (None, d)" "rcpt_loop peer as d = (None, c')"
    using seq_okD [of "smtp_Rcpt peer a" "rcpt_loop peer as" c c'] Cons.prems by auto
  from d(1) have "d = c\<lparr>cl_wire := cl_wire c @ [(cl_tls c, RCPT a)]\<rparr>"
    by (auto simp: smtp_Rcpt_def split: if_splits dest: do_ok)
  then show ?case using Cons.IH [OF d(2)] by simp
qed simp

definition is_message :: "smtp_line \<Rightarrow> bool" where
  "is_message l = (case l of MESSAGE _ \<Rightarrow> True | _ \<Rightarrow> False)"

lemma Mail_ok:
  assumes "smtp_Mail peer a c = (None, d)"
  shows "\<exists>pre opts. map snd (cl_wire d) = map snd (cl_wire c) @ pre @ [MAIL a opts] \<and> (\<forall>l \<in> set pre. \<not> is_message l) \<and> cl_hello d = Some None"
proof -
  obtain c1 where h: "smtp_hello peer c = (None, c1)" and m: "smtp_do peer 250 (MAIL a (mail_options c1)) c1 = (None, d)"
    using assms by (auto simp: smtp_Mail_def split: if_splits dest: seq_okD)
  have "wrote (\<lambda>l. \<not> is_message l) c c1" using wrote_hello [of "\<lambda>l. \<not> is_message l" c peer] h by (simp add: is_message_def)
  then obtain pre where "cl_wire c1 = cl_wire c @ map (Pair (cl_tls c)) pre" "\<forall>l \<in> set pre. \<not> is_message l"
    by (auto simp: wrote_def)
  then show ?thesis using do_ok [OF m] hello_ok [OF h] by (auto simp: comp_def intro!: exI [of _ pre])
qed

lemma transmit_ok:
  assumes "transmit peer a as msg c = (None, c')"
  shows "\<exists>pre opts. map snd (cl_wire c') = map snd (cl_wire c) @ pre @ MAIL a opts # map RCPT as @ [DATA, MESSAGE msg, QUIT]
    \<and> (\<forall>l \<in> set pre. \<not> is_message l)"
proof -
  obtain c1 c2 c3 c4 where m: "smtp_Mail peer a c = (None, c1)" and r: "rcpt_loop peer as c1 = (None, c2)"
    and d: "smtp_do peer 354 DATA c2 = (None, c3)" and w: "smtp_do peer 250 (MESSAGE msg) c3 = (None, c4)"
    and q: "smtp_Quit peer c4 = (None, c')"
    using assms unfolding transmit_def by (fastforce dest!: seq_okD)
  obtain pre opts where c1: "map snd (cl_wire c1) = map snd (cl_wire c) @ pre @ [MAIL a opts]" "\<forall>l \<in> set pre. \<not> is_message l"
      "cl_hello c1 = Some None"
    using Mail_ok [OF m] by blast
  note eqs = rcpts_ok [OF r] do_ok [OF d] do_ok [OF w]
  have "cl_hello c4 = Some None" using c1(3) by (simp add: eqs)
  then have "smtp_do peer 221 QUIT c4 = (None, c')" using q by (simp add: smtp_Quit_def seq_ok_def smtp_hello_def)
  from do_ok [OF this] have "map snd (cl_wire c') = map snd (cl_wire c1) @ map RCPT as @ [DATA, MESSAGE msg, QUIT]"
    by (simp add: eqs comp_def)
  then show ?thesis using c1(1,2) by (intro exI [of _ pre] exI [of _ opts]) simp
qed

lemma sendOverConn_ok:
  assumes "sendOverConn peer host auth a as msg startTLS tls = (None, c')"
  shows "\<exists>pre opts. map snd (cl_wire c') = pre @ MAIL a opts # map RCPT as @ [DATA, MESSAGE msg, QUIT] \<and> (\<forall>l \<in> set pre. \<not> is_message l)"
proof -
  obtain c where c: "NewClient peer tls = (None, c)"
    and s: "seq_ok (upgrade peer startTLS) (session peer host auth (tls \<or> startTLS) a as msg) c = (None, c')"
    using assms by (auto simp: sendOverConn_def split: prod.splits option.splits)
  have w0: "cl_wire c = []" using c by (auto simp: NewClient_def Let_def split: smtp_reply.splits if_splits)
  obtain c1 c2 where u: "upgrade peer startTLS c = (None, c1)" and au: "authenticate peer host auth (tls \<or> startTLS) c1 = (None, c2)"
    and tr: "transmit peer a as msg c2 = (None, c')"
    using s by (fastforce dest!: seq_okD)
  have mail: "\<not> carries_mail l \<Longrightarrow> \<not> is_message l" for l by (cases l) (simp_all add: carries_mail_def is_message_def)
  have "silent c c1"
    using u upgrade_effect(1) [of peer c None c1] by (cases startTLS) (simp_all add: upgrade_def silent_def)
  then have "\<forall>l \<in> set (map snd (cl_wire c1)). \<not> is_message l" using w0 mail by (auto simp: silent_def)
  moreover have "wrote (\<lambda>l. \<not> is_message l) c1 c2"
    using wrote_authenticate [of "\<lambda>l. \<not> is_message l" c1 peer host auth "tls \<or> startTLS"] mail au by simp
  ultimately have "\<forall>l \<in> set (map snd (cl_wire c2)). \<not> is_message l" by (fastforce simp: wrote_def)
  moreover obtain pre opts where "map snd (cl_wire c') = map snd (cl_wire c2) @ pre @ MAIL a opts # map RCPT as @ [DATA, MESSAGE msg, QUIT]"
    "\<forall>l \<in> set pre. \<not> is_message l"
    using transmit_ok [OF tr] by blast
  ultimately show ?thesis by (intro exI [of _ "map snd (cl_wire c2) @ pre"] exI [of _ opts]) auto
qed

text \<open>
  Delivery: when \<open>Send\<close> reports success, the server has accepted exactly one message,
  from the configured sender, to every recipient in order, and the text it was handed is the
  MIME rendering of subject and body.
\<close>

theorem smtp_delivers:
  assumes "smtp_Send cfg dial subject body to_addrs = (None, w)"
  shows "to_addrs \<noteq> [] \<and> (\<exists>pre opts. map snd w = pre @ MAIL (em_From cfg) opts # map RCPT to_addrs
      @ [DATA, MESSAGE (buildMIME (em_From cfg) to_addrs subject body), QUIT] \<and> (\<forall>l \<in> set pre. \<not> is_message l))"
proof -
  have ne: "to_addrs \<noteq> []" using assms by (auto simp: smtp_Send_def)
  obtain peer where d: "dial (em_UseTLS cfg) (JoinHostPort (em_SMTPHost cfg) (Itoa (em_SMTPPort cfg))) = Inr peer"
    using assms ne
    by (cases "dial (em_UseTLS cfg) (JoinHostPort (em_SMTPHost cfg) (Itoa (em_SMTPPort cfg)))") (simp_all add: smtp_Send_def Let_def)
  obtain c' where "sendOverConn peer (em_SMTPHost cfg)
      (if em_Username cfg \<noteq> [] then Some (em_Username cfg, em_Password cfg) else None) (em_From cfg) to_addrs
      (buildMIME (em_From cfg) to_addrs subject body) (\<not> em_UseTLS cfg \<and> em_StartTLS cfg) (em_UseTLS cfg) = (None, c')" "w = cl_wire c'"
    using assms unfolding smtp_Send_dialled [of _ dial, OF ne d] apsnd_def map_prod_def by (auto split: prod.splits)
  then show ?thesis using ne sendOverConn_ok by simp
qed

text \<open>A server that follows the protocol and offers encryption.\<close>

definition example_server :: peer where
  "example_server w =
     (if w = [] then Reply 220 [''mail ready'']
      else case snd (last w) of
             EHLO \<Rightarrow> Reply 250 (if fst (last w) then [''mail'', ''8BITMIME'', ''AUTH PLAIN''] else [''mail'', ''STARTTLS''])
           | HELO \<Rightarrow> Reply 250 [''mail''] | STARTTLS \<Rightarrow> Reply 220 [''go ahead''] | AUTH_PLAIN _ _ \<Rightarrow> Reply 235 [''welcome'']
           | AUTH_ABORT \<Rightarrow> Reply 501 [] | MAIL _ _ \<Rightarrow> Reply 250 [''ok''] | RCPT _ \<Rightarrow> Reply 250 [''ok'']
           | DATA \<Rightarrow> Reply 354 [''go ahead''] | MESSAGE _ \<Rightarrow> Reply 250 [''queued''] | QUIT \<Rightarrow> Reply 221 [''bye''])"

definition example_email :: EmailNotifierConfig where
  "example_email = \<lparr>em_Enabled = True, em_SMTPHost = ''mail'', em_SMTPPort = 587, em_Username = ''u'', em_Password = ''p'',
     em_From = ''gw'', em_To = [''ops'', ''dev''], em_UseTLS = False, em_StartTLS = True, em_CooldownMS = 1000, em_NotifyOn = []\<rparr>"

lemmas smtp_run = smtp_Send_def sendOverConn_def NewClient_def seq_ok_def upgrade_def authenticate_def transmit_def smtp_Mail_def
  smtp_Rcpt_def smtp_Quit_def smtp_Auth_def smtp_StartTLS_def smtp_Extension_def smtp_hello_def smtp_ehlo_def smtp_helo_def smtp_do_def
  smtp_cmd_def code_matches_def has_ext_def validateLine_def mail_options_def example_server_def

lemma example_server_accepts:
  "smtp_Send example_email (\<lambda>_ _. Inr example_server) subject body [''ops'', ''dev''] =
     (None, map (Pair False) [EHLO, STARTTLS] @ map (Pair True)
        [EHLO, AUTH_PLAIN ''u'' ''p'', MAIL ''gw'' [''8BITMIME''], RCPT ''ops'', RCPT ''dev'', DATA,
         MESSAGE (buildMIME ''gw'' [''ops'', ''dev''] subject body), QUIT])"
  by (simp add: smtp_run example_email_def)

theorem smtp_delivers_witness:
  "\<exists>w pre opts. smtp_Send example_email (\<lambda>_ _. Inr example_server) ''s'' ''t'' [''ops'', ''dev''] = (None, w)
     \<and> map snd w = pre @ MAIL ''gw'' opts # map RCPT [''ops'', ''dev'']
         @ [DATA, MESSAGE (buildMIME ''gw'' [''ops'', ''dev''] ''s'' ''t''), QUIT]"
  using smtp_delivers [OF example_server_accepts, of "''s''" "''t''"] example_server_accepts [of "''s''" "''t''"]
  by (fastforce simp: example_email_def)

end
