(* ===== verification/Notify_Model.thy ===== *)
theory Notify_Model
  imports Smtp_Model Health_Model Go_Time
begin

text \<open>
  The notifier, first half of \<^verbatim>\<open>internal/notify/notify.go\<close>, with the observer that
  \<^verbatim>\<open>cmd/gateway/main.go\<close> registers at the health checker. The channel of waiting events is a
  list of at most 64 events, the goroutine \<open>run\<close> takes its head. The relation \<open>notifier\<close>
  interleaves the callers of \<open>Notify\<close> with that goroutine; \<open>dispatch\<close> reads the clock once
  before and once after the mail is sent.
\<close>

section \<open>Events\<close>

record Event =
  ev_BackendID :: string
  ev_BackendName :: string
  ev_BackendURL :: string
  ev_Prev :: BackendStatus
  ev_Next :: BackendStatus
  ev_LatencyMS :: int
  ev_Error :: string
  ev_Models :: "string list"
  ev_Hostname :: string
  ev_At :: time

definition Kind :: "Event \<Rightarrow> string" where
  "Kind e =
     (case ev_Next e of
        StatusUnhealthy \<Rightarrow> ''backend_unhealthy''
      | StatusDegraded \<Rightarrow> ''backend_degraded''
      | StatusHealthy \<Rightarrow> if ev_Prev e \<noteq> StatusHealthy then ''backend_recovered'' else []
      | _ \<Rightarrow> [])"

text \<open>\<open>os.Hostname\<close> gives \<open>None\<close> when it fails.\<close>

definition Hostname :: "string option \<Rightarrow> string" where
  "Hostname h = (case h of None \<Rightarrow> ''unknown'' | Some n \<Rightarrow> if n = [] then ''unknown'' else n)"

definition pad :: "nat \<Rightarrow> int \<Rightarrow> string" where
  "pad k n = (let d = Itoa n in replicate (k - length d) (CHR ''0'') @ d)"

text \<open>\<open>Format(time.RFC3339)\<close> of a time in UTC.\<close>

definition RFC3339 :: "time \<Rightarrow> string" where
  "RFC3339 t =
     (let s = t mod day_ns div second_ns in
      pad 4 (Year t) @ ''-'' @ pad 2 (Month t) @ ''-'' @ pad 2 (Day t) @ ''T''
      @ pad 2 (s div 3600) @ '':'' @ pad 2 (s mod 3600 div 60) @ '':'' @ pad 2 (s mod 60) @ ''Z'')"

definition body_line :: "string \<Rightarrow> string \<Rightarrow> string" where
  "body_line label v = label @ v @ [CHR 10]"

definition buildBody :: "Event \<Rightarrow> string \<Rightarrow> string" where
  "buildBody e kind =
     body_line ''Backend status transition'' [CHR 10]
     @ body_line ''Event:        '' kind
     @ body_line ''Backend ID:   '' (ev_BackendID e)
     @ body_line ''Backend name: '' (ev_BackendName e)
     @ body_line ''Base URL:     '' (ev_BackendURL e)
     @ body_line ''Previous:     '' (status_text (ev_Prev e))
     @ body_line ''New:          '' (status_text (ev_Next e))
     @ body_line ''Latency:      '' (Itoa (ev_LatencyMS e) @ ''ms'')
     @ (if ev_Error e \<noteq> [] then body_line ''Last error:   '' (ev_Error e) else [])
     @ (if ev_Models e \<noteq> [] then body_line ''Models:       '' (Join (ev_Models e) '', '') else [])
     @ body_line ''Gateway host: '' (ev_Hostname e)
     @ body_line ''Timestamp:    '' (RFC3339 (ev_At e))"

section \<open>The notifier\<close>

text \<open>
  \<open>n_sender\<close> is the configuration of the SMTP sender, if there is one; \<open>n_running\<close> tells whether
  the goroutine runs, \<open>n_stop\<close> whether the stop channel is closed.
\<close>

record Notifier =
  n_cfg :: EmailNotifierConfig
  n_sender :: "EmailNotifierConfig option"
  n_lastSent :: "time gomap"
  n_ch :: "Event list"
  n_running :: bool
  n_stop :: bool
  n_lastSendAt :: "time option"
  n_lastError :: string

definition notify_New :: "NotificationsConfig \<Rightarrow> Notifier" where
  "notify_New cfg =
     \<lparr>n_cfg = nc_Email cfg, n_sender = (if em_Enabled (nc_Email cfg) then Some (nc_Email cfg) else None),
      n_lastSent = [], n_ch = [], n_running = False, n_stop = False, n_lastSendAt = None, n_lastError = []\<rparr>"

definition active :: "Notifier \<Rightarrow> bool" where
  "active n \<longleftrightarrow> em_Enabled (n_cfg n) \<and> n_sender n \<noteq> None"

definition notify_Start :: "Notifier \<Rightarrow> Notifier" where
  "notify_Start n = (if \<not> active n then n else n\<lparr>n_running := True\<rparr>)"

definition notify_Stop :: "Notifier \<Rightarrow> Notifier" where
  "notify_Stop n = n\<lparr>n_stop := True\<rparr>"

definition queue_cap :: nat where "queue_cap = 64"

definition matchesNotifyOn :: "Notifier \<Rightarrow> string \<Rightarrow> bool" where
  "matchesNotifyOn n kind =
     (if kind = [] then False
      else if em_NotifyOn (n_cfg n) = [] then True
      else list_ex (\<lambda>k. k = kind) (em_NotifyOn (n_cfg n)))"

definition Notify :: "Event \<Rightarrow> Notifier \<Rightarrow> Notifier" where
  "Notify e n =
     (if \<not> active n then n
      else if \<not> matchesNotifyOn n (Kind e) then n
      else if length (n_ch n) < queue_cap then n\<lparr>n_ch := n_ch n @ [e]\<rparr> else n)"

definition dedupe_key :: "Event \<Rightarrow> string" where
  "dedupe_key e = ev_BackendID e @ ''|'' @ Kind e"

definition cooldown :: "Notifier \<Rightarrow> int" where
  "cooldown n = (let c = w64 (em_CooldownMS (n_cfg n) * 1000000) in if c \<le> 0 then 5 * minute_ns else c)"

definition subject_of :: "Event \<Rightarrow> string" where
  "subject_of e =
     ''[llmgateway] '' @ Kind e @ '': '' @ ev_BackendID e @ '' ('' @ status_text (ev_Prev e) @ '' -> ''
     @ status_text (ev_Next e) @ '')''"

text \<open>
  \<open>dispatch\<close> at time \<open>t\<close>, with the mail sent or refused at time \<open>t'\<close>. The second result is the
  outcome of the send, \<open>None\<close> when the event was suppressed.
\<close>

definition dispatch :: "dialer \<Rightarrow> time \<Rightarrow> time \<Rightarrow> Event \<Rightarrow> Notifier \<Rightarrow> Notifier \<times> (string option \<times> wire) option" where
  "dispatch dial t t' e n =
     (if (case map_of (n_lastSent n) (dedupe_key e) of None \<Rightarrow> False | Some last_t \<Rightarrow> t - last_t < cooldown n) then (n, None)
      else
        let r = smtp_Send (the (n_sender n)) dial (subject_of e) (buildBody e (Kind e)) (em_To (n_cfg n)) in
        case fst r of
          Some err \<Rightarrow> (n\<lparr>n_lastSendAt := Some t', n_lastError := err\<rparr>, Some r)
        | None \<Rightarrow>
            (n\<lparr>n_lastSent := AList.update (dedupe_key e) t' (n_lastSent n), n_lastSendAt := Some t', n_lastError := []\<rparr>, Some r))"

definition LastResult :: "Notifier \<Rightarrow> time option \<times> string" where
  "LastResult n = (n_lastSendAt n, n_lastError n)"

text \<open>The observer: what the health checker emits for a backend becomes an event.\<close>

definition observe :: "string \<Rightarrow> time \<Rightarrow> Backend \<Rightarrow> health_emit \<Rightarrow> Notifier \<Rightarrow> Notifier" where
  "observe hostname now b em =
     (case em of (prev, next_st, latencyMS, errMsg) \<Rightarrow>
        Notify \<lparr>ev_BackendID = b_ID b, ev_BackendName = b_Name b, ev_BackendURL = b_BaseURL b, ev_Prev = prev, ev_Next = next_st,
                ev_LatencyMS = latencyMS, ev_Error = errMsg, ev_Models = b_Models b, ev_Hostname = hostname, ev_At = now\<rparr>)"

definition probe_and_notify ::
  "string \<Rightarrow> HealthCheckConfig \<Rightarrow> time \<Rightarrow> probe_answer \<Rightarrow> Backend \<times> Notifier \<Rightarrow> Backend \<times> Notifier" where
  "probe_and_notify hostname defaults now answer bn =
     (case checkOne defaults now answer (fst bn) of (b', ems) \<Rightarrow> (b', fold (observe hostname now b') ems (snd bn)))"

section \<open>Runs\<close>

text \<open>A mail that was sent: when \<open>dispatch\<close> began and ended, the event, and the outcome.\<close>

record attempt =
  at_begin :: time
  at_end :: time
  at_event :: Event
  at_result :: "string option \<times> wire"

text \<open>
  The states a notifier reaches, with the time of its clock and the attempts so far, latest
  first. The mail server may behave differently each time.
\<close>

inductive notifier :: "NotificationsConfig \<Rightarrow> Notifier \<Rightarrow> time \<Rightarrow> attempt list \<Rightarrow> bool" for cfg where
  create: "notifier cfg (notify_New cfg) t []"
| start: "notifier cfg n t h \<Longrightarrow> notifier cfg (notify_Start n) t h"
| submit: "notifier cfg n t h \<Longrightarrow> notifier cfg (Notify e n) t h"
| suppressed: "notifier cfg n t h \<Longrightarrow> n_running n \<Longrightarrow> n_ch n = e # es \<Longrightarrow> t \<le> t1 \<Longrightarrow>
    dispatch dial t1 t2 e (n\<lparr>n_ch := es\<rparr>) = (n', None) \<Longrightarrow> notifier cfg n' t1 h"
| sent: "notifier cfg n t h \<Longrightarrow> n_running n \<Longrightarrow> n_ch n = e # es \<Longrightarrow> t \<le> t1 \<Longrightarrow> t1 \<le> t2 \<Longrightarrow>
    dispatch dial t1 t2 e (n\<lparr>n_ch := es\<rparr>) = (n', Some r) \<Longrightarrow>
    notifier cfg n' t2 (\<lparr>at_begin = t1, at_end = t2, at_event = e, at_result = r\<rparr> # h)"
| stop: "notifier cfg n t h \<Longrightarrow> notifier cfg (notify_Stop n) t h"
| exit: "notifier cfg n t h \<Longrightarrow> n_stop n \<Longrightarrow> notifier cfg (n\<lparr>n_running := False\<rparr>) t h"

section \<open>What is promised\<close>

text \<open>
  The promise, said without the code's strings: there are three kinds of alert, with the names the
  configuration uses for them, and two mails are about the same thing when they are about the same
  backend and of the same kind.
\<close>

datatype alert = Down | Degraded | Recovered

definition alert_class :: "Event \<Rightarrow> alert option" where
  "alert_class e =
     (if ev_Next e = StatusUnhealthy then Some Down
      else if ev_Next e = StatusDegraded then Some Degraded
      else if ev_Next e = StatusHealthy \<and> ev_Prev e \<noteq> StatusHealthy then Some Recovered else None)"

primrec alert_name :: "alert \<Rightarrow> string" where
  "alert_name Down = ''backend_unhealthy''"
| "alert_name Degraded = ''backend_degraded''"
| "alert_name Recovered = ''backend_recovered''"

definition wanted :: "NotificationsConfig \<Rightarrow> Event \<Rightarrow> bool" where
  "wanted cfg e \<longleftrightarrow> em_Enabled (nc_Email cfg)
     \<and> (\<exists>c. alert_class e = Some c \<and> (em_NotifyOn (nc_Email cfg) = [] \<or> alert_name c \<in> set (em_NotifyOn (nc_Email cfg))))"

definition delivered :: "Event \<Rightarrow> attempt \<Rightarrow> bool" where
  "delivered e a \<longleftrightarrow> ev_BackendID (at_event a) = ev_BackendID e \<and> alert_class (at_event a) = alert_class e \<and> fst (at_result a) = None"

text \<open>The configured cooldown in nanoseconds, five minutes when none is set.\<close>

definition quiet_time :: "NotificationsConfig \<Rightarrow> int" where
  "quiet_time cfg = (if em_CooldownMS (nc_Email cfg) \<le> 0 then 300000 else em_CooldownMS (nc_Email cfg)) * 1000000"

text \<open>The names and the keys of the code tell the kinds and the subjects apart.\<close>

lemma Kind_class: "Kind e = (case alert_class e of None \<Rightarrow> [] | Some c \<Rightarrow> alert_name c)"
  by (simp add: Kind_def alert_class_def split: BackendStatus.split)

lemma alert_name_inj: "alert_name c = alert_name d \<longleftrightarrow> c = d" "alert_name c \<noteq> []" "CHR ''|'' \<notin> set (alert_name c)"
  by (cases c; cases d; simp) (cases c; simp)+

lemma Kind_eq: "Kind e = Kind f \<longleftrightarrow> alert_class e = alert_class f" "CHR ''|'' \<notin> set (Kind e)"
  using alert_name_inj(2) by (auto simp: Kind_class alert_name_inj(1,3) eq_commute [of "[]"] split: option.splits)

lemma bar_key: "CHR ''|'' \<notin> set k \<Longrightarrow> CHR ''|'' \<notin> set k' \<Longrightarrow> i @ ''|'' @ k = i' @ ''|'' @ k' \<longleftrightarrow> i = i' \<and> k = k'"
proof
  assume k: "CHR ''|'' \<notin> set k" "CHR ''|'' \<notin> set k'" and e: "i @ ''|'' @ k = i' @ ''|'' @ k'"
  have "takeWhile (\<lambda>c. c \<noteq> CHR ''|'') (rev (i @ ''|'' @ k)) = rev k" "takeWhile (\<lambda>c. c \<noteq> CHR ''|'') (rev (i' @ ''|'' @ k')) = rev k'"
    using k by (auto simp: takeWhile_append)
  then have "k = k'" unfolding e by (metis rev_rev_ident)
  with e show "i = i' \<and> k = k'" by simp
qed simp

lemma dedupe_key_eq: "dedupe_key e = dedupe_key f \<longleftrightarrow> ev_BackendID e = ev_BackendID f \<and> alert_class e = alert_class f"
  unfolding dedupe_key_def by (simp only: bar_key Kind_eq not_False_eq_True)

lemma matches_wanted: "n_cfg n = nc_Email cfg \<Longrightarrow> em_Enabled (nc_Email cfg) \<and> matchesNotifyOn n (Kind e) \<longleftrightarrow> wanted cfg e"
  by (auto simp: matchesNotifyOn_def wanted_def Kind_class alert_name_inj list_ex_iff split: option.splits)

section \<open>The invariant of a run\<close>

definition cooldown_of :: "NotificationsConfig \<Rightarrow> int" where
  "cooldown_of cfg = cooldown (notify_New cfg)"

lemma cooldown_quiet: "\<bar>em_CooldownMS (nc_Email cfg)\<bar> \<le> 9000000000000 \<Longrightarrow> cooldown_of cfg = quiet_time cfg"
  by (simp add: cooldown_of_def cooldown_def quiet_time_def notify_New_def w64_id ns_defs Let_def)

definition last_delivered :: "attempt list \<Rightarrow> string \<Rightarrow> time option" where
  "last_delivered h k = map_option at_end (find (\<lambda>a. dedupe_key (at_event a) = k \<and> fst (at_result a) = None) h)"

definition notifier_inv :: "NotificationsConfig \<Rightarrow> Notifier \<Rightarrow> time \<Rightarrow> attempt list \<Rightarrow> bool" where
  "notifier_inv cfg n t h \<longleftrightarrow>
     n_cfg n = nc_Email cfg \<and> n_sender n = n_sender (notify_New cfg)
   \<and> length (n_ch n) \<le> queue_cap \<and> (\<forall>e \<in> set (n_ch n). wanted cfg e)
   \<and> (\<forall>k. map_of (n_lastSent n) k = last_delivered h k)
   \<and> (\<forall>a \<in> set h. at_end a \<le> t \<and> wanted cfg (at_event a))
   \<and> sorted_wrt (\<lambda>a b. at_end b \<le> at_begin a \<and> at_begin a \<le> at_end a) h
   \<and> sorted_wrt (\<lambda>a b. delivered (at_event a) b \<longrightarrow> cooldown_of cfg \<le> at_begin a - at_end b) h"

lemma Notify_frame [simp]:
  "n_cfg (Notify e n) = n_cfg n" "n_sender (Notify e n) = n_sender n" "n_lastSent (Notify e n) = n_lastSent n"
  by (simp_all add: Notify_def)

lemma Start_frame [simp]:
  "n_cfg (notify_Start n) = n_cfg n" "n_sender (notify_Start n) = n_sender n" "n_lastSent (notify_Start n) = n_lastSent n"
  "n_ch (notify_Start n) = n_ch n"
  by (simp_all add: notify_Start_def)

lemma New_frame [simp]:
  "n_cfg (notify_New cfg) = nc_Email cfg" "n_lastSent (notify_New cfg) = []" "n_ch (notify_New cfg) = []"
  "n_sender (notify_New cfg) = (if em_Enabled (nc_Email cfg) then Some (nc_Email cfg) else None)"
  by (simp_all add: notify_New_def)

lemma Notify_queue:
  "n_ch (Notify e n) =
     (if active n \<and> matchesNotifyOn n (Kind e) \<and> length (n_ch n) < queue_cap then n_ch n @ [e] else n_ch n)"
  by (simp add: Notify_def)

lemma inv_Notify:
  assumes "notifier_inv cfg n t h"
  shows "notifier_inv cfg (Notify e n) t h"
proof -
  have "wanted cfg e" if "active n" "matchesNotifyOn n (Kind e)"
    using that assms matches_wanted [of n cfg e] by (simp add: notifier_inv_def active_def)
  then show ?thesis using assms by (auto simp: notifier_inv_def Notify_queue)
qed

lemma last_deliveredD:
  assumes "sorted_wrt (\<lambda>a b. at_end b \<le> at_begin a \<and> at_begin a \<le> at_end a) h"
  shows "case last_delivered h (dedupe_key e) of
      None \<Rightarrow> \<not> (\<exists>a \<in> set h. delivered e a)
    | Some l \<Rightarrow> (\<exists>a \<in> set h. delivered e a \<and> at_end a = l) \<and> (\<forall>a \<in> set h. delivered e a \<longrightarrow> at_end a \<le> l)"
  using assms
proof (induction h)
  case (Cons b h)
  then show ?case
    by (cases "last_delivered h (dedupe_key e)") (fastforce simp: last_delivered_def delivered_def dedupe_key_eq)+
qed (simp add: last_delivered_def)

text \<open>Suppression, read off the history: there was a delivery within the cooldown.\<close>

lemma suppressed_iff:
  assumes "notifier_inv cfg n t h"
  shows "snd (dispatch dial t1 t2 e (n\<lparr>n_ch := es\<rparr>)) = None \<longleftrightarrow> (\<exists>b \<in> set h. delivered e b \<and> t1 - at_end b < cooldown_of cfg)"
proof -
  have m: "map_of (n_lastSent n) (dedupe_key e) = last_delivered h (dedupe_key e)" and c: "cooldown (n\<lparr>n_ch := es\<rparr>) = cooldown_of cfg"
    and s: "sorted_wrt (\<lambda>a b. at_end b \<le> at_begin a \<and> at_begin a \<le> at_end a) h"
    using assms by (simp_all add: notifier_inv_def cooldown_of_def cooldown_def notify_New_def)
  show ?thesis
    using last_deliveredD [OF s, of e]
    by (cases "last_delivered h (dedupe_key e)") (force simp: dispatch_def m c Let_def split: option.split)+
qed

lemma dispatch_suppressed: "dispatch dial t1 t2 e n = (n', None) \<Longrightarrow> n' = n"
  by (auto simp: dispatch_def Let_def split: if_splits option.splits)

lemma dispatch_sent:
  assumes "dispatch dial t1 t2 e n = (n', Some r)"
  shows "n_cfg n' = n_cfg n" "n_sender n' = n_sender n" "n_ch n' = n_ch n"
    "n_lastSent n' = (if fst r = None then AList.update (dedupe_key e) t2 (n_lastSent n) else n_lastSent n)"
  using assms by (auto simp: dispatch_def Let_def split: if_splits option.splits)

lemma inv_sent:
  assumes inv: "notifier_inv cfg n t h" and "n_ch n = e # es" and "t \<le> t1" "t1 \<le> t2"
    and d: "dispatch dial t1 t2 e (n\<lparr>n_ch := es\<rparr>) = (n', Some r)"
  shows "notifier_inv cfg n' t2 (\<lparr>at_begin = t1, at_end = t2, at_event = e, at_result = r\<rparr> # h)"
proof -
  have "\<not> (\<exists>b \<in> set h. delivered e b \<and> t1 - at_end b < cooldown_of cfg)"
    using suppressed_iff [OF inv, of dial t1 t2 e es] d by simp
  moreover have "map_of (n_lastSent n') k = last_delivered (\<lparr>at_begin = t1, at_end = t2, at_event = e, at_result = r\<rparr> # h) k" for k
    using inv dispatch_sent(4) [OF d] by (auto simp: notifier_inv_def last_delivered_def update_conv')
  ultimately show ?thesis
    using inv assms(2-4) dispatch_sent(1,2,3) [OF d] by (force simp: notifier_inv_def not_less)
qed

lemma notifier_invariant: "notifier cfg n t h \<Longrightarrow> notifier_inv cfg n t h"
proof (induction rule: notifier.induct)
  case (create t)
  then show ?case by (simp add: notifier_inv_def notify_New_def last_delivered_def)
next
  case (submit n t h e)
  then show ?case by (blast intro: inv_Notify)
next
  case (suppressed n t h e es t1 dial t2 n')
  then show ?case by (auto simp: notifier_inv_def dest!: dispatch_suppressed)
next
  case (sent n t h e es t1 t2 dial n' r)
  then show ?case by (blast intro: inv_sent)
qed (simp_all add: notifier_inv_def notify_Stop_def)

text \<open>
  C29. Alert throttling, in every run of the notifier and with every behaviour of the mail
  server: at most 64 events wait; an event is queued exactly when there is room and it is an alert
  of a configured kind (of any kind when none is configured), and mails are attempted for such
  events only; an event is suppressed exactly when a mail about the same backend and of the same
  kind was delivered less than the cooldown ago, so that a failed attempt never silences the alert
  and delivered alerts about the same are at least the cooldown apart. The cooldown is the
  configured number of milliseconds, five minutes when it is not positive; it is assumed to be
  within 9000000000000 milliseconds, so that it fits 64 bits as a duration.
\<close>

theorem alerts_throttled:
  assumes "notifier cfg n t h" and "\<bar>em_CooldownMS (nc_Email cfg)\<bar> \<le> 9000000000000"
  shows "length (n_ch n) \<le> 64
    \<and> n_ch (Notify e n) = n_ch n @ (if wanted cfg e \<and> length (n_ch n) < 64 then [e] else [])
    \<and> (\<forall>a \<in> set h. wanted cfg (at_event a))
    \<and> (snd (dispatch dial t1 t2 e n) = None \<longleftrightarrow> (\<exists>b \<in> set h. delivered e b \<and> t1 - at_end b < quiet_time cfg))
    \<and> sorted_wrt (\<lambda>a b. delivered (at_event a) b \<longrightarrow> at_end b + quiet_time cfg \<le> at_begin a) h"
proof -
  note inv = notifier_invariant [OF assms(1)] note c = cooldown_quiet [OF assms(2)]
  have "sorted_wrt (\<lambda>a b. delivered (at_event a) b \<longrightarrow> at_end b + quiet_time cfg \<le> at_begin a) h"
    using inv by (auto simp: notifier_inv_def c algebra_simps elim!: sorted_wrt_mono_rel [rotated])
  moreover have "snd (dispatch dial t1 t2 e n) = None \<longleftrightarrow> (\<exists>b \<in> set h. delivered e b \<and> t1 - at_end b < quiet_time cfg)"
    using suppressed_iff [OF inv, of dial t1 t2 e "n_ch n"] by (simp add: c)
  moreover have "n_cfg n = nc_Email cfg" "active n \<longleftrightarrow> em_Enabled (nc_Email cfg)" using inv by (simp_all add: notifier_inv_def active_def)
  then have "n_ch (Notify e n) = n_ch n @ (if wanted cfg e \<and> length (n_ch n) < 64 then [e] else [])"
    using matches_wanted [of n cfg e] by (auto simp: Notify_queue queue_cap_def)
  ultimately show ?thesis using inv by (simp add: notifier_inv_def queue_cap_def)
qed

text \<open>A run that delivers one alert.\<close>

definition example_alert :: Event where
  "example_alert = \<lparr>ev_BackendID = ''b1'', ev_BackendName = [], ev_BackendURL = [], ev_Prev = StatusHealthy,
     ev_Next = StatusUnhealthy, ev_LatencyMS = 0, ev_Error = [], ev_Models = [], ev_Hostname = [], ev_At = 0\<rparr>"

lemma example_run:
  "\<exists>n r. notifier \<lparr>nc_Email = example_email\<rparr> n 1 [\<lparr>at_begin = 0, at_end = 1, at_event = example_alert, at_result = (None, r)\<rparr>]"
proof -
  let ?cfg = "\<lparr>nc_Email = example_email\<rparr>"
  let ?n = "Notify example_alert (notify_Start (notify_New ?cfg))"
  have run: "notifier ?cfg ?n 0 []" by (intro notifier.intros)
  have em: "em_Enabled example_email" "em_To example_email = [''ops'', ''dev'']" by (simp_all add: example_email_def)
  have n: "n_running ?n" "n_ch ?n = [example_alert]"
    by (simp_all add: Notify_def notify_Start_def active_def em example_email_def matchesNotifyOn_def Kind_def
        example_alert_def queue_cap_def)
  obtain n' r where "dispatch (\<lambda>_ _. Inr example_server) 0 1 example_alert (?n\<lparr>n_ch := []\<rparr>) = (n', Some (None, r))"
    using example_server_accepts [of "subject_of example_alert" "buildBody example_alert (Kind example_alert)"]
    by (simp add: dispatch_def em Let_def)
  from notifier.sent [OF run n _ _ this] show ?thesis by auto
qed

theorem alerts_throttled_witness:
  "\<exists>n h. notifier \<lparr>nc_Email = example_email\<rparr> n 1 h \<and> h \<noteq> []
     \<and> snd (dispatch (\<lambda>_ _. Inr example_server) 500000000 500000001 example_alert n) = None
     \<and> snd (dispatch (\<lambda>_ _. Inr example_server) 1000000001 1000000002 example_alert n) \<noteq> None"
proof -
  obtain n r where run: "notifier \<lparr>nc_Email = example_email\<rparr> n 1 [\<lparr>at_begin = 0, at_end = 1, at_event = example_alert, at_result = (None, r)\<rparr>]"
    using example_run by blast
  have q: "quiet_time \<lparr>nc_Email = example_email\<rparr> = 1000000000" and c: "\<bar>em_CooldownMS (nc_Email \<lparr>nc_Email = example_email\<rparr>)\<bar> \<le> 9000000000000"
    by (simp_all add: quiet_time_def example_email_def)
  show ?thesis
    using alerts_throttled [OF run c, of example_alert "\<lambda>_ _. Inr example_server" 500000000 500000001]
      alerts_throttled [OF run c, of example_alert "\<lambda>_ _. Inr example_server" 1000000001 1000000002] run q
    by (fastforce simp: delivered_def)
qed

section \<open>From a probe to an alert\<close>

definition turn_of :: "health_emit \<Rightarrow> BackendStatus \<times> BackendStatus" where
  "turn_of em = (fst em, fst (snd em))"

lemma health_record_emits:
  assumes "b_Enabled b" and "health_record now ok lat err b = (b', ems)"
  shows "map turn_of ems = (if Status b' = Status b then [] else [(Status b, Status b')]) \<and> b_ID b' = b_ID b
    \<and> (Status b' \<noteq> Status b \<longrightarrow> Status b' \<in> {StatusHealthy, StatusUnhealthy})"
proof -
  obtain ch st where r: "RecordHealthCheck now ok lat err b = (b', ch, st)"
    using assms(2) by (auto simp: health_record_def Let_def split: prod.splits)
  have "b_Enabled b'" "b_ID b' = b_ID b" "ch = (b_status b \<noteq> b_status b')" "st = b_status b'"
    "b_status b' \<in> {b_status b, StatusHealthy, StatusUnhealthy}"
    using RecordHealthCheck_frame(1,5) [of now ok lat err b] RecordHealthCheck_result [of now ok lat err b]
      RecordHealthCheck_status [of now ok lat err b] r assms(1) by (auto split: if_splits)
  moreover have "ems = (if ch then [(Status b, st, lat, err)] else [])"
    using assms(2) by (simp add: health_record_def Let_def r)
  ultimately show ?thesis by (simp add: Status_def turn_of_def assms(1)) (metis BackendStatus.distinct)
qed

lemma recordDegraded_emits:
  assumes "b_Enabled b" and "recordDegraded now lat err b = (b', ems)"
  shows "map turn_of ems = (if Status b' = Status b then [] else [(Status b, Status b')]) \<and> b_ID b' = b_ID b
    \<and> (Status b' \<noteq> Status b \<longrightarrow> Status b' = StatusDegraded)"
  using assms by (auto simp: recordDegraded_def Let_def MarkDegraded_def Status_def turn_of_def split: if_splits)

lemma checkOne_cases:
  assumes "b_Enabled b"
  shows "(\<exists>ok lat err. checkOne defaults now answer b = health_record now ok lat err b)
    \<or> (\<exists>lat err. checkOne defaults now answer b = recordDegraded now lat err b)"
  unfolding checkOne_def httpProbe_def tcpProbe_def using assms by (cases answer) auto

lemma checkOne_emits:
  assumes "b_Enabled b" and "checkOne defaults now answer b = (b', ems)"
  shows "map turn_of ems = (if Status b' = Status b then [] else [(Status b, Status b')]) \<and> b_ID b' = b_ID b
    \<and> (Status b' \<noteq> Status b \<longrightarrow> Status b' \<in> {StatusHealthy, StatusUnhealthy, StatusDegraded})"
  using checkOne_cases [OF assms(1), of defaults now answer]
proof (elim disjE exE)
  fix ok lat err
  assume "checkOne defaults now answer b = health_record now ok lat err b"
  then show ?thesis using health_record_emits [OF assms(1), of now ok lat err b' ems] assms(2) by auto
next
  fix lat err
  assume "checkOne defaults now answer b = recordDegraded now lat err b"
  then show ?thesis using recordDegraded_emits [OF assms(1), of now lat err b' ems] assms(2) by simp
qed

definition alert_kind :: "BackendStatus \<Rightarrow> string" where
  "alert_kind st = (case st of StatusUnhealthy \<Rightarrow> ''backend_unhealthy'' | StatusDegraded \<Rightarrow> ''backend_degraded'' | _ \<Rightarrow> ''backend_recovered'')"

lemma observe_turn:
  assumes "turn_of em = (prev, next_st)" and "next_st \<noteq> prev" and "next_st \<in> {StatusHealthy, StatusUnhealthy, StatusDegraded}"
    and "active n" and "length (n_ch n) < queue_cap"
  shows "\<exists>e. n_ch (observe hostname now b em n) = n_ch n @ (if matchesNotifyOn n (alert_kind next_st) then [e] else [])
     \<and> ev_BackendID e = b_ID b \<and> ev_Prev e = prev \<and> ev_Next e = next_st \<and> Kind e = alert_kind next_st"
proof -
  obtain lat err where em: "em = (prev, next_st, lat, err)" using assms(1) by (cases em) (auto simp: turn_of_def)
  let ?e = "\<lparr>ev_BackendID = b_ID b, ev_BackendName = b_Name b, ev_BackendURL = b_BaseURL b, ev_Prev = prev, ev_Next = next_st,
    ev_LatencyMS = lat, ev_Error = err, ev_Models = b_Models b, ev_Hostname = hostname, ev_At = now\<rparr>"
  have "Kind ?e = alert_kind next_st" using assms(2,3) by (auto simp: Kind_def alert_kind_def)
  then show ?thesis using assms(4,5) by (intro exI [of _ ?e]) (simp add: observe_def em Notify_queue)
qed

text \<open>
  A status transition raises exactly one alert: when a probe of an enabled backend changes
  its status, one event about this backend, with the old and the new status, is queued if its
  kind is among those configured; a probe that leaves the status alone queues nothing.
\<close>

theorem transition_alerts:
  assumes "b_Enabled b" and "active n" and "length (n_ch n) < queue_cap"
    and p: "probe_and_notify hostname defaults now answer (b, n) = (b', n')"
  shows "if Status b' \<noteq> Status b \<and> matchesNotifyOn n (alert_kind (Status b'))
    then \<exists>e. n_ch n' = n_ch n @ [e] \<and> ev_BackendID e = b_ID b \<and> ev_Prev e = Status b \<and> ev_Next e = Status b'
      \<and> Kind e = alert_kind (Status b')
    else n_ch n' = n_ch n"
proof -
  obtain ems where c: "checkOne defaults now answer b = (b', ems)" and n': "n' = fold (observe hostname now b') ems n"
    using p by (auto simp: probe_and_notify_def split: prod.splits)
  note em = checkOne_emits [OF assms(1) c]
  show ?thesis
  proof (cases "Status b' = Status b")
    case True
    then show ?thesis using em n' by simp
  next
    case False
    then obtain x where "ems = [x]" "turn_of x = (Status b, Status b')" using em by (cases ems) auto
    then show ?thesis using observe_turn [of x "Status b" "Status b'" n hostname now b'] False em n' assms(2,3) by auto
  qed
qed

theorem transition_alerts_witness:
  "\<exists>b' n' e. probe_and_notify ''gw'' quick_defaults 7 (Answers 5 401) (example_backend, notify_New \<lparr>nc_Email = example_email\<rparr>) = (b', n')
     \<and> Status b' = StatusDegraded \<and> n_ch n' = [e] \<and> Kind e = ''backend_degraded''"
proof -
  let ?n = "notify_New \<lparr>nc_Email = example_email\<rparr>"
  have n: "active ?n" "length (n_ch ?n) < queue_cap" "matchesNotifyOn ?n ''backend_degraded''"
    by (simp_all add: active_def queue_cap_def matchesNotifyOn_def example_email_def)
  have b: "b_Enabled example_backend" "Status example_backend \<noteq> StatusDegraded"
    by (simp_all add: example_backend_def Status_def)
  have "ToLower (hc_Type (effective quick_defaults example_backend)) \<noteq> ''tcp''"
    by (simp add: effective_def quick_defaults_def Default_def example_backend_def Let_def ToLower_def lower_char_def)
  then have c: "fst (checkOne quick_defaults 7 (Answers 5 401) example_backend) = MarkDegraded 7 5 (''auth-probe returned '' @ Itoa 401) example_backend"
    by (simp add: checkOne_def b httpProbe_def recordDegraded_def Let_def)
  obtain b' n' where p: "probe_and_notify ''gw'' quick_defaults 7 (Answers 5 401) (example_backend, ?n) = (b', n')" by (rule prod.exhaust)
  then have "b' = MarkDegraded 7 5 (''auth-probe returned '' @ Itoa 401) example_backend"
    using c by (auto simp: probe_and_notify_def split: prod.splits)
  then have "Status b' = StatusDegraded" using b(1) by (simp add: MarkDegraded_def Status_def)
  then show ?thesis using transition_alerts [OF b(1) n(1,2) p] b(2) n(3) p by (auto simp: alert_kind_def)
qed

end
