(* ===== verification/Gateway_Main.thy ===== *)
theory Gateway_Main
  imports Forward_Log Admin_Catalog Notify_Model Auth_Model
begin

text \<open>
  The process, \<^verbatim>\<open>cmd/gateway/main.go\<close>: overrides from the environment, the choice of the
  drivers, the assembly of the components, the probes of the orchestrating platform and the
  routes of the data plane, each behind the API-key middleware. \<open>logReject\<close> of
  \<^verbatim>\<open>internal/auth/middleware.go\<close> is here because the middleware and the handlers share one log.
  The theorems say that start-up establishes the invariants the other theories assume, and that
  access control holds end to end.
\<close>

section \<open>Environment\<close>

type_synonym environ = "string \<Rightarrow> string"

definition envOr :: "environ \<Rightarrow> string \<Rightarrow> string \<Rightarrow> string" where
  "envOr getenv key fallback = (if getenv key \<noteq> [] then getenv key else fallback)"

definition splitHostPort :: "('i, 'n) net_ops \<Rightarrow> string \<Rightarrow> (string \<times> int) option" where
  "splitHostPort net s =
     (case net_SplitHostPort net s of
        None \<Rightarrow> None
      | Some (host, portStr) \<Rightarrow>
          if portStr = [] then None
          else case Atoi portStr of
                 None \<Rightarrow> None
               | Some port \<Rightarrow> if port \<le> 0 \<or> 65535 < port then None else Some (host, port))"

definition env_hash_secret :: "environ \<Rightarrow> Config \<Rightarrow> Config" where
  "env_hash_secret getenv cfg =
     (let v = getenv ''LLMGATEWAY_HASH_SECRET'' in
      if v \<noteq> [] then cfg\<lparr>c_Auth := (c_Auth cfg)\<lparr>ac_HashSecret := v\<rparr>\<rparr> else cfg)"

definition env_admin_token :: "environ \<Rightarrow> Config \<Rightarrow> Config" where
  "env_admin_token getenv cfg =
     (let v = getenv ''LLMGATEWAY_ADMIN_TOKEN'' in
      if v \<noteq> [] then cfg\<lparr>c_Admin := (c_Admin cfg)\<lparr>ad_BindToken := v\<rparr>\<rparr> else cfg)"

definition env_listen :: "('i, 'n) net_ops \<Rightarrow> environ \<Rightarrow> Config \<Rightarrow> Config" where
  "env_listen net getenv cfg =
     (let v = getenv ''LLMGATEWAY_LISTEN'' in
      if v \<noteq> [] then
        (case splitHostPort net v of
           Some (host, port) \<Rightarrow> cfg\<lparr>c_Server := (c_Server cfg)\<lparr>sc_Host := host, sc_Port := port\<rparr>\<rparr>
         | None \<Rightarrow> cfg)
      else cfg)"

definition env_smtp_password :: "environ \<Rightarrow> Config \<Rightarrow> Config" where
  "env_smtp_password getenv cfg =
     (let set_password = (\<lambda>v. cfg\<lparr>c_Notifications := (c_Notifications cfg)\<lparr>nc_Email := (nc_Email (c_Notifications cfg))\<lparr>em_Password := v\<rparr>\<rparr>\<rparr>);
          v = getenv ''LLMGATEWAY_SMTP_PASSWORD''; v' = getenv ''SMTP_PASSWORD''
      in if v \<noteq> [] then set_password v else if v' \<noteq> [] then set_password v' else cfg)"

definition applyEnvOverrides :: "('i, 'n) net_ops \<Rightarrow> environ \<Rightarrow> Config \<Rightarrow> Config" where
  "applyEnvOverrides net getenv cfg =
     env_smtp_password getenv (env_listen net getenv (env_admin_token getenv (env_hash_secret getenv cfg)))"

definition healthcheck_url :: "Config \<Rightarrow> string" where
  "healthcheck_url cfg =
     (let host = sc_Host (c_Server cfg); host' = (if host = ''0.0.0.0'' \<or> host = [] then ''127.0.0.1'' else host)
      in ''http://'' @ host' @ '':'' @ Itoa (sc_Port (c_Server cfg)) @ ''/healthz'')"

text \<open>The exit code of \<open>--healthcheck\<close>; \<open>get\<close> is the status of a GET, \<open>None\<close> when it fails.\<close>

definition runHealthCheck :: "(string \<Rightarrow> int option) \<Rightarrow> Config \<Rightarrow> int" where
  "runHealthCheck get cfg =
     (case get (healthcheck_url cfg) of None \<Rightarrow> 1 | Some status \<Rightarrow> if status \<noteq> 200 then 1 else 0)"

section \<open>Assembly\<close>

datatype limit_driver = RedisLimit string string | MemoryLimit
datatype log_driver = MemoryLog int | SQLiteLog string | PostgresLog string | UnsupportedLog string

definition limit_driver_of :: "Config \<Rightarrow> limit_driver" where
  "limit_driver_of cfg =
     (if ToLower (rl_Backend (c_RateLimit cfg)) = ''redis''
      then RedisLimit (rl_RedisURL (c_RateLimit cfg)) (rl_RedisPrefix (c_RateLimit cfg)) else MemoryLimit)"

definition log_driver_of :: "environ \<Rightarrow> Config \<Rightarrow> log_driver" where
  "log_driver_of getenv cfg =
     (let d = st_Driver (c_Storage cfg); dsn = st_DSN (c_Storage cfg) in
      if d = [] \<or> d = ''memory'' then MemoryLog 50000
      else if d = ''sqlite'' then SQLiteLog dsn
      else if d = ''postgres'' \<or> d = ''postgresql'' then PostgresLog (envOr getenv ''LLMGATEWAY_PG_DSN'' dsn)
      else UnsupportedLog d)"

definition main_store :: "(string \<Rightarrow> string \<Rightarrow> string) \<Rightarrow> (string \<Rightarrow> time option) \<Rightarrow> Config \<Rightarrow> Store" where
  "main_store hmac parse_time cfg = LoadFromConfig hmac parse_time cfg (store_New (ac_HashSecret (c_Auth cfg)))"

text \<open>The data plane; \<open>rl\<close> and \<open>ls\<close> are what the drivers give.\<close>

definition main_handler :: "Config \<Rightarrow> Store \<Rightarrow> Limiter \<Rightarrow> Memory \<Rightarrow> Handler" where
  "main_handler cfg s rl ls =
     (let q = c_Queue cfg;
          h = WithQueue (queue_New (qc_QueueTimeoutMS q) (qc_MaxQueueSize q) (qc_PerModelLimit q))
                (WithQuota quota_New (WithLogStore ls (handler_New cfg s balancer_New rl NewConcurrency)))
      in if o_Enabled (c_Orchestration cfg)
         then WithOrchestrator
                (WithMetrics (WithRouting (rc_AllowDegradedBackends (c_Routing cfg)) (orch_New (c_Orchestration cfg) True))) h
         else h)"

definition main_admin :: "pw_ops \<Rightarrow> order \<Rightarrow> Config \<Rightarrow> Store \<Rightarrow> Memory \<Rightarrow> Server" where
  "main_admin pw ord cfg s ls =
     \<lparr>sv_admin = \<lparr>as_cfg = c_Admin cfg, as_users = Some (users_LoadFromConfig pw (c_AdminUsers cfg) NewUsers),
                   as_sessions = Some NewSessionManager\<rparr>,
      sv_store = s, sv_health = Some (health_Start ord s (NewHealthChecker (c_HealthCheck cfg))),
      sv_logs = Some ls, sv_quota = Some quota_New\<rparr>"

section \<open>Readiness\<close>

fun readyz_loop :: "(addr \<Rightarrow> Backend) \<Rightarrow> addr list \<Rightarrow> int" where
  "readyz_loop heap [] = 503"
| "readyz_loop heap (p # ps) =
     (let b = heap p in
      if \<not> b_Enabled b then readyz_loop heap ps
      else if Status b = StatusHealthy \<or> Status b = StatusUnknown then 200
      else readyz_loop heap ps)"

definition readyz :: "order \<Rightarrow> Store \<Rightarrow> int" where
  "readyz ord s = readyz_loop (s_bheap s) (Backends ord s)"

section \<open>The data plane\<close>

datatype v1_handler = HListModels | HForward string | HMultipart string

text \<open>Go's mux sends a HEAD request to the pattern for GET.\<close>

definition v1_routes :: "((string \<times> string) \<times> v1_handler) list" where
  "v1_routes =
     [((''GET'', ''/v1/models''), HListModels),
      ((''POST'', ''/v1/chat/completions''), HForward ''/chat/completions''),
      ((''POST'', ''/v1/completions''), HForward ''/completions''),
      ((''POST'', ''/v1/embeddings''), HForward ''/embeddings''),
      ((''POST'', ''/v1/responses''), HForward ''/responses''),
      ((''POST'', ''/v1/audio/transcriptions''), HMultipart ''/audio/transcriptions''),
      ((''POST'', ''/v1/audio/translations''), HMultipart ''/audio/translations''),
      ((''POST'', ''/v1/audio/speech''), HForward ''/audio/speech'')]"

definition v1_route :: "string \<Rightarrow> string \<Rightarrow> v1_handler option" where
  "v1_route method path = map_of v1_routes (if method = ''HEAD'' then ''GET'' else method, path)"

record v1_in =
  vi_method :: string
  vi_path :: string
  vi_remote :: string
  vi_header :: http_Header
  vi_body :: body_read
  vi_form :: multipart_in

text \<open>
  \<open>ve_now\<close> is the clock of the middleware, \<open>ve_logID\<close>, \<open>ve_requestID\<close> the identifiers of the
  record of a rejection, and \<open>ve_meanwhile\<close> what other requests change between the check of the
  key and the handler.
\<close>

record v1_env =
  ve_fwd :: fwd_env
  ve_now :: time
  ve_logID :: string
  ve_requestID :: string
  ve_meanwhile :: "Handler \<Rightarrow> Handler"
  ve_orders :: "nat \<Rightarrow> order"

record ('i, 'n) v1_gate =
  vg_hmac :: "string \<Rightarrow> string \<Rightarrow> string"
  vg_net :: "('i, 'n) net_ops"
  vg_trusted :: "'n list"
  vg_auth :: Authenticator

definition main_gate :: "(string \<Rightarrow> string \<Rightarrow> string) \<Rightarrow> ('i, 'n) net_ops \<Rightarrow> Config \<Rightarrow> ('i, 'n) v1_gate" where
  "main_gate hmac net cfg =
     \<lparr>vg_hmac = hmac, vg_net = net, vg_trusted = NewExtractor net (sc_TrustedProxies (c_Server cfg)),
      vg_auth = auth_New (ac_APIKeyHeader (c_Auth cfg)) (ac_APIKeyPrefix (c_Auth cfg))\<rparr>"

definition as_request :: "v1_in \<Rightarrow> http_request" where
  "as_request r = \<lparr>rq_RemoteAddr = vi_remote r, rq_Path = vi_path r, rq_Header = (\<lambda>k. hdr_Get k (vi_header r))\<rparr>"

definition reject_record :: "v1_env \<Rightarrow> string \<Rightarrow> APIKey option \<Rightarrow> string \<Rightarrow> int \<Rightarrow> string \<Rightarrow> RequestLog" where
  "reject_record ve path k clientIP status code =
     \<lparr>lr_ID = ve_logID ve, lr_RequestID = ve_requestID ve, lr_APIKeyID = (case k of Some k \<Rightarrow> k_ID k | None \<Rightarrow> []),
      lr_APIKeyName = (case k of Some k \<Rightarrow> k_Name k | None \<Rightarrow> []), lr_ClientIP = clientIP, lr_Model = [], lr_InternalModel = [],
      lr_BackendID = [], lr_Endpoint = path, lr_Stream = False, lr_StatusCode = status, lr_ErrorCode = code,
      lr_PromptTokens = 0, lr_CompletionTokens = 0, lr_TotalTokens = 0, lr_ReasoningTokens = 0, lr_LatencyMS = 0,
      lr_TTFTMS = 0, lr_RawRequest = [], lr_RawResponse = [], lr_Metadata = [], lr_CreatedAt = ve_now ve\<rparr>"

definition logReject :: "v1_env \<Rightarrow> string \<Rightarrow> addr option \<Rightarrow> string \<Rightarrow> int \<Rightarrow> string \<Rightarrow> Handler \<Rightarrow> Handler" where
  "logReject ve path k clientIP status code h =
     (case hd_logstore h of
        None \<Rightarrow> h
      | Some ls \<Rightarrow> h\<lparr>hd_logstore := Some (AppendRequest (reject_record ve path (the_key h k) clientIP status code) ls)\<rparr>)"

text \<open>What the client gets, with what was sent upstream.\<close>

datatype v1_answer =
    VUnrouted
  | VError int APIError
  | VModels "modelEntry list"
  | VForward served sent
  | VMultipart answer "(addr \<times> ForwardOptions) option"

definition handler_request :: "v1_in \<Rightarrow> string \<Rightarrow> addr option \<Rightarrow> string \<Rightarrow> http_in" where
  "handler_request r path k clientIP =
     \<lparr>hi_path = path, hi_header = vi_header r, hi_body = vi_body r, hi_key = k, hi_clientIP = clientIP\<rparr>"

definition v1_run :: "v1_env \<Rightarrow> handler_json \<Rightarrow> (Result \<Rightarrow> string) \<Rightarrow> v1_in \<Rightarrow> v1_handler \<Rightarrow> addr option \<Rightarrow> string \<Rightarrow> Handler \<Rightarrow> v1_answer \<times> Handler" where
  "v1_run ve js render r hn k clientIP h =
     (case hn of
        HListModels \<Rightarrow> (VModels (ListModels (ve_orders ve) (ve_now ve div second_ns) k h), h)
      | HForward path \<Rightarrow>
          (case gateway_Forward (ve_fwd ve) js render (handler_request r path k clientIP) h of
             (ans, snt, h1) \<Rightarrow> (VForward ans snt, h1))
      | HMultipart path \<Rightarrow>
          (case ForwardMultipart (ve_fwd ve) js (handler_request r path k clientIP) (vi_form r) h of
             (ans, snt, h1) \<Rightarrow> (VMultipart ans snt, h1)))"

definition v1_serve ::
    "('i, 'n) v1_gate \<Rightarrow> v1_env \<Rightarrow> handler_json \<Rightarrow> (Result \<Rightarrow> string) \<Rightarrow> v1_in \<Rightarrow> Handler \<Rightarrow> v1_answer \<times> Handler" where
  "v1_serve g ve js render r h =
     (case v1_route (vi_method r) (vi_path r) of
        None \<Rightarrow> (VUnrouted, h)
      | Some hn \<Rightarrow>
          (case auth_Middleware (vg_hmac g) (vg_net g) (Some (vg_trusted g)) (vg_auth g) (HasPrefix (vi_path r) ''/v1/'')
                  (ve_now ve) (hd_store h) (as_request r) of
             auth_result.Rejected status code msg k \<Rightarrow>
               (VError status ((if status = 403 then PermissionError else Unauthorized) msg code),
                logReject ve (vi_path r) k (ClientIP (vg_net g) (vg_trusted g) (as_request r)) status code h)
           | auth_result.Passed k clientIP \<Rightarrow> v1_run ve js render r hn k clientIP (ve_meanwhile ve h)))"

section \<open>Start-up\<close>

lemma env_config_ok: "config_ok cfg \<Longrightarrow> config_ok (applyEnvOverrides net getenv cfg)"
proof -
  have h: "config_ok (env_hash_secret getenv c)" and a: "config_ok (env_admin_token getenv c)" and p: "config_ok (env_smtp_password getenv c)"
    if "config_ok c" for c
    using that by (simp_all add: config_ok_def orchestration_ok_def env_hash_secret_def env_admin_token_def env_smtp_password_def Let_def)
  have l: "config_ok (env_listen net getenv c)" if "config_ok c" for c
    using that
    by (auto simp: config_ok_def orchestration_ok_def env_listen_def splitHostPort_def Let_def split: option.splits if_splits)
  assume "config_ok cfg"
  then show ?thesis unfolding applyEnvOverrides_def by (intro p l a h)
qed

text \<open>Loading starts every in-flight counter at zero.\<close>

definition idle :: "Store \<Rightarrow> bool" where
  "idle s \<longleftrightarrow> (\<forall>p. b_activeRequests (s_bheap s p) = 0)"

lemma fold_keeps: "(\<And>x s. P s \<Longrightarrow> P (f x s)) \<Longrightarrow> P s \<Longrightarrow> P (fold f xs s)"
  by (induction xs arbitrary: s) auto

lemma idle_loads:
  "idle s \<Longrightarrow> idle (load_backend bc s)" "idle s \<Longrightarrow> idle (load_model mc s)" "idle s \<Longrightarrow> idle (load_alias ac s)"
  "idle s \<Longrightarrow> idle (load_key hmac pt kc s)"
  by (simp_all add: idle_def load_backend_def new_backend_def zero_backend_def load_model_def load_alias_def load_key_def
      new_key_def index_key_def Let_def)

lemma idle_LoadFromConfig: "idle s \<Longrightarrow> idle (LoadFromConfig hmac pt cfg s)"
  unfolding LoadFromConfig_def by (intro fold_keeps [of idle] idle_loads)

lemma idle_New: "idle (store_New secret)"
  by (simp add: idle_def store_New_def zero_backend_def)

text \<open>The key table after loading.\<close>

definition key_part :: "Store \<Rightarrow> (string \<times> addr) list \<times> (string \<times> addr) list \<times> (addr \<Rightarrow> APIKey) \<times> string" where
  "key_part s = (s_apiKeys s, s_keyByHash s, s_kheap s, s_hashSecret s)"

lemma key_part_loads:
  "key_part (load_backend bc s) = key_part s" "key_part (load_model mc s) = key_part s" "key_part (load_alias ac s) = key_part s"
  by (simp_all add: key_part_def load_backend_def new_backend_def load_model_def load_alias_def Let_def)

lemma key_part_fold: "(\<And>x s. key_part (f x s) = key_part s) \<Longrightarrow> key_part (fold f xs s) = key_part s"
  by (induction xs arbitrary: s) auto

text \<open>
  The keys of a configuration are unambiguous when no two have the same id or the same hash, and
  none has an empty id; \<open>s\<close> supplies the hash secret.
\<close>

definition keys_unambiguous :: "(string \<Rightarrow> string \<Rightarrow> string) \<Rightarrow> (string \<Rightarrow> time option) \<Rightarrow> Store \<Rightarrow> APIKeyConfig list \<Rightarrow> bool" where
  "keys_unambiguous hmac pt s kcs \<longleftrightarrow>
     (let ks = map (\<lambda>kc. config_key hmac pt kc s) kcs in
      distinct (map k_ID ks) \<and> [] \<notin> set (map k_ID ks) \<and> distinct (filter (\<lambda>x. x \<noteq> []) (map k_KeyHash ks)))"

lemma config_key_secret:
  assumes "s_hashSecret s' = s_hashSecret s"
  shows "config_key hmac pt kc s' = config_key hmac pt kc s"
proof -
  have "HashKey hmac s' = HashKey hmac s" by (simp add: HashKey_def assms fun_eq_iff)
  then show ?thesis unfolding config_key_def by (rule arg_cong)
qed

lemma load_key_tables:
  assumes "k = config_key hmac pt kc s"
  shows "s_apiKeys (load_key hmac pt kc s) = AList.update (k_ID k) (s_next s) (s_apiKeys s)"
    "s_keyByHash (load_key hmac pt kc s) = (if k_KeyHash k \<noteq> [] then AList.update (k_KeyHash k) (s_next s) (s_keyByHash s) else s_keyByHash s)"
    "s_kheap (load_key hmac pt kc s) = (s_kheap s)(s_next s := k)"
    "s_hashSecret (load_key hmac pt kc s) = s_hashSecret s"
  by (simp_all add: load_key_def new_key_def index_key_def assms Let_def)

lemma load_key_catalog:
  assumes ok: "catalog_ok s" and k: "k = config_key hmac pt kc s" and "k_ID k \<noteq> []" "map_of (s_apiKeys s) (k_ID k) = None"
    and "k_KeyHash k \<noteq> [] \<Longrightarrow> map_of (s_keyByHash s) (k_KeyHash k) = None"
  shows "catalog_ok (load_key hmac pt kc s)"
proof -
  note wf = catalog_okD [OF ok]
  have fresh: "map_of (s_apiKeys s) i \<noteq> Some (s_next s)" "map_of (s_keyByHash s) i \<noteq> Some (s_next s)" for i
    using wf_fresh(2,3) [OF wf(1)] by blast+
  have ids: "k_ID (s_kheap s p) \<noteq> k_ID k" if "map_of (s_keyByHash s) h = Some p" for h p
    using wf(3) that assms(4) by (metis keys_linked_def option.distinct(1))
  have hashes: "k_KeyHash (s_kheap s p) \<noteq> k_KeyHash k" if "map_of (s_apiKeys s) i = Some p" "k_KeyHash k \<noteq> []" for i p
    using wf(3) that assms(5) by (metis keys_linked_def option.distinct(1))
  have "keys_linked (load_key hmac pt kc s)"
    unfolding keys_linked_def load_key_tables [OF k]
    using wf(3) assms(3-5) fresh ids hashes
    by (auto simp: keys_linked_def update_conv' split: if_splits)
  moreover have "ids_ok (load_key hmac pt kc s)"
    using wf(4) assms(3) by (simp add: ids_ok_def load_key_tables [OF k] update_conv')
  ultimately show ?thesis using load_key_wf [OF wf(1)] by (simp add: catalog_ok_def)
qed

lemma load_keys_catalog:
  assumes "catalog_ok s" and "keys_unambiguous hmac pt s kcs"
    and "\<And>kc. kc \<in> set kcs \<Longrightarrow> map_of (s_apiKeys s) (k_ID (config_key hmac pt kc s)) = None"
    and "\<And>kc. kc \<in> set kcs \<Longrightarrow> k_KeyHash (config_key hmac pt kc s) \<noteq> [] \<Longrightarrow> map_of (s_keyByHash s) (k_KeyHash (config_key hmac pt kc s)) = None"
  shows "catalog_ok (fold (load_key hmac pt) kcs s)"
  using assms
proof (induction kcs arbitrary: s)
  case (Cons kc kcs)
  let ?k = "config_key hmac pt kc s" and ?s = "load_key hmac pt kc s"
  have same: "config_key hmac pt x ?s = config_key hmac pt x s" for x
    by (rule config_key_secret) (rule load_key_tables(4) [OF refl])
  have u: "k_ID ?k \<noteq> []" "\<And>x. x \<in> set kcs \<Longrightarrow> k_ID (config_key hmac pt x s) \<noteq> k_ID ?k"
      "\<And>x. x \<in> set kcs \<Longrightarrow> k_KeyHash ?k \<noteq> [] \<Longrightarrow> k_KeyHash (config_key hmac pt x s) \<noteq> k_KeyHash ?k"
      "keys_unambiguous hmac pt s kcs"
    using Cons.prems(2) by (fastforce simp: keys_unambiguous_def Let_def image_iff split: if_splits)+
  have "catalog_ok ?s" using Cons.prems(1,3,4) u(1) by (intro load_key_catalog [OF _ refl]) auto
  then show ?case
    unfolding fold_Cons o_apply
  proof (rule Cons.IH, goal_cases)
    case 1
    then show ?case using u(4) by (simp add: keys_unambiguous_def same)
  next
    case (2 x)
    then show ?case using Cons.prems(3) [of x] u(2) by (simp add: same load_key_tables [OF refl] update_conv')
  next
    case (3 x)
    then show ?case using Cons.prems(4) [of x] u(3) by (simp add: same load_key_tables [OF refl] update_conv')
  qed
qed simp

lemma main_store_catalog:
  assumes "keys_unambiguous hmac pt (store_New (ac_HashSecret (c_Auth cfg))) (c_APIKeys cfg)"
  shows "catalog_ok (main_store hmac pt cfg)"
proof -
  let ?n = "store_New (ac_HashSecret (c_Auth cfg))"
  let ?s = "fold load_alias (c_ModelAliases cfg) (fold load_model (c_Models cfg) (fold load_backend (c_Backends cfg) ?n))"
  have wf: "store_wf ?n" by (simp add: wf_defs store_New_def)
  have wf': "store_wf ?s" by (intro fold_wf load_alias_wf load_model_wf load_backend_wf wf)
  have "key_part ?s = key_part ?n" by (simp add: key_part_fold key_part_loads)
  then have k: "s_apiKeys ?s = []" "s_keyByHash ?s = []" "s_hashSecret ?s = s_hashSecret ?n"
    by (simp_all add: key_part_def store_New_def)
  have "catalog_ok ?s" using wf' k(1,2) by (simp add: catalog_ok_def keys_linked_def ids_ok_def)
  moreover have "keys_unambiguous hmac pt ?s (c_APIKeys cfg)"
    using assms config_key_secret [OF k(3), of hmac pt] by (simp add: keys_unambiguous_def)
  ultimately show ?thesis unfolding main_store_def LoadFromConfig_def by (rule load_keys_catalog) (simp_all add: k)
qed

lemma fold_spawn_probing:
  assumes "\<And>p. p \<in> set ps \<Longrightarrow> bes (b_ID (heap p)) = Some p" and "probing heap bes h"
  shows "probing heap bes (fold (spawn heap) ps h)"
  using assms by (induction ps arbitrary: h) (simp_all add: spawn_probing)

lemma health_Start_ok:
  assumes wf: "store_wf s" and ord: "is_order ord"
  shows "loops_wf (health_Start ord s (NewHealthChecker hc))
    \<and> dom (map_of (h_loops (health_Start ord s (NewHealthChecker hc)))) = dom (map_of (s_backends s))
    \<and> probing (s_bheap s) (map_of (s_backends s)) (health_Start ord s (NewHealthChecker hc))"
proof -
  let ?h = "(NewHealthChecker hc)\<lparr>h_started := True\<rparr>"
  have w: "loops_wf ?h" by (simp add: loops_wf_def NewHealthChecker_def)
  have d: "dom (map_of (h_loops ?h)) = {}" and pr: "probing (s_bheap s) (map_of (s_backends s)) ?h"
    by (simp_all add: NewHealthChecker_def probing_def)
  have "map_of (s_backends s) (b_ID (s_bheap s p)) = Some p" if "p \<in> set (Backends ord s)" for p
    using that wf unfolding Backends_def set_range_map [OF ord] by (auto simp: ran_def store_wf_def backends_wf_def)
  from fold_spawn_probing [OF this pr] show ?thesis
    unfolding health_Start_def using fold_spawn_facts(2) [of "s_bheap s" "Backends ord s" ?h]
      fold_spawn_facts(3) [OF w] store_ids [OF assms] d by auto
qed

lemma main_handler_parts:
  "hd_store (main_handler cfg s rl ls) = s" "hd_concurrency (main_handler cfg s rl ls) = NewConcurrency"
  "hd_queue (main_handler cfg s rl ls) = Some (queue_New (qc_QueueTimeoutMS (c_Queue cfg)) (qc_MaxQueueSize (c_Queue cfg)) (qc_PerModelLimit (c_Queue cfg)))"
  by (simp_all add: main_handler_def Let_def WithQueue_def WithQuota_def WithLogStore_def WithOrchestrator_def handler_New_def)

text \<open>
  C17. Start-up establishes what the guarantees of the running gateway assume: if the
  configuration file loads and its API keys are unambiguous (no two of them get the same id or the
  same credential, and none an empty id, which the loader does not check), the configuration is
  still well formed after the overrides from the environment, the catalog and the table of probes
  satisfy the invariant that the administrative operations keep, each backend has one probe loop,
  on its own object, and all slots, concurrency counters and queues are empty.
\<close>

theorem startup_sound:
  assumes "Load read_file yaml path = Inr cfg0" and "cfg = applyEnvOverrides net getenv cfg0" and "is_order ord"
    and "keys_unambiguous hmac pt (store_New (ac_HashSecret (c_Auth cfg))) (c_APIKeys cfg)"
    and "s = main_store hmac pt cfg"
  shows "config_ok cfg \<and> server_ok (main_admin pw ord cfg s ls)
    \<and> slots_ok (main_handler cfg s rl ls) \<and> counters_ok (main_handler cfg s rl ls)"
proof -
  have "config_ok Default" by (simp add: config_ok_def Default_def)
  then have "config_ok cfg0" using assms(1) Validate_sound by (auto simp: Load_def split: if_splits option.splits)
  then have cfg: "config_ok cfg" unfolding assms(2) by (rule env_config_ok)
  have cat: "catalog_ok s" unfolding assms(5) by (rule main_store_catalog [OF assms(4)])
  have "probes_ok (main_admin pw ord cfg s ls)"
    using health_Start_ok [OF catalog_okD(1) [OF cat] assms(3)] by (simp add: probes_ok_def main_admin_def)
  moreover have "idle s" unfolding assms(5) main_store_def by (rule idle_LoadFromConfig [OF idle_New])
  then have "slots_ok (main_handler cfg s rl ls)" by (simp add: slots_ok_def slots_of_def main_handler_parts idle_def)
  moreover have "counters_ok (main_handler cfg s rl ls)"
    by (simp add: counters_ok_def queue_ok_def main_handler_parts conc_Get_def NewConcurrency_def sem_of_def waiting_of_def
        queue_New_def Depth_def Let_def)
  ultimately show ?thesis using cfg cat by (simp add: server_ok_def main_admin_def)
qed

theorem startup_sound_witness:
  "\<exists>cfg. Load (\<lambda>_. Some []) (\<lambda>_ _. Some example_config) ''gateway.yaml'' = Inr cfg \<and> c_Backends cfg \<noteq> []
     \<and> (\<forall>pw. server_ok (main_admin pw id cfg (main_store (@) (\<lambda>_. None) cfg) (NewMemory 50000)))"
proof -
  obtain cfg where v: "Validate example_config = Inr cfg" and b: "c_Backends cfg \<noteq> []" "c_APIKeys cfg = []"
    by (simp add: Validate_def example_config_def Default_def validate_orchestration_def validateOrchestrationRefs_def Let_def)
  then have l: "Load (\<lambda>_. Some []) (\<lambda>_ _. Some example_config) ''gateway.yaml'' = Inr cfg" by (simp add: Load_def)
  have "applyEnvOverrides example_net (\<lambda>_. []) cfg = cfg"
    by (simp add: applyEnvOverrides_def env_hash_secret_def env_admin_token_def env_listen_def env_smtp_password_def Let_def)
  moreover have "keys_unambiguous (@) (\<lambda>_. None) st (c_APIKeys cfg)" for st by (simp add: keys_unambiguous_def b)
  ultimately have "server_ok (main_admin pw id cfg (main_store (@) (\<lambda>_. None) cfg) (NewMemory 50000))" for pw
    using startup_sound [OF l, of cfg example_net "\<lambda>_. []" id "(@)" "\<lambda>_. None" "main_store (@) (\<lambda>_. None) cfg" pw "NewMemory 50000"]
    by simp
  then show ?thesis using l b(1) by blast
qed

section \<open>Access control, end to end\<close>

definition reaches_backend :: "v1_answer \<Rightarrow> bool" where
  "reaches_backend ans = (case ans of VForward _ snt \<Rightarrow> snt \<noteq> NotSent | VMultipart _ snt \<Rightarrow> snt \<noteq> None | _ \<Rightarrow> False)"

text \<open>The model a request asks for: from its JSON body, or from its form.\<close>

definition asks_for :: "handler_json \<Rightarrow> Config \<Rightarrow> v1_in \<Rightarrow> string \<Rightarrow> bool" where
  "asks_for js cfg r model \<longleftrightarrow>
     (case v1_route (vi_method r) (vi_path r) of
        Some (HForward _) \<Rightarrow> (\<exists>raw stream secret. decode_request js cfg (vi_body r) = Inr (raw, model, stream, secret))
      | Some (HMultipart _) \<Rightarrow> mi_form (vi_form r) = Form model
      | _ \<Rightarrow> False)"

lemma v1_route_prefix: "v1_route method path = Some hn \<Longrightarrow> HasPrefix path ''/v1/''"
  by (auto simp: v1_route_def v1_routes_def split: if_splits)

lemma multipart_permitted:
  assumes "ForwardMultipart e js r mi h = (ans, Some snt, h')"
  shows "\<exists>model. mi_form mi = Form model
    \<and> (\<forall>k. the_key h (hi_key r) = Some k \<longrightarrow> ModelAllowedResolved k model (fst (ResolveAlias model (hd_store h))))"
proof -
  obtain x where "multipart_check r mi (fe_order e) h = Inr x"
    using assms by (auto simp: ForwardMultipart_def split: sum.splits prod.splits)
  then show ?thesis by (auto simp: multipart_check_def Let_def split: if_splits form_read.splits option.splits)
qed

lemma run_permitted:
  assumes "v1_run ve js render r hn (Some p) ip h = (ans, h')" and "reaches_backend ans" and "v1_route (vi_method r) (vi_path r) = Some hn"
  shows "\<exists>model. asks_for js (hd_cfg h) r model
    \<and> ModelAllowedResolved (s_kheap (hd_store h) p) model (fst (ResolveAlias model (hd_store h)))"
proof (cases hn)
  case HListModels
  then show ?thesis using assms(1,2) by (auto simp: v1_run_def reaches_backend_def)
next
  case (HForward path)
  obtain a snt h1 where f: "gateway_Forward (ve_fwd ve) js render (handler_request r path (Some p) ip) h = (a, snt, h1)" by (rule prod_cases3)
  then have "snt \<noteq> NotSent" using assms(1,2) HForward by (auto simp: v1_run_def reaches_backend_def)
  from f this obtain raw model stream secret im fn where "decode_request js (hd_cfg h) (vi_body r) = Inr (raw, model, stream, secret)"
      "ResolveAlias model (hd_store h) = (im, fn)" "ModelAllowedResolved (s_kheap (hd_store h) p) model im"
    by (rule forward_checked) (simp add: handler_request_def the_key_def)
  then show ?thesis using assms(3) HForward by (auto simp: asks_for_def)
next
  case (HMultipart path)
  obtain a snt h1 where f: "ForwardMultipart (ve_fwd ve) js (handler_request r path (Some p) ip) (vi_form r) h = (a, snt, h1)" by (rule prod_cases3)
  then obtain x where "snt = Some x" using assms(1,2) HMultipart by (auto simp: v1_run_def reaches_backend_def)
  then show ?thesis
    using multipart_permitted [OF f [unfolded \<open>snt = Some x\<close>]] assms(3) HMultipart
    by (auto simp: asks_for_def handler_request_def the_key_def)
qed

text \<open>
  C1. Access control of the whole data plane: a request that reaches a backend, by whichever
  route, carried the raw form of an API key that the catalog knew, that was enabled and not
  expired, whose deny list did not match the address of the client and whose allow list was empty
  or did; and this key may use the model the request asks for and the model that one resolves to.
  The model of a multipart form is the one the handler reads with \<open>FormValue\<close>.
\<close>

theorem v1_access_control:
  assumes serve: "v1_serve g ve js render r h = (ans, h')" and reach: "reaches_backend ans"
    and ip: "ip = ClientIP (vg_net g) (vg_trusted g) (as_request r)" and h1: "h1 = ve_meanwhile ve h"
  shows "\<exists>raw p model. extractKey (vg_auth g) (as_request r) = (raw, True) \<and> raw \<noteq> []
    \<and> APIKeyByRaw (vg_hmac g) raw (hd_store h) = Some p
    \<and> k_Enabled (s_kheap (hd_store h) p)
    \<and> (\<forall>t. k_ExpiresAt (s_kheap (hd_store h) p) = Some t \<longrightarrow> ve_now ve \<le> t)
    \<and> \<not> MatchAny (vg_net g) ip (k_DeniedClientIPs (s_kheap (hd_store h) p))
    \<and> (k_AllowedClientIPs (s_kheap (hd_store h) p) = [] \<or> MatchAny (vg_net g) ip (k_AllowedClientIPs (s_kheap (hd_store h) p)))
    \<and> asks_for js (hd_cfg h1) r model
    \<and> ModelAllowedResolved (s_kheap (hd_store h1) p) model (fst (ResolveAlias model (hd_store h1)))"
proof -
  obtain hn where hn: "v1_route (vi_method r) (vi_path r) = Some hn"
    using serve reach by (auto simp: v1_serve_def reaches_backend_def split: option.splits)
  note pre = v1_route_prefix [OF hn]
  let ?auth = "auth_Middleware (vg_hmac g) (vg_net g) (Some (vg_trusted g)) (vg_auth g) True (ve_now ve) (hd_store h) (as_request r)"
  note A = auth_Passed [where ext = "Some (vg_trusted g)" and net = "vg_net g" and r = "as_request r" and hmac = "vg_hmac g"
      and a = "vg_auth g" and now = "ve_now ve" and s = "hd_store h", OF refl]
  obtain k ip' where au: "?auth = auth_result.Passed k ip'"
    using serve reach by (auto simp: v1_serve_def hn pre reaches_backend_def split: auth_result.splits)
  then obtain p where k: "k = Some p" using A [of _ ip'] by (cases k) auto
  have run: "v1_run ve js render r hn (Some p) ip' h1 = (ans, h')" using serve by (simp add: v1_serve_def hn pre au k h1)
  show ?thesis using A [of p ip'] au k ip run_permitted [OF run reach hn] by auto
qed

text \<open>A gateway with one key and one backend, and a request that uses them.\<close>

definition keyed_handler :: Handler where
  "keyed_handler = example_handler\<lparr>hd_store := example_keys\<lparr>s_backends := [(''b1'', 0)], s_bheap := (\<lambda>_. example_backend)\<rparr>\<rparr>"

definition keyed_request :: v1_in where
  "keyed_request = \<lparr>vi_method = ''POST'', vi_path = ''/v1/chat/completions'', vi_remote = [],
     vi_header = [(''Authorization'', [''Bearer sk-old''])], vi_body = Body ''{}'',
     vi_form = \<lparr>mi_form = FormTooLarge, mi_rebuilt = Inl []\<rparr>\<rparr>"

definition keyed_env :: v1_env where
  "keyed_env = \<lparr>ve_fwd = example_fwd, ve_now = 5, ve_logID = [], ve_requestID = [], ve_meanwhile = id, ve_orders = (\<lambda>_. id)\<rparr>"

definition keyed_gate :: "(string, string) v1_gate" where
  "keyed_gate = \<lparr>vg_hmac = (@), vg_net = example_net, vg_trusted = [], vg_auth = auth_New [] []\<rparr>"

lemma keyed_facts:
  "hd_cfg keyed_handler = Default" "hd_orchestrator keyed_handler = None" "hd_queue keyed_handler = None" "hd_quota keyed_handler = None"
  "hd_limiter keyed_handler = limiter_New" "hd_concurrency keyed_handler = []"
  "hd_store keyed_handler = example_keys\<lparr>s_backends := [(''b1'', 0)], s_bheap := (\<lambda>_. example_backend)\<rparr>"
  "s_models example_keys = []" "s_modelAliases example_keys = []"
  by (simp_all add: keyed_handler_def example_handler_def handler_New_def example_keys_def create_key_def new_key_def UpsertAPIKey_def
      index_key_def upd_key_def store_New_def Let_def)

lemma keyed_key:
  "k_ID (s_kheap example_keys 0) = ''team-a''" "k_Enabled (s_kheap example_keys 0)" "k_ExpiresAt (s_kheap example_keys 0) = None"
  "k_DeniedClientIPs (s_kheap example_keys 0) = []" "k_AllowedClientIPs (s_kheap example_keys 0) = []"
  "k_RateLimit (s_kheap example_keys 0) = None" "k_Quota (s_kheap example_keys 0) = None" "k_DelayMS (s_kheap example_keys 0) = 0"
  "k_AllowedModels (s_kheap example_keys 0) = []" "k_DeniedModels (s_kheap example_keys 0) = []"
  by (simp_all add: example_keys_def create_key_def new_key_def UpsertAPIKey_def index_key_def upd_key_def store_New_def Let_def
      HashKey_def zero_key_def)

lemma keyed_admitted:
  "\<exists>rel h. admit example_admit (Some 0) ''m1'' keyed_handler = ((rel, [], 0), h) \<and> hd_store h = hd_store keyed_handler
     \<and> hd_cfg h = Default \<and> hd_balancer h = hd_balancer keyed_handler"
proof -
  obtain l where l: "CheckAndReserve 0 0 ''key:team-a'' 60 0 0 0 limiter_New = ([], l)"
    using fresh_reserve [of limiter_New "''key:team-a''" 0 0 60] by (metis limiter_New_def map_of.simps(1) prod.exhaust_sel)
  have "admit_limits Default (s_kheap example_keys 0) = (60, 0, 0, 0)" by (simp add: admit_limits_def keyed_key Default_def)
  then show ?thesis
    by (simp add: admit_def the_key_def keyed_facts keyed_key example_admit_def l admit_quota_def admit_conc_def conc_limit_def
        conc_Acquire_def admit_queue_def admit_account_def Let_def)
qed

lemma keyed_forwarded:
  "\<exists>ans opts h'. gateway_Forward example_fwd example_codecs (\<lambda>_. []) (handler_request keyed_request ''/chat/completions'' (Some 0) [])
     keyed_handler = (ans, SentTo 0 opts, h')"
proof -
  let ?k = "s_kheap example_keys 0"
  have al: "ResolveAlias ''m1'' (hd_store keyed_handler) = (''m1'', ''m1'')"
    by (simp add: ResolveAlias_def resolve_loop.simps [of "[]"] keyed_facts)
  have "ModelAllowedResolved ?k ''m1'' ''m1''" by (simp add: ModelAllowedResolved_def ModelAllowed_def keyed_key)
  then have chk: "check_request example_codecs id (Some ?k) ''m1'' ''m1'' ''{}'' keyed_handler = Candidates [0]"
    by (simp add: check_request_def keyed_facts check_capability_def store_Model_def Handles_def registry_off_def
        BackendsForModel_def range_map_def map_filter_def SupportsModel_def example_backend_def)
  obtain rel h where adm: "admit example_admit (Some 0) ''m1'' keyed_handler = ((rel, [], 0), h)" "hd_store h = hd_store keyed_handler"
    "hd_cfg h = Default" using keyed_admitted by blast
  have key: "the_key h (Some 0) = Some ?k" "the_key keyed_handler (Some 0) = Some ?k" by (simp_all add: the_key_def adm keyed_facts)
  have env: "fe_admit example_fwd = example_admit" "fe_order example_fwd = id" by (simp_all add: example_fwd_def)
  have "\<exists>h1. route example_fwd ''m1'' pol hint [0] h = (Routed 0, h1)" for pol hint
    by (simp add: route_def example_fwd_def filterRoutable_def FilterRoutable_filter adm keyed_facts routable_def
      example_backend_def Default_def Choose_def elem_at_def AcquireSlot_def)
  then obtain h1 where ro: "route example_fwd ''m1'' (routing_policy h ''m1'') \<lparr>hint_APIKeyID = apiKeyID (Some ?k), hint_User = []\<rparr> [0] h = (Routed 0, h1)"
    by blast
  have req: "hi_body (handler_request keyed_request x (Some 0) []) = Body ''{}''" "hi_key (handler_request keyed_request x (Some 0) []) = Some 0" for x
    by (simp_all add: handler_request_def keyed_request_def)
  show ?thesis
    by (simp add: gateway_Forward_def req example_decoded keyed_facts(1) al chk key adm(1) env ro forward_direct_def serve_backend_def Let_def)
qed

theorem v1_access_control_witness:
  "\<exists>ans h' raw p. v1_serve keyed_gate keyed_env example_codecs (\<lambda>_. []) keyed_request keyed_handler = (ans, h') \<and> reaches_backend ans
     \<and> APIKeyByRaw (@) raw (hd_store keyed_handler) = Some p \<and> k_Enabled (s_kheap (hd_store keyed_handler) p)"
proof -
  have ts: "TrimSpace ''sk-old'' = ''sk-old''" by (simp add: TrimSpace_id printing_def)
  have ip: "ClientIP example_net [] (as_request keyed_request) = []"
    by (simp add: ClientIP_def as_request_def keyed_request_def remoteIP_def isTrustedIP_def)
  have ek: "extractKey (auth_New [] []) (as_request keyed_request) = (''sk-old'', True)"
    by (simp add: extractKey_def auth_New_def HasPrefix_def TrimPrefix_def as_request_def keyed_request_def hdr_Get_def
        CanonicalMIMEHeaderKey_def upper_char_def lower_char_def ts Let_def)
  have raw: "APIKeyByRaw (@) ''sk-old'' (hd_store keyed_handler) = Some 0"
    using example_keys_facts(2) by (simp add: keyed_facts APIKeyByRaw_def HashKey_def split: if_splits)
  have heap: "s_kheap (hd_store keyed_handler) = s_kheap example_keys" by (simp add: keyed_facts)
  have au: "auth_Middleware (@) example_net (Some []) (auth_New [] []) True 5 (hd_store keyed_handler) (as_request keyed_request)
      = auth_result.Passed (Some 0) []"
    by (simp add: auth_Middleware_def ek ip raw heap keyed_key)
  have ro: "v1_route (vi_method keyed_request) (vi_path keyed_request) = Some (HForward ''/chat/completions'')"
    "HasPrefix (vi_path keyed_request) ''/v1/''"
    by (simp_all add: v1_route_def v1_routes_def keyed_request_def)
  obtain a opts h' where "gateway_Forward example_fwd example_codecs (\<lambda>_. []) (handler_request keyed_request ''/chat/completions'' (Some 0) [])
     keyed_handler = (a, SentTo 0 opts, h')" using keyed_forwarded by blast
  then have s: "v1_serve keyed_gate keyed_env example_codecs (\<lambda>_. []) keyed_request keyed_handler = (VForward a (SentTo 0 opts), h')"
    by (simp add: v1_serve_def ro keyed_gate_def keyed_env_def au v1_run_def)
  have r: "reaches_backend (VForward a (SentTo 0 opts))" by (simp add: reaches_backend_def)
  from v1_access_control [OF s r refl refl] s r show ?thesis by (auto simp: keyed_gate_def)
qed

section \<open>Readiness and routing\<close>

lemma readyz_loop_iff:
  "readyz_loop heap ps = (if \<exists>p \<in> set ps. b_Enabled (heap p) \<and> Status (heap p) \<in> {StatusHealthy, StatusUnknown} then 200 else 503)"
  by (induction ps) (auto simp: Let_def)

text \<open>
  The readiness probe answers 200 exactly when some backend is enabled and healthy or not yet
  probed. So when it answers 503, no backend is routable, except that a degraded one still is
  where degraded backends are allowed: readiness does not follow that setting.
\<close>

theorem readyz_meaning:
  assumes "is_order ord"
  shows "(readyz ord s = 200 \<longleftrightarrow> (\<exists>i p. map_of (s_backends s) i = Some p \<and> b_Enabled (s_bheap s p)
            \<and> Status (s_bheap s p) \<in> {StatusHealthy, StatusUnknown}))
    \<and> (readyz ord s = 503 \<longrightarrow> (\<forall>i p. map_of (s_backends s) i = Some p \<longrightarrow> routable ad (s_bheap s p) \<longrightarrow>
         ad \<and> Status (s_bheap s p) = StatusDegraded))"
proof -
  have ps: "set (Backends ord s) = ran (map_of (s_backends s))" by (simp add: Backends_def set_range_map [OF assms])
  have "\<And>b. routable ad b \<Longrightarrow> b_Enabled b \<and> (Status b \<in> {StatusHealthy, StatusUnknown} \<or> ad \<and> Status b = StatusDegraded)"
    by (auto simp: routable_def Status_def)
  then show ?thesis unfolding readyz_def readyz_loop_iff ps by (force simp: ran_def)
qed

end
