(* ===== verification/Sql_Model.thy ===== *)
theory Sql_Model
  imports Log_Store Go_Strings Go_Time
begin

text \<open>
  The SQL that the persistent log stores send, \<^verbatim>\<open>internal/logstore/sqlite.go\<close> and
  \<^verbatim>\<open>internal/logstore/postgres.go\<close>: values with NULL, tables, placeholders and their arguments,
  conditions, and what \<open>database/sql\<close> does when it scans a column into a Go variable. The two
  stores differ in a few points, collected in a \<open>dialect\<close>. SQL leaves the order of rows with
  equal sort keys open, so a query takes that order as an argument.
\<close>

section \<open>Values and rows\<close>

datatype sql_value = SNull | SText string | SInt int | SBool bool

type_synonym row = "(string \<times> sql_value) list"

definition col :: "row \<Rightarrow> string \<Rightarrow> sql_value" where
  "col r c = (case map_of r c of Some v \<Rightarrow> v | None \<Rightarrow> SNull)"

definition COALESCE :: "sql_value \<Rightarrow> sql_value \<Rightarrow> sql_value" where
  "COALESCE v d = (if v = SNull then d else v)"

definition nullable :: "string \<Rightarrow> sql_value" where
  "nullable s = (if s = [] then SNull else SText s)"

definition boolInt :: "bool \<Rightarrow> int" where
  "boolInt b = (if b then 1 else 0)"

text \<open>\<open>UnixMilli\<close> rounds down, \<open>time.UnixMilli\<close> goes back.\<close>

definition UnixMilli :: "time \<Rightarrow> int" where
  "UnixMilli t = t div 1000000"

definition from_UnixMilli :: "int \<Rightarrow> time" where
  "from_UnixMilli ms = ms * 1000000"

text \<open>Scanning a column into a string, an integer or a bool; NULL fits none of them.\<close>

fun scan_text :: "sql_value \<Rightarrow> string option" where
  "scan_text SNull = None"
| "scan_text (SText s) = Some s"
| "scan_text (SInt i) = Some (Itoa i)"
| "scan_text (SBool b) = Some (if b then ''true'' else ''false'')"

fun scan_int :: "sql_value \<Rightarrow> int option" where
  "scan_int SNull = None"
| "scan_int (SText s) = Atoi s"
| "scan_int (SInt i) = (if in_int64 i then Some i else None)"
| "scan_int (SBool b) = None"

fun scan_bool :: "sql_value \<Rightarrow> bool option" where
  "scan_bool SNull = None"
| "scan_bool (SText s) = (if s = ''true'' then Some True else if s = ''false'' then Some False else None)"
| "scan_bool (SInt i) = (if i = 1 then Some True else if i = 0 then Some False else None)"
| "scan_bool (SBool b) = Some b"

section \<open>Placeholders and conditions\<close>

datatype placeholder = Question | Dollar nat
datatype sql_cmp = CEq | CGe | CLe | CLt

type_synonym sql_cond = "string \<times> sql_cmp \<times> placeholder"

definition cmp_text :: "sql_cmp \<Rightarrow> string" where
  "cmp_text c = (case c of CEq \<Rightarrow> '' = '' | CGe \<Rightarrow> '' >= '' | CLe \<Rightarrow> '' <= '' | CLt \<Rightarrow> '' < '')"

definition placeholder_text :: "placeholder \<Rightarrow> string" where
  "placeholder_text p = (case p of Question \<Rightarrow> ''?'' | Dollar n \<Rightarrow> CHR ''$'' # Itoa (int n))"

fun and_text :: "string list \<Rightarrow> string" where
  "and_text [] = []"
| "and_text [c] = c"
| "and_text (c # d # cs) = c @ '' AND '' @ and_text (d # cs)"

definition where_text :: "sql_cond list \<Rightarrow> string" where
  "where_text conds =
     (if conds = [] then []
      else ''WHERE '' @ and_text (map (\<lambda>(c, cmp, p). c @ cmp_text cmp @ placeholder_text p) conds))"

text \<open>
  The argument a placeholder stands for: the \<open>i\<close>-th question mark of the text, or the number
  after the dollar.
\<close>

definition arg :: "sql_value list \<Rightarrow> nat \<Rightarrow> placeholder \<Rightarrow> sql_value option" where
  "arg args i p =
     (let n = (case p of Question \<Rightarrow> i | Dollar k \<Rightarrow> k)
      in if 1 \<le> n \<and> n \<le> length args then Some (args ! (n - 1)) else None)"

fun sql_compare :: "sql_cmp \<Rightarrow> sql_value \<Rightarrow> sql_value \<Rightarrow> bool" where
  "sql_compare c SNull w = False"
| "sql_compare c v SNull = False"
| "sql_compare CEq v w = (v = w)"
| "sql_compare CGe (SInt x) (SInt y) = (y \<le> x)"
| "sql_compare CLe (SInt x) (SInt y) = (x \<le> y)"
| "sql_compare CLt (SInt x) (SInt y) = (x < y)"
| "sql_compare c v w = False"

fun bind_conds :: "sql_value list \<Rightarrow> nat \<Rightarrow> sql_cond list \<Rightarrow> (string \<times> sql_cmp \<times> sql_value) list option" where
  "bind_conds args i [] = Some []"
| "bind_conds args i ((c, cmp, p) # cs) =
     (case arg args i p of
        None \<Rightarrow> None
      | Some v \<Rightarrow> map_option (\<lambda>bs. (c, cmp, v) # bs) (bind_conds args (Suc i) cs))"

definition satisfies :: "(string \<times> sql_cmp \<times> sql_value) list \<Rightarrow> row \<Rightarrow> bool" where
  "satisfies bs r \<longleftrightarrow> (\<forall>(c, cmp, v) \<in> set bs. sql_compare cmp (col r c) v)"

section \<open>Dialects\<close>

text \<open>
  How a store writes and reads a bool, how it writes the \<open>n\<close>-th placeholder, what a JSON text becomes in a column
  (\<open>JSONB\<close> stores it in a normal form), whether a negative offset is an error, and whether the
  sums of the totals query are guarded by COALESCE.
\<close>

record dialect =
  dl_bool :: "bool \<Rightarrow> sql_value"
  dl_unbool :: "sql_value \<Rightarrow> bool option"
  dl_place :: "nat \<Rightarrow> placeholder"
  dl_json :: "string \<Rightarrow> string"
  dl_offset_error :: bool
  dl_sum_guard :: bool

definition sqlite_dialect :: dialect where
  "sqlite_dialect = \<lparr>dl_bool = (\<lambda>b. SInt (boolInt b)), dl_unbool = (\<lambda>v. map_option (\<lambda>i. i \<noteq> 0) (scan_int v)),
     dl_place = (\<lambda>_. Question), dl_json = id, dl_offset_error = False, dl_sum_guard = False\<rparr>"

definition postgres_dialect :: "(string \<Rightarrow> string) \<Rightarrow> dialect" where
  "postgres_dialect jsonb = \<lparr>dl_bool = SBool, dl_unbool = scan_bool, dl_place = Dollar, dl_json = jsonb, dl_offset_error = True, dl_sum_guard = True\<rparr>"

text \<open>Adding a condition: the argument is appended, the condition refers to it.\<close>

definition add_cond :: "dialect \<Rightarrow> string \<Rightarrow> sql_cmp \<Rightarrow> sql_value \<Rightarrow> sql_cond list \<times> sql_value list \<Rightarrow> sql_cond list \<times> sql_value list" where
  "add_cond dl c cmp v st =
     (case st of (conds, args) \<Rightarrow>
        let args' = args @ [v] in (conds @ [(c, cmp, dl_place dl (length args'))], args'))"

definition add_text :: "dialect \<Rightarrow> string \<Rightarrow> string \<Rightarrow> sql_cond list \<times> sql_value list \<Rightarrow> sql_cond list \<times> sql_value list" where
  "add_text dl c v st = (if v \<noteq> [] then add_cond dl c CEq (SText v) st else st)"

definition add_time :: "dialect \<Rightarrow> sql_cmp \<Rightarrow> time option \<Rightarrow> sql_cond list \<times> sql_value list \<Rightarrow> sql_cond list \<times> sql_value list" where
  "add_time dl cmp t st =
     (case t of Some t \<Rightarrow> add_cond dl ''created_at'' cmp (SInt (UnixMilli t)) st | None \<Rightarrow> st)"

section \<open>Statements\<close>

text \<open>
  \<open>SELECT ... WHERE ... ORDER BY created_at DESC LIMIT ? OFFSET ?\<close>; \<open>ord\<close> orders the rows that
  satisfy the conditions. The error \<open>None\<close> of the binding cannot occur, as shown below.
\<close>

definition run_select ::
    "dialect \<Rightarrow> (row list \<Rightarrow> row list) \<Rightarrow> sql_cond list \<Rightarrow> placeholder \<Rightarrow> placeholder \<Rightarrow> sql_value list \<Rightarrow> row list \<Rightarrow> string + row list" where
  "run_select dl ord conds lp op args rows =
     (case (bind_conds args 1 conds, arg args (length conds + 1) lp, arg args (length conds + 2) op) of
        (Some bs, Some (SInt l), Some (SInt k)) \<Rightarrow>
          if dl_offset_error dl \<and> k < 0 then Inl ''OFFSET must not be negative''
          else Inr (take (nat l) (drop (nat k) (ord (filter (satisfies bs) rows))))
      | _ \<Rightarrow> Inl ''bind error'')"

definition created :: "row \<Rightarrow> int" where
  "created r = (case col r ''created_at'' of SInt t \<Rightarrow> t | _ \<Rightarrow> 0)"

text \<open>What ORDER BY promises: a permutation with the newest rows first.\<close>

definition newest_first :: "(row list \<Rightarrow> row list) \<Rightarrow> bool" where
  "newest_first ord \<longleftrightarrow> (\<forall>rs. mset (ord rs) = mset rs \<and> sorted_wrt (\<lambda>a b. created b \<le> created a) (ord rs))"

text \<open>
  INSERT into a table whose \<open>id\<close> is the primary key. PostgreSQL also refuses a TEXT value with a zero
  byte or with bytes that are not UTF-8; the engine here does not, so what is shown of stored records
  is about values that the engine takes.
\<close>

definition run_insert :: "row \<Rightarrow> row list \<Rightarrow> string + row list" where
  "run_insert r rows =
     (if col r ''id'' \<in> (\<lambda>x. col x ''id'') ` set rows then Inl ''UNIQUE constraint failed'' else Inr (rows @ [r]))"

text \<open>DELETE of the rows created before a cutoff.\<close>

definition run_delete :: "int \<Rightarrow> row list \<Rightarrow> row list" where
  "run_delete cutoff rows = filter (\<lambda>r. \<not> sql_compare CLt (col r ''created_at'') (SInt cutoff)) rows"

section \<open>Binding\<close>

text \<open>A builder state is sound when its conditions refer to its arguments in order.\<close>

fun places :: "dialect \<Rightarrow> nat \<Rightarrow> (string \<times> sql_cmp \<times> sql_value) list \<Rightarrow> sql_cond list" where
  "places dl i [] = []"
| "places dl i ((c, cmp, v) # bs) = (c, cmp, dl_place dl i) # places dl (Suc i) bs"

lemma places_append: "places dl i (xs @ ys) = places dl i xs @ places dl (i + length xs) ys"
  by (induction dl i xs rule: places.induct) auto

lemma length_places [simp]: "length (places dl i bs) = length bs"
  by (induction dl i bs rule: places.induct) auto

definition builds :: "dialect \<Rightarrow> (string \<times> sql_cmp \<times> sql_value) list \<Rightarrow> sql_cond list \<times> sql_value list \<Rightarrow> bool" where
  "builds dl bs st \<longleftrightarrow> st = (places dl 1 bs, map (snd \<circ> snd) bs)"

definition sound_places :: "dialect \<Rightarrow> bool" where
  "sound_places dl \<longleftrightarrow> dl_place dl = (\<lambda>_. Question) \<or> dl_place dl = Dollar"

lemma dialects_sound [simp]: "sound_places sqlite_dialect" "sound_places (postgres_dialect jsonb)"
  by (simp_all add: sound_places_def sqlite_dialect_def postgres_dialect_def)

lemma builds_Nil: "builds dl [] ([], [])"
  by (simp add: builds_def)

lemma builds_add: "builds dl bs st \<Longrightarrow> builds dl (bs @ [(c, cmp, v)]) (add_cond dl c cmp v st)"
  by (simp add: builds_def add_cond_def places_append)

lemma builds_text: "builds dl bs st \<Longrightarrow> builds dl (bs @ (if v \<noteq> [] then [(c, CEq, SText v)] else [])) (add_text dl c v st)"
  by (simp add: add_text_def builds_add)

lemma builds_time:
  "builds dl bs st \<Longrightarrow> builds dl (bs @ (case t of Some t \<Rightarrow> [(''created_at'', cmp, SInt (UnixMilli t))] | None \<Rightarrow> [])) (add_time dl cmp t st)"
  by (simp add: add_time_def builds_add split: option.split)

lemma arg_place: "sound_places dl \<Longrightarrow> 1 \<le> i \<Longrightarrow> i \<le> length args \<Longrightarrow> arg args i (dl_place dl i) = Some (args ! (i - 1))"
  by (auto simp: sound_places_def arg_def Let_def)

lemma bind_places:
  assumes "sound_places dl"
  shows "bind_conds (pre @ map (snd \<circ> snd) bs @ rest) (Suc (length pre)) (places dl (Suc (length pre)) bs) = Some bs"
proof (induction bs arbitrary: pre)
  case (Cons b bs)
  obtain c cmp v where b: "b = (c, cmp, v)" by (rule prod_cases3)
  have "arg (pre @ v # map (snd \<circ> snd) bs @ rest) (Suc (length pre)) (dl_place dl (Suc (length pre))) = Some v"
    using arg_place [OF assms, of "Suc (length pre)" "pre @ v # map (snd \<circ> snd) bs @ rest"] by simp
  then show ?case using Cons.IH [of "pre @ [v]"] by (simp add: b comp_def)
qed simp

text \<open>Every placeholder of a built statement meets its own argument.\<close>

lemma built_select:
  assumes dl: "sound_places dl" and b: "builds dl bs (conds, args)"
  shows "run_select dl ord conds (dl_place dl (length args + 1)) (dl_place dl (length args + 2)) (args @ [SInt l, SInt k]) rows =
    (if dl_offset_error dl \<and> k < 0 then Inl ''OFFSET must not be negative''
     else Inr (take (nat l) (drop (nat k) (ord (filter (satisfies bs) rows)))))"
proof -
  let ?args = "args @ [SInt l, SInt k]"
  have conds: "conds = places dl 1 bs" and args: "args = map (snd \<circ> snd) bs" using b by (simp_all add: builds_def)
  have "bind_conds ?args 1 conds = Some bs"
    using bind_places [OF dl, of "[]" bs "[SInt l, SInt k]"] by (simp add: args conds)
  moreover have "arg ?args (length conds + 1) (dl_place dl (length args + 1)) = Some (SInt l)"
    using arg_place [OF dl, of "length args + 1" ?args] by (simp add: args conds nth_append)
  moreover have "arg ?args (length conds + 2) (dl_place dl (length args + 2)) = Some (SInt k)"
    using arg_place [OF dl, of "length args + 2" ?args] by (simp add: args conds nth_append)
  ultimately show ?thesis by (simp add: run_select_def)
qed

end
