(* ===== verification/Sql_Log.thy ===== *)
theory Sql_Log
  imports Sql_Model "HOL-Library.Monad_Syntax"
begin

text \<open>
  The persistent log stores, \<open>SQLite\<close> and \<open>Postgres\<close> of \<^verbatim>\<open>internal/logstore\<close>. Both are instances of
  the same operations with their dialect: inserting a record, querying with filters and paging,
  statistics, the audit table and the purge of old records. The JSON codec is an argument. The
  error of the driver, if there is one, is an argument too; the context and the connection pool
  are left out.
\<close>

record sql_json =
  sj_marshal :: "string gomap \<Rightarrow> string"
  sj_unmarshal :: "string \<Rightarrow> string gomap option"
  sj_object :: "json gomap \<Rightarrow> string"
  sj_unobject :: "string \<Rightarrow> json gomap option"

record Database =
  db_requests :: "row list"
  db_audits :: "row list"

section \<open>Appending\<close>

definition request_columns :: "string list" where
  "request_columns =
     [''id'', ''request_id'', ''api_key_id'', ''api_key_name'', ''client_ip'', ''model'', ''internal_model'', ''backend_id'',
      ''endpoint'', ''stream'', ''status_code'', ''error_code'', ''prompt_tokens'', ''completion_tokens'',
      ''total_tokens'', ''reasoning_tokens'', ''latency_ms'', ''ttft_ms'', ''raw_request'', ''raw_response'',
      ''metadata'', ''created_at'']"

definition request_args :: "dialect \<Rightarrow> sql_json \<Rightarrow> RequestLog \<Rightarrow> sql_value list" where
  "request_args dl js r =
     [SText (lr_ID r), SText (lr_RequestID r), nullable (lr_APIKeyID r), nullable (lr_APIKeyName r), nullable (lr_ClientIP r),
      SText (lr_Model r), nullable (lr_InternalModel r), nullable (lr_BackendID r), SText (lr_Endpoint r), dl_bool dl (lr_Stream r),
      SInt (lr_StatusCode r), nullable (lr_ErrorCode r), SInt (lr_PromptTokens r), SInt (lr_CompletionTokens r),
      SInt (lr_TotalTokens r), SInt (lr_ReasoningTokens r), SInt (lr_LatencyMS r), SInt (lr_TTFTMS r),
      nullable (lr_RawRequest r), nullable (lr_RawResponse r), SText (sj_marshal js (lr_Metadata r)),
      SInt (UnixMilli (lr_CreatedAt r))]"

text \<open>The columns of type JSON hold the normal form of the dialect.\<close>

definition store_value :: "dialect \<Rightarrow> string \<Rightarrow> sql_value \<Rightarrow> sql_value" where
  "store_value dl c v =
     (if c = ''metadata'' \<or> c = ''old_value'' \<or> c = ''new_value''
      then (case v of SText s \<Rightarrow> SText (dl_json dl s) | _ \<Rightarrow> v) else v)"

definition stored_row :: "dialect \<Rightarrow> string list \<Rightarrow> sql_value list \<Rightarrow> row" where
  "stored_row dl cols args = map (\<lambda>(c, v). (c, store_value dl c v)) (zip cols args)"

definition request_row :: "dialect \<Rightarrow> sql_json \<Rightarrow> RequestLog \<Rightarrow> row" where
  "request_row dl js r = stored_row dl request_columns (request_args dl js r)"

definition sql_AppendRequest :: "dialect \<Rightarrow> sql_json \<Rightarrow> string option \<Rightarrow> RequestLog \<Rightarrow> Database \<Rightarrow> string option \<times> Database" where
  "sql_AppendRequest dl js conn r db =
     (case conn of
        Some err \<Rightarrow> (Some err, db)
      | None \<Rightarrow>
          (case run_insert (request_row dl js r) (db_requests db) of
             Inl err \<Rightarrow> (Some err, db)
           | Inr rows \<Rightarrow> (None, db\<lparr>db_requests := rows\<rparr>)))"

definition audit_columns :: "string list" where
  "audit_columns =
     [''id'', ''admin_user'', ''action'', ''target_type'', ''target_id'', ''old_value'', ''new_value'', ''ip'', ''user_agent'', ''created_at'']"

definition audit_args :: "sql_json \<Rightarrow> AuditEvent \<Rightarrow> sql_value list" where
  "audit_args js e =
     (let oldJSON = (case ae_OldValue e of Some v \<Rightarrow> sj_object js v | None \<Rightarrow> []);
          newJSON = (case ae_NewValue e of Some v \<Rightarrow> sj_object js v | None \<Rightarrow> [])
      in [SText (ae_ID e), SText (ae_AdminUser e), SText (ae_Action e), SText (ae_TargetType e), nullable (ae_TargetID e),
          nullable oldJSON, nullable newJSON, nullable (ae_IP e), nullable (ae_UserAgent e), SInt (UnixMilli (ae_CreatedAt e))])"

definition audit_row :: "dialect \<Rightarrow> sql_json \<Rightarrow> AuditEvent \<Rightarrow> row" where
  "audit_row dl js e = stored_row dl audit_columns (audit_args js e)"

definition sql_AppendAudit :: "dialect \<Rightarrow> sql_json \<Rightarrow> string option \<Rightarrow> AuditEvent \<Rightarrow> Database \<Rightarrow> string option \<times> Database" where
  "sql_AppendAudit dl js conn e db =
     (case conn of
        Some err \<Rightarrow> (Some err, db)
      | None \<Rightarrow>
          (case run_insert (audit_row dl js e) (db_audits db) of
             Inl err \<Rightarrow> (Some err, db)
           | Inr rows \<Rightarrow> (None, db\<lparr>db_audits := rows\<rparr>)))"

section \<open>Querying\<close>

definition add_status :: "dialect \<Rightarrow> int \<Rightarrow> sql_cond list \<times> sql_value list \<Rightarrow> sql_cond list \<times> sql_value list" where
  "add_status dl n st = (if n \<noteq> 0 then add_cond dl ''status_code'' CEq (SInt n) st else st)"

definition add_stream :: "dialect \<Rightarrow> bool option \<Rightarrow> sql_cond list \<times> sql_value list \<Rightarrow> sql_cond list \<times> sql_value list" where
  "add_stream dl b st = (case b of Some b \<Rightarrow> add_cond dl ''stream'' CEq (dl_bool dl b) st | None \<Rightarrow> st)"

definition request_conds :: "dialect \<Rightarrow> LogQuery \<Rightarrow> sql_cond list \<times> sql_value list" where
  "request_conds dl q =
     (let s0 = ([], []);
          s1 = add_text dl ''request_id'' (lq_RequestID q) s0;
          s2 = add_text dl ''api_key_id'' (lq_APIKeyID q) s1;
          s3 = add_text dl ''client_ip'' (lq_ClientIP q) s2;
          s4 = add_text dl ''model'' (lq_Model q) s3;
          s5 = add_text dl ''backend_id'' (lq_BackendID q) s4;
          s6 = add_text dl ''endpoint'' (lq_Endpoint q) s5;
          s7 = add_status dl (lq_StatusCode q) s6;
          s8 = add_text dl ''error_code'' (lq_ErrorCode q) s7;
          s9 = add_stream dl (lq_Stream q) s8;
          s10 = add_time dl CGe (lq_Since q) s9
      in add_time dl CLe (lq_Until q) s10)"

text \<open>The columns of a SELECT, with a mark on those wrapped in \<open>COALESCE(...,'')\<close>.\<close>

definition request_select :: "(string \<times> bool) list" where
  "request_select =
     [(''id'', False), (''request_id'', False), (''api_key_id'', True), (''api_key_name'', True), (''client_ip'', True), (''model'', False),
      (''internal_model'', True), (''backend_id'', True), (''endpoint'', False), (''stream'', False), (''status_code'', False),
      (''error_code'', True), (''prompt_tokens'', False), (''completion_tokens'', False), (''total_tokens'', False),
      (''reasoning_tokens'', False), (''latency_ms'', False), (''ttft_ms'', False), (''raw_request'', True), (''raw_response'', True),
      (''metadata'', True), (''created_at'', False)]"

definition project :: "(string \<times> bool) list \<Rightarrow> row \<Rightarrow> sql_value list" where
  "project sel r = map (\<lambda>(c, guarded). if guarded then COALESCE (col r c) (SText []) else col r c) sel"

definition scan_request :: "dialect \<Rightarrow> sql_json \<Rightarrow> sql_value list \<Rightarrow> RequestLog option" where
  "scan_request dl js v = do {
     i \<leftarrow> scan_text (v ! 0); rid \<leftarrow> scan_text (v ! 1); kid \<leftarrow> scan_text (v ! 2); kn \<leftarrow> scan_text (v ! 3);
     ip \<leftarrow> scan_text (v ! 4); m \<leftarrow> scan_text (v ! 5); im \<leftarrow> scan_text (v ! 6); b \<leftarrow> scan_text (v ! 7);
     ep \<leftarrow> scan_text (v ! 8); str \<leftarrow> dl_unbool dl (v ! 9); sc \<leftarrow> scan_int (v ! 10); ec \<leftarrow> scan_text (v ! 11);
     pt \<leftarrow> scan_int (v ! 12); ct \<leftarrow> scan_int (v ! 13); tt \<leftarrow> scan_int (v ! 14); rt \<leftarrow> scan_int (v ! 15);
     lat \<leftarrow> scan_int (v ! 16); ttft \<leftarrow> scan_int (v ! 17); rq \<leftarrow> scan_text (v ! 18); rs \<leftarrow> scan_text (v ! 19);
     metadata \<leftarrow> scan_text (v ! 20); createdAt \<leftarrow> scan_int (v ! 21);
     Some \<lparr>lr_ID = i, lr_RequestID = rid, lr_APIKeyID = kid, lr_APIKeyName = kn, lr_ClientIP = ip, lr_Model = m,
           lr_InternalModel = im, lr_BackendID = b, lr_Endpoint = ep, lr_Stream = str, lr_StatusCode = sc, lr_ErrorCode = ec,
           lr_PromptTokens = pt, lr_CompletionTokens = ct, lr_TotalTokens = tt, lr_ReasoningTokens = rt, lr_LatencyMS = lat,
           lr_TTFTMS = ttft, lr_RawRequest = rq, lr_RawResponse = rs,
           lr_Metadata = (if metadata \<noteq> [] then (case sj_unmarshal js metadata of Some x \<Rightarrow> x | None \<Rightarrow> []) else []),
           lr_CreatedAt = from_UnixMilli createdAt\<rparr> }"

fun scan_all :: "('v \<Rightarrow> 'a option) \<Rightarrow> 'v list \<Rightarrow> string + 'a list" where
  "scan_all f [] = Inr []"
| "scan_all f (v # vs) =
     (case f v of
        None \<Rightarrow> Inl ''sql: Scan error''
      | Some x \<Rightarrow> (case scan_all f vs of Inl err \<Rightarrow> Inl err | Inr xs \<Rightarrow> Inr (x # xs)))"

definition sql_QueryRequests ::
    "dialect \<Rightarrow> sql_json \<Rightarrow> (row list \<Rightarrow> row list) \<Rightarrow> string option \<Rightarrow> LogQuery \<Rightarrow> Database \<Rightarrow> string + RequestLog list" where
  "sql_QueryRequests dl js ord conn q db =
     (let limit = page_limit (lq_Limit q) in
      case request_conds dl q of (conds, args) \<Rightarrow>
      case conn of
        Some err \<Rightarrow> Inl err
      | None \<Rightarrow>
          (case run_select dl ord conds (dl_place dl (length args + 1)) (dl_place dl (length args + 2))
                  (args @ [SInt limit, SInt (lq_Offset q)]) (db_requests db) of
             Inl err \<Rightarrow> Inl err
           | Inr rows \<Rightarrow> scan_all (scan_request dl js) (map (project request_select) rows)))"

definition audit_conds :: "dialect \<Rightarrow> AuditQuery \<Rightarrow> sql_cond list \<times> sql_value list" where
  "audit_conds dl q =
     (let s0 = ([], []);
          s1 = add_text dl ''admin_user'' (aq_AdminUser q) s0;
          s2 = add_text dl ''action'' (aq_Action q) s1;
          s3 = add_text dl ''target_type'' (aq_TargetType q) s2;
          s4 = add_text dl ''target_id'' (aq_TargetID q) s3;
          s5 = add_time dl CGe (aq_Since q) s4
      in add_time dl CLe (aq_Until q) s5)"

definition audit_select :: "(string \<times> bool) list" where
  "audit_select =
     [(''id'', False), (''admin_user'', False), (''action'', False), (''target_type'', False), (''target_id'', True),
      (''old_value'', True), (''new_value'', True), (''ip'', True), (''user_agent'', True), (''created_at'', False)]"

definition scan_audit :: "sql_json \<Rightarrow> sql_value list \<Rightarrow> AuditEvent option" where
  "scan_audit js v = do {
     i \<leftarrow> scan_text (v ! 0); u \<leftarrow> scan_text (v ! 1); a \<leftarrow> scan_text (v ! 2); tt \<leftarrow> scan_text (v ! 3); ti \<leftarrow> scan_text (v ! 4);
     oldJSON \<leftarrow> scan_text (v ! 5); newJSON \<leftarrow> scan_text (v ! 6); ip \<leftarrow> scan_text (v ! 7); ua \<leftarrow> scan_text (v ! 8);
     createdAt \<leftarrow> scan_int (v ! 9);
     Some \<lparr>ae_ID = i, ae_AdminUser = u, ae_Action = a, ae_TargetType = tt, ae_TargetID = ti,
           ae_OldValue = (if oldJSON \<noteq> [] then sj_unobject js oldJSON else None),
           ae_NewValue = (if newJSON \<noteq> [] then sj_unobject js newJSON else None),
           ae_IP = ip, ae_UserAgent = ua, ae_CreatedAt = from_UnixMilli createdAt\<rparr> }"

definition sql_QueryAudit ::
    "dialect \<Rightarrow> sql_json \<Rightarrow> (row list \<Rightarrow> row list) \<Rightarrow> string option \<Rightarrow> AuditQuery \<Rightarrow> Database \<Rightarrow> string + AuditEvent list" where
  "sql_QueryAudit dl js ord conn q db =
     (let limit = page_limit (aq_Limit q) in
      case audit_conds dl q of (conds, args) \<Rightarrow>
      case conn of
        Some err \<Rightarrow> Inl err
      | None \<Rightarrow>
          (case run_select dl ord conds (dl_place dl (length args + 1)) (dl_place dl (length args + 2))
                  (args @ [SInt limit, SInt (aq_Offset q)]) (db_audits db) of
             Inl err \<Rightarrow> Inl err
           | Inr rows \<Rightarrow> scan_all (scan_audit js) (map (project audit_select) rows)))"

section \<open>Purging\<close>

text \<open>\<open>time.Duration(days) * 24 * time.Hour\<close>, and the cutoff \<open>time.Now().Add(-retention)\<close>.\<close>

definition retention_of :: "int \<Rightarrow> int" where
  "retention_of days = w64 (w64 (days * 24) * hour_ns)"

definition sql_Purge :: "time \<Rightarrow> int \<Rightarrow> string option \<Rightarrow> string option \<Rightarrow> Database \<Rightarrow> string option \<times> Database" where
  "sql_Purge now retention conn1 conn2 db =
     (let cutoff = UnixMilli (now + w64 (- retention)) in
      case conn1 of
        Some err \<Rightarrow> (Some err, db)
      | None \<Rightarrow>
          let db1 = db\<lparr>db_requests := run_delete cutoff (db_requests db)\<rparr> in
          case conn2 of
            Some err \<Rightarrow> (Some err, db1)
          | None \<Rightarrow> (None, db1\<lparr>db_audits := run_delete cutoff (db_audits db1)\<rparr>))"

text \<open>One tick of the retention loop of \<open>main\<close>; without a positive number of days there is none.\<close>

definition retention_tick :: "int \<Rightarrow> time \<Rightarrow> string option \<Rightarrow> string option \<Rightarrow> Database \<Rightarrow> Database" where
  "retention_tick days now conn1 conn2 db = (if 0 < days then snd (sql_Purge now (retention_of days) conn1 conn2 db) else db)"

section \<open>What a record becomes\<close>

text \<open>A stored record has its time cut to milliseconds.\<close>

definition to_ms :: "time \<Rightarrow> time" where
  "to_ms t = from_UnixMilli (UnixMilli t)"

definition ms_log :: "RequestLog \<Rightarrow> RequestLog" where
  "ms_log r = r\<lparr>lr_CreatedAt := to_ms (lr_CreatedAt r)\<rparr>"

definition ms_query :: "LogQuery \<Rightarrow> LogQuery" where
  "ms_query q = q\<lparr>lq_Since := map_option to_ms (lq_Since q), lq_Until := map_option to_ms (lq_Until q)\<rparr>"

definition sound_dialect :: "dialect \<Rightarrow> bool" where
  "sound_dialect dl \<longleftrightarrow> sound_places dl \<and> (\<forall>b. dl_bool dl b \<noteq> SNull \<and> dl_unbool dl (dl_bool dl b) = Some b)"

lemma dialects_ok [simp]: "sound_dialect sqlite_dialect" "sound_dialect (postgres_dialect jsonb)"
  by (simp_all add: sound_dialect_def sqlite_dialect_def postgres_dialect_def boolInt_def sound_places_def)

text \<open>
  What a record needs to come back unchanged: its numbers are 64-bit integers and its metadata,
  a Go map listed in the order the decoder gives, survives the JSON codec and the JSON column.
\<close>

definition int64_log :: "RequestLog \<Rightarrow> bool" where
  "int64_log r \<longleftrightarrow> in_int64 (lr_StatusCode r) \<and> in_int64 (lr_PromptTokens r) \<and> in_int64 (lr_CompletionTokens r)
     \<and> in_int64 (lr_TotalTokens r) \<and> in_int64 (lr_ReasoningTokens r) \<and> in_int64 (lr_LatencyMS r) \<and> in_int64 (lr_TTFTMS r)
     \<and> in_int64 (UnixMilli (lr_CreatedAt r))"

definition storable :: "dialect \<Rightarrow> sql_json \<Rightarrow> RequestLog \<Rightarrow> bool" where
  "storable dl js r \<longleftrightarrow> int64_log r \<and> dl_json dl (sj_marshal js (lr_Metadata r)) \<noteq> []
     \<and> sj_unmarshal js (dl_json dl (sj_marshal js (lr_Metadata r))) = Some (lr_Metadata r)"

lemma request_row_eq:
  "request_row dl js r =
     [(''id'', SText (lr_ID r)), (''request_id'', SText (lr_RequestID r)), (''api_key_id'', nullable (lr_APIKeyID r)),
      (''api_key_name'', nullable (lr_APIKeyName r)), (''client_ip'', nullable (lr_ClientIP r)), (''model'', SText (lr_Model r)),
      (''internal_model'', nullable (lr_InternalModel r)), (''backend_id'', nullable (lr_BackendID r)),
      (''endpoint'', SText (lr_Endpoint r)), (''stream'', dl_bool dl (lr_Stream r)), (''status_code'', SInt (lr_StatusCode r)),
      (''error_code'', nullable (lr_ErrorCode r)), (''prompt_tokens'', SInt (lr_PromptTokens r)),
      (''completion_tokens'', SInt (lr_CompletionTokens r)), (''total_tokens'', SInt (lr_TotalTokens r)),
      (''reasoning_tokens'', SInt (lr_ReasoningTokens r)), (''latency_ms'', SInt (lr_LatencyMS r)), (''ttft_ms'', SInt (lr_TTFTMS r)),
      (''raw_request'', nullable (lr_RawRequest r)), (''raw_response'', nullable (lr_RawResponse r)),
      (''metadata'', SText (dl_json dl (sj_marshal js (lr_Metadata r)))), (''created_at'', SInt (UnixMilli (lr_CreatedAt r)))]"
  by (simp add: request_row_def stored_row_def request_columns_def request_args_def store_value_def)

lemma scan_guarded [simp]: "scan_text (COALESCE (nullable s) (SText [])) = Some s" "scan_text (COALESCE (SText s) d) = Some s"
  by (simp_all add: COALESCE_def nullable_def)

lemma request_cols:
  "col (request_row dl js r) ''request_id'' = SText (lr_RequestID r)" "col (request_row dl js r) ''api_key_id'' = nullable (lr_APIKeyID r)"
  "col (request_row dl js r) ''client_ip'' = nullable (lr_ClientIP r)" "col (request_row dl js r) ''model'' = SText (lr_Model r)"
  "col (request_row dl js r) ''backend_id'' = nullable (lr_BackendID r)" "col (request_row dl js r) ''endpoint'' = SText (lr_Endpoint r)"
  "col (request_row dl js r) ''status_code'' = SInt (lr_StatusCode r)" "col (request_row dl js r) ''error_code'' = nullable (lr_ErrorCode r)"
  "col (request_row dl js r) ''stream'' = dl_bool dl (lr_Stream r)" "col (request_row dl js r) ''created_at'' = SInt (UnixMilli (lr_CreatedAt r))"
  "col (request_row dl js r) ''id'' = SText (lr_ID r)" "col (request_row dl js r) ''total_tokens'' = SInt (lr_TotalTokens r)"
  "col (request_row dl js r) ''prompt_tokens'' = SInt (lr_PromptTokens r)" "col (request_row dl js r) ''completion_tokens'' = SInt (lr_CompletionTokens r)"
  by (simp_all add: request_row_eq col_def)

lemma scan_back:
  assumes "sound_dialect dl" and "storable dl js r"
  shows "scan_request dl js (project request_select (request_row dl js r)) = Some (ms_log r)"
proof -
  have p: "project request_select (request_row dl js r) =
     [SText (lr_ID r), SText (lr_RequestID r), COALESCE (nullable (lr_APIKeyID r)) (SText []), COALESCE (nullable (lr_APIKeyName r)) (SText []),
      COALESCE (nullable (lr_ClientIP r)) (SText []), SText (lr_Model r), COALESCE (nullable (lr_InternalModel r)) (SText []),
      COALESCE (nullable (lr_BackendID r)) (SText []), SText (lr_Endpoint r), dl_bool dl (lr_Stream r), SInt (lr_StatusCode r),
      COALESCE (nullable (lr_ErrorCode r)) (SText []), SInt (lr_PromptTokens r), SInt (lr_CompletionTokens r), SInt (lr_TotalTokens r),
      SInt (lr_ReasoningTokens r), SInt (lr_LatencyMS r), SInt (lr_TTFTMS r), COALESCE (nullable (lr_RawRequest r)) (SText []),
      COALESCE (nullable (lr_RawResponse r)) (SText []), COALESCE (SText (dl_json dl (sj_marshal js (lr_Metadata r)))) (SText []),
      SInt (UnixMilli (lr_CreatedAt r))]"
    by (simp add: project_def request_select_def request_row_eq col_def)
  show ?thesis unfolding p scan_request_def
    using assms by (simp add: int64_log_def sound_dialect_def storable_def ms_log_def to_ms_def)
qed

section \<open>What a query asks\<close>

definition request_filters :: "dialect \<Rightarrow> LogQuery \<Rightarrow> (string \<times> sql_cmp \<times> sql_value) list" where
  "request_filters dl q =
     ((((((((((([] @ (if lq_RequestID q \<noteq> [] then [(''request_id'', CEq, SText (lq_RequestID q))] else []))
     @ (if lq_APIKeyID q \<noteq> [] then [(''api_key_id'', CEq, SText (lq_APIKeyID q))] else []))
     @ (if lq_ClientIP q \<noteq> [] then [(''client_ip'', CEq, SText (lq_ClientIP q))] else []))
     @ (if lq_Model q \<noteq> [] then [(''model'', CEq, SText (lq_Model q))] else []))
     @ (if lq_BackendID q \<noteq> [] then [(''backend_id'', CEq, SText (lq_BackendID q))] else []))
     @ (if lq_Endpoint q \<noteq> [] then [(''endpoint'', CEq, SText (lq_Endpoint q))] else []))
     @ (if lq_StatusCode q \<noteq> 0 then [(''status_code'', CEq, SInt (lq_StatusCode q))] else []))
     @ (if lq_ErrorCode q \<noteq> [] then [(''error_code'', CEq, SText (lq_ErrorCode q))] else []))
     @ (case lq_Stream q of Some b \<Rightarrow> [(''stream'', CEq, dl_bool dl b)] | None \<Rightarrow> []))
     @ (case lq_Since q of Some t \<Rightarrow> [(''created_at'', CGe, SInt (UnixMilli t))] | None \<Rightarrow> []))
     @ (case lq_Until q of Some t \<Rightarrow> [(''created_at'', CLe, SInt (UnixMilli t))] | None \<Rightarrow> []))"

lemma builds_status: "builds dl bs st \<Longrightarrow> builds dl (bs @ (if n \<noteq> 0 then [(''status_code'', CEq, SInt n)] else [])) (add_status dl n st)"
  by (simp add: add_status_def builds_add)

lemma builds_stream:
  "builds dl bs st \<Longrightarrow> builds dl (bs @ (case b of Some b \<Rightarrow> [(''stream'', CEq, dl_bool dl b)] | None \<Rightarrow> [])) (add_stream dl b st)"
  by (simp add: add_stream_def builds_add split: option.split)

lemma request_builds: "builds dl (request_filters dl q) (request_conds dl q)"
  unfolding request_filters_def request_conds_def Let_def
  by (intro builds_time builds_stream builds_text builds_status builds_Nil)

lemma compare_nullable: "v \<noteq> [] \<Longrightarrow> sql_compare CEq (nullable s) (SText v) \<longleftrightarrow> s = v"
  by (auto simp: nullable_def)

lemma satisfies_append: "satisfies (xs @ ys) r \<longleftrightarrow> satisfies xs r \<and> satisfies ys r"
  by (simp add: satisfies_def ball_Un)

lemma satisfies_simps: "satisfies [] r" "satisfies ((c, cmp, v) # bs) r \<longleftrightarrow> sql_compare cmp (col r c) v \<and> satisfies bs r"
  by (auto simp: satisfies_def)

lemma satisfies_if: "satisfies (if b then [(c, cmp, v)] else []) r \<longleftrightarrow> (b \<longrightarrow> sql_compare cmp (col r c) v)"
  by (simp add: satisfies_simps)

lemma satisfies_option:
  "satisfies (case x of Some y \<Rightarrow> [(c, cmp, f y)] | None \<Rightarrow> []) r \<longleftrightarrow> (\<forall>y. x = Some y \<longrightarrow> sql_compare cmp (col r c) (f y))"
  by (simp add: satisfies_simps split: option.split)

lemma sql_compare_eq: "v \<noteq> SNull \<Longrightarrow> w \<noteq> SNull \<Longrightarrow> sql_compare CEq v w \<longleftrightarrow> v = w"
  by (cases v; cases w) simp_all

lemma dl_bool_compare:
  assumes "sound_dialect dl"
  shows "sql_compare CEq (dl_bool dl a) (dl_bool dl b) \<longleftrightarrow> a = b"
proof -
  have un: "dl_unbool dl (dl_bool dl c) = Some c" and nn: "dl_bool dl c \<noteq> SNull" for c
    using assms by (simp_all add: sound_dialect_def)
  have "a = b" if "dl_bool dl a = dl_bool dl b"
    using un [of a] un [of b] unfolding that by simp
  then show ?thesis using sql_compare_eq [OF nn nn, of a b] by blast
qed

lemma filters_match:
  assumes "sound_dialect dl"
  shows "satisfies (request_filters dl q) (request_row dl js r) \<longleftrightarrow> matchLog (ms_log r) (ms_query q)"
proof -
  have "satisfies (request_filters dl q) (request_row dl js r) \<longleftrightarrow>
      (lq_RequestID q \<noteq> [] \<longrightarrow> lr_RequestID r = lq_RequestID q) \<and> (lq_APIKeyID q \<noteq> [] \<longrightarrow> lr_APIKeyID r = lq_APIKeyID q)
    \<and> (lq_ClientIP q \<noteq> [] \<longrightarrow> lr_ClientIP r = lq_ClientIP q) \<and> (lq_Model q \<noteq> [] \<longrightarrow> lr_Model r = lq_Model q)
    \<and> (lq_BackendID q \<noteq> [] \<longrightarrow> lr_BackendID r = lq_BackendID q) \<and> (lq_Endpoint q \<noteq> [] \<longrightarrow> lr_Endpoint r = lq_Endpoint q)
    \<and> (lq_StatusCode q \<noteq> 0 \<longrightarrow> lr_StatusCode r = lq_StatusCode q) \<and> (lq_ErrorCode q \<noteq> [] \<longrightarrow> lr_ErrorCode r = lq_ErrorCode q)
    \<and> (\<forall>b. lq_Stream q = Some b \<longrightarrow> lr_Stream r = b)
    \<and> (\<forall>t. lq_Since q = Some t \<longrightarrow> UnixMilli t \<le> UnixMilli (lr_CreatedAt r))
    \<and> (\<forall>t. lq_Until q = Some t \<longrightarrow> UnixMilli (lr_CreatedAt r) \<le> UnixMilli t)"
    unfolding request_filters_def satisfies_append satisfies_if satisfies_option request_cols dl_bool_compare [OF assms]
    by (auto simp: compare_nullable satisfies_simps)
  also have "\<dots> \<longleftrightarrow> matchLog (ms_log r) (ms_query q)"
    by (auto simp: matchLog_def ms_log_def ms_query_def to_ms_def from_UnixMilli_def split: option.splits)
  finally show ?thesis .
qed

end
