(* ===== verification/Sql_Store.thy ===== *)
theory Sql_Store
  imports Sql_Log
begin

text \<open>
  What the log stores promise their clients. The interface \<open>log_store\<close> states the contract of
  \<open>QueryRequests\<close> of the interface \<open>Store\<close> in \<^verbatim>\<open>internal/logstore/logstore.go\<close>: an answer is a page of
  the matching records. It is interpreted on the in-memory store and on both SQL stores; that the
  SQL stores satisfy it rests on the round trip of a record through its columns and on the
  correspondence between the generated WHERE clause and \<open>matchLog\<close>.
\<close>

section \<open>The contract of a log store\<close>

locale log_store =
  fixes view :: "'s \<Rightarrow> RequestLog list"
    and good :: "'s \<Rightarrow> bool"
    and ask :: "LogQuery \<Rightarrow> 's \<Rightarrow> string + RequestLog list"
    and accepts :: "RequestLog \<Rightarrow> LogQuery \<Rightarrow> bool"
  assumes ask_page:
    "good s \<Longrightarrow> 0 \<le> lq_Offset q \<Longrightarrow> lq_Offset q \<le> max_int64 - 1000 \<Longrightarrow>
     \<exists>xs. ask q s = Inr (take (nat (page_limit (lq_Limit q))) (drop (nat (lq_Offset q)) xs))
        \<and> mset xs = mset (filter (\<lambda>r. accepts r q) (view s))"
begin

lemma ask_answers:
  assumes "good s" and "0 \<le> lq_Offset q" and "lq_Offset q \<le> max_int64 - 1000"
  obtains out where "ask q s = Inr out" and "set out \<subseteq> {r \<in> set (view s). accepts r q}" and "length out \<le> 1000"
proof -
  obtain xs where a: "ask q s = Inr (take (nat (page_limit (lq_Limit q))) (drop (nat (lq_Offset q)) xs))"
    and m: "mset xs = mset (filter (\<lambda>r. accepts r q) (view s))"
    using ask_page [OF assms] by blast
  have "set xs = {r \<in> set (view s). accepts r q}"
    using mset_eq_setD [OF m] by simp
  moreover have "set (take n (drop k xs)) \<subseteq> set xs" for n k
    by (meson set_drop_subset set_take_subset subset_trans)
  moreover have "nat (page_limit (lq_Limit q)) \<le> 1000" by (auto simp: page_limit_def)
  ultimately show ?thesis by (intro that [OF a]) auto
qed

text \<open>A first page that is not full has every matching record.\<close>

lemma ask_complete:
  assumes "good s" and "lq_Offset q = 0" and "ask q s = Inr out" and "int (length out) < page_limit (lq_Limit q)"
  shows "mset out = mset (filter (\<lambda>r. accepts r q) (view s))"
proof -
  obtain xs where "ask q s = Inr (take (nat (page_limit (lq_Limit q))) xs)"
    and m: "mset xs = mset (filter (\<lambda>r. accepts r q) (view s))"
    using ask_page [of s q] assms(1,2) by auto
  with assms(3) have out: "out = take (nat (page_limit (lq_Limit q))) xs" by simp
  have "length xs < nat (page_limit (lq_Limit q))" using assms(4) by (simp add: out min_def split: if_splits)
  then show ?thesis using m by (simp add: out)
qed

end

interpretation memory_log: log_store mem_requests "\<lambda>_. True" "\<lambda>q m. Inr (QueryRequests q m)" matchLog
  by unfold_locales (auto simp: QueryRequests_page simp flip: rev_filter intro!: exI [of _ "rev _"])

section \<open>The SQL stores\<close>

text \<open>A sequence of appended records.\<close>

fun sql_run :: "dialect \<Rightarrow> sql_json \<Rightarrow> RequestLog list \<Rightarrow> Database \<Rightarrow> Database" where
  "sql_run dl js [] db = db"
| "sql_run dl js (r # rs) db = sql_run dl js rs (snd (sql_AppendRequest dl js None r db))"

definition empty_db :: Database where
  "empty_db = \<lparr>db_requests = [], db_audits = []\<rparr>"

lemma append_fresh:
  assumes "db_requests db = map (request_row dl js) rs" and "lr_ID r \<notin> lr_ID ` set rs"
  shows "sql_AppendRequest dl js None r db = (None, db\<lparr>db_requests := map (request_row dl js) (rs @ [r])\<rparr>)"
  using assms by (auto simp: sql_AppendRequest_def run_insert_def request_cols)

lemma sql_run_rows:
  assumes "db_requests db = map (request_row dl js) rs0" and "distinct (map lr_ID (rs0 @ rs))"
  shows "sql_run dl js rs db = db\<lparr>db_requests := map (request_row dl js) (rs0 @ rs)\<rparr>"
  using assms
proof (induction rs arbitrary: db rs0)
  case (Cons r rs)
  have "sql_AppendRequest dl js None r db = (None, db\<lparr>db_requests := map (request_row dl js) (rs0 @ [r])\<rparr>)"
    using Cons.prems by (intro append_fresh) auto
  then show ?case using Cons.IH [of _ "rs0 @ [r]"] Cons.prems(2) by simp
qed simp

lemma scan_all_map:
  assumes "\<forall>x \<in> set xs. f (g x) = Some (h x)"
  shows "scan_all f (map g xs) = Inr (map h xs)"
  using assms by (induction xs) auto

text \<open>A permutation of an image is the image of a permutation.\<close>

lemma mset_map_perm:
  assumes "mset ys = mset (map f xs)"
  shows "\<exists>zs. ys = map f zs \<and> mset zs = mset xs"
  using assms
proof (induction ys arbitrary: xs)
  case (Cons y ys)
  then have "y \<in> f ` set xs" by (metis image_set list.set_intros(1) set_mset_mset)
  then obtain x where x: "x \<in> set xs" "y = f x" by blast
  have "mset (map f (remove1 x xs)) = mset ys"
    using x by (simp add: image_mset_Diff Cons.prems [simplified, symmetric])
  then obtain zs where "ys = map f zs" "mset zs = mset (remove1 x xs)" using Cons.IH by metis
  then show ?case using x by (intro exI [of _ "x # zs"]) simp
qed simp

lemma newest_first_set: "newest_first ord \<Longrightarrow> set (ord rs) = set rs"
  unfolding newest_first_def by (metis mset_eq_setD)

text \<open>
  The answer to a built query over rows that stand for records: the page asked for of the records
  that satisfy the conditions, newest first.
\<close>

lemma select_page:
  assumes dl: "sound_places dl" and b: "builds dl bs (conds, args)" and ord: "newest_first ord" and off: "0 \<le> k"
    and scan: "\<forall>r \<in> set rs. scan (project sel (mkrow r)) = Some (h r)"
    and sat: "\<And>r. satisfies bs (mkrow r) \<longleftrightarrow> P r"
  shows "\<exists>zs. (case run_select dl ord conds (dl_place dl (length args + 1)) (dl_place dl (length args + 2)) (args @ [SInt l, SInt k]) (map mkrow rs) of
                 Inl err \<Rightarrow> Inl err | Inr rows \<Rightarrow> scan_all scan (map (project sel) rows))
              = Inr (take (nat l) (drop (nat k) (map h zs)))
            \<and> mset zs = mset (filter P rs) \<and> sorted_wrt (\<lambda>a b. created (mkrow b) \<le> created (mkrow a)) zs"
proof -
  let ?page = "\<lambda>ys. take (nat l) (drop (nat k) ys)"
  have rows: "filter (satisfies bs) (map mkrow rs) = map mkrow (filter P rs)" using sat by (induction rs) auto
  have pe: "mset (ord (map mkrow (filter P rs))) = mset (map mkrow (filter P rs))"
    and so: "sorted_wrt (\<lambda>a b. created b \<le> created a) (ord (map mkrow (filter P rs)))"
    using ord unfolding newest_first_def by blast+
  obtain zs where zs: "ord (map mkrow (filter P rs)) = map mkrow zs" "mset zs = mset (filter P rs)"
    using mset_map_perm [OF pe] by blast
  have "run_select dl ord conds (dl_place dl (length args + 1)) (dl_place dl (length args + 2)) (args @ [SInt l, SInt k]) (map mkrow rs)
     = Inr (?page (ord (filter (satisfies bs) (map mkrow rs))))"
    using off by (subst built_select [OF dl b]) simp
  then have sel: "run_select dl ord conds (dl_place dl (length args + 1)) (dl_place dl (length args + 2)) (args @ [SInt l, SInt k]) (map mkrow rs)
     = Inr (map mkrow (?page zs))"
    by (simp only: rows zs(1) take_map drop_map)
  have "set (?page zs) \<subseteq> set zs" by (meson set_drop_subset set_take_subset subset_trans)
  moreover have "set zs \<subseteq> set rs" using mset_eq_setD [OF zs(2)] by auto
  ultimately have "\<forall>r \<in> set (?page zs). scan ((project sel \<circ> mkrow) r) = Some (h r)" using scan by auto
  then have "scan_all scan (map (project sel) (map mkrow (?page zs))) = Inr (map h (?page zs))"
    using scan_all_map [of _ scan "project sel \<circ> mkrow" h] by simp
  moreover have "sorted_wrt (\<lambda>a b. created (mkrow b) \<le> created (mkrow a)) zs"
    using so unfolding zs(1) sorted_wrt_map .
  ultimately show ?thesis unfolding sel using zs(2) by (intro exI [of _ zs]) (simp add: take_map drop_map)
qed

lemma created_row [simp]: "created (request_row dl js r) = UnixMilli (lr_CreatedAt r)"
  by (simp add: created_def request_cols)

lemma sql_query_page:
  assumes dl: "sound_dialect dl" and st: "\<forall>r \<in> set rs. storable dl js r" and ord: "newest_first ord"
    and off: "0 \<le> lq_Offset q" and db: "db_requests db = map (request_row dl js) rs"
  shows "\<exists>xs. sql_QueryRequests dl js ord None q db
              = Inr (take (nat (page_limit (lq_Limit q))) (drop (nat (lq_Offset q)) xs))
            \<and> mset xs = mset (filter (\<lambda>r. matchLog r (ms_query q)) (map ms_log rs))
            \<and> sorted_wrt (\<lambda>a b. lr_CreatedAt b \<le> lr_CreatedAt a) xs"
proof -
  obtain conds args where ca: "request_conds dl q = (conds, args)" by (rule prod.exhaust)
  have places: "sound_places dl" using dl by (simp add: sound_dialect_def)
  have b: "builds dl (request_filters dl q) (conds, args)" using request_builds [of dl q] by (simp add: ca)
  have scan: "\<forall>r \<in> set rs. scan_request dl js (project request_select (request_row dl js r)) = Some (ms_log r)"
    using st scan_back [OF dl] by blast
  obtain zs where zs: "sql_QueryRequests dl js ord None q db
        = Inr (take (nat (page_limit (lq_Limit q))) (drop (nat (lq_Offset q)) (map ms_log zs)))"
      "mset zs = mset (filter (\<lambda>r. matchLog (ms_log r) (ms_query q)) rs)"
      "sorted_wrt (\<lambda>a b. UnixMilli (lr_CreatedAt b) \<le> UnixMilli (lr_CreatedAt a)) zs"
    using select_page [OF places b ord off scan filters_match [OF dl], where l = "page_limit (lq_Limit q)"]
    by (auto simp: sql_QueryRequests_def ca db Let_def)
  have "sorted_wrt (\<lambda>a b. lr_CreatedAt b \<le> lr_CreatedAt a) (map ms_log zs)"
    using zs(3) unfolding sorted_wrt_map
    by (rule sorted_wrt_mono_rel [rotated]) (simp add: ms_log_def to_ms_def from_UnixMilli_def)
  moreover have "mset (map ms_log zs) = mset (filter (\<lambda>r. matchLog r (ms_query q)) (map ms_log rs))"
    using zs(2) by (simp add: filter_map comp_def)
  ultimately show ?thesis using zs(1) by blast
qed

text \<open>What a database holds, and when the records in it are the ones that were appended.\<close>

definition sql_view :: "dialect \<Rightarrow> sql_json \<Rightarrow> Database \<Rightarrow> RequestLog list" where
  "sql_view dl js db = List.map_filter (\<lambda>x. scan_request dl js (project request_select x)) (db_requests db)"

definition sql_good :: "dialect \<Rightarrow> sql_json \<Rightarrow> (row list \<Rightarrow> row list) \<Rightarrow> Database \<Rightarrow> bool" where
  "sql_good dl js ord db \<longleftrightarrow> newest_first ord \<and> (\<exists>rs. db_requests db = map (request_row dl js) rs \<and> (\<forall>r \<in> set rs. storable dl js r))"

lemma sql_view_rows:
  assumes "sound_dialect dl" and "\<forall>r \<in> set rs. storable dl js r" and "db_requests db = map (request_row dl js) rs"
  shows "sql_view dl js db = map ms_log rs"
proof -
  have "List.map_filter (\<lambda>x. scan_request dl js (project request_select x)) (map (request_row dl js) rs) = map ms_log rs"
    using assms(2) by (induction rs) (simp_all add: scan_back [OF assms(1)])
  then show ?thesis by (simp add: sql_view_def assms(3))
qed

lemma sql_log_store:
  assumes "sound_dialect dl"
  shows "log_store (sql_view dl js) (sql_good dl js ord) (\<lambda>q. sql_QueryRequests dl js ord None q) (\<lambda>r q. matchLog r (ms_query q))"
proof
  fix s :: Database and q :: LogQuery
  assume "sql_good dl js ord s" and off: "0 \<le> lq_Offset q"
  then obtain rs where rs: "newest_first ord" "db_requests s = map (request_row dl js) rs" "\<forall>r \<in> set rs. storable dl js r"
    by (auto simp: sql_good_def)
  show "\<exists>xs. sql_QueryRequests dl js ord None q s = Inr (take (nat (page_limit (lq_Limit q))) (drop (nat (lq_Offset q)) xs))
      \<and> mset xs = mset (filter (\<lambda>r. matchLog r (ms_query q)) (sql_view dl js s))"
    using sql_query_page [OF assms rs(3,1) off rs(2)] sql_view_rows [OF assms rs(3,2)] by auto
qed

interpretation sqlite_log: log_store "sql_view sqlite_dialect js" "sql_good sqlite_dialect js ord"
    "\<lambda>q. sql_QueryRequests sqlite_dialect js ord None q" "\<lambda>r q. matchLog r (ms_query q)" for js ord
  by (rule sql_log_store) simp

interpretation postgres_log: log_store "sql_view (postgres_dialect jsonb) js" "sql_good (postgres_dialect jsonb) js ord"
    "\<lambda>q. sql_QueryRequests (postgres_dialect jsonb) js ord None q" "\<lambda>r q. matchLog r (ms_query q)" for jsonb js ord
  by (rule sql_log_store) simp

section \<open>Queries\<close>

text \<open>An order that SQL allows, and a codec for records without metadata.\<close>

definition rows_newest :: "row list \<Rightarrow> row list" where
  "rows_newest rs = sort_key (\<lambda>r. - created r) rs"

lemma rows_newest_ok: "newest_first rows_newest"
proof -
  have "sorted_wrt (\<lambda>a b. created b \<le> created a) (sort_key (\<lambda>r. - created r) rs)" for rs
    using sorted_sort_key [of "\<lambda>r. - created r" rs] by (simp only: sorted_wrt_map neg_le_iff_le)
  then show ?thesis by (simp add: newest_first_def rows_newest_def)
qed

definition null_json :: sql_json where
  "null_json = \<lparr>sj_marshal = (\<lambda>_. ''null''), sj_unmarshal = (\<lambda>_. Some []), sj_object = (\<lambda>_. ''{}''), sj_unobject = (\<lambda>_. Some [])\<rparr>"

text \<open>
  C34. The persistent stores answer like the in-memory one: after any sequence of appended records
  with different ids, \<open>QueryRequests\<close> of the SQLite and of the Postgres store returns no error,
  and its answer is the page asked for of a list that holds exactly the stored records matching
  the query, newest first, every field as it was appended and the time cut to milliseconds. The
  filters, the columns of INSERT and SELECT, the placeholders and the scan all agree.
\<close>

theorem sql_query_refines:
  assumes "dl \<in> {sqlite_dialect, postgres_dialect jsonb}"
    and "\<forall>r \<in> set rs. storable dl js r" and "distinct (map lr_ID rs)"
    and "newest_first ord" and "0 \<le> lq_Offset q"
  shows "\<exists>xs. sql_QueryRequests dl js ord None q (sql_run dl js rs empty_db)
              = Inr (take (nat (page_limit (lq_Limit q))) (drop (nat (lq_Offset q)) xs))
            \<and> mset xs = mset (filter (\<lambda>r. matchLog r (ms_query q)) (map ms_log rs))
            \<and> sorted_wrt (\<lambda>a b. lr_CreatedAt b \<le> lr_CreatedAt a) xs"
proof -
  have "sound_dialect dl" using assms(1) by auto
  moreover have "db_requests (sql_run dl js rs empty_db) = map (request_row dl js) rs"
    using sql_run_rows [of empty_db dl js "[]" rs] assms(3) by (simp add: empty_db_def)
  ultimately show ?thesis using assms by (intro sql_query_page)
qed

theorem sql_query_refines_witness:
  "\<exists>xs. sql_QueryRequests sqlite_dialect null_json rows_newest None any_log
          (sql_run sqlite_dialect null_json [(sample_log 1)\<lparr>lr_ID := ''a''\<rparr>, (sample_log 7000000)\<lparr>lr_ID := ''b''\<rparr>] empty_db)
       = Inr (take (nat (page_limit (lq_Limit any_log))) (drop (nat (lq_Offset any_log)) xs))
     \<and> mset xs = mset (filter (\<lambda>r. matchLog r (ms_query any_log)) (map ms_log [(sample_log 1)\<lparr>lr_ID := ''a''\<rparr>, (sample_log 7000000)\<lparr>lr_ID := ''b''\<rparr>]))
     \<and> sorted_wrt (\<lambda>a b. lr_CreatedAt b \<le> lr_CreatedAt a) xs"
  by (rule sql_query_refines [where jsonb = id])
     (simp_all add: rows_newest_ok storable_def int64_log_def sample_log_def null_json_def sqlite_dialect_def any_log_def UnixMilli_def)

text \<open>Which filters of a query are set.\<close>

definition query_shape :: "LogQuery \<Rightarrow> bool list" where
  "query_shape q =
     [lq_RequestID q = [], lq_APIKeyID q = [], lq_ClientIP q = [], lq_Model q = [], lq_BackendID q = [], lq_Endpoint q = [],
      lq_StatusCode q = 0, lq_ErrorCode q = [], lq_Stream q = None, lq_Since q = None, lq_Until q = None]"

abbreviation shape :: "(string \<times> sql_cmp \<times> sql_value) list \<Rightarrow> (string \<times> sql_cmp) list" where
  "shape bs \<equiv> map (\<lambda>(c, cmp, v). (c, cmp)) bs"

lemma shape_if: "(P \<longleftrightarrow> P') \<Longrightarrow> shape (if \<not> P then [(c, cmp, v)] else []) = shape (if \<not> P' then [(c, cmp, v')] else [])"
  by simp

lemma shape_option:
  "(x = None \<longleftrightarrow> y = None) \<Longrightarrow> shape (case x of Some a \<Rightarrow> [(c, cmp, f a)] | None \<Rightarrow> []) = shape (case y of Some a \<Rightarrow> [(c, cmp, f a)] | None \<Rightarrow> [])"
  by (cases x; cases y) simp_all

lemma same_shape:
  assumes "query_shape q = query_shape q'"
  shows "shape (request_filters dl q) = shape (request_filters dl q')"
proof -
  note eqs = assms [unfolded query_shape_def list.inject]
  show ?thesis unfolding request_filters_def map_append
    by (intro arg_cong2 [where f = append] shape_if shape_option refl) (use eqs in \<open>blast+\<close>)
qed

lemma places_shape: "shape bs = shape bs' \<Longrightarrow> places dl i bs = places dl i bs'"
proof (induction dl i bs arbitrary: bs' rule: places.induct)
  case (2 dl i c cmp v bs)
  then obtain v' bs'' where "bs' = (c, cmp, v') # bs''" "shape bs = shape bs''"
    by (cases bs') (simp_all split: prod.splits)
  then show ?case using 2(1) by simp
qed simp

text \<open>
  C35. No input reaches the text of a statement: the conditions of a query, and so the text of its
  WHERE clause, depend only on which filters are set, never on their values; the values travel as
  arguments, and each placeholder of the text is bound to the value of its own filter, also when
  only some filters are set.
\<close>

theorem statement_text_fixed:
  assumes "dl \<in> {sqlite_dialect, postgres_dialect jsonb}" and "query_shape q = query_shape q'"
  shows "where_text (fst (request_conds dl q)) = where_text (fst (request_conds dl q'))
       \<and> bind_conds (snd (request_conds dl q)) 1 (fst (request_conds dl q)) = Some (request_filters dl q)"
proof -
  have b: "request_conds dl p = (places dl 1 (request_filters dl p), map (snd \<circ> snd) (request_filters dl p))" for p
    using request_builds [of dl p] by (simp add: builds_def)
  have "sound_places dl" using assms(1) by auto
  then have "bind_conds (map (snd \<circ> snd) (request_filters dl q)) 1 (places dl 1 (request_filters dl q)) = Some (request_filters dl q)"
    using bind_places [of dl "[]" "request_filters dl q" "[]"] by simp
  then show ?thesis using places_shape [OF same_shape [OF assms(2)]] by (simp add: b)
qed

theorem statement_text_fixed_witness:
  "where_text (fst (request_conds (postgres_dialect id) (any_log\<lparr>lq_Model := ''m'', lq_ClientIP := ''1.2.3.4''\<rparr>)))
     = where_text (fst (request_conds (postgres_dialect id) (any_log\<lparr>lq_Model := ''x' OR 1=1'', lq_ClientIP := ''ip''\<rparr>)))
   \<and> bind_conds (snd (request_conds (postgres_dialect id) (any_log\<lparr>lq_Model := ''m'', lq_ClientIP := ''1.2.3.4''\<rparr>))) 1
       (fst (request_conds (postgres_dialect id) (any_log\<lparr>lq_Model := ''m'', lq_ClientIP := ''1.2.3.4''\<rparr>)))
     = Some (request_filters (postgres_dialect id) (any_log\<lparr>lq_Model := ''m'', lq_ClientIP := ''1.2.3.4''\<rparr>))"
  by (rule statement_text_fixed [where jsonb = id]) (simp_all add: query_shape_def any_log_def)

section \<open>Retention\<close>

text \<open>Every row has a time, as its column is declared NOT NULL.\<close>

definition timed :: "row list \<Rightarrow> bool" where
  "timed rows \<longleftrightarrow> (\<forall>r \<in> set rows. \<exists>t. col r ''created_at'' = SInt t)"

lemma run_delete_timed: "timed rows \<Longrightarrow> run_delete cutoff rows = filter (\<lambda>r. cutoff \<le> created r) rows"
  by (auto simp: timed_def run_delete_def created_def intro!: filter_cong)

text \<open>
  C38. The retention of \<open>main\<close> deletes exactly the records older than the configured number of
  days while that number is at most 106751. One day more and the product of days and nanoseconds
  leaves 64 bits: the cutoff moves into the future and every record written until now is
  deleted, as it is for 999999 days.
\<close>

theorem retention_window:
  assumes "timed (db_requests db)" and "timed (db_audits db)"
  shows "(0 < days \<and> days \<le> 106751 \<longrightarrow>
      db_requests (retention_tick days now None None db) = filter (\<lambda>r. UnixMilli (now - days * day_ns) \<le> created r) (db_requests db)
    \<and> db_audits (retention_tick days now None None db) = filter (\<lambda>r. UnixMilli (now - days * day_ns) \<le> created r) (db_audits db))
   \<and> (days \<in> {106752, 999999} \<and> (\<forall>r \<in> set (db_requests db). created r \<le> UnixMilli now) \<longrightarrow>
      db_requests (retention_tick days now None None db) = [])"
proof (intro conjI impI)
  assume d: "0 < days \<and> days \<le> 106751"
  then have "retention_of days = days * day_ns" by (simp add: retention_of_def w64_id ns_defs)
  moreover have "w64 (- (days * day_ns)) = - (days * day_ns)" using d by (intro w64_id) (simp add: ns_defs)
  ultimately show "db_requests (retention_tick days now None None db) = filter (\<lambda>r. UnixMilli (now - days * day_ns) \<le> created r) (db_requests db)"
    and "db_audits (retention_tick days now None None db) = filter (\<lambda>r. UnixMilli (now - days * day_ns) \<le> created r) (db_audits db)"
    using d assms by (simp_all add: retention_tick_def sql_Purge_def run_delete_timed Let_def)
next
  assume d: "days \<in> {106752, 999999} \<and> (\<forall>r \<in> set (db_requests db). created r \<le> UnixMilli now)"
  then have "1000000 \<le> w64 (- retention_of days)" by (auto simp: retention_of_def w64_def ns_defs)
  then have "now + 1000000 \<le> now + w64 (- retention_of days)" by simp
  then have "UnixMilli (now + 1000000) \<le> UnixMilli (now + w64 (- retention_of days))" unfolding UnixMilli_def by (rule zdiv_mono1) simp
  then have less: "UnixMilli now < UnixMilli (now + w64 (- retention_of days))" by (simp add: UnixMilli_def)
  have "created r < UnixMilli (now + w64 (- retention_of days))" if "r \<in> set (db_requests db)" for r
    using d that less by (meson le_less_trans)
  then show "db_requests (retention_tick days now None None db) = []"
    using d assms by (auto simp: retention_tick_def sql_Purge_def run_delete_timed Let_def filter_empty_conv not_le)
qed

theorem retention_window_witness:
  "db_requests (retention_tick 999999 100 None None \<lparr>db_requests = [[(''created_at'', SInt 0)]], db_audits = []\<rparr>) = []
   \<and> db_requests (retention_tick 1 100 None None \<lparr>db_requests = [[(''created_at'', SInt 0)]], db_audits = []\<rparr>) = [[(''created_at'', SInt 0)]]"
  using retention_window [of "\<lparr>db_requests = [[(''created_at'', SInt 0)]], db_audits = []\<rparr>" 999999 100]
    retention_window [of "\<lparr>db_requests = [[(''created_at'', SInt 0)]], db_audits = []\<rparr>" 1 100]
  by (simp add: timed_def created_def col_def UnixMilli_def ns_defs)

end
