(* ===== verification/Sql_Stats.thy ===== *)
theory Sql_Stats
  imports Sql_Store
begin

text \<open>
  \<open>StatsSince\<close> of the persistent stores: one query for the totals and four grouped ones, each
  scanned into 64-bit integers. A SUM over no rows is NULL. The statistics agree with those of the
  in-memory store as long as no record has a status below 200.
\<close>

section \<open>Aggregates\<close>

definition int_values :: "sql_value list \<Rightarrow> int list" where
  "int_values vs = List.map_filter (\<lambda>v. case v of SInt i \<Rightarrow> Some i | _ \<Rightarrow> None) vs"

definition SQL_SUM :: "sql_value list \<Rightarrow> sql_value" where
  "SQL_SUM vs = (let xs = int_values vs in if xs = [] then SNull else SInt (sum_list xs))"

definition SQL_COUNT :: "row list \<Rightarrow> sql_value" where
  "SQL_COUNT rows = SInt (int (length rows))"

text \<open>\<open>CASE WHEN ... THEN 1 ELSE 0 END\<close> on the status of a row.\<close>

definition case_ok :: "row \<Rightarrow> sql_value" where
  "case_ok r = SInt (boolInt (sql_compare CGe (col r ''status_code'') (SInt 200) \<and> sql_compare CLt (col r ''status_code'') (SInt 400)))"

definition case_error :: "row \<Rightarrow> sql_value" where
  "case_error r = SInt (boolInt (sql_compare CGe (col r ''status_code'') (SInt 400) \<or> sql_compare CEq (col r ''status_code'') (SInt 0)))"

definition sum_guarded :: "dialect \<Rightarrow> sql_value list \<Rightarrow> sql_value" where
  "sum_guarded dl vs = (if dl_sum_guard dl then COALESCE (SQL_SUM vs) (SInt 0) else SQL_SUM vs)"

definition sum_or_zero :: "string \<Rightarrow> row list \<Rightarrow> sql_value" where
  "sum_or_zero c rows = COALESCE (SQL_SUM (map (\<lambda>r. col r c) rows)) (SInt 0)"

definition totals_row :: "dialect \<Rightarrow> row list \<Rightarrow> sql_value list" where
  "totals_row dl w =
     [SQL_COUNT w, sum_guarded dl (map case_ok w), sum_guarded dl (map case_error w),
      sum_or_zero ''prompt_tokens'' w, sum_or_zero ''completion_tokens'' w, sum_or_zero ''total_tokens'' w]"

text \<open>\<open>GROUP BY\<close>: one row per value of the column, NULL being a value of its own.\<close>

definition group_row :: "dialect \<Rightarrow> string \<Rightarrow> bool \<Rightarrow> row list \<Rightarrow> sql_value \<Rightarrow> sql_value list" where
  "group_row dl c guarded w k =
     (let g = filter (\<lambda>r. col r c = k) w
      in [if guarded then COALESCE k (SText []) else k, SQL_COUNT g, sum_guarded dl (map case_error g), sum_or_zero ''total_tokens'' g])"

definition group_rows :: "dialect \<Rightarrow> string \<Rightarrow> bool \<Rightarrow> row list \<Rightarrow> sql_value list list" where
  "group_rows dl c guarded w = map (group_row dl c guarded w) (remdups (map (\<lambda>r. col r c) w))"

definition scan_group :: "sql_value list \<Rightarrow> (string \<times> ModelStat) option" where
  "scan_group v = do {
     key \<leftarrow> scan_text (v ! 0); reqs \<leftarrow> scan_int (v ! 1); errs \<leftarrow> scan_int (v ! 2); tokens \<leftarrow> scan_int (v ! 3);
     Some (key, \<lparr>ms_Requests = reqs, ms_Errors = errs, ms_Tokens = tokens\<rparr>) }"

definition aggregate :: "dialect \<Rightarrow> string option \<Rightarrow> string \<Rightarrow> bool \<Rightarrow> row list \<Rightarrow> string + ModelStat gomap" where
  "aggregate dl conn c guarded w =
     (case conn of
        Some err \<Rightarrow> Inl err
      | None \<Rightarrow>
          (case scan_all scan_group (group_rows dl c guarded w) of
             Inl err \<Rightarrow> Inl err
           | Inr gs \<Rightarrow> Inr (fold (\<lambda>(k, s) m. AList.update k s m) gs [])))"

definition scan_totals :: "sql_value list \<Rightarrow> Stats option" where
  "scan_totals v = do {
     n \<leftarrow> scan_int (v ! 0); ok \<leftarrow> scan_int (v ! 1); errs \<leftarrow> scan_int (v ! 2);
     pt \<leftarrow> scan_int (v ! 3); ct \<leftarrow> scan_int (v ! 4); tt \<leftarrow> scan_int (v ! 5);
     Some \<lparr>ss_TotalRequests = n, ss_SuccessTotal = ok, ss_ErrorTotal = errs, ss_PromptTokens = pt, ss_CompletionTokens = ct,
           ss_TotalTokens = tt, ss_ByModel = [], ss_ByBackend = [], ss_ByAPIKey = [], ss_ByClientIP = []\<rparr> }"

definition window :: "time \<Rightarrow> row list \<Rightarrow> row list" where
  "window since rows = filter (\<lambda>r. sql_compare CGe (col r ''created_at'') (SInt (UnixMilli since))) rows"

definition has_text :: "string \<Rightarrow> row \<Rightarrow> bool" where
  "has_text c r \<longleftrightarrow> col r c \<noteq> SNull \<and> col r c \<noteq> SText []"

text \<open>The five queries in turn; \<open>conn i\<close> is the error of the driver on the \<open>i\<close>-th one.\<close>

definition sql_StatsSince :: "dialect \<Rightarrow> (nat \<Rightarrow> string option) \<Rightarrow> time \<Rightarrow> Database \<Rightarrow> string + Stats" where
  "sql_StatsSince dl conn since db =
     (let w = window since (db_requests db) in
      case conn 0 of Some err \<Rightarrow> Inl err | None \<Rightarrow>
      case scan_totals (totals_row dl w) of None \<Rightarrow> Inl ''sql: Scan error'' | Some stats \<Rightarrow>
      case aggregate dl (conn 1) ''model'' False w of Inl err \<Rightarrow> Inl err | Inr byModel \<Rightarrow>
      case aggregate dl (conn 2) ''backend_id'' True w of Inl err \<Rightarrow> Inl err | Inr byBackend \<Rightarrow>
      case aggregate dl (conn 3) ''api_key_id'' True w of Inl err \<Rightarrow> Inl err | Inr byAPIKey \<Rightarrow>
      case aggregate dl (conn 4) ''client_ip'' True (filter (has_text ''client_ip'') w) of Inl err \<Rightarrow> Inl err | Inr byClientIP \<Rightarrow>
        Inr (stats\<lparr>ss_ByModel := byModel, ss_ByBackend := byBackend, ss_ByAPIKey := byAPIKey, ss_ByClientIP := byClientIP\<rparr>))"

section \<open>The statistics of records\<close>

definition log_error :: "RequestLog \<Rightarrow> bool" where
  "log_error r \<longleftrightarrow> 400 \<le> lr_StatusCode r \<or> lr_StatusCode r = 0"

definition stat_of :: "RequestLog list \<Rightarrow> ModelStat" where
  "stat_of g = \<lparr>ms_Requests = int (length g), ms_Errors = int (length (filter log_error g)), ms_Tokens = (\<Sum>r\<leftarrow>g. lr_TotalTokens r)\<rparr>"

definition group_of :: "(RequestLog \<Rightarrow> string) \<Rightarrow> RequestLog list \<Rightarrow> string \<Rightarrow> ModelStat option" where
  "group_of key w k = (if k \<in> key ` set w then Some (stat_of (filter (\<lambda>r. key r = k) w)) else None)"

lemma int_values_ints [simp]: "int_values (map (\<lambda>x. SInt (f x)) xs) = map f xs"
  by (induction xs) (simp_all add: int_values_def List.map_filter_simps)

lemma SUM_ints: "SQL_SUM (map (\<lambda>x. SInt (f x)) xs) = (if xs = [] then SNull else SInt (\<Sum>x\<leftarrow>xs. f x))"
  by (simp add: SQL_SUM_def Let_def)

lemma sum_boolInt: "(\<Sum>x\<leftarrow>xs. boolInt (P x)) = int (length (filter P xs))"
  by (induction xs) (simp_all add: boolInt_def)

lemma case_row [simp]:
  "case_ok (request_row dl js r) = SInt (boolInt (200 \<le> lr_StatusCode r \<and> lr_StatusCode r < 400))"
  "case_error (request_row dl js r) = SInt (boolInt (log_error r))"
  by (simp_all add: case_ok_def case_error_def request_cols log_error_def)

lemma sum_case_error:
  "g \<noteq> [] \<or> dl_sum_guard dl \<Longrightarrow> sum_guarded dl (map case_error (map (request_row dl js) g)) = SInt (int (length (filter log_error g)))"
  by (simp add: sum_guarded_def comp_def SUM_ints sum_boolInt COALESCE_def)

lemma sum_case_ok:
  "g \<noteq> [] \<or> dl_sum_guard dl \<Longrightarrow> sum_guarded dl (map case_ok (map (request_row dl js) g))
     = SInt (int (length (filter (\<lambda>r. 200 \<le> lr_StatusCode r \<and> lr_StatusCode r < 400) g)))"
  by (simp add: sum_guarded_def comp_def SUM_ints sum_boolInt COALESCE_def)

lemma sum_tokens:
  "sum_or_zero ''total_tokens'' (map (request_row dl js) g) = SInt (\<Sum>r\<leftarrow>g. lr_TotalTokens r)"
  "sum_or_zero ''prompt_tokens'' (map (request_row dl js) g) = SInt (\<Sum>r\<leftarrow>g. lr_PromptTokens r)"
  "sum_or_zero ''completion_tokens'' (map (request_row dl js) g) = SInt (\<Sum>r\<leftarrow>g. lr_CompletionTokens r)"
  by (simp_all add: sum_or_zero_def comp_def request_cols SUM_ints COALESCE_def)

text \<open>What keeps the sums within 64 bits: counts that are not negative, with a total that fits.\<close>

definition summable_logs :: "RequestLog list \<Rightarrow> bool" where
  "summable_logs w \<longleftrightarrow> int (length w) \<le> max_int64
     \<and> (\<forall>f \<in> {lr_PromptTokens, lr_CompletionTokens, lr_TotalTokens}. (\<forall>r \<in> set w. 0 \<le> f r) \<and> (\<Sum>r\<leftarrow>w. f r) \<le> max_int64)"

lemma sum_filter_le: "(\<forall>r \<in> set w. 0 \<le> f r) \<Longrightarrow> 0 \<le> (\<Sum>r\<leftarrow>filter P w. f r) \<and> (\<Sum>r\<leftarrow>filter P w. f r) \<le> (\<Sum>r\<leftarrow>w. f r :: int)"
  by (induction w) auto

lemma summable_filter: "summable_logs w \<Longrightarrow> summable_logs (filter P w)"
  unfolding summable_logs_def using sum_filter_le [of w lr_PromptTokens P] sum_filter_le [of w lr_CompletionTokens P]
    sum_filter_le [of w lr_TotalTokens P] by (auto intro: le_trans [OF length_filter_le])

lemma summable_range:
  assumes "summable_logs w"
  shows "in_int64 (int (length (filter P w)))" "in_int64 (\<Sum>r\<leftarrow>w. lr_TotalTokens r)" "in_int64 (\<Sum>r\<leftarrow>w. lr_PromptTokens r)"
    "in_int64 (\<Sum>r\<leftarrow>w. lr_CompletionTokens r)" "in_int64 (int (length w))"
  using assms sum_filter_le [of w lr_PromptTokens "\<lambda>_. True"] sum_filter_le [of w lr_CompletionTokens "\<lambda>_. True"]
    sum_filter_le [of w lr_TotalTokens "\<lambda>_. True"]
  by (auto simp: summable_logs_def intro: le_trans [OF length_filter_le])

lemma map_of_updates: "map_of (fold (\<lambda>(k, s) m. AList.update k s m) (map (\<lambda>k. (k, f k)) ks) m) k = (if k \<in> set ks then Some (f k) else map_of m k)"
  by (induction ks arbitrary: m) (auto simp: update_conv')

lemma remdups_inj: "inj f \<Longrightarrow> remdups (map f xs) = map f (remdups xs)"
  by (induction xs) (auto simp: inj_image_mem_iff)

text \<open>A grouped query counts the records of each key.\<close>

lemma aggregate_groups:
  assumes enc: "inj enc" "\<And>r. col (request_row dl js r) c = enc (key r)"
    and key: "\<And>k. scan_text (if guarded then COALESCE (enc k) (SText []) else enc k) = Some k"
    and sm: "summable_logs w"
  shows "\<exists>m. aggregate dl None c guarded (map (request_row dl js) w) = Inr m \<and> map_of m = group_of key w"
proof -
  let ?w = "map (request_row dl js) w" and ?f = "\<lambda>k. stat_of (filter (\<lambda>r. key r = k) w)"
  have "scan_group (group_row dl c guarded ?w (enc k)) = Some (k, ?f k)" if "k \<in> set (remdups (map key w))" for k
  proof -
    let ?g = "filter (\<lambda>r. key r = k) w"
    have g: "filter (\<lambda>r. col r c = enc k) ?w = map (request_row dl js) ?g"
      by (simp add: filter_map comp_def enc(2) inj_eq [OF enc(1)])
    have "?g \<noteq> []" using that by (auto simp: filter_empty_conv)
    then show ?thesis
      using summable_range [OF summable_filter [OF sm, of "\<lambda>r. key r = k"]] key [of k]
      by (simp add: scan_group_def group_row_def g Let_def sum_case_error sum_tokens SQL_COUNT_def stat_of_def del: map_map filter_filter)
  qed
  then have "scan_all scan_group (map (group_row dl c guarded ?w \<circ> enc) (remdups (map key w))) = Inr (map (\<lambda>k. (k, ?f k)) (remdups (map key w)))"
    by (intro scan_all_map) simp
  moreover have "group_rows dl c guarded ?w = map (group_row dl c guarded ?w \<circ> enc) (remdups (map key w))"
    using remdups_inj [OF enc(1), of "map key w"] by (simp add: group_rows_def comp_def enc(2) del: remdups_map_remdups)
  ultimately show ?thesis
    by (intro exI [of _ "fold (\<lambda>(k, s) m. AList.update k s m) (map (\<lambda>k. (k, ?f k)) (remdups (map key w))) []"])
       (auto simp: aggregate_def map_of_updates group_of_def fun_eq_iff)
qed

lemma inj_nullable: "inj nullable"
  by (auto simp: inj_def nullable_def split: if_splits)

lemma inj_SText: "inj SText"
  by (simp add: inj_def)

lemma aggregate_nullable:
  "(\<And>r. col (request_row dl js r) c = nullable (key r)) \<Longrightarrow> summable_logs w \<Longrightarrow>
   \<exists>m. aggregate dl None c True (map (request_row dl js) w) = Inr m \<and> map_of m = group_of key w"
  by (rule aggregate_groups [OF inj_nullable]) simp_all

lemma aggregate_text:
  "(\<And>r. col (request_row dl js r) c = SText (key r)) \<Longrightarrow> summable_logs w \<Longrightarrow>
   \<exists>m. aggregate dl None c False (map (request_row dl js) w) = Inr m \<and> map_of m = group_of key w"
  by (rule aggregate_groups [OF inj_SText]) simp_all

text \<open>The totals of records.\<close>

definition totals_of :: "RequestLog list \<Rightarrow> Stats \<Rightarrow> bool" where
  "totals_of w s \<longleftrightarrow> ss_TotalRequests s = int (length w)
     \<and> ss_SuccessTotal s = int (length (filter (\<lambda>r. 200 \<le> lr_StatusCode r \<and> lr_StatusCode r < 400) w))
     \<and> ss_ErrorTotal s = int (length (filter log_error w)) \<and> ss_PromptTokens s = (\<Sum>r\<leftarrow>w. lr_PromptTokens r)
     \<and> ss_CompletionTokens s = (\<Sum>r\<leftarrow>w. lr_CompletionTokens r) \<and> ss_TotalTokens s = (\<Sum>r\<leftarrow>w. lr_TotalTokens r)
     \<and> map_of (ss_ByModel s) = group_of lr_Model w \<and> map_of (ss_ByBackend s) = group_of lr_BackendID w
     \<and> map_of (ss_ByAPIKey s) = group_of lr_APIKeyID w
     \<and> map_of (ss_ByClientIP s) = group_of lr_ClientIP (filter (\<lambda>r. lr_ClientIP r \<noteq> []) w)"

definition in_window :: "time \<Rightarrow> RequestLog list \<Rightarrow> RequestLog list" where
  "in_window since rs = filter (\<lambda>r. UnixMilli since \<le> UnixMilli (lr_CreatedAt r)) rs"

lemma window_rows: "window since (map (request_row dl js) rs) = map (request_row dl js) (in_window since rs)"
  by (simp add: window_def in_window_def filter_map comp_def request_cols)

lemma scan_totals_rows:
  assumes "w \<noteq> [] \<or> dl_sum_guard dl" and "summable_logs w"
  shows "scan_totals (totals_row dl (map (request_row dl js) w)) = Some
    \<lparr>ss_TotalRequests = int (length w), ss_SuccessTotal = int (length (filter (\<lambda>r. 200 \<le> lr_StatusCode r \<and> lr_StatusCode r < 400) w)),
     ss_ErrorTotal = int (length (filter log_error w)), ss_PromptTokens = (\<Sum>r\<leftarrow>w. lr_PromptTokens r),
     ss_CompletionTokens = (\<Sum>r\<leftarrow>w. lr_CompletionTokens r), ss_TotalTokens = (\<Sum>r\<leftarrow>w. lr_TotalTokens r),
     ss_ByModel = [], ss_ByBackend = [], ss_ByAPIKey = [], ss_ByClientIP = []\<rparr>"
  using summable_range [OF assms(2)]
  by (simp add: scan_totals_def totals_row_def SQL_COUNT_def sum_case_ok [OF assms(1)] sum_case_error [OF assms(1)] sum_tokens del: map_map)

lemma sql_stats_totals:
  assumes "db_requests db = map (request_row dl js) rs"
    and "in_window since rs \<noteq> [] \<or> dl_sum_guard dl" and sm: "summable_logs (in_window since rs)"
  shows "\<exists>s. sql_StatsSince dl (\<lambda>_. None) since db = Inr s \<and> totals_of (in_window since rs) s"
proof -
  let ?w = "in_window since rs" and ?row = "request_row dl js"
  have ip: "filter (has_text ''client_ip'') (map ?row ?w) = map ?row (filter (\<lambda>r. lr_ClientIP r \<noteq> []) ?w)"
    by (simp add: filter_map comp_def has_text_def request_cols nullable_def)
  obtain m1 where m1: "aggregate dl None ''model'' False (map ?row ?w) = Inr m1" "map_of m1 = group_of lr_Model ?w"
    using aggregate_text [where key = lr_Model and c = "''model''", OF _ sm] request_cols by metis
  obtain m2 where m2: "aggregate dl None ''backend_id'' True (map ?row ?w) = Inr m2" "map_of m2 = group_of lr_BackendID ?w"
    using aggregate_nullable [where key = lr_BackendID and c = "''backend_id''", OF _ sm] request_cols by metis
  obtain m3 where m3: "aggregate dl None ''api_key_id'' True (map ?row ?w) = Inr m3" "map_of m3 = group_of lr_APIKeyID ?w"
    using aggregate_nullable [where key = lr_APIKeyID and c = "''api_key_id''", OF _ sm] request_cols by metis
  obtain m4 where m4: "aggregate dl None ''client_ip'' True (map ?row (filter (\<lambda>r. lr_ClientIP r \<noteq> []) ?w)) = Inr m4"
    "map_of m4 = group_of lr_ClientIP (filter (\<lambda>r. lr_ClientIP r \<noteq> []) ?w)"
    using aggregate_nullable [where key = lr_ClientIP and c = "''client_ip''", OF _ summable_filter [OF sm]] request_cols by metis
  show ?thesis
    unfolding sql_StatsSince_def assms(1) window_rows Let_def ip scan_totals_rows [OF assms(2) sm]
    by (simp add: m1 m2 m3 m4 totals_of_def)
qed

section \<open>The in-memory statistics\<close>

lemma summable_prefix: "summable_logs (w @ [r]) \<Longrightarrow> summable_logs w"
  by (auto simp: summable_logs_def)

lemma totals_empty: "totals_of [] \<lparr>ss_TotalRequests = 0, ss_SuccessTotal = 0, ss_ErrorTotal = 0, ss_PromptTokens = 0,
    ss_CompletionTokens = 0, ss_TotalTokens = 0, ss_ByModel = [], ss_ByBackend = [], ss_ByAPIKey = [], ss_ByClientIP = []\<rparr>"
  by (simp add: totals_of_def group_of_def fun_eq_iff)

lemma bump_group:
  assumes m: "map_of m = group_of key w" and sm: "summable_logs (w @ [r])" and st: "200 \<le> lr_StatusCode r"
  shows "map_of (bump_stat (key r) r m) = group_of key (w @ [r])"
proof
  fix k
  let ?g = "filter (\<lambda>x. key x = key r) w"
  have sg: "summable_logs (?g @ [r])" using summable_filter [OF sm, of "\<lambda>x. key x = key r"] by simp
  have err: "log_error r \<longleftrightarrow> 400 \<le> lr_StatusCode r" using st by (auto simp: log_error_def)
  have old: "(case map_of m (key r) of None \<Rightarrow> zero_stat | Some s \<Rightarrow> s) = stat_of ?g"
  proof (cases "?g = []")
    case True
    then have "key r \<notin> key ` set w" by (auto simp: filter_empty_conv)
    then show ?thesis unfolding m group_of_def True by (simp add: stat_of_def zero_stat_def)
  next
    case False
    then have "key r \<in> key ` set w" by (auto simp: filter_empty_conv image_iff) metis
    then show ?thesis unfolding m group_of_def by simp
  qed
  have rng: "in_int64 (int (length ?g) + 1)" "in_int64 (int (length (filter log_error ?g)) + 1)"
    "in_int64 ((\<Sum>x\<leftarrow>?g. lr_TotalTokens x) + lr_TotalTokens r)"
    using summable_range [OF sg] summable_range(1) [OF sg, of "\<lambda>x. log_error x \<or> x = r"]
      le_trans [OF length_filter_le [of log_error ?g]] by auto
  have "map_of (bump_stat (key r) r m) (key r) = Some (stat_of (?g @ [r]))"
    unfolding bump_stat_def old Let_def using rng
    by (simp add: update_conv' stat_of_def err add64_id)
  then show "map_of (bump_stat (key r) r m) k = group_of key (w @ [r]) k"
    using m by (cases "k = key r") (simp_all add: bump_stat_def Let_def update_conv' group_of_def)
qed

lemma stats_add_totals:
  assumes t: "totals_of w s" and sm: "summable_logs (w @ [r])" and st: "200 \<le> lr_StatusCode r"
  shows "totals_of (w @ [r]) (stats_add r s)"
proof -
  have err: "log_error r \<longleftrightarrow> \<not> (200 \<le> lr_StatusCode r \<and> lr_StatusCode r < 400)" using st by (auto simp: log_error_def)
  have rng: "in_int64 (int (length w) + 1)" "in_int64 ((\<Sum>x\<leftarrow>w. lr_TotalTokens x) + lr_TotalTokens r)"
    "in_int64 ((\<Sum>x\<leftarrow>w. lr_PromptTokens x) + lr_PromptTokens r)" "in_int64 ((\<Sum>x\<leftarrow>w. lr_CompletionTokens x) + lr_CompletionTokens r)"
    using summable_range [OF sm] by auto
  have cnt: "in_int64 (int (length (filter P w)) + 1)" for P
    using rng(1) length_filter_le [of P w] by linarith
  have ip: "summable_logs (filter (\<lambda>r. lr_ClientIP r \<noteq> []) w @ [r])" if "lr_ClientIP r \<noteq> []"
    using summable_filter [OF sm, of "\<lambda>r. lr_ClientIP r \<noteq> []"] that by simp
  show ?thesis
    using t rng cnt bump_group [OF _ sm st] bump_group [OF _ ip st, of "ss_ByClientIP s" lr_ClientIP]
    by (simp add: totals_of_def stats_add_def Let_def err add64_id)
qed

lemma stats_fold_totals:
  assumes "summable_logs w" and "\<forall>r \<in> set w. 200 \<le> lr_StatusCode r"
  shows "totals_of w (fold stats_add w \<lparr>ss_TotalRequests = 0, ss_SuccessTotal = 0, ss_ErrorTotal = 0, ss_PromptTokens = 0,
    ss_CompletionTokens = 0, ss_TotalTokens = 0, ss_ByModel = [], ss_ByBackend = [], ss_ByAPIKey = [], ss_ByClientIP = []\<rparr>)"
  using assms
proof (induction w rule: rev_induct)
  case (snoc r w)
  then show ?case using stats_add_totals summable_prefix by auto
qed (simp add: totals_empty)

lemma StatsSince_fold:
  "StatsSince since m = fold stats_add (filter (\<lambda>r. since \<le> lr_CreatedAt r) (mem_requests m)) \<lparr>ss_TotalRequests = 0, ss_SuccessTotal = 0,
     ss_ErrorTotal = 0, ss_PromptTokens = 0, ss_CompletionTokens = 0, ss_TotalTokens = 0, ss_ByModel = [], ss_ByBackend = [],
     ss_ByAPIKey = [], ss_ByClientIP = []\<rparr>"
proof -
  have "fold (\<lambda>r s. if lr_CreatedAt r < since then s else stats_add r s) xs s = fold stats_add (filter (\<lambda>r. since \<le> lr_CreatedAt r) xs) s" for xs s
    by (induction xs arbitrary: s) (simp_all add: not_le)
  then show ?thesis by (simp add: StatsSince_def)
qed

lemma totals_ms_log: "totals_of (map ms_log w) s \<longleftrightarrow> totals_of w s"
proof -
  have le: "log_error (ms_log r) = log_error r" for r by (simp add: log_error_def ms_log_def)
  then have st: "stat_of (map ms_log g) = stat_of g" for g
    by (simp add: stat_of_def filter_map comp_def ms_log_def)
  have "group_of key (map ms_log g) = group_of key g" if "\<And>r. key (ms_log r) = key r" for key g
    using that by (simp add: group_of_def fun_eq_iff filter_map comp_def st image_image)
  moreover have "filter (\<lambda>r. lr_ClientIP r \<noteq> []) (map ms_log w) = map ms_log (filter (\<lambda>r. lr_ClientIP r \<noteq> []) w)"
    by (simp add: filter_map comp_def ms_log_def)
  ultimately show ?thesis
    by (simp add: totals_of_def filter_map comp_def le) (simp add: ms_log_def)
qed

lemma sqlite_empty_window:
  "window since (db_requests db) = [] \<Longrightarrow> sql_StatsSince sqlite_dialect (\<lambda>_. None) since db = Inl ''sql: Scan error''"
  by (simp add: sql_StatsSince_def scan_totals_def totals_row_def SQL_COUNT_def sum_guarded_def SQL_SUM_def
      int_values_def List.map_filter_simps Let_def sqlite_dialect_def)

lemma memory_window:
  "mem_requests m = map ms_log rs \<Longrightarrow> filter (\<lambda>r. to_ms since \<le> lr_CreatedAt r) (mem_requests m) = map ms_log (in_window since rs)"
  by (simp add: in_window_def filter_map comp_def ms_log_def to_ms_def from_UnixMilli_def)

lemma memory_totals:
  assumes "summable_logs (in_window since rs)" and "mem_requests m = map ms_log rs" and "\<forall>r \<in> set (in_window since rs). 200 \<le> lr_StatusCode r"
  shows "totals_of (in_window since rs) (StatsSince (to_ms since) m)"
proof (subst totals_ms_log [symmetric], unfold StatsSince_fold memory_window [OF assms(2)], rule stats_fold_totals)
  show "summable_logs (map ms_log (in_window since rs))" using assms(1) by (simp add: summable_logs_def comp_def ms_log_def)
  show "\<forall>r \<in> set (map ms_log (in_window since rs)). 200 \<le> lr_StatusCode r" using assms(3) by (auto simp: ms_log_def)
qed

text \<open>
  C37. When the statistics of the persistent stores are those of the in-memory store. For the same
  records with distinct ids, and with token counts in the window that are not negative and whose
  sums fit 64 bits, and a begin of the window and record times cut to the millisecond: the five
  queries of \<open>StatsSince\<close> give the totals and the figures per model, backend, API key and client
  address of the records in the window, on Postgres always and on SQLite when there are some; and so
  does \<open>Memory.StatsSince\<close>, which counts record by record, when no record in the window has a status
  below 200. In the other cases the stores part: on SQLite an empty window is an error, and a record
  with a status from 1 to 199 is an error in memory and none in the SQL stores.
\<close>

theorem sql_stats_like_memory:
  assumes dl: "dl \<in> {sqlite_dialect, postgres_dialect jsonb}" and ids: "distinct (map lr_ID rs)"
    and sm: "summable_logs (in_window since rs)" and m: "mem_requests m = map ms_log rs"
  shows "(in_window since rs \<noteq> [] \<or> dl \<noteq> sqlite_dialect \<longrightarrow>
      (\<exists>s. sql_StatsSince dl (\<lambda>_. None) since (sql_run dl js rs empty_db) = Inr s \<and> totals_of (in_window since rs) s))
    \<and> ((\<forall>r \<in> set (in_window since rs). 200 \<le> lr_StatusCode r) \<longrightarrow> totals_of (in_window since rs) (StatsSince (to_ms since) m))
    \<and> (in_window since rs = [] \<and> dl = sqlite_dialect \<longrightarrow>
        sql_StatsSince dl (\<lambda>_. None) since (sql_run dl js rs empty_db) = Inl ''sql: Scan error'')
    \<and> (\<forall>r. in_window since rs = [r] \<and> 0 < lr_StatusCode r \<and> lr_StatusCode r < 200 \<longrightarrow>
        ss_ErrorTotal (StatsSince (to_ms since) m) = 1
        \<and> (\<exists>s. sql_StatsSince dl (\<lambda>_. None) since (sql_run dl js rs empty_db) = Inr s \<and> ss_ErrorTotal s = 0))"
proof -
  have rows: "db_requests (sql_run dl js rs empty_db) = map (request_row dl js) rs"
    using sql_run_rows [of empty_db dl js "[]" rs] ids by (simp add: empty_db_def)
  have "dl_sum_guard dl" if "dl \<noteq> sqlite_dialect" using dl that by (auto simp: postgres_dialect_def)
  then have sql: "\<exists>s. sql_StatsSince dl (\<lambda>_. None) since (sql_run dl js rs empty_db) = Inr s \<and> totals_of (in_window since rs) s"
    if "in_window since rs \<noteq> [] \<or> dl \<noteq> sqlite_dialect"
    using that by (intro sql_stats_totals [OF rows _ sm]) blast
  have empty: "sql_StatsSince dl (\<lambda>_. None) since (sql_run dl js rs empty_db) = Inl ''sql: Scan error''"
    if "in_window since rs = []" "dl = sqlite_dialect"
    using that rows sqlite_empty_window by (simp add: window_rows)
  have "ss_ErrorTotal (StatsSince (to_ms since) m) = 1
      \<and> (\<exists>s. sql_StatsSince dl (\<lambda>_. None) since (sql_run dl js rs empty_db) = Inr s \<and> ss_ErrorTotal s = 0)"
    if r: "in_window since rs = [r]" "0 < lr_StatusCode r" "lr_StatusCode r < 200" for r
  proof -
    have "ss_ErrorTotal (StatsSince (to_ms since) m) = 1"
      unfolding StatsSince_fold memory_window [OF m] r(1) using r(3) by (simp add: stats_add_def ms_log_def add64_def w64_def Let_def)
    moreover have "\<not> log_error r" using r by (simp add: log_error_def)
    then have "ss_ErrorTotal s = 0" if "totals_of [r] s" for s using that by (simp add: totals_of_def)
    ultimately show ?thesis using sql r(1) by auto
  qed
  then show ?thesis using sql empty memory_totals [OF sm m] by blast
qed

theorem sql_stats_like_memory_witness:
  "(\<exists>s. sql_StatsSince sqlite_dialect (\<lambda>_. None) 0 (sql_run sqlite_dialect null_json [sample_log 5000000] empty_db) = Inr s
     \<and> totals_of [sample_log 5000000] s)
   \<and> totals_of [sample_log 5000000] (StatsSince (to_ms 0) \<lparr>mem_requests = [ms_log (sample_log 5000000)], mem_audit = [], mem_maxRecs = 10\<rparr>)"
proof -
  have w: "in_window 0 [sample_log 5000000] = [sample_log 5000000]" by (simp add: in_window_def sample_log_def UnixMilli_def)
  have "summable_logs (in_window 0 [sample_log 5000000])" unfolding w by (simp add: summable_logs_def sample_log_def)
  from sql_stats_like_memory [where jsonb = id and dl = sqlite_dialect and rs = "[sample_log 5000000]" and since = 0 and js = null_json
      and m = "\<lparr>mem_requests = [ms_log (sample_log 5000000)], mem_audit = [], mem_maxRecs = 10\<rparr>", OF _ _ this]
  show ?thesis unfolding w by (simp add: sample_log_def)
qed

text \<open>
  On an empty window the stores part: the sums of the SQLite totals query are NULL there, which
  the scan into an integer refuses, so \<open>StatsSince\<close> fails on a fresh database and whenever no
  request fell into the window, while Postgres, whose sums are guarded by COALESCE, answers zeros.
\<close>

theorem empty_window_stats:
  assumes "window since (db_requests db) = []"
  shows "sql_StatsSince sqlite_dialect (\<lambda>_. None) since db = Inl ''sql: Scan error''
       \<and> (\<exists>s. sql_StatsSince (postgres_dialect jsonb) (\<lambda>_. None) since db = Inr s \<and> totals_of [] s)"
proof -
  have "sql_StatsSince sqlite_dialect (\<lambda>_. None) since db = Inl ''sql: Scan error''" by (rule sqlite_empty_window [OF assms])
  moreover have "sql_StatsSince (postgres_dialect jsonb) (\<lambda>_. None) since db =
      sql_StatsSince (postgres_dialect jsonb) (\<lambda>_. None) since \<lparr>db_requests = map (request_row (postgres_dialect jsonb) null_json) [], db_audits = []\<rparr>"
    using assms by (simp add: sql_StatsSince_def window_def)
  ultimately show ?thesis
    using sql_stats_totals [of "\<lparr>db_requests = map (request_row (postgres_dialect jsonb) null_json) [], db_audits = []\<rparr>"
        "postgres_dialect jsonb" null_json "[]" since]
    by (simp add: postgres_dialect_def summable_logs_def in_window_def)
qed

theorem empty_window_stats_witness:
  "sql_StatsSince sqlite_dialect (\<lambda>_. None) 0 empty_db = Inl ''sql: Scan error''
   \<and> (\<exists>s. sql_StatsSince (postgres_dialect id) (\<lambda>_. None) 0 empty_db = Inr s \<and> totals_of [] s)"
  by (rule empty_window_stats) (simp add: window_def empty_db_def)

end
