(* ===== verification/Sql_Audit.thy ===== *)
theory Sql_Audit
  imports Sql_Store
begin

text \<open>
  The audit log in the persistent stores: an event goes through its columns unchanged but for the
  milliseconds of its time, and a query answers with the page asked for of the matching events.
\<close>

definition ms_event :: "AuditEvent \<Rightarrow> AuditEvent" where
  "ms_event e = e\<lparr>ae_CreatedAt := to_ms (ae_CreatedAt e)\<rparr>"

definition ms_audit_query :: "AuditQuery \<Rightarrow> AuditQuery" where
  "ms_audit_query q = q\<lparr>aq_Since := map_option to_ms (aq_Since q), aq_Until := map_option to_ms (aq_Until q)\<rparr>"

text \<open>The values of the event survive the JSON codec and the JSON column.\<close>

definition storable_value :: "dialect \<Rightarrow> sql_json \<Rightarrow> json gomap option \<Rightarrow> bool" where
  "storable_value dl js v = (case v of
       None \<Rightarrow> True
     | Some m \<Rightarrow> sj_object js m \<noteq> [] \<and> dl_json dl (sj_object js m) \<noteq> [] \<and> sj_unobject js (dl_json dl (sj_object js m)) = Some m)"

definition storable_event :: "dialect \<Rightarrow> sql_json \<Rightarrow> AuditEvent \<Rightarrow> bool" where
  "storable_event dl js e \<longleftrightarrow> in_int64 (UnixMilli (ae_CreatedAt e)) \<and> storable_value dl js (ae_OldValue e) \<and> storable_value dl js (ae_NewValue e)"

lemma audit_row_eq:
  "audit_row dl js e =
     [(''id'', SText (ae_ID e)), (''admin_user'', SText (ae_AdminUser e)), (''action'', SText (ae_Action e)), (''target_type'', SText (ae_TargetType e)),
      (''target_id'', nullable (ae_TargetID e)),
      (''old_value'', store_value dl ''old_value'' (nullable (case ae_OldValue e of Some v \<Rightarrow> sj_object js v | None \<Rightarrow> []))),
      (''new_value'', store_value dl ''new_value'' (nullable (case ae_NewValue e of Some v \<Rightarrow> sj_object js v | None \<Rightarrow> []))),
      (''ip'', nullable (ae_IP e)), (''user_agent'', nullable (ae_UserAgent e)), (''created_at'', SInt (UnixMilli (ae_CreatedAt e)))]"
  unfolding audit_row_def stored_row_def audit_columns_def audit_args_def Let_def
  by (simp add: store_value_def [of _ "''id''"] store_value_def [of _ "''admin_user''"] store_value_def [of _ "''action''"]
      store_value_def [of _ "''target_type''"] store_value_def [of _ "''target_id''"] store_value_def [of _ "''ip''"]
      store_value_def [of _ "''user_agent''"] store_value_def [of _ "''created_at''"])

lemma audit_cols:
  "col (audit_row dl js e) ''id'' = SText (ae_ID e)" "col (audit_row dl js e) ''admin_user'' = SText (ae_AdminUser e)"
  "col (audit_row dl js e) ''action'' = SText (ae_Action e)" "col (audit_row dl js e) ''target_type'' = SText (ae_TargetType e)"
  "col (audit_row dl js e) ''target_id'' = nullable (ae_TargetID e)" "col (audit_row dl js e) ''created_at'' = SInt (UnixMilli (ae_CreatedAt e))"
  by (simp_all add: audit_row_eq col_def)

lemma scan_value:
  assumes "storable_value dl js v" and "c = ''old_value'' \<or> c = ''new_value''"
  shows "\<exists>t. scan_text (COALESCE (store_value dl c (nullable (case v of Some m \<Rightarrow> sj_object js m | None \<Rightarrow> []))) (SText [])) = Some t
           \<and> (if t \<noteq> [] then sj_unobject js t else None) = v"
  using assms by (auto simp: storable_value_def store_value_def nullable_def COALESCE_def split: option.splits)

lemma audit_scan_back:
  assumes "storable_event dl js e"
  shows "scan_audit js (project audit_select (audit_row dl js e)) = Some (ms_event e)"
proof -
  obtain t t' where t: "scan_text (COALESCE (store_value dl ''old_value'' (nullable (case ae_OldValue e of Some m \<Rightarrow> sj_object js m | None \<Rightarrow> []))) (SText [])) = Some t"
      "(if t \<noteq> [] then sj_unobject js t else None) = ae_OldValue e"
      "scan_text (COALESCE (store_value dl ''new_value'' (nullable (case ae_NewValue e of Some m \<Rightarrow> sj_object js m | None \<Rightarrow> []))) (SText [])) = Some t'"
      "(if t' \<noteq> [] then sj_unobject js t' else None) = ae_NewValue e"
    using assms scan_value [of dl js "ae_OldValue e" "''old_value''"] scan_value [of dl js "ae_NewValue e" "''new_value''"]
    unfolding storable_event_def by blast
  have "in_int64 (UnixMilli (ae_CreatedAt e))" using assms by (simp add: storable_event_def)
  then show ?thesis
    unfolding scan_audit_def project_def audit_select_def audit_row_eq
    by (simp add: col_def t ms_event_def to_ms_def)
qed

definition audit_filters :: "AuditQuery \<Rightarrow> (string \<times> sql_cmp \<times> sql_value) list" where
  "audit_filters q =
     (((((([] @ (if aq_AdminUser q \<noteq> [] then [(''admin_user'', CEq, SText (aq_AdminUser q))] else []))
     @ (if aq_Action q \<noteq> [] then [(''action'', CEq, SText (aq_Action q))] else []))
     @ (if aq_TargetType q \<noteq> [] then [(''target_type'', CEq, SText (aq_TargetType q))] else []))
     @ (if aq_TargetID q \<noteq> [] then [(''target_id'', CEq, SText (aq_TargetID q))] else []))
     @ (case aq_Since q of Some t \<Rightarrow> [(''created_at'', CGe, SInt (UnixMilli t))] | None \<Rightarrow> []))
     @ (case aq_Until q of Some t \<Rightarrow> [(''created_at'', CLe, SInt (UnixMilli t))] | None \<Rightarrow> []))"

lemma audit_builds: "builds dl (audit_filters q) (audit_conds dl q)"
  unfolding audit_filters_def audit_conds_def Let_def
  by (intro builds_time builds_text builds_Nil)

lemma audit_filters_match: "satisfies (audit_filters q) (audit_row dl js e) \<longleftrightarrow> matchAudit (ms_event e) (ms_audit_query q)"
proof -
  have "satisfies (audit_filters q) (audit_row dl js e) \<longleftrightarrow>
      (aq_AdminUser q \<noteq> [] \<longrightarrow> ae_AdminUser e = aq_AdminUser q) \<and> (aq_Action q \<noteq> [] \<longrightarrow> ae_Action e = aq_Action q)
    \<and> (aq_TargetType q \<noteq> [] \<longrightarrow> ae_TargetType e = aq_TargetType q) \<and> (aq_TargetID q \<noteq> [] \<longrightarrow> ae_TargetID e = aq_TargetID q)
    \<and> (\<forall>t. aq_Since q = Some t \<longrightarrow> UnixMilli t \<le> UnixMilli (ae_CreatedAt e))
    \<and> (\<forall>t. aq_Until q = Some t \<longrightarrow> UnixMilli (ae_CreatedAt e) \<le> UnixMilli t)"
    unfolding audit_filters_def satisfies_append satisfies_if satisfies_option audit_cols
    by (auto simp: compare_nullable satisfies_simps)
  also have "\<dots> \<longleftrightarrow> matchAudit (ms_event e) (ms_audit_query q)"
    by (auto simp: matchAudit_def ms_event_def ms_audit_query_def to_ms_def from_UnixMilli_def split: option.splits)
  finally show ?thesis .
qed

lemma sql_audit_page:
  assumes dl: "sound_dialect dl" and st: "\<forall>e \<in> set es. storable_event dl js e" and ord: "newest_first ord"
    and off: "0 \<le> aq_Offset q" and db: "db_audits db = map (audit_row dl js) es"
  shows "\<exists>xs. sql_QueryAudit dl js ord None q db
              = Inr (take (nat (page_limit (aq_Limit q))) (drop (nat (aq_Offset q)) xs))
            \<and> mset xs = mset (filter (\<lambda>e. matchAudit e (ms_audit_query q)) (map ms_event es))"
proof -
  obtain conds args where ca: "audit_conds dl q = (conds, args)" by (rule prod.exhaust)
  have places: "sound_places dl" using dl by (simp add: sound_dialect_def)
  have b: "builds dl (audit_filters q) (conds, args)" using audit_builds [of dl q] by (simp add: ca)
  have scan: "\<forall>e \<in> set es. scan_audit js (project audit_select (audit_row dl js e)) = Some (ms_event e)"
    using st audit_scan_back by blast
  obtain zs where zs: "sql_QueryAudit dl js ord None q db
        = Inr (take (nat (page_limit (aq_Limit q))) (drop (nat (aq_Offset q)) (map ms_event zs)))"
      "mset zs = mset (filter (\<lambda>e. matchAudit (ms_event e) (ms_audit_query q)) es)"
    using select_page [OF places b ord off scan audit_filters_match, where l = "page_limit (aq_Limit q)"]
    by (auto simp: sql_QueryAudit_def ca db Let_def)
  moreover have "mset (map ms_event zs) = mset (filter (\<lambda>e. matchAudit e (ms_audit_query q)) (map ms_event es))"
    using zs(2) by (simp add: filter_map comp_def)
  ultimately show ?thesis by blast
qed

end
