(* ===== verification/Sql_Schema.thy ===== *)
theory Sql_Schema
  imports Sql_Stats Sql_Audit
begin

text \<open>
  The schema of the persistent stores: the statements of \<open>migrate\<close> as values, what they do to a
  schema, opening a store, and the types of the columns. Rows that the stores write fit the columns
  they are written to, and rows that fit can be read back.
\<close>

section \<open>Data definition\<close>

datatype coltype = TEXT | INTEGER | BIGINT | BOOLEAN | JSONB

record column =
  cl_name :: string
  cl_type :: coltype
  cl_not_null :: bool

definition column_of :: "string \<Rightarrow> coltype \<Rightarrow> bool \<Rightarrow> column" where
  "column_of n t nn = \<lparr>cl_name = n, cl_type = t, cl_not_null = nn\<rparr>"

record Schema =
  sc_tables :: "(string \<times> column list) list"
  sc_indexes :: "string list"

datatype ddl =
    CreateTable string "column list"
  | AddColumn string column
  | CreateIndex string string "string list"

text \<open>\<open>CREATE ... IF NOT EXISTS\<close> and \<open>ALTER TABLE ... ADD COLUMN\<close>.\<close>

fun exec_ddl :: "ddl \<Rightarrow> Schema \<Rightarrow> string + Schema" where
  "exec_ddl (CreateTable t cols) s =
     (case map_of (sc_tables s) t of
        Some _ \<Rightarrow> Inr s
      | None \<Rightarrow> Inr (s\<lparr>sc_tables := AList.update t cols (sc_tables s)\<rparr>))"
| "exec_ddl (AddColumn t c) s =
     (case map_of (sc_tables s) t of
        None \<Rightarrow> Inl (''no such table: '' @ t)
      | Some cols \<Rightarrow>
          if cl_name c \<in> cl_name ` set cols then Inl (''duplicate column name: '' @ cl_name c)
          else Inr (s\<lparr>sc_tables := AList.update t (cols @ [c]) (sc_tables s)\<rparr>))"
| "exec_ddl (CreateIndex i t cs) s =
     (case map_of (sc_tables s) t of
        None \<Rightarrow> Inl (''no such table: '' @ t)
      | Some cols \<Rightarrow>
          if i \<in> set (sc_indexes s) then Inr s
          else if \<not> set cs \<subseteq> cl_name ` set cols then Inl ''no such column''
          else Inr (s\<lparr>sc_indexes := sc_indexes s @ [i]\<rparr>))"

definition request_table :: "coltype \<Rightarrow> coltype \<Rightarrow> coltype \<Rightarrow> column list" where
  "request_table boolT intT jsonT =
     [column_of ''id'' TEXT True, column_of ''request_id'' TEXT True, column_of ''api_key_id'' TEXT False, column_of ''api_key_name'' TEXT False,
      column_of ''client_ip'' TEXT False, column_of ''model'' TEXT True, column_of ''internal_model'' TEXT False, column_of ''backend_id'' TEXT False,
      column_of ''endpoint'' TEXT True, column_of ''stream'' boolT True, column_of ''status_code'' INTEGER False, column_of ''error_code'' TEXT False,
      column_of ''prompt_tokens'' intT True, column_of ''completion_tokens'' intT True, column_of ''total_tokens'' intT True,
      column_of ''reasoning_tokens'' intT True, column_of ''latency_ms'' intT True, column_of ''ttft_ms'' intT True,
      column_of ''raw_request'' TEXT False, column_of ''raw_response'' TEXT False, column_of ''metadata'' jsonT False,
      column_of ''created_at'' intT True]"

definition audit_table :: "coltype \<Rightarrow> coltype \<Rightarrow> column list" where
  "audit_table intT jsonT =
     [column_of ''id'' TEXT True, column_of ''admin_user'' TEXT True, column_of ''action'' TEXT True, column_of ''target_type'' TEXT True,
      column_of ''target_id'' TEXT False, column_of ''old_value'' jsonT False, column_of ''new_value'' jsonT False,
      column_of ''ip'' TEXT False, column_of ''user_agent'' TEXT False, column_of ''created_at'' intT True]"

definition request_indexes :: "ddl list" where
  "request_indexes =
     [CreateIndex ''idx_request_logs_created'' ''request_logs'' [''created_at''],
      CreateIndex ''idx_request_logs_api_key'' ''request_logs'' [''api_key_id'', ''created_at''],
      CreateIndex ''idx_request_logs_client_ip'' ''request_logs'' [''client_ip'', ''created_at''],
      CreateIndex ''idx_request_logs_model'' ''request_logs'' [''model'', ''created_at''],
      CreateIndex ''idx_request_logs_backend'' ''request_logs'' [''backend_id'', ''created_at''],
      CreateIndex ''idx_request_logs_request'' ''request_logs'' [''request_id'']]"

definition audit_indexes :: "ddl list" where
  "audit_indexes =
     [CreateIndex ''idx_audit_logs_created'' ''audit_logs'' [''created_at''],
      CreateIndex ''idx_audit_logs_user'' ''audit_logs'' [''admin_user'', ''created_at'']]"

definition sqlite_stmts :: "ddl list" where
  "sqlite_stmts =
     [CreateTable ''request_logs'' (request_table INTEGER INTEGER TEXT), AddColumn ''request_logs'' (column_of ''client_ip'' TEXT False)]
     @ request_indexes @ [CreateTable ''audit_logs'' (audit_table INTEGER TEXT)] @ audit_indexes"

definition postgres_stmts :: "ddl list" where
  "postgres_stmts =
     [CreateTable ''request_logs'' (request_table BOOLEAN BIGINT JSONB)]
     @ request_indexes @ [CreateTable ''audit_logs'' (audit_table BIGINT JSONB)] @ audit_indexes"

text \<open>
  The loop of \<open>migrate\<close>. \<open>drv\<close> is the error of the driver on a statement, if there is one besides
  those of the statement itself; SQLite tolerates a duplicate column of an ALTER TABLE.
\<close>

definition is_alter :: "ddl \<Rightarrow> bool" where
  "is_alter q = (case q of AddColumn t c \<Rightarrow> True | _ \<Rightarrow> False)"

definition exec_db :: "(ddl \<Rightarrow> string option) \<Rightarrow> ddl \<Rightarrow> Schema \<Rightarrow> string + Schema" where
  "exec_db drv q s = (case drv q of Some err \<Rightarrow> Inl err | None \<Rightarrow> exec_ddl q s)"

fun sqlite_migrate :: "(ddl \<Rightarrow> string option) \<Rightarrow> ddl list \<Rightarrow> Schema \<Rightarrow> string option \<times> Schema" where
  "sqlite_migrate drv [] s = (None, s)"
| "sqlite_migrate drv (q # qs) s =
     (case exec_db drv q s of
        Inr s' \<Rightarrow> sqlite_migrate drv qs s'
      | Inl err \<Rightarrow>
          if is_alter q \<and> Contains (ToLower err) ''duplicate column'' then sqlite_migrate drv qs s
          else (Some (''migrate: '' @ err), s))"

fun postgres_migrate :: "(ddl \<Rightarrow> string option) \<Rightarrow> ddl list \<Rightarrow> Schema \<Rightarrow> string option \<times> Schema" where
  "postgres_migrate drv [] s = (None, s)"
| "postgres_migrate drv (q # qs) s =
     (case exec_db drv q s of
        Inr s' \<Rightarrow> postgres_migrate drv qs s'
      | Inl err \<Rightarrow> (Some (''postgres migrate: '' @ err), s))"

text \<open>Opening a store: the data source name, the error of the driver, the migration.\<close>

definition sqlite_dsn :: "string \<Rightarrow> string" where
  "sqlite_dsn path =
     (if path = [] then ''llmgateway.db'' else path)
     @ ''?_pragma=journal_mode(WAL)&_pragma=synchronous(NORMAL)&_pragma=busy_timeout(5000)&_pragma=foreign_keys(on)''"

definition OpenSQLite :: "(string \<Rightarrow> string + Schema) \<Rightarrow> (ddl \<Rightarrow> string option) \<Rightarrow> string \<Rightarrow> string + Schema" where
  "OpenSQLite sql_Open drv path =
     (case sql_Open (sqlite_dsn path) of
        Inl err \<Rightarrow> Inl err
      | Inr s \<Rightarrow> (case sqlite_migrate drv sqlite_stmts s of (Some err, s') \<Rightarrow> Inl err | (None, s') \<Rightarrow> Inr s'))"

definition OpenPostgres :: "(ddl \<Rightarrow> string option) \<Rightarrow> Schema option \<Rightarrow> string + Schema" where
  "OpenPostgres drv db =
     (case db of
        None \<Rightarrow> Inl ''postgres: nil *sql.DB''
      | Some s \<Rightarrow> (case postgres_migrate drv postgres_stmts s of (Some err, s') \<Rightarrow> Inl err | (None, s') \<Rightarrow> Inr s'))"

section \<open>Migration\<close>

lemma sqlite_migrate_append:
  "sqlite_migrate drv (xs @ ys) s = (case sqlite_migrate drv xs s of (None, s') \<Rightarrow> sqlite_migrate drv ys s' | (Some err, s') \<Rightarrow> (Some err, s'))"
  by (induction drv xs s rule: sqlite_migrate.induct) (simp_all split: sum.split)

definition names :: "column list \<Rightarrow> string set" where
  "names cols = cl_name ` set cols"

text \<open>An index over columns that exist is there afterwards, and nothing else changes.\<close>

definition indexable :: "Schema \<Rightarrow> ddl \<Rightarrow> bool" where
  "indexable s q = (case q of
       CreateIndex i t cs \<Rightarrow> (case map_of (sc_tables s) t of Some cols \<Rightarrow> set cs \<subseteq> names cols | None \<Rightarrow> False)
     | _ \<Rightarrow> False)"

fun index_name :: "ddl \<Rightarrow> string" where
  "index_name (CreateIndex i t cs) = i"
| "index_name q = []"

lemma indexes_created:
  assumes "\<forall>q \<in> set qs. indexable s q"
  shows "\<exists>ix. sqlite_migrate (\<lambda>_. None) qs s = (None, s\<lparr>sc_indexes := ix\<rparr>) \<and> set ix = set (sc_indexes s) \<union> index_name ` set qs"
  using assms
proof (induction qs arbitrary: s)
  case Nil
  show ?case by (rule exI [of _ "sc_indexes s"]) simp
next
  case (Cons q qs)
  obtain i t cs cols where q: "q = CreateIndex i t cs" "map_of (sc_tables s) t = Some cols" "set cs \<subseteq> names cols"
    using Cons.prems by (auto simp: indexable_def split: ddl.splits option.splits)
  let ?s = "if i \<in> set (sc_indexes s) then s else s\<lparr>sc_indexes := sc_indexes s @ [i]\<rparr>"
  have step: "exec_db (\<lambda>_. None) q s = Inr ?s" using q by (simp add: exec_db_def names_def)
  have "\<forall>q \<in> set qs. indexable ?s q" using Cons.prems by (auto simp: indexable_def split: ddl.splits option.splits)
  then obtain ix where "sqlite_migrate (\<lambda>_. None) qs ?s = (None, ?s\<lparr>sc_indexes := ix\<rparr>)"
    "set ix = set (sc_indexes ?s) \<union> index_name ` set qs" using Cons.IH by blast
  then show ?case using step q(1) by (intro exI [of _ ix]) auto
qed

lemma indexes_kept:
  assumes "\<forall>q \<in> set qs. indexable s q" and "index_name ` set qs \<subseteq> set (sc_indexes s)"
  shows "sqlite_migrate (\<lambda>_. None) qs s = (None, s)"
  using assms
proof (induction qs)
  case (Cons q qs)
  obtain i t cs cols where "q = CreateIndex i t cs" "map_of (sc_tables s) t = Some cols"
    using Cons.prems(1) by (auto simp: indexable_def split: ddl.splits option.splits)
  with Cons show ?case by (simp add: exec_db_def)
qed simp

text \<open>A schema of an earlier version: tables may be missing, and \<open>client_ip\<close> may be.\<close>

definition upgradable :: "Schema \<Rightarrow> bool" where
  "upgradable s \<longleftrightarrow>
     (case map_of (sc_tables s) ''request_logs'' of None \<Rightarrow> True | Some cols \<Rightarrow> set request_columns - {''client_ip''} \<subseteq> names cols)
   \<and> (case map_of (sc_tables s) ''audit_logs'' of None \<Rightarrow> True | Some cols \<Rightarrow> set audit_columns \<subseteq> names cols)"

definition current :: "Schema \<Rightarrow> bool" where
  "current s \<longleftrightarrow>
     (\<exists>cols. map_of (sc_tables s) ''request_logs'' = Some cols \<and> set request_columns \<subseteq> names cols)
   \<and> (\<exists>cols. map_of (sc_tables s) ''audit_logs'' = Some cols \<and> set audit_columns \<subseteq> names cols)"

lemma tables_complete: "set request_columns \<subseteq> names (request_table b i j)" "set audit_columns \<subseteq> names (audit_table i j)"
  by (simp_all add: request_columns_def audit_columns_def names_def request_table_def audit_table_def column_of_def)

lemma duplicate_tolerated: "Contains (ToLower (''duplicate column name: '' @ ''client_ip'')) ''duplicate column''"
  by code_simp

lemma tables_step:
  assumes "upgradable s"
  shows "\<exists>s'. sqlite_migrate (\<lambda>_. None)
      [CreateTable ''request_logs'' (request_table INTEGER INTEGER TEXT), AddColumn ''request_logs'' (column_of ''client_ip'' TEXT False)] s = (None, s')
    \<and> (\<exists>cols. map_of (sc_tables s') ''request_logs'' = Some cols \<and> set request_columns \<subseteq> names cols)
    \<and> map_of (sc_tables s') ''audit_logs'' = map_of (sc_tables s) ''audit_logs''"
proof (cases "map_of (sc_tables s) ''request_logs''")
  case None
  then show ?thesis
    using tables_complete(1) [of INTEGER INTEGER TEXT] duplicate_tolerated
    by (auto simp: exec_db_def is_alter_def update_conv' request_table_def column_of_def)
next
  case (Some cols)
  then have "set request_columns - {''client_ip''} \<subseteq> names cols" using assms by (simp add: upgradable_def)
  then show ?thesis
    using Some duplicate_tolerated
    by (cases "''client_ip'' \<in> names cols") (auto simp: exec_db_def is_alter_def update_conv' names_def column_of_def)
qed

lemma request_indexable: "map_of (sc_tables s) ''request_logs'' = Some cols \<Longrightarrow> set request_columns \<subseteq> names cols \<Longrightarrow> \<forall>q \<in> set request_indexes. indexable s q"
  by (auto simp: request_indexes_def indexable_def request_columns_def)

lemma audit_indexable: "map_of (sc_tables s) ''audit_logs'' = Some cols \<Longrightarrow> set audit_columns \<subseteq> names cols \<Longrightarrow> \<forall>q \<in> set audit_indexes. indexable s q"
  by (auto simp: audit_indexes_def indexable_def audit_columns_def)

lemma migrate_current:
  assumes "upgradable s"
  shows "\<exists>s'. sqlite_migrate (\<lambda>_. None) sqlite_stmts s = (None, s') \<and> current s'
            \<and> sqlite_migrate (\<lambda>_. None) sqlite_stmts s' = (None, s')"
proof -
  let ?run = "sqlite_migrate (\<lambda>_. None)"
  let ?tables = "[CreateTable ''request_logs'' (request_table INTEGER INTEGER TEXT), AddColumn ''request_logs'' (column_of ''client_ip'' TEXT False)]"
  obtain s1 cols where s1: "?run ?tables s = (None, s1)" "map_of (sc_tables s1) ''request_logs'' = Some cols"
    "set request_columns \<subseteq> names cols" "map_of (sc_tables s1) ''audit_logs'' = map_of (sc_tables s) ''audit_logs''"
    using tables_step [OF assms] by blast
  obtain ix1 where ix1: "?run request_indexes s1 = (None, s1\<lparr>sc_indexes := ix1\<rparr>)" "index_name ` set request_indexes \<subseteq> set ix1"
    using indexes_created [OF request_indexable [OF s1(2,3)]] by blast
  define s2 where "s2 = s1\<lparr>sc_indexes := ix1\<rparr>"
  obtain s3 acols where s3: "?run [CreateTable ''audit_logs'' (audit_table INTEGER TEXT)] s2 = (None, s3)"
    "map_of (sc_tables s3) ''audit_logs'' = Some acols" "set audit_columns \<subseteq> names acols"
    "map_of (sc_tables s3) ''request_logs'' = Some cols" "sc_indexes s3 = ix1"
    using assms tables_complete(2) [of INTEGER TEXT] s1(2,4)
    by (cases "map_of (sc_tables s) ''audit_logs''") (auto simp: s2_def exec_db_def upgradable_def update_conv')
  obtain ix2 where ix2: "?run audit_indexes s3 = (None, s3\<lparr>sc_indexes := ix2\<rparr>)" "set ix2 = set ix1 \<union> index_name ` set audit_indexes"
    using indexes_created [OF audit_indexable [OF s3(2,3)]] s3(5) by auto
  let ?s = "s3\<lparr>sc_indexes := ix2\<rparr>"
  have run: "?run sqlite_stmts s = (None, ?s)"
    unfolding sqlite_stmts_def by (simp only: sqlite_migrate_append s1(1) ix1(1) s2_def [symmetric] s3(1) ix2(1) option.case prod.case)
  have "''client_ip'' \<in> names cols" using s1(3) by (simp add: request_columns_def)
  then have again: "?run ?tables ?s = (None, ?s)"
    using s3(4) duplicate_tolerated by (simp add: exec_db_def is_alter_def names_def column_of_def)
  have "?run request_indexes ?s = (None, ?s)"
    using ix1(2) ix2(2) s3(4) s1(3) by (intro indexes_kept request_indexable) auto
  moreover have "?run [CreateTable ''audit_logs'' (audit_table INTEGER TEXT)] ?s = (None, ?s)"
    using s3(2) by (simp add: exec_db_def)
  moreover have "?run audit_indexes ?s = (None, ?s)"
    using ix2(2) s3(2,3) by (intro indexes_kept audit_indexable) auto
  ultimately have "?run sqlite_stmts ?s = (None, ?s)"
    unfolding sqlite_stmts_def by (simp only: sqlite_migrate_append again option.case prod.case)
  then show ?thesis using run s1(3) s3 by (auto simp: current_def)
qed

text \<open>
  Opening a SQLite store upgrades a database of an earlier version: from any schema whose tables
  are missing or lack at most the column \<open>client_ip\<close>, \<open>migrate\<close> succeeds, tolerating the duplicate
  column where there is one, and leaves both tables with every column that INSERT and SELECT
  name; running it again changes nothing.
\<close>

theorem sqlite_migrate_upgrades:
  assumes "upgradable s"
  shows "\<exists>s'. sqlite_migrate (\<lambda>_. None) sqlite_stmts s = (None, s') \<and> current s'
            \<and> sqlite_migrate (\<lambda>_. None) sqlite_stmts s' = (None, s')"
  by (rule migrate_current [OF assms])

theorem sqlite_migrate_upgrades_witness:
  "\<exists>s'. sqlite_migrate (\<lambda>_. None) sqlite_stmts \<lparr>sc_tables = [], sc_indexes = []\<rparr> = (None, s') \<and> current s'
     \<and> sqlite_migrate (\<lambda>_. None) sqlite_stmts s' = (None, s')"
  by (rule sqlite_migrate_upgrades) (simp add: upgradable_def)

text \<open>The statements for Postgres have no ALTER TABLE: an older table stops them at the index.\<close>

lemma postgres_not_upgraded:
  "\<exists>s. upgradable s \<and> fst (postgres_migrate (\<lambda>_. None) postgres_stmts s) = Some ''postgres migrate: no such column''"
proof (intro exI [of _ "\<lparr>sc_tables = [(''request_logs'', filter (\<lambda>c. cl_name c \<noteq> ''client_ip'') (request_table BOOLEAN BIGINT JSONB))], sc_indexes = []\<rparr>"] conjI)
qed (auto simp: upgradable_def request_table_def column_of_def request_columns_def names_def postgres_stmts_def request_indexes_def exec_db_def)

section \<open>The Postgres store\<close>

definition postgres_AppendRequest :: "(string \<Rightarrow> string) \<Rightarrow> sql_json \<Rightarrow> string option \<Rightarrow> RequestLog \<Rightarrow> Database \<Rightarrow> string option \<times> Database" where
  "postgres_AppendRequest jsonb = sql_AppendRequest (postgres_dialect jsonb)"

definition postgres_QueryRequests ::
    "(string \<Rightarrow> string) \<Rightarrow> sql_json \<Rightarrow> (row list \<Rightarrow> row list) \<Rightarrow> string option \<Rightarrow> LogQuery \<Rightarrow> Database \<Rightarrow> string + RequestLog list" where
  "postgres_QueryRequests jsonb = sql_QueryRequests (postgres_dialect jsonb)"

definition postgres_StatsSince :: "(string \<Rightarrow> string) \<Rightarrow> (nat \<Rightarrow> string option) \<Rightarrow> time \<Rightarrow> Database \<Rightarrow> string + Stats" where
  "postgres_StatsSince jsonb = sql_StatsSince (postgres_dialect jsonb)"

definition postgres_AppendAudit :: "(string \<Rightarrow> string) \<Rightarrow> sql_json \<Rightarrow> string option \<Rightarrow> AuditEvent \<Rightarrow> Database \<Rightarrow> string option \<times> Database" where
  "postgres_AppendAudit jsonb = sql_AppendAudit (postgres_dialect jsonb)"

definition postgres_QueryAudit ::
    "(string \<Rightarrow> string) \<Rightarrow> sql_json \<Rightarrow> (row list \<Rightarrow> row list) \<Rightarrow> string option \<Rightarrow> AuditQuery \<Rightarrow> Database \<Rightarrow> string + AuditEvent list" where
  "postgres_QueryAudit jsonb = sql_QueryAudit (postgres_dialect jsonb)"

definition postgres_Purge :: "time \<Rightarrow> int \<Rightarrow> string option \<Rightarrow> string option \<Rightarrow> Database \<Rightarrow> string option \<times> Database" where
  "postgres_Purge = sql_Purge"

section \<open>Types\<close>

text \<open>
  The values of a column. Postgres has 32 bits for an INTEGER and refuses a wider value with an error
  of the driver; the type here allows the 64 bits of SQLite.
\<close>

fun has_type :: "coltype \<Rightarrow> sql_value \<Rightarrow> bool" where
  "has_type TEXT (SText s) = True"
| "has_type JSONB (SText s) = True"
| "has_type INTEGER (SInt i) = in_int64 i"
| "has_type BIGINT (SInt i) = in_int64 i"
| "has_type BOOLEAN (SBool b) = True"
| "has_type t v = False"

definition fits :: "column \<Rightarrow> sql_value \<Rightarrow> bool" where
  "fits c v \<longleftrightarrow> has_type (cl_type c) v \<or> (v = SNull \<and> \<not> cl_not_null c)"

definition typed_row :: "column list \<Rightarrow> row \<Rightarrow> bool" where
  "typed_row cols r \<longleftrightarrow> (\<forall>c \<in> set cols. fits c (col r (cl_name c)))"

text \<open>
  A well-typed database. The status is nullable in the schema but read without COALESCE, so the
  invariant says that the stores have written it.
\<close>

definition typed_db :: "column list \<Rightarrow> column list \<Rightarrow> Database \<Rightarrow> bool" where
  "typed_db tr ta db \<longleftrightarrow> (\<forall>r \<in> set (db_requests db). typed_row tr r \<and> col r ''status_code'' \<noteq> SNull)
     \<and> (\<forall>r \<in> set (db_audits db). typed_row ta r)"

text \<open>The two stores: a dialect with the tables of its schema.\<close>

definition sql_stores :: "(string \<Rightarrow> string) \<Rightarrow> (dialect \<times> column list \<times> column list) set" where
  "sql_stores jsonb =
     {(sqlite_dialect, request_table INTEGER INTEGER TEXT, audit_table INTEGER TEXT),
      (postgres_dialect jsonb, request_table BOOLEAN BIGINT JSONB, audit_table BIGINT JSONB)}"

lemma fits_simps [simp]:
  "fits (column_of n TEXT nn) (SText s)" "fits (column_of n JSONB nn) (SText s)"
  "fits (column_of n TEXT False) (nullable s)" "fits (column_of n JSONB False) (nullable s)"
  "in_int64 i \<Longrightarrow> fits (column_of n INTEGER nn) (SInt i)" "in_int64 i \<Longrightarrow> fits (column_of n BIGINT nn) (SInt i)"
  "fits (column_of n BOOLEAN nn) (SBool b)" "fits (column_of n INTEGER nn) (SInt (boolInt b))"
  by (simp_all add: fits_def column_of_def nullable_def boolInt_def)

lemma fits_text: "fits (column_of n TEXT True) v \<Longrightarrow> scan_text v \<noteq> None"
  "fits (column_of n TEXT nn) v \<Longrightarrow> scan_text (COALESCE v (SText [])) \<noteq> None"
  "fits (column_of n JSONB nn) v \<Longrightarrow> scan_text (COALESCE v (SText [])) \<noteq> None"
  by (cases v; simp add: fits_def column_of_def COALESCE_def)+

lemma fits_int: "fits (column_of n INTEGER nn) v \<Longrightarrow> v \<noteq> SNull \<Longrightarrow> scan_int v \<noteq> None"
  "fits (column_of n INTEGER True) v \<Longrightarrow> scan_int v \<noteq> None" "fits (column_of n BIGINT True) v \<Longrightarrow> scan_int v \<noteq> None"
  "fits (column_of n BOOLEAN True) v \<Longrightarrow> scan_bool v \<noteq> None"
  by (cases v; simp add: fits_def column_of_def)+

lemma bind_not_None: "x \<noteq> None \<Longrightarrow> (\<And>a. f a \<noteq> None) \<Longrightarrow> Option.bind x f \<noteq> None"
  by (cases x) simp_all

lemma scan_all_total: "\<forall>x \<in> set xs. f x \<noteq> None \<Longrightarrow> \<exists>out. scan_all f xs = Inr out"
  by (induction xs) auto

text \<open>Progress: a row that fits its table is scanned without an error.\<close>

lemma scan_request_typed:
  assumes "(dl, tr, ta) \<in> sql_stores jsonb" and "typed_row tr r" and "col r ''status_code'' \<noteq> SNull"
  shows "scan_request dl js (project request_select r) \<noteq> None"
proof -
  have bools: "dl_unbool dl (col r ''stream'') \<noteq> None"
    using assms(1,2) fits_int(2,4) [of "''stream''" "col r ''stream''"]
    by (auto simp: sql_stores_def typed_row_def request_table_def column_of_def sqlite_dialect_def postgres_dialect_def)
  have cols: "fits (column_of c t nn) (col r c)" if "column_of c t nn \<in> set tr" for c t nn
    using assms(2) that by (auto simp: typed_row_def column_of_def)
  obtain b i j where tr: "tr = request_table b i j" "i \<in> {INTEGER, BIGINT}" "j \<in> {TEXT, JSONB}"
    using assms(1) by (auto simp: sql_stores_def)
  have ints: "scan_int (col r c) \<noteq> None" if "column_of c i True \<in> set tr" for c
    using cols [OF that] tr(2) fits_int(2,3) by auto
  have meta: "scan_text (COALESCE (col r ''metadata'') (SText [])) \<noteq> None"
    using cols [of "''metadata''" j False] tr(1,3) fits_text(2,3) by (auto simp: request_table_def)
  have must: "scan_text (col r c) \<noteq> None" if "column_of c TEXT True \<in> set tr" for c
    using cols [OF that] fits_text(1) by blast
  have opt: "scan_text (COALESCE (col r c) (SText [])) \<noteq> None" if "column_of c TEXT False \<in> set tr" for c
    using cols [OF that] fits_text(2) by blast
  have status: "scan_int (col r ''status_code'') \<noteq> None"
    using cols [of "''status_code''" INTEGER False] assms(3) tr(1) fits_int(1) by (auto simp: request_table_def)
  show ?thesis
    unfolding scan_request_def project_def request_select_def
    by (intro bind_not_None)
       (simp_all add: bools meta status del: not_None_eq, simp_all add: ints must opt tr(1) request_table_def del: not_None_eq)
qed

lemma scan_audit_typed:
  assumes "(dl, tr, ta) \<in> sql_stores jsonb" and "typed_row ta r"
  shows "scan_audit js (project audit_select r) \<noteq> None"
proof -
  have cols: "fits (column_of c t nn) (col r c)" if "column_of c t nn \<in> set ta" for c t nn
    using assms(2) that by (auto simp: typed_row_def column_of_def)
  obtain i j where ta: "ta = audit_table i j" "i \<in> {INTEGER, BIGINT}" "j \<in> {TEXT, JSONB}"
    using assms(1) by (auto simp: sql_stores_def)
  have ints: "scan_int (col r c) \<noteq> None" if "column_of c i True \<in> set ta" for c
    using cols [OF that] ta(2) fits_int(2,3) by auto
  have meta: "scan_text (COALESCE (col r c) (SText [])) \<noteq> None" if "column_of c j False \<in> set ta" for c
    using cols [OF that] ta(3) fits_text(2,3) by auto
  have must: "scan_text (col r c) \<noteq> None" if "column_of c TEXT True \<in> set ta" for c
    using cols [OF that] fits_text(1) by blast
  have opt: "scan_text (COALESCE (col r c) (SText [])) \<noteq> None" if "column_of c TEXT False \<in> set ta" for c
    using cols [OF that] fits_text(2) by blast
  show ?thesis
    unfolding scan_audit_def project_def audit_select_def
    by (intro bind_not_None) (simp_all add: ints must opt meta ta(1) audit_table_def del: not_None_eq)
qed

text \<open>Preservation: what the stores write fits.\<close>

lemma cl_name_column_of [simp]: "cl_name (column_of n t nn) = n"
  by (simp add: column_of_def)

lemma request_more_cols:
  "col (request_row dl js r) ''api_key_name'' = nullable (lr_APIKeyName r)" "col (request_row dl js r) ''internal_model'' = nullable (lr_InternalModel r)"
  "col (request_row dl js r) ''reasoning_tokens'' = SInt (lr_ReasoningTokens r)" "col (request_row dl js r) ''latency_ms'' = SInt (lr_LatencyMS r)"
  "col (request_row dl js r) ''ttft_ms'' = SInt (lr_TTFTMS r)" "col (request_row dl js r) ''raw_request'' = nullable (lr_RawRequest r)"
  "col (request_row dl js r) ''raw_response'' = nullable (lr_RawResponse r)"
  "col (request_row dl js r) ''metadata'' = SText (dl_json dl (sj_marshal js (lr_Metadata r)))"
  by (simp_all add: request_row_eq col_def)

lemma fits_stored: "j \<in> {TEXT, JSONB} \<Longrightarrow> fits (column_of n j False) (store_value dl c (nullable s))"
  by (auto simp: fits_def column_of_def store_value_def nullable_def)

lemma request_row_typed:
  assumes "(dl, tr, ta) \<in> sql_stores jsonb" and "int64_log r"
  shows "typed_row tr (request_row dl js r)"
proof -
  obtain b i j where tr: "tr = request_table b i j" "i = INTEGER \<or> i = BIGINT" "j = TEXT \<or> j = JSONB"
    and b: "fits (column_of ''stream'' b True) (dl_bool dl (lr_Stream r))"
    using assms(1) by (auto simp: sql_stores_def sqlite_dialect_def postgres_dialect_def)
  have ints: "in_int64 x \<Longrightarrow> fits (column_of n i True) (SInt x)" and meta: "fits (column_of n j False) (SText t)" for x n t
    using tr(2,3) by auto
  show ?thesis
    using assms(2) unfolding tr(1) typed_row_def request_table_def int64_log_def
    by (simp only: list.set ball_simps cl_name_column_of request_cols request_more_cols) (simp add: b ints meta)
qed

lemma audit_row_typed:
  assumes "(dl, tr, ta) \<in> sql_stores jsonb" and "in_int64 (UnixMilli (ae_CreatedAt e))"
  shows "typed_row ta (audit_row dl js e)"
proof -
  obtain i j where ta: "ta = audit_table i j" "i = INTEGER \<or> i = BIGINT" "j \<in> {TEXT, JSONB}"
    using assms(1) by (auto simp: sql_stores_def)
  have ints: "in_int64 x \<Longrightarrow> fits (column_of n i True) (SInt x)" for x n using ta(2) by auto
  show ?thesis
    using assms(2) unfolding ta(1) typed_row_def audit_table_def
    by (simp add: audit_row_eq col_def fits_stored [OF ta(3)] ints)
qed

lemma run_select_rows:
  assumes "run_select dl ord conds lp op args rows = Inr out" and "\<And>rs. set (ord rs) \<subseteq> set rs"
  shows "set out \<subseteq> set rows"
proof -
  obtain bs l k where "out = take (nat l) (drop (nat k) (ord (filter (satisfies bs) rows)))"
    using assms(1) by (auto simp: run_select_def split: option.splits sql_value.splits if_splits)
  moreover have "set (take n (drop m xs)) \<subseteq> set xs" for n m and xs :: "row list"
    by (meson set_drop_subset set_take_subset subset_trans)
  ultimately show ?thesis using assms(2) [of "filter (satisfies bs) rows"] by fastforce
qed

lemma typed_query:
  assumes st: "(dl, tr, ta) \<in> sql_stores jsonb" and db: "typed_db tr ta db" and ord: "newest_first ord" and off: "0 \<le> lq_Offset q"
  shows "\<exists>out. sql_QueryRequests dl js ord None q db = Inr out"
proof -
  obtain conds args where ca: "request_conds dl q = (conds, args)" by (rule prod.exhaust)
  have "sound_places dl" using st by (auto simp: sql_stores_def)
  moreover have "builds dl (request_filters dl q) (conds, args)" using request_builds [of dl q] by (simp add: ca)
  ultimately obtain rows where rows: "run_select dl ord conds (dl_place dl (length args + 1)) (dl_place dl (length args + 2))
      (args @ [SInt (page_limit (lq_Limit q)), SInt (lq_Offset q)]) (db_requests db) = Inr rows"
    using off by (subst (asm) built_select) auto
  have "set rows \<subseteq> set (db_requests db)" using run_select_rows [OF rows] newest_first_set [OF ord] by blast
  then have "\<forall>v \<in> set (map (project request_select) rows). scan_request dl js v \<noteq> None"
    using db scan_request_typed [OF st] unfolding typed_db_def by auto
  from scan_all_total [OF this] show ?thesis using rows by (simp add: sql_QueryRequests_def ca Let_def)
qed

lemma typed_audit_query:
  assumes st: "(dl, tr, ta) \<in> sql_stores jsonb" and db: "typed_db tr ta db" and ord: "newest_first ord" and off: "0 \<le> aq_Offset q"
  shows "\<exists>out. sql_QueryAudit dl js ord None q db = Inr out"
proof -
  obtain conds args where ca: "audit_conds dl q = (conds, args)" by (rule prod.exhaust)
  have "sound_places dl" using st by (auto simp: sql_stores_def)
  moreover have "builds dl (audit_filters q) (conds, args)" using audit_builds [of dl q] by (simp add: ca)
  ultimately obtain rows where rows: "run_select dl ord conds (dl_place dl (length args + 1)) (dl_place dl (length args + 2))
      (args @ [SInt (page_limit (aq_Limit q)), SInt (aq_Offset q)]) (db_audits db) = Inr rows"
    using off by (subst (asm) built_select) auto
  have "set rows \<subseteq> set (db_audits db)" using run_select_rows [OF rows] newest_first_set [OF ord] by blast
  then have "\<forall>v \<in> set (map (project audit_select) rows). scan_audit js v \<noteq> None"
    using db scan_audit_typed [OF st] unfolding typed_db_def by auto
  from scan_all_total [OF this] show ?thesis using rows by (simp add: sql_QueryAudit_def ca Let_def)
qed

text \<open>
  C36. The persistent stores are type safe. Every operation that writes keeps every row within the
  column types and NOT NULL constraints of the schema that \<open>migrate\<close> creates: appending a request
  record or an audit event, whatever its strings, and purging, also when the driver fails half-way.
  And no query ever goes wrong on such a database: with an offset that is not negative,
  \<open>QueryRequests\<close> and \<open>QueryAudit\<close> scan every selected row without an error.
\<close>

theorem sql_stores_type_safe:
  assumes st: "(dl, tr, ta) \<in> sql_stores jsonb" and db: "typed_db tr ta db" and ord: "newest_first ord"
  shows "(int64_log r \<longrightarrow> typed_db tr ta (snd (sql_AppendRequest dl js conn r db)))
       \<and> (in_int64 (UnixMilli (ae_CreatedAt e)) \<longrightarrow> typed_db tr ta (snd (sql_AppendAudit dl js conn e db)))
       \<and> typed_db tr ta (snd (sql_Purge now retention conn conn' db))
       \<and> (0 \<le> lq_Offset q \<longrightarrow> (\<exists>out. sql_QueryRequests dl js ord None q db = Inr out))
       \<and> (0 \<le> aq_Offset a \<longrightarrow> (\<exists>out. sql_QueryAudit dl js ord None a db = Inr out))"
proof (intro conjI impI)
  show "typed_db tr ta (snd (sql_AppendRequest dl js conn r db))" if "int64_log r"
    using db request_row_typed [OF st that]
    by (auto simp: sql_AppendRequest_def run_insert_def typed_db_def request_cols split: option.split)
  show "typed_db tr ta (snd (sql_AppendAudit dl js conn e db))" if "in_int64 (UnixMilli (ae_CreatedAt e))"
    using db audit_row_typed [OF st that] by (auto simp: sql_AppendAudit_def run_insert_def typed_db_def split: option.split)
  show "typed_db tr ta (snd (sql_Purge now retention conn conn' db))"
    using db by (auto simp: sql_Purge_def run_delete_def typed_db_def Let_def split: option.split)
qed (use typed_query [OF st db ord] typed_audit_query [OF st db ord] in blast)+

theorem sql_stores_type_safe_witness:
  "typed_db (request_table INTEGER INTEGER TEXT) (audit_table INTEGER TEXT) (snd (sql_AppendRequest sqlite_dialect null_json None (sample_log 5) empty_db))
   \<and> (\<exists>out. sql_QueryRequests sqlite_dialect null_json rows_newest None any_log empty_db = Inr out)"
  using sql_stores_type_safe [of sqlite_dialect "request_table INTEGER INTEGER TEXT" "audit_table INTEGER TEXT" id empty_db rows_newest
      "sample_log 5" null_json None undefined 0 0 None any_log undefined]
  by (simp add: sql_stores_def typed_db_def empty_db_def rows_newest_ok int64_log_def sample_log_def any_log_def UnixMilli_def)

end
