(* ===== verification/Metrics_Model.thy ===== *)
theory Metrics_Model
  imports Forward_Log
begin

text \<open>
  The Prometheus metrics, \<^verbatim>\<open>internal/metrics/metrics.go\<close>, with the calls that update them: the
  events of the handlers as calls of \<open>WithLabelValues\<close> and the sink of the orchestrator. The client
  library panics on a wrong number of label values and on a counter that goes down; such a call is
  \<open>None\<close>. Counters and gauges are integers (the library has floating-point numbers, exact
  for integers of this size), a histogram is its number of observations, and label values are
  names of the catalog, which its decoders leave as valid UTF-8.
\<close>

section \<open>The registry\<close>

datatype metric_kind = CounterVec | GaugeVec | HistogramVec

record metric_desc =
  md_Name :: string
  md_Kind :: metric_kind
  md_Labels :: "string list"

definition desc :: "string \<Rightarrow> metric_kind \<Rightarrow> string list \<Rightarrow> metric_desc" where
  "desc n k ls = \<lparr>md_Name = n, md_Kind = k, md_Labels = ls\<rparr>"

definition metric_fields :: "metric_desc gomap" where
  "metric_fields =
     [(''Requests'', desc ''llmgw_requests_total'' CounterVec [''endpoint'', ''model'', ''backend'', ''api_key'', ''status'', ''stream'', ''routing_policy'']),
      (''RequestLatency'', desc ''llmgw_request_latency_seconds'' HistogramVec [''endpoint'', ''model'', ''backend'', ''stream'', ''routing_policy'']),
      (''TTFT'', desc ''llmgw_ttft_seconds'' HistogramVec [''model'', ''backend'']),
      (''ActiveRequests'', desc ''llmgw_active_requests'' GaugeVec [''model'', ''backend'']),
      (''PromptTokens'', desc ''llmgw_prompt_tokens_total'' CounterVec [''model'', ''backend'', ''api_key'']),
      (''CompletionTokens'', desc ''llmgw_completion_tokens_total'' CounterVec [''model'', ''backend'', ''api_key'']),
      (''TotalTokens'', desc ''llmgw_total_tokens_total'' CounterVec [''model'', ''backend'', ''api_key'']),
      (''ReasoningTokens'', desc ''llmgw_reasoning_tokens_total'' CounterVec [''model'', ''backend'', ''api_key'']),
      (''BackendErrors'', desc ''llmgw_backend_errors_total'' CounterVec [''backend'', ''error_code'']),
      (''BackendStatus'', desc ''llmgw_backend_status'' GaugeVec [''backend'']),
      (''RateLimitHits'', desc ''llmgw_rate_limit_total'' CounterVec [''api_key'', ''code'']),
      (''QuotaHits'', desc ''llmgw_quota_total'' CounterVec [''api_key'', ''code'']),
      (''Timeouts'', desc ''llmgw_timeouts_total'' CounterVec [''backend'', ''kind'']),
      (''QueueDepth'', desc ''llmgw_queue_depth'' GaugeVec [''scope'']),
      (''OrchRoutes'', desc ''llmgw_orchestration_routes_total'' CounterVec [''tier'', ''worker'', ''task'', ''outcome'']),
      (''OrchEscalations'', desc ''llmgw_orchestration_escalations_total'' CounterVec [''reason'']),
      (''OrchSteps'', desc ''llmgw_orchestration_steps_total'' CounterVec [''role'', ''worker''])]"

text \<open>The samples of a registry, by metric and label values; a series that was never used is 0.\<close>

type_synonym samples = "string \<times> string list \<Rightarrow> int"

definition metrics_New :: samples where
  "metrics_New = (\<lambda>_. 0)"

datatype metric_op = OpInc | OpDec | OpAdd int | OpSet int | OpObserve

fun apply_op :: "metric_kind \<Rightarrow> metric_op \<Rightarrow> int \<Rightarrow> int option" where
  "apply_op CounterVec OpInc v = Some (v + 1)"
| "apply_op CounterVec (OpAdd n) v = (if n < 0 then None else Some (v + n))"
| "apply_op GaugeVec OpInc v = Some (v + 1)"
| "apply_op GaugeVec OpDec v = Some (v - 1)"
| "apply_op GaugeVec (OpAdd n) v = Some (v + n)"
| "apply_op GaugeVec (OpSet n) v = Some n"
| "apply_op HistogramVec OpObserve v = Some (v + 1)"
| "apply_op k op v = None"

type_synonym metric_call = "string \<times> string list \<times> metric_op"

definition WithLabelValues :: "metric_call \<Rightarrow> samples \<Rightarrow> samples option" where
  "WithLabelValues c reg =
     (case c of (field, labels, op) \<Rightarrow>
        (case map_of metric_fields field of
           None \<Rightarrow> None
         | Some d \<Rightarrow>
             if length labels \<noteq> length (md_Labels d) then None
             else map_option (\<lambda>v. reg((field, labels) := v)) (apply_op (md_Kind d) op (reg (field, labels)))))"

section \<open>The calls\<close>

text \<open>\<open>metricsSink\<close> of the orchestrator.\<close>

fun sink_call :: "metric \<Rightarrow> metric_call" where
  "sink_call (IncRoute tier worker task outcome) = (''OrchRoutes'', [tier, worker, task, outcome], OpInc)"
| "sink_call (IncEscalation reason) = (''OrchEscalations'', [reason], OpInc)"
| "sink_call (IncStep role worker) = (''OrchSteps'', [role, worker], OpInc)"
| "sink_call (IncBackendError backend code) = (''BackendErrors'', [backend, code], OpInc)"
| "sink_call (IncTimeout backend kind) = (''Timeouts'', [backend, kind], OpInc)"

fun metric_call_of :: "hmetric \<Rightarrow> metric_call" where
  "metric_call_of (RateLimitHits k c) = (''RateLimitHits'', [k, c], OpInc)"
| "metric_call_of (QuotaHits k c) = (''QuotaHits'', [k, c], OpInc)"
| "metric_call_of (QueueDepth s n) = (''QueueDepth'', [s], OpSet n)"
| "metric_call_of (ActiveInc m b) = (''ActiveRequests'', [m, b], OpInc)"
| "metric_call_of (ActiveDec m b) = (''ActiveRequests'', [m, b], OpDec)"
| "metric_call_of (TTFT m b) = (''TTFT'', [m, b], OpObserve)"
| "metric_call_of (PromptTokens m b k n) = (''PromptTokens'', [m, b, k], OpAdd n)"
| "metric_call_of (CompletionTokens m b k n) = (''CompletionTokens'', [m, b, k], OpAdd n)"
| "metric_call_of (TotalTokens m b k n) = (''TotalTokens'', [m, b, k], OpAdd n)"
| "metric_call_of (ReasoningTokens m b k n) = (''ReasoningTokens'', [m, b, k], OpAdd n)"
| "metric_call_of (BackendErrors b c) = (''BackendErrors'', [b, c], OpInc)"
| "metric_call_of (Timeouts b k) = (''Timeouts'', [b, k], OpInc)"
| "metric_call_of (Requests ls) = (''Requests'', ls, OpInc)"
| "metric_call_of (RequestLatency ls) = (''RequestLatency'', ls, OpObserve)"
| "metric_call_of (OrchMetric m) = sink_call m"

text \<open>The callback of the health checker in \<open>main\<close>.\<close>

definition backend_status_call :: "string \<Rightarrow> BackendStatus \<Rightarrow> metric_call" where
  "backend_status_call bid status = (''BackendStatus'', [bid], OpSet (if status = StatusHealthy then 1 else 0))"

fun meter :: "hmetric list \<Rightarrow> samples \<Rightarrow> samples option" where
  "meter [] reg = Some reg"
| "meter (m # ms) reg = Option.bind (WithLabelValues (metric_call_of m) reg) (meter ms)"

section \<open>Valid events\<close>

fun valid_event :: "hmetric \<Rightarrow> bool" where
  "valid_event (PromptTokens m b k n) = (0 \<le> n)"
| "valid_event (CompletionTokens m b k n) = (0 \<le> n)"
| "valid_event (TotalTokens m b k n) = (0 \<le> n)"
| "valid_event (ReasoningTokens m b k n) = (0 \<le> n)"
| "valid_event (Requests ls) = (length ls = 7)"
| "valid_event (RequestLatency ls) = (length ls = 5)"
| "valid_event m = True"

fun active_delta :: "hmetric \<Rightarrow> string \<times> string \<Rightarrow> int" where
  "active_delta (ActiveInc m b) k = (if k = (m, b) then 1 else 0)"
| "active_delta (ActiveDec m b) k = (if k = (m, b) then - 1 else 0)"
| "active_delta m k = 0"

definition active_sum :: "hmetric list \<Rightarrow> string \<times> string \<Rightarrow> int" where
  "active_sum ms k = (\<Sum>m\<leftarrow>ms. active_delta m k)"

lemma meter_append: "meter (xs @ ys) reg = Option.bind (meter xs reg) (meter ys)"
proof (induction xs arbitrary: reg)
  case (Cons m ms)
  then show ?case by (cases "WithLabelValues (metric_call_of m) reg") simp_all
qed simp

lemma valid_call:
  assumes "valid_event m"
  shows "\<exists>reg'. WithLabelValues (metric_call_of m) reg = Some reg'
       \<and> (\<forall>a b. reg' (''ActiveRequests'', [a, b]) = reg (''ActiveRequests'', [a, b]) + active_delta m (a, b))"
proof (cases m)
  case (OrchMetric x)
  then show ?thesis by (cases x) (simp_all add: WithLabelValues_def metric_fields_def desc_def)
qed (use assms in \<open>simp_all add: WithLabelValues_def metric_fields_def desc_def\<close>)

lemma valid_meter:
  assumes "list_all valid_event ms"
  shows "\<exists>reg'. meter ms reg = Some reg'
       \<and> (\<forall>a b. reg' (''ActiveRequests'', [a, b]) = reg (''ActiveRequests'', [a, b]) + active_sum ms (a, b))"
  using assms
proof (induction ms arbitrary: reg)
  case (Cons m ms)
  obtain reg1 where r1: "WithLabelValues (metric_call_of m) reg = Some reg1"
    "\<forall>a b. reg1 (''ActiveRequests'', [a, b]) = reg (''ActiveRequests'', [a, b]) + active_delta m (a, b)"
    using valid_call Cons.prems by fastforce
  from Cons.IH [of reg1] Cons.prems obtain reg2 where "meter ms reg1 = Some reg2"
    "\<forall>a b. reg2 (''ActiveRequests'', [a, b]) = reg1 (''ActiveRequests'', [a, b]) + active_sum ms (a, b)" by auto
  with r1 show ?case by (simp add: active_sum_def)
qed (simp add: active_sum_def)

section \<open>What the handlers emit\<close>

text \<open>A step is metered when it appends valid events that leave the gauge of active requests as it was.\<close>

definition metered :: "Handler \<Rightarrow> Handler \<Rightarrow> bool" where
  "metered h h' \<longleftrightarrow> (\<exists>ms. hd_metrics h' = hd_metrics h @ ms \<and> list_all valid_event ms \<and> (\<forall>k. active_sum ms k = 0))"

lemma metered_eq: "hd_metrics h' = hd_metrics h \<Longrightarrow> metered h h'"
  unfolding metered_def by (intro exI [of _ "[]"]) (simp add: active_sum_def)

lemma metered_trans: "metered h h1 \<Longrightarrow> metered h1 h2 \<Longrightarrow> metered h h2"
  by (fastforce simp: metered_def active_sum_def)

lemma metered_inc: "valid_event m \<Longrightarrow> active_delta m = (\<lambda>_. 0) \<Longrightarrow> metered h h' \<Longrightarrow> metered h (inc m h')"
  by (rule metered_trans) (auto simp: metered_def inc_def active_sum_def intro!: exI [of _ "[m]"])

lemma metered_inc_if: "valid_event m \<or> \<not> b \<Longrightarrow> active_delta m = (\<lambda>_. 0) \<Longrightarrow> metered h h' \<Longrightarrow> metered h (inc_if b m h')"
  by (auto simp: inc_if_def intro: metered_inc)

text \<open>A bracket around a metered step is metered.\<close>

lemma metered_active:
  assumes "metered (inc (ActiveInc m b) h) h'"
  shows "metered h (inc (ActiveDec m b) h')"
proof -
  obtain ms where ms: "hd_metrics h' = hd_metrics h @ [ActiveInc m b] @ ms" "list_all valid_event ms" "\<forall>k. active_sum ms k = 0"
    using assms by (auto simp: metered_def inc_def)
  then have "active_sum ([ActiveInc m b] @ ms @ [ActiveDec m b]) k = 0" for k
    by (cases k) (simp add: active_sum_def)
  with ms show ?thesis unfolding metered_def
    by (intro exI [of _ "[ActiveInc m b] @ ms @ [ActiveDec m b]"]) (simp add: inc_def)
qed

lemma metered_refl: "metered h h"
  by (rule metered_eq) (rule refl)

lemma metrics_kept [simp]:
  "hd_metrics (run_release x h) = hd_metrics h" "hd_metrics (recordLog e k ip m im bid ep st sc ec u tt rq rs h) = hd_metrics h"
  "hd_metrics (touch_key e kp h) = hd_metrics h" "hd_metrics (reject_log e r m im st sc c raw h) = hd_metrics h"
  "hd_metrics (orch_log e r vm st sc c u raw rs h) = hd_metrics h"
proof -
  have log: "hd_metrics (recordLog e k ip m im bid ep st sc ec u tt rq rs h) = hd_metrics h" for k ip m im bid ep st sc ec u tt rq rs
    by (simp add: recordLog_def Let_def split: option.split)
  then show "hd_metrics (recordLog e k ip m im bid ep st sc ec u tt rq rs h) = hd_metrics h" .
  show "hd_metrics (run_release x h) = hd_metrics h" by (cases x) simp_all
  show "hd_metrics (touch_key e kp h) = hd_metrics h" by (simp add: touch_key_def split: option.split)
  show "hd_metrics (reject_log e r m im st sc c raw h) = hd_metrics h" "hd_metrics (orch_log e r vm st sc c u raw rs h) = hd_metrics h"
    by (simp_all add: reject_log_def orch_log_def Let_def log)
qed

lemma metrics_doRelease [simp]: "hd_metrics (doRelease rel h) = hd_metrics h"
proof -
  have "hd_metrics (fold run_release xs h) = hd_metrics h" for xs by (induction xs arbitrary: h) simp_all
  then show ?thesis by (simp add: doRelease_def)
qed

lemma metered_same: "hd_metrics h1 = hd_metrics h' \<Longrightarrow> metered h h' \<Longrightarrow> metered h h1"
  by (simp add: metered_def)

lemma metered_usage: "metered h h' \<Longrightarrow> metered h (recordUsage e u m b l kp h')"
proof -
  assume h: "metered h h'"
  let ?h4 = "inc_if (0 < us_ReasoningTokens u) (ReasoningTokens m b l (us_ReasoningTokens u))
    (inc_if (0 < us_TotalTokens u) (TotalTokens m b l (us_TotalTokens u))
    (inc_if (0 < us_CompletionTokens u) (CompletionTokens m b l (us_CompletionTokens u))
    (inc_if (0 < us_PromptTokens u) (PromptTokens m b l (us_PromptTokens u)) h')))"
  have "metered h ?h4" by (intro metered_inc_if h) (auto simp: fun_eq_iff)
  moreover have "hd_metrics (recordUsage e u m b l kp h') = hd_metrics ?h4"
    by (simp add: recordUsage_def Let_def split: option.split)
  ultimately show ?thesis by (rule metered_same [rotated])
qed

lemma metered_usages: "metered h h' \<Longrightarrow> metered h (fold (\<lambda>u. recordUsage e u m b l kp) us h')"
  by (induction us arbitrary: h') (simp_all add: metered_usage)

lemma metered_route: "route e m p hint cands h = (res, h') \<Longrightarrow> hd_metrics h' = hd_metrics h"
  unfolding route_def Let_def by (auto split: if_splits prod.splits option.splits bool.splits)

text \<open>Admission.\<close>

lemma metered_reject: "reject rs c st h' = (a, h1) \<Longrightarrow> metered h h' \<Longrightarrow> metered h h1"
  by (auto simp: reject_def intro: metered_same)

lemma metered_account: "admit_account e k rs h' = (a, h1) \<Longrightarrow> metered h h' \<Longrightarrow> metered h h1"
  by (auto simp: admit_account_def intro: metered_same split: option.splits)

lemma metered_queue: "admit_queue e k model rs h' = (a, h1) \<Longrightarrow> metered h h' \<Longrightarrow> metered h h1"
  unfolding admit_queue_def Let_def
  by (auto split: option.splits prod.splits if_splits elim!: metered_account metered_reject intro!: metered_inc intro: metered_same simp: fun_eq_iff)

lemma metered_conc: "admit_conc e k model h' = (a, h1) \<Longrightarrow> metered h h' \<Longrightarrow> metered h h1"
  unfolding admit_conc_def Let_def
  by (auto split: prod.splits if_splits bool.splits elim!: metered_queue metered_reject intro!: metered_inc intro: metered_same simp: fun_eq_iff)

lemma metered_quota: "admit_quota e k model h' = (a, h1) \<Longrightarrow> metered h h' \<Longrightarrow> metered h h1"
  unfolding admit_quota_def Let_def
  by (auto split: option.splits prod.splits if_splits elim!: metered_conc metered_reject intro!: metered_inc intro: metered_same simp: fun_eq_iff)

lemma metered_admit: "admit e kp model h = (a, h1) \<Longrightarrow> metered h h1"
  unfolding admit_def Let_def
  by (auto split: option.splits prod.splits if_splits elim!: metered_queue metered_quota metered_reject intro!: metered_inc intro: metered_eq simp: fun_eq_iff)

text \<open>The exchange with a backend, direct and multipart.\<close>

lemma metered_exchange: "metered h (account_exchange e js r raw m im str pl p x h)"
proof -
  define b l where "b = b_ID (s_bheap (hd_store h) p)" and "l = apiKeyID (the_key h (hi_key r))"
  define h2 where "h2 = fold (\<lambda>u. recordUsage e u im b l (hi_key r)) (xc_usage x) (inc_if (xc_first x) (TTFT im b) h)"
  define h4 where "h4 = inc_if (\<not> xc_success x) (BackendErrors b (statusCodeLabel (xc_status x)))
    (h2\<lparr>hd_store := upd_backend p (ReleaseSlot (xc_success x)) (hd_store h2)\<rparr>)"
  define h5 where "h5 = (if xc_status x = 504 then inc (Timeouts b ''backend'') h4
    else if xc_error x = Some ''stream idle timeout'' then inc (Timeouts b ''stream_idle'') h4 else h4)"
  define h6 where "h6 = touch_key e (hi_key r) h5"
  define h7 where "h7 = (if xc_success x \<and> xc_usage x = [] \<and> the_key h (hi_key r) \<noteq> None
    then recordUsage e (est_usage js raw) im b l (hi_key r) h6 else h6)"
  define h9 where "h9 = inc (RequestLatency [hi_path r, im, b, boolLabel str, pl])
    (inc (Requests [hi_path r, im, b, l, statusCodeLabel (xc_status x), boolLabel str, pl]) h7)"
  have "metered h h2" unfolding h2_def by (intro metered_usages metered_inc_if metered_refl) (auto simp: fun_eq_iff)
  then have "metered h (h2\<lparr>hd_store := upd_backend p (ReleaseSlot (xc_success x)) (hd_store h2)\<rparr>)" by (rule metered_same [rotated]) simp
  then have "metered h h4" unfolding h4_def by (rule metered_inc_if [rotated -1]) (auto simp: fun_eq_iff)
  then have "metered h h5" unfolding h5_def by (auto intro!: metered_inc simp: fun_eq_iff)
  then have "metered h h6" unfolding h6_def by (rule metered_same [rotated]) simp
  then have "metered h h7" unfolding h7_def by (simp add: metered_usage)
  then have "metered h h9" unfolding h9_def by (intro metered_inc) (auto simp: fun_eq_iff)
  moreover have "hd_metrics (account_exchange e js r raw m im str pl p x h) = hd_metrics h9"
    unfolding account_exchange_def Let_def metrics_kept
    by (simp only: h9_def h7_def h6_def h5_def h4_def h2_def b_def l_def)
  ultimately show ?thesis by (rule metered_same [rotated])
qed

lemma metered_serve: "serve_backend e js r raw m im fn str pl p h = (ans, opts, h') \<Longrightarrow> metered h h'"
proof -
  assume s: "serve_backend e js r raw m im fn str pl p h = (ans, opts, h')"
  let ?b = "b_ID (s_bheap (hd_store h) p)"
  obtain x h2 where h': "h' = inc (ActiveDec im ?b) (account_exchange e js r raw m im str pl p x h2)"
    and h2: "hd_metrics h2 = hd_metrics (inc (ActiveInc im ?b) h)"
    using s by (auto simp: serve_backend_def Let_def)
  have "metered (inc (ActiveInc im ?b) h) (account_exchange e js r raw m im str pl p x h2)"
    using metered_trans [OF metered_eq metered_exchange] h2 by blast
  then show ?thesis unfolding h' by (rule metered_active)
qed

lemma metered_multipart: "multipart_serve e js r model im body ct p h = (ans, opts, h') \<Longrightarrow> metered h h'"
proof -
  assume s: "multipart_serve e js r model im body ct p h = (ans, opts, h')"
  define b l where "b = b_ID (s_bheap (hd_store h) p)" and "l = apiKeyID (the_key h (hi_key r))"
  define pl where "pl = (if rc_DefaultPolicy (c_Routing (hd_cfg h)) = [] then ''unknown'' else rc_DefaultPolicy (c_Routing (hd_cfg h)))"
  define x where "x = do_exchange js False (hdr_Set ''X-Request-ID'' (fe_requestID e) []) (fe_exchange e)"
  define h1 where "h1 = inc (ActiveInc im b) h"
  define h2 where "h2 = h1\<lparr>hd_store := fe_during e (hd_store h1)\<rparr>"
  define h3 where "h3 = h2\<lparr>hd_store := upd_backend p (ReleaseSlot (xc_success x)) (hd_store h2)\<rparr>"
  define h6 where "h6 = inc (RequestLatency [hi_path r, im, b, ''false'', pl])
      (inc (Requests [hi_path r, im, b, l, statusCodeLabel (xc_status x), ''false'', pl])
      (inc_if (\<not> xc_success x) (BackendErrors b (statusCodeLabel (xc_status x))) h3))"
  have "hd_metrics h3 = hd_metrics h1" by (simp add: h3_def h2_def)
  then have "metered h1 h6" unfolding h6_def by (intro metered_inc metered_inc_if metered_eq) (auto simp: fun_eq_iff)
  then have "metered h (inc (ActiveDec im b) h6)" unfolding h1_def by (rule metered_active)
  moreover have "hd_metrics h' = hd_metrics (inc (ActiveDec im b) h6)"
    using s unfolding multipart_serve_def Let_def b_def [symmetric] l_def [symmetric] pl_def [symmetric] x_def [symmetric]
      h1_def [symmetric] h2_def [symmetric] h3_def [symmetric] h6_def [symmetric]
    by (auto simp: inc_def)
  ultimately show ?thesis by (rule metered_same [rotated])
qed

section \<open>Whole requests\<close>

lemma metered_direct: "forward_direct e js r raw m im fn str cands h = (ans, snt, h') \<Longrightarrow> metered h h'"
proof -
  assume f: "forward_direct e js r raw m im fn str cands h = (ans, snt, h')"
  obtain rel code status h1 where a: "admit (fe_admit e) (hi_key r) im h = ((rel, code, status), h1)" by (rule admit_cases)
  note m1 = metered_admit [OF a]
  show ?thesis
  proof (cases "code = []")
    case False
    have "metered h (inc_if (isQuotaCode code) (QuotaHits (apiKeyID (the_key h1 (hi_key r))) code) h1)"
      by (rule metered_inc_if [OF _ _ m1]) (auto simp: fun_eq_iff)
    then show ?thesis using f a False by (auto simp: forward_direct_def elim: metered_same [rotated])
  next
    case True
    define pol where "pol = routing_policy h1 im"
    obtain res h2 where ro: "route e im pol \<lparr>hint_APIKeyID = apiKeyID (the_key h1 (hi_key r)), hint_User = []\<rparr> cands h1 = (res, h2)"
      by (metis prod.exhaust)
    have m2: "metered h h2" using metered_same [OF metered_route [OF ro] m1] .
    show ?thesis
    proof (cases res)
      case (Routed p)
      obtain ans' opts h3 where s: "serve_backend e js r raw m im fn str (if pol = [] then ''unknown'' else pol) p h2 = (ans', opts, h3)"
        by (metis prod_cases3)
      then have "h' = doRelease rel h3"
        using f [unfolded forward_direct_def a Let_def prod.case pol_def [symmetric] ro] True Routed by simp
      then show ?thesis using metered_same [OF _ metered_trans [OF m2 metered_serve [OF s]]] by simp
    qed (use f a True ro m2 in \<open>auto simp: forward_direct_def Let_def pol_def elim: metered_same [rotated]\<close>)
  qed
qed

lemma metered_charge: "chargeUsage e js res m kp raw ok h' = (res', h1) \<Longrightarrow> metered h h' \<Longrightarrow> metered h h1"
  by (auto simp: chargeUsage_def Let_def metered_usage)

lemma metered_failed: "metered h h' \<Longrightarrow> metered h (orch_failed e js r raw vm str res h')"
proof (cases res)
  case (Some x)
  assume h: "metered h h'"
  obtain x' h1 where c: "chargeUsage e js x vm (hi_key r) raw False h' = (x', h1)" by (rule prod.exhaust)
  have "metered h (inc (Requests [''/chat/completions'', vm, ''orchestrator'', apiKeyID (the_key h' (hi_key r)), ''502'', boolLabel str, ''orchestration''])
      (orch_log e r vm str 502 ''orchestration_failed'' (Some (rs_Usage x')) raw [] (touch_key e (hi_key r) h1)))"
    by (intro metered_inc metered_same [OF _ metered_charge [OF c h]]) (auto simp: fun_eq_iff)
  then show ?thesis by (simp add: orch_failed_def Some c)
next
  case None
  assume h: "metered h h'"
  have "metered h (inc (Requests [''/chat/completions'', vm, ''orchestrator'', apiKeyID (the_key h' (hi_key r)), ''502'', boolLabel str, ''orchestration''])
      (orch_log e r vm str 502 ''orchestration_failed'' None raw [] h'))"
    by (intro metered_inc metered_same [OF _ h]) (auto simp: fun_eq_iff)
  then show ?thesis by (simp add: orch_failed_def None)
qed

lemma metered_done: "orch_done e js render r raw vm str res h' = (res', h1) \<Longrightarrow> metered h h' \<Longrightarrow> metered h h1"
proof -
  assume d: "orch_done e js render r raw vm str res h' = (res', h1)" and h: "metered h h'"
  obtain x h2 where c: "chargeUsage e js res vm (hi_key r) raw True h' = (x, h2)" by (rule prod.exhaust)
  have "metered h (inc (RequestLatency [''/chat/completions'', vm, ''orchestrator'', boolLabel str, ''orchestration''])
      (inc (Requests [''/chat/completions'', vm, ''orchestrator'', apiKeyID (the_key h' (hi_key r)), ''200'', boolLabel str, ''orchestration''])
        (touch_key e (hi_key r) h2)))"
    by (intro metered_inc metered_same [OF _ metered_charge [OF c h]]) (auto simp: fun_eq_iff)
  then show ?thesis using d by (auto simp: orch_done_def c Let_def elim: metered_same [rotated])
qed

lemma metered_back: "metered h h' \<Longrightarrow> metered h (orch_back st h')"
proof -
  assume h: "metered h h'"
  have "active_sum (map OrchMetric ms) k = 0" for ms k by (induction ms) (simp_all add: active_sum_def)
  moreover have "list_all valid_event (map OrchMetric ms)" for ms by (induction ms) simp_all
  ultimately have "metered h' (orch_back st h')" by (auto simp: metered_def orch_back_def)
  with h show ?thesis by (rule metered_trans)
qed

lemma metered_orchestration: "serveOrchestration e js render r raw vm str lvl g h = (ans, ws, h') \<Longrightarrow> metered h h'"
proof -
  assume f: "serveOrchestration e js render r raw vm str lvl g h = (ans, ws, h')"
  obtain rel code status h1 where a: "admit (fe_admit e) (hi_key r) vm h = ((rel, code, status), h1)" by (rule admit_cases)
  note m1 = metered_admit [OF a]
  define h2 where "h2 = inc (ActiveInc vm ''orchestrator'') h1"
  show ?thesis
  proof (cases "code = []")
    case False
    have "metered h (inc_if (isQuotaCode code) (QuotaHits (apiKeyID (the_key h1 (hi_key r))) code) h1)"
      by (rule metered_inc_if [OF _ _ m1]) (auto simp: fun_eq_iff)
    then show ?thesis using f a False by (auto simp: serveOrchestration_def elim: metered_same [rotated])
  next
    case True
    have wit: "\<exists>hx. metered h2 hx \<and> doRelease rel (inc (ActiveDec vm ''orchestrator'') y) = doRelease rel (inc (ActiveDec vm ''orchestrator'') hx)"
      if "metered h2 y" for y using that by blast
    have "\<exists>hx. metered h2 hx \<and> h' = doRelease rel (inc (ActiveDec vm ''orchestrator'') hx)"
      using f True unfolding serveOrchestration_def a prod.case Let_def h2_def [symmetric]
      by (auto split: option.splits prod.splits intro!: wit intro: metered_refl metered_failed metered_back metered_done [OF _ metered_back])
    then obtain hx where "metered h2 hx" and h': "h' = doRelease rel (inc (ActiveDec vm ''orchestrator'') hx)" by blast
    then have "metered h1 (inc (ActiveDec vm ''orchestrator'') hx)" unfolding h2_def by (intro metered_active)
    then show ?thesis using m1 unfolding h' by (intro metered_same [OF _ metered_trans [OF m1]]) simp_all
  qed
qed

lemma metered_Forward: "gateway_Forward e js render r h = (ans, snt, h') \<Longrightarrow> metered h h'"
  unfolding gateway_Forward_def
  by (auto split: sum.splits prod.splits checked.splits option.splits
      intro: metered_eq metered_refl dest: metered_orchestration metered_direct)

lemma metered_Multipart: "ForwardMultipart e js r mi h = (ans, snt, h') \<Longrightarrow> metered h h'"
proof -
  assume f: "ForwardMultipart e js r mi h = (ans, snt, h')"
  show ?thesis
  proof (cases "multipart_check r mi (fe_order e) h")
    case (Inl x)
    then show ?thesis using f by (cases x) (auto simp: ForwardMultipart_def intro: metered_refl)
  next
    case (Inr y)
    obtain model im cands where y: "y = (model, im, cands)" by (rule prod_cases3)
    obtain rel code status h1 where a: "admit (fe_admit e) (hi_key r) im h = ((rel, code, status), h1)" by (rule admit_cases)
    note m1 = metered_admit [OF a]
    have same: "metered h h'" if "hd_metrics h' = hd_metrics h1" for h' using metered_same [OF that m1] .
    have serve: "metered h (doRelease rel h3)"
      if "multipart_serve e js r model im body ct p h2 = (ans', opts, h3)" "hd_metrics h2 = hd_metrics h1" for h2 h3 body ct p ans' opts
      using metered_same [OF _ metered_trans [OF same [OF that(2)] metered_multipart [OF that(1)]]] by simp
    show ?thesis
      using f unfolding ForwardMultipart_def Inr y sum.case prod.case a Let_def
      by (auto split: if_splits option.splits prod.splits bool.splits sum.splits intro: same elim!: serve)
  qed
qed

text \<open>
  C32. No update of a metric panics and no gauge drifts: along every path of \<open>Forward\<close> and
  \<open>ForwardMultipart\<close>, errors, rejections and the orchestrated path included, each call of
  \<open>WithLabelValues\<close> has as many values as the metric has labels and no counter goes down, whatever
  numbers a backend reports; and when the request is over, the gauge of active requests of every
  model and backend has the value it had before.
\<close>

theorem metrics_sound:
  assumes "gateway_Forward e js render r h = (ans, snt, h') \<or> ForwardMultipart e js r mi h = (ans', snt', h')"
    and "meter (hd_metrics h) metrics_New = Some reg"
  shows "\<exists>reg'. meter (hd_metrics h') metrics_New = Some reg'
           \<and> (\<forall>m b. reg' (''ActiveRequests'', [m, b]) = reg (''ActiveRequests'', [m, b]))"
proof -
  have "metered h h'" using assms(1) metered_Forward metered_Multipart by blast
  then obtain ms where "hd_metrics h' = hd_metrics h @ ms" "list_all valid_event ms" "\<forall>k. active_sum ms k = 0"
    by (auto simp: metered_def)
  with assms(2) valid_meter [of ms reg] show ?thesis by (auto simp: meter_append)
qed

theorem metrics_sound_witness:
  "\<exists>ans opts h' reg'. gateway_Forward example_fwd example_codecs (\<lambda>_. []) example_request example_handler = (ans, SentTo 0 opts, h')
     \<and> meter (hd_metrics h') metrics_New = Some reg' \<and> reg' (''ActiveRequests'', [''m1'', ''b1'']) = 0"
proof -
  obtain ans opts h' where f: "gateway_Forward example_fwd example_codecs (\<lambda>_. []) example_request example_handler = (ans, SentTo 0 opts, h')"
    by (rule example_forwarded)
  have "meter (hd_metrics example_handler) metrics_New = Some metrics_New"
    by (simp add: example_handler_def handler_New_def)
  from metrics_sound [OF disjI1 [OF f] this] obtain reg' where "meter (hd_metrics h') metrics_New = Some reg'"
    "reg' (''ActiveRequests'', [''m1'', ''b1'']) = 0" by (auto simp: metrics_New_def)
  with f show ?thesis by blast
qed

end
