(* ===== verification/Admin_Secrets.thy ===== *)
theory Admin_Secrets
  imports Admin_Catalog
begin

text \<open>
  What the admin API discloses: the settings page and the notification status of
  \<^verbatim>\<open>internal/admin/admin.go\<close>, and the proof that neither a reply nor an audit event of any
  operation depends on a stored secret. Two servers that differ only in the credentials of
  backends, the hashes of keys and the passwords of users cannot be told apart through the API.
\<close>

section \<open>Settings\<close>

definition routing_json :: "RoutingConfig \<Rightarrow> json" where
  "routing_json r = JObject [(''default_policy'', JString (rc_DefaultPolicy r)), (''model_alias_enabled'', JBool (rc_ModelAliasEnabled r)),
     (''unknown_field_policy'', JString (rc_UnknownFieldPolicy r)), (''allow_degraded_backends'', JBool (rc_AllowDegradedBackends r))]"

definition queue_json :: "QueueConfig \<Rightarrow> json" where
  "queue_json q = JObject [(''enabled'', JBool (qc_Enabled q)), (''max_queue_size'', JInt (qc_MaxQueueSize q)),
     (''queue_timeout_ms'', JInt (qc_QueueTimeoutMS q)), (''per_model_limit'', JInt (qc_PerModelLimit q))]"

definition logging_json :: "LoggingConfig \<Rightarrow> json" where
  "logging_json l = JObject [(''level'', JString (lg_Level l)), (''default_log_metadata'', JBool (lg_DefaultLogMetadata l)),
     (''default_log_input'', JBool (lg_DefaultLogInput l)), (''default_log_output'', JBool (lg_DefaultLogOutput l)),
     (''default_log_raw_request'', JBool (lg_DefaultLogRawRequest l)), (''default_log_raw_response'', JBool (lg_DefaultLogRawResponse l)),
     (''default_log_stream_chunks'', JBool (lg_DefaultLogStreamChunks l))]"

definition health_check_json :: "HealthCheckConfig \<Rightarrow> json" where
  "health_check_json h = JObject
     ((case hc_Enabled h of Some b \<Rightarrow> [(''enabled'', JBool b)] | None \<Rightarrow> [])
      @ (if hc_Type h = [] then [] else [(''type'', JString (hc_Type h))])
      @ [(''interval_ms'', JInt (hc_IntervalMS h)), (''timeout_ms'', JInt (hc_TimeoutMS h)),
         (''failure_threshold'', JInt (hc_FailureThreshold h)), (''success_threshold'', JInt (hc_SuccessThreshold h)),
         (''path'', JString (hc_Path h))]
      @ (if hc_Method h = [] then [] else [(''method'', JString (hc_Method h))])
      @ (if hc_Body h = [] then [] else [(''body'', JString (hc_Body h))]))"

text \<open>\<open>settings\<close>; the handler asks for no permission, any authenticated user may read it.\<close>

definition admin_settings :: "admin_env \<Rightarrow> Config \<Rightarrow> handler" where
  "admin_settings e cfg s =
     (let st = sv_store s in
      (JSON 200
         [(''server'', JObject [(''host'', JString (sc_Host (c_Server cfg))), (''port'', JInt (sc_Port (c_Server cfg))),
             (''request_body_limit_mb'', JInt (sc_RequestBodyLimitMB (c_Server cfg))),
             (''default_timeout_ms'', JInt (sc_DefaultTimeoutMS (c_Server cfg))),
             (''stream_idle_timeout_ms'', JInt (sc_StreamIdleTimeoutMS (c_Server cfg)))]),
          (''routing'', routing_json (c_Routing cfg)),
          (''rate_limit'', JObject [(''backend'', JString (rl_Backend (c_RateLimit cfg))),
             (''default_requests_per_minute'', JInt (rl_DefaultRequestsPerMinute (c_RateLimit cfg))),
             (''default_concurrent_requests'', JInt (rl_DefaultConcurrentReq (c_RateLimit cfg)))]),
          (''storage'', JObject [(''driver'', JString (st_Driver (c_Storage cfg))),
             (''log_retention_days'', JInt (st_LogRetentionDays (c_Storage cfg)))]),
          (''queue'', queue_json (c_Queue cfg)),
          (''tracing'', JObject [(''enabled'', JBool (tc_Enabled (c_Tracing cfg))), (''service_name'', JString (tc_Service (c_Tracing cfg))),
             (''sample_ratio'', JNumber (tc_SampleRatio (c_Tracing cfg)))]),
          (''logging'', logging_json (c_Logging cfg)),
          (''metrics'', JObject [(''prometheus_enabled'', JBool (mt_PrometheusEnabled (c_Metrics cfg))),
             (''prometheus_path'', JString (mt_PrometheusPath (c_Metrics cfg)))]),
          (''dashboard'', JObject [(''enabled'', JBool (db_Enabled (c_Dashboard cfg))), (''base_url'', JString (db_BaseURL (c_Dashboard cfg)))]),
          (''health_check'', health_check_json (c_HealthCheck cfg)),
          (''auth'', JObject [(''api_key_header'', JString (ac_APIKeyHeader (c_Auth cfg))),
             (''api_key_prefix'', JString (ac_APIKeyPrefix (c_Auth cfg))), (''hash_algorithm'', JString (ac_HashAlgorithm (c_Auth cfg)))]),
          (''counts'', JObject [(''backends'', JInt (int (length (Backends (av_order e 0) st)))),
             (''models'', JInt (int (length (Models (av_order e 1) st)))),
             (''model_aliases'', JInt (int (length (ModelAliases (av_order e 2) st)))),
             (''api_keys'', JInt (int (length (APIKeys (av_order e 3) st)))),
             (''admin_users'', JInt (int (length (users_List (av_order e 4) (sv_users s)))))])], s))"

text \<open>\<open>notificationsStatus\<close>; \<open>lastRes\<close> is the result of \<open>LastResult\<close> when a notifier is attached.\<close>

definition notificationsStatus :: "admin_env \<Rightarrow> Config \<Rightarrow> (time option \<times> string) option \<Rightarrow> handler" where
  "notificationsStatus e cfg lastRes =
     with_perm ''view_logs'' e (\<lambda>s.
       let em = nc_Email (c_Notifications cfg) in
       (JSON 200
          ([(''email_enabled'', JBool (em_Enabled em)), (''recipients'', JStrings (em_To em)), (''notify_on'', JStrings (em_NotifyOn em))]
           @ (case lastRes of
                None \<Rightarrow> []
              | Some (sentAt, err) \<Rightarrow>
                  (case sentAt of None \<Rightarrow> [] | Some t \<Rightarrow> [(''last_send_at'', JString (av_format e t))]) @ [(''last_error'', JString err)])), s))"

text \<open>The admin routes with these two.\<close>

datatype admin_page = Catalog admin_op | Settings | NotificationsStatus

definition admin_page_handle :: "admin_env \<Rightarrow> Config \<Rightarrow> (time option \<times> string) option \<Rightarrow> admin_page \<Rightarrow> handler" where
  "admin_page_handle e cfg lastRes pg =
     (case pg of
        Catalog op \<Rightarrow> admin_handle e op
      | Settings \<Rightarrow> admin_settings e cfg
      | NotificationsStatus \<Rightarrow> notificationsStatus e cfg lastRes)"

section \<open>Erasing secrets\<close>

definition blank_backend :: "Backend \<Rightarrow> Backend" where
  "blank_backend b = b\<lparr>b_APIKey := []\<rparr>"

definition blank_key :: "APIKey \<Rightarrow> APIKey" where
  "blank_key k = k\<lparr>k_KeyHash := []\<rparr>"

definition blank_user :: "User \<Rightarrow> User" where
  "blank_user u = u\<lparr>u_PasswordHash := []\<rparr>"

definition blank_users :: "Users \<Rightarrow> Users" where
  "blank_users us = map (\<lambda>(n, u). (n, blank_user u)) us"

definition blank_store :: "Store \<Rightarrow> Store" where
  "blank_store st = st\<lparr>s_bheap := blank_backend \<circ> s_bheap st, s_kheap := blank_key \<circ> s_kheap st, s_keyByHash := [], s_hashSecret := []\<rparr>"

definition blank_server :: "Server \<Rightarrow> Server" where
  "blank_server s = s\<lparr>sv_store := blank_store (sv_store s),
     sv_admin := (sv_admin s)\<lparr>as_users := map_option blank_users (as_users (sv_admin s))\<rparr>\<rparr>"

text \<open>
  The secrets of a configuration: the hash secret, the password and token of the administrator, the
  URLs that carry credentials, the SMTP password, and the credentials of backends, keys and users.
\<close>

definition blank_config :: "Config \<Rightarrow> Config" where
  "blank_config cfg =
     cfg\<lparr>c_Auth := (c_Auth cfg)\<lparr>ac_HashSecret := []\<rparr>,
         c_Admin := (c_Admin cfg)\<lparr>ad_Username := [], ad_Password := [], ad_BindToken := []\<rparr>,
         c_RateLimit := (c_RateLimit cfg)\<lparr>rl_RedisURL := []\<rparr>, c_Storage := (c_Storage cfg)\<lparr>st_DSN := []\<rparr>,
         c_Notifications := (c_Notifications cfg)\<lparr>nc_Email := (nc_Email (c_Notifications cfg))\<lparr>em_Password := []\<rparr>\<rparr>,
         c_Backends := map (\<lambda>b. b\<lparr>bc_APIKey := []\<rparr>) (c_Backends cfg),
         c_APIKeys := map (\<lambda>k. k\<lparr>kc_Key := [], kc_KeyHash := []\<rparr>) (c_APIKeys cfg),
         c_AdminUsers := map (\<lambda>u. u\<lparr>au_Password := [], au_PasswordHash := []\<rparr>) (c_AdminUsers cfg)\<rparr>"

text \<open>Secrets in a request: the credential of a backend, and a password that is only compared with the empty one.\<close>

fun blank_op :: "admin_op \<Rightarrow> admin_op" where
  "blank_op (CreateBackend b) = CreateBackend (map_sum id (\<lambda>b. b\<lparr>bb_APIKey := []\<rparr>) b)"
| "blank_op (PatchBackend i b) = PatchBackend i (map_sum id (\<lambda>b. b\<lparr>bb_APIKey := []\<rparr>) b)"
| "blank_op (CreateUser b) = CreateUser (map_sum id (\<lambda>b. b\<lparr>ub_Password := (if ub_Password b = [] then [] else ''x'')\<rparr>) b)"
| "blank_op op = op"

fun blank_page :: "admin_page \<Rightarrow> admin_page" where
  "blank_page (Catalog op) = Catalog (blank_op op)"
| "blank_page pg = pg"

lemma blank_simps [simp]:
  "b_ID (blank_backend b) = b_ID b" "b_Name (blank_backend b) = b_Name b" "b_BaseURL (blank_backend b) = b_BaseURL b"
  "b_Enabled (blank_backend b) = b_Enabled b" "b_Models (blank_backend b) = b_Models b" "b_Weight (blank_backend b) = b_Weight b"
  "b_MaxConcurrentRequests (blank_backend b) = b_MaxConcurrentRequests b" "b_activeRequests (blank_backend b) = b_activeRequests b"
  "b_totalRequests (blank_backend b) = b_totalRequests b" "b_totalErrors (blank_backend b) = b_totalErrors b"
  "b_lastError (blank_backend b) = b_lastError b" "b_lastLatencyMS (blank_backend b) = b_lastLatencyMS b"
  "b_lastHealthCheckAt (blank_backend b) = b_lastHealthCheckAt b" "b_Tags (blank_backend b) = b_Tags b"
  "Status (blank_backend b) = Status b" "backend_row e (blank_backend b) = backend_row e b"
  "backend_detail e (blank_backend b) = backend_detail e b" "backend_values (blank_backend b) = backend_values b"
  by (simp_all add: blank_backend_def Status_def backend_row_def backend_detail_def backend_values_def)

lemma blank_key_simps [simp]:
  "summarizeKey e (blank_key k) = summarizeKey e k" "k_ID (blank_key k) = k_ID k" "k_KeyPrefix (blank_key k) = k_KeyPrefix k"
  by (simp_all add: blank_key_def summarizeKey_def key_Stats_def)

lemma blank_user_simps [simp]: "user_row (blank_user u) = user_row u"
  by (simp add: blank_user_def user_row_def)

lemma blank_store_simps [simp]:
  "s_bheap (blank_store st) p = blank_backend (s_bheap st p)" "s_kheap (blank_store st) p = blank_key (s_kheap st p)"
  "Backends ord (blank_store st) = Backends ord st" "APIKeys ord (blank_store st) = APIKeys ord st"
  "Models ord (blank_store st) = Models ord st" "ModelAliases ord (blank_store st) = ModelAliases ord st"
  "store_Backend i (blank_store st) = store_Backend i st" "store_APIKey i (blank_store st) = store_APIKey i st"
  "store_Model n (blank_store st) = store_Model n st" "s_next (blank_store st) = s_next st"
  by (simp_all add: blank_store_def Backends_def APIKeys_def Models_def ModelAliases_def store_Backend_def store_APIKey_def store_Model_def)

lemma blank_server_simps [simp]:
  "sv_store (blank_server s) = blank_store (sv_store s)" "sv_logs (blank_server s) = sv_logs s"
  "sv_health (blank_server s) = sv_health s" "sv_quota (blank_server s) = sv_quota s"
  by (simp_all add: blank_server_def)

text \<open>What can be observed of a step: the reply and the log.\<close>

definition seen :: "reply \<times> Server \<Rightarrow> reply \<times> Memory option" where
  "seen x = (fst x, sv_logs (snd x))"

lemma seen_audit: "sv_logs s = sv_logs s' \<Longrightarrow> sv_logs (audit e a tt ti ov nv s) = sv_logs (audit e a tt ti ov nv s')"
  by (simp add: audit_def Let_def split: option.split)

lemma seen_pair [simp]: "seen (r, s) = (r, sv_logs s)"
  by (simp add: seen_def)

lemma seen_perm: "(\<And>s. seen (f (blank_server s)) = seen (g s)) \<Longrightarrow> seen (with_perm act e f (blank_server s)) = seen (with_perm act e g s)"
  by (simp add: with_perm_def split: option.split)

lemma seen_backend:
  "(\<And>p s. seen (f p (blank_server s)) = seen (g p s)) \<Longrightarrow> seen (with_backend i f (blank_server s)) = seen (with_backend i g s)"
  by (simp add: with_backend_def split: option.split)

lemma seen_key:
  "(\<And>p s. seen (f p (blank_server s)) = seen (g p s)) \<Longrightarrow> seen (with_key i f (blank_server s)) = seen (with_key i g s)"
  by (simp add: with_key_def split: option.split)

lemma seen_decoded:
  "(\<And>d s. seen (f (h d) (blank_server s)) = seen (g d s)) \<Longrightarrow> seen (decoded (map_sum id h b) f (blank_server s)) = seen (decoded b g s)"
  by (cases b) (simp_all add: decoded_def)

lemma seen_decoded_same:
  "(\<And>d s. seen (f d (blank_server s)) = seen (g d s)) \<Longrightarrow> seen (decoded b f (blank_server s)) = seen (decoded b g s)"
  by (cases b) (simp_all add: decoded_def)

text \<open>The audit event of a step, for logs that agree before it.\<close>

lemma seen_audited: "sv_logs s = sv_logs s' \<Longrightarrow> r = r' \<Longrightarrow> ov = ov' \<Longrightarrow> nv = nv' \<Longrightarrow> ti = ti' \<Longrightarrow>
  seen (r, audit e a tt ti ov nv s) = seen (r', audit e a tt ti' ov' nv' s')"
  by (auto intro: seen_audit)

lemma seen_lists:
  "seen (listBackends e (blank_server s)) = seen (listBackends e s)"
  "seen (getBackend e i (blank_server s)) = seen (getBackend e i s)"
  "seen (listModels e (blank_server s)) = seen (listModels e s)" "seen (getModel n (blank_server s)) = seen (getModel n s)"
  "seen (listAliases e (blank_server s)) = seen (listAliases e s)" "seen (listAPIKeys e (blank_server s)) = seen (listAPIKeys e s)"
  "seen (getAPIKey e i (blank_server s)) = seen (getAPIKey e i s)" "seen (keyUsage e i (blank_server s)) = seen (keyUsage e i s)"
  "seen (admin_me e (blank_server s)) = seen (admin_me e s)"
  by (auto simp: listBackends_def getBackend_def listModels_def getModel_def listAliases_def listAPIKeys_def getAPIKey_def keyUsage_def
      admin_me_def Let_def intro!: seen_backend seen_key split: option.split prod.split)

lemma seen_stats:
  "seen (statsOverview e (blank_server s)) = seen (statsOverview e s)" "seen (statsRange e (blank_server s)) = seen (statsRange e s)"
  "seen (statsModels e (blank_server s)) = seen (statsModels e s)" "seen (statsBackends e (blank_server s)) = seen (statsBackends e s)"
  "seen (statsAPIKeys e (blank_server s)) = seen (statsAPIKeys e s)" "seen (adminMetrics e (blank_server s)) = seen (adminMetrics e s)"
  "seen (listLogs e (blank_server s)) = seen (listLogs e s)" "seen (listAudit e (blank_server s)) = seen (listAudit e s)"
  by (auto simp: statsOverview_def statsRange_def statsModels_def statsBackends_def statsAPIKeys_def stats_table_def adminMetrics_def
      listLogs_def listAudit_def healthyBackends_def totalActiveRequests_def Let_def intro!: seen_perm split: option.split)

lemma blank_user_rows: "map user_row (users_List ord (blank_users us)) = map user_row (users_List ord us)"
proof -
  have m: "map_of (blank_users us) k = map_option blank_user (map_of us k)" for k
    by (induction us) (auto simp: blank_users_def)
  have k: "keys_of (blank_users us) = keys_of us" by (simp add: blank_users_def comp_def case_prod_unfold)
  have f: "List.map_filter (map_of (blank_users us)) ks = map blank_user (List.map_filter (map_of us) ks)" for ks
    by (induction ks) (simp_all add: List.map_filter_simps m split: option.split)
  show ?thesis unfolding users_List_def range_map_def k f by (simp add: comp_def)
qed

lemma seen_users:
  "seen (listUsers e (blank_server s)) = seen (listUsers e s)"
  "seen (createUser_handler e (map_sum id (\<lambda>b. b\<lparr>ub_Password := (if ub_Password b = [] then [] else ''x'')\<rparr>) b) (blank_server s))
     = seen (createUser_handler e b s)"
  "seen (deleteUser_handler e n (blank_server s)) = seen (deleteUser_handler e n s)"
proof -
  show "seen (listUsers e (blank_server s)) = seen (listUsers e s)"
    unfolding listUsers_def by (rule seen_perm) (simp add: sv_users_def blank_server_def blank_user_rows split: option.split)
  show "seen (deleteUser_handler e n (blank_server s)) = seen (deleteUser_handler e n s)"
    unfolding deleteUser_handler_def by (intro seen_perm seen_audited) (simp_all add: set_users_def)
  show "seen (createUser_handler e (map_sum id (\<lambda>b. b\<lparr>ub_Password := (if ub_Password b = [] then [] else ''x'')\<rparr>) b) (blank_server s))
     = seen (createUser_handler e b s)"
    unfolding createUser_handler_def
    by (intro seen_perm seen_decoded) (auto simp: user_of_body_def Let_def set_users_def intro!: seen_audit)
qed

lemma blank_audit: "sv_logs (audit e a tt ti ov nv s) = (case sv_logs s of None \<Rightarrow> None
    | Some m \<Rightarrow> Some (AppendAudit \<lparr>ae_ID = av_eventID e, ae_AdminUser = (case av_user e of Some u \<Rightarrow> u_Username u | None \<Rightarrow> ''anonymous''),
        ae_Action = a, ae_TargetType = tt, ae_TargetID = ti, ae_OldValue = ov, ae_NewValue = nv, ae_IP = av_IP e,
        ae_UserAgent = av_UserAgent e, ae_CreatedAt = av_now e\<rparr> m))"
  by (simp add: audit_def Let_def split: option.split)

text \<open>Probes and updates of a backend act alike on the erased one.\<close>

lemma record_blank: "fst (RecordHealthCheck t ok lat err (blank_backend b)) = blank_backend (fst (RecordHealthCheck t ok lat err b))"
  by (cases ok) (simp_all add: RecordHealthCheck_def Let_def threshSucc_def threshFail_def blank_backend_def)

lemma health_record_blank: "fst (health_record t ok lat err (blank_backend b)) = blank_backend (fst (health_record t ok lat err b))"
proof -
  obtain x y z x' y' z' where r: "RecordHealthCheck t ok lat err b = (x, y, z)" "RecordHealthCheck t ok lat err (blank_backend b) = (x', y', z')"
    by (metis prod_cases3)
  then have "x' = blank_backend x" using record_blank [of t ok lat err b] by simp
  then show ?thesis by (simp add: health_record_def r)
qed

lemma degraded_blank: "fst (recordDegraded t lat err (blank_backend b)) = blank_backend (fst (recordDegraded t lat err b))"
  by (simp add: recordDegraded_def Let_def MarkDegraded_def blank_backend_def)

lemma blank_check: "fst (checkOne d t a (blank_backend b)) = blank_backend (fst (checkOne d t a b))"
proof -
  have e: "effective d (blank_backend b) = effective d b" by (simp add: effective_def blank_backend_def)
  show ?thesis
    by (simp add: checkOne_def e tcpProbe_def httpProbe_def health_record_blank degraded_blank split: probe_answer.split)
qed

definition norm_backend :: "Backend \<Rightarrow> Backend" where
  "norm_backend b = (let b1 = (if b_Weight b < 0 then b\<lparr>b_Weight := 1\<rparr> else b) in b1\<lparr>b_BaseURL := TrimRight (b_BaseURL b1) (CHR ''/'')\<rparr>)"

lemma heap_updates:
  "s_bheap (upd_backend p f st) p = f (s_bheap st p)" "s_bheap (UpsertBackend p st) p = norm_backend (s_bheap st p)"
  by (simp_all add: UpsertBackend_def Let_def upd_backend_def norm_backend_def)

lemma blank_updates:
  "norm_backend (blank_backend b) = blank_backend (norm_backend b)"
  "patch_fields (d\<lparr>bb_APIKey := []\<rparr>) (blank_backend b) = blank_backend (patch_fields d b)"
  "backend_of_body (d\<lparr>bb_APIKey := []\<rparr>) = blank_backend (backend_of_body d)"
  "MarkMaintenance x (blank_backend b) = blank_backend (MarkMaintenance x b)"
  by (simp_all add: norm_backend_def Let_def backend_of_body_def MarkMaintenance_def blank_backend_def)
     (rule Backend.equality; simp add: patch_fields_def cong: option.case_cong)

lemma seen_backend_ops:
  "seen (createBackend e (map_sum id (\<lambda>b. b\<lparr>bb_APIKey := []\<rparr>) b) (blank_server s)) = seen (createBackend e b s)"
  "seen (patchBackend e i (map_sum id (\<lambda>b. b\<lparr>bb_APIKey := []\<rparr>) b) (blank_server s)) = seen (patchBackend e i b s)"
  "seen (deleteBackend e i (blank_server s)) = seen (deleteBackend e i s)"
  "seen (set_backend_enabled on act e i (blank_server s)) = seen (set_backend_enabled on act e i s)"
  "seen (healthCheck e i (blank_server s)) = seen (healthCheck e i s)"
  "seen (toggleMaintenance e i m (blank_server s)) = seen (toggleMaintenance e i m s)"
proof -
  show "seen (deleteBackend e i (blank_server s)) = seen (deleteBackend e i s)"
    unfolding deleteBackend_def by (intro seen_perm seen_audited) simp_all
  show "seen (set_backend_enabled on act e i (blank_server s)) = seen (set_backend_enabled on act e i s)"
    unfolding set_backend_enabled_def by (intro seen_perm seen_backend seen_audited) simp_all
  show "seen (healthCheck e i (blank_server s)) = seen (healthCheck e i s)"
    unfolding healthCheck_def
    by (intro seen_perm seen_backend) (simp add: CheckOnce_def heap_updates blank_check Let_def split: option.split)
  show "seen (toggleMaintenance e i m (blank_server s)) = seen (toggleMaintenance e i m s)"
    unfolding toggleMaintenance_def Let_def
    by (intro seen_perm seen_backend seen_audited) (simp_all add: heap_updates blank_updates)
  have heap: "s_bheap (sv_store (restart_loop p x)) = s_bheap (sv_store x)" "sv_logs (restart_loop p x) = sv_logs x" for p x
    by (simp_all add: restart_loop_def Let_def)
  show "seen (patchBackend e i (map_sum id (\<lambda>b. b\<lparr>bb_APIKey := []\<rparr>) b) (blank_server s)) = seen (patchBackend e i b s)"
    unfolding patchBackend_def Let_def
    by (intro seen_perm seen_backend seen_decoded seen_audited) (simp_all add: heap heap_updates blank_updates)
  have probe: "sv_logs (probe_and_add e p x) = sv_logs x"
    "s_bheap (sv_store (probe_and_add e p x)) p = (case sv_health x of None \<Rightarrow> s_bheap (sv_store x) p
       | Some hc \<Rightarrow> fst (checkOne (h_defaults hc) (av_now e) (av_probe e) (s_bheap (sv_store x) p)))" for p x
    by (simp_all add: probe_and_add_def CheckOnce_def heap_updates Let_def split: option.split)
  show "seen (createBackend e (map_sum id (\<lambda>b. b\<lparr>bb_APIKey := []\<rparr>) b) (blank_server s)) = seen (createBackend e b s)"
    unfolding createBackend_def Let_def new_backend_def prod.case
    by (intro seen_perm seen_decoded)
       (auto simp: probe heap_updates blank_updates blank_check intro!: seen_audit arg_cong2 [where f = "audit _ _ _ _ _"] split: option.split)
qed

text \<open>The catalog of models and aliases has no secrets.\<close>

lemma blank_model_store:
  "store_Model n (UpsertModel m (blank_store st)) = store_Model n (UpsertModel m st)"
  "lookupAlias ord a (blank_store st) = lookupAlias ord a st"
  by (simp_all add: UpsertModel_def blank_store_def store_Model_def lookupAlias_def ModelAliases_def Let_def)

lemma seen_model_ops:
  "seen (upsertModel e mb (blank_server s)) = seen (upsertModel e mb s)" "seen (patchModel e n mp (blank_server s)) = seen (patchModel e n mp s)"
  "seen (deleteModel e n (blank_server s)) = seen (deleteModel e n s)" "seen (upsertAlias e ab (blank_server s)) = seen (upsertAlias e ab s)"
  "seen (patchAlias e n ap (blank_server s)) = seen (patchAlias e n ap s)" "seen (deleteAlias e n (blank_server s)) = seen (deleteAlias e n s)"
  unfolding upsertModel_def patchModel_def deleteModel_def upsertAlias_def patchAlias_def deleteAlias_def
  by (auto simp: Let_def decoded_def blank_model_store blank_audit intro!: seen_perm split: option.splits sum.splits if_splits)

text \<open>What an upsert does to the fields of a key that are shown.\<close>

definition norm_key :: "string \<Rightarrow> APIKey \<Rightarrow> APIKey" where
  "norm_key raw k =
     (let k' = (if raw \<noteq> [] \<and> k_KeyPrefix k = [] \<and> 8 \<le> length raw then k\<lparr>k_KeyPrefix := take 8 raw\<rparr> else k)
      in if k_ID k' = [] then k'\<lparr>k_ID := k_KeyPrefix k'\<rparr> else k')"

lemma blank_upsert_key: "blank_key (s_kheap (UpsertAPIKey hm p raw st) p) = blank_key (norm_key raw (s_kheap st p))"
  by (auto simp: UpsertAPIKey_def index_key_def upd_key_def Let_def norm_key_def blank_key_def)

lemma shown_key:
  assumes "blank_key k = blank_key k'"
  shows "summarizeKey e k = summarizeKey e k'" "k_ID k = k_ID k'" "k_KeyPrefix k = k_KeyPrefix k'" "k_AllowedModels k = k_AllowedModels k'"
proof -
  show "summarizeKey e k = summarizeKey e k'" by (metis assms blank_key_simps(1))
  show "k_ID k = k_ID k'" by (metis assms blank_key_simps(2))
  show "k_KeyPrefix k = k_KeyPrefix k'" by (metis assms blank_key_simps(3))
  show "k_AllowedModels k = k_AllowedModels k'" using arg_cong [OF assms, of k_AllowedModels] by (simp add: blank_key_def)
qed

lemmas shown_upsert = shown_key [OF blank_upsert_key]

lemma blank_key_updates:
  "norm_key raw (blank_key k) = blank_key (norm_key raw k)" "patch_key e d (blank_key k) = blank_key (patch_key e d k)"
  "(blank_key k)\<lparr>k_Enabled := on\<rparr> = blank_key (k\<lparr>k_Enabled := on\<rparr>)"
  "(blank_key k)\<lparr>k_KeyPrefix := x, k_KeyHash := y\<rparr> = k\<lparr>k_KeyPrefix := x, k_KeyHash := y\<rparr>"
  by (simp_all add: norm_key_def Let_def blank_key_def) (rule APIKey.equality; simp add: patch_key_def split: option.split)

lemma key_heap:
  "s_kheap (upd_key p f st) p = f (s_kheap st p)" "s_kheap (DeleteAPIKey i st) = s_kheap st"
  by (simp_all add: upd_key_def DeleteAPIKey_def Let_def split: option.split)

lemma seen_key_ops:
  "seen (createAPIKey e kb (blank_server s)) = seen (createAPIKey e kb s)" "seen (patchAPIKey e i kp (blank_server s)) = seen (patchAPIKey e i kp s)"
  "seen (deleteAPIKey e i (blank_server s)) = seen (deleteAPIKey e i s)" "seen (setAPIKeyEnabled on e i (blank_server s)) = seen (setAPIKeyEnabled on e i s)"
  "seen (rotateAPIKey e i raw (blank_server s)) = seen (rotateAPIKey e i raw s)"
proof -
  show "seen (deleteAPIKey e i (blank_server s)) = seen (deleteAPIKey e i s)"
    unfolding deleteAPIKey_def by (intro seen_perm seen_audited) simp_all
  show "seen (setAPIKeyEnabled on e i (blank_server s)) = seen (setAPIKeyEnabled on e i s)"
    unfolding setAPIKeyEnabled_def Let_def
    by (intro seen_key seen_audited) (simp_all add: shown_upsert key_heap blank_key_updates)
  show "seen (patchAPIKey e i kp (blank_server s)) = seen (patchAPIKey e i kp s)"
    unfolding patchAPIKey_def Let_def
    by (intro seen_perm seen_key seen_decoded_same seen_audited) (simp_all add: shown_upsert key_heap blank_key_updates)
  show "seen (rotateAPIKey e i raw (blank_server s)) = seen (rotateAPIKey e i raw s)"
    unfolding rotateAPIKey_def Let_def
    by (intro seen_perm seen_key seen_audited) (simp_all add: shown_upsert key_heap blank_key_updates)
  show "seen (createAPIKey e kb (blank_server s)) = seen (createAPIKey e kb s)"
    unfolding createAPIKey_def Let_def new_key_def prod.case
    by (intro seen_perm seen_decoded_same seen_audited) (simp_all add: shown_upsert)
qed

text \<open>
  C20. The admin API discloses no stored secret. Erase from the server the credentials of all backends,
  the hashes of all keys with their index and the hash secret, the password hashes of all users,
  from the configuration every password, token, credential and URL that carries one, and from the
  request the credential of a backend and the password of a user: the reply of every page and
  operation is the same, and so is everything that it writes to the audit log. Nothing that an
  authenticated user of any role receives depends on a secret, the answer of a probed backend being
  the same: a probe sends the credential of the backend, and what comes back is an argument. The
  prefixes of keys are shown on purpose and are not erased.
\<close>

theorem admin_discloses_no_secrets:
  "seen (admin_page_handle e (blank_config cfg) lastRes (blank_page pg) (blank_server s)) = seen (admin_page_handle e cfg lastRes pg s)"
proof (cases pg)
  case (Catalog op)
  show ?thesis unfolding Catalog admin_page_handle_def blank_page.simps admin_page.case
  proof (cases op)
    case (EnableAPIKey i)
    then show "seen (admin_handle e (blank_op op) (blank_server s)) = seen (admin_handle e op s)"
      by (simp add: enableAPIKey_def seen_perm seen_key_ops)
  next
    case (DisableAPIKey i)
    then show "seen (admin_handle e (blank_op op) (blank_server s)) = seen (admin_handle e op s)"
      by (simp add: disableAPIKey_def seen_perm seen_key_ops)
  qed (simp_all add: seen_lists seen_stats seen_users seen_backend_ops seen_model_ops seen_key_ops enableBackend_def disableBackend_def)
next
  case Settings
  have "length (users_List ord (sv_users (blank_server s))) = length (users_List ord (sv_users s))" for ord
    using arg_cong [OF blank_user_rows, of length] by (simp add: sv_users_def blank_server_def split: option.split)
  then show ?thesis by (simp add: Settings admin_page_handle_def admin_settings_def blank_config_def Let_def)
next
  case NotificationsStatus
  have "notificationsStatus e (blank_config cfg) lastRes = notificationsStatus e cfg lastRes"
    by (simp add: notificationsStatus_def blank_config_def Let_def)
  moreover have "seen (notificationsStatus e cfg lastRes (blank_server s)) = seen (notificationsStatus e cfg lastRes s)"
    unfolding notificationsStatus_def Let_def by (rule seen_perm) simp
  ultimately show ?thesis by (simp add: NotificationsStatus admin_page_handle_def)
qed

end
