(* ===== verification/Orch_Render.thy ===== *)
theory Orch_Render
  imports Gateway_Forward
begin

text \<open>
  How an orchestrated answer is written: \<open>BuildChatCompletion\<close> of
  \<^verbatim>\<open>internal/orchestrator/orchestrator.go\<close> for a whole answer and \<open>writeOrchestrationStream\<close> of
  \<^verbatim>\<open>internal/handlers/orchestration.go\<close> for a stream of server-sent events. \<open>json.Marshal\<close> is an
  argument on the objects that are encoded.
\<close>

section \<open>Objects\<close>

record x_orchestration =
  xo_tier :: string
  xo_task :: string
  xo_confidence :: rat
  xo_escalated :: bool
  xo_route :: "StepInfo list"

definition orch_trace :: "Result \<Rightarrow> x_orchestration" where
  "orch_trace r = \<lparr>xo_tier = rs_Tier r, xo_task = rs_Task r, xo_confidence = rs_Confidence r, xo_escalated = rs_Escalated r, xo_route = rs_Steps r\<rparr>"

record completion_choice =
  cc_Index :: int
  cc_Role :: string
  cc_Content :: string
  cc_FinishReason :: string

record chat_completion =
  cm_id :: string
  cm_object :: string
  cm_created :: int
  cm_model :: string
  cm_choices :: "completion_choice list"
  cm_usage :: Usage_block
  cm_trace :: x_orchestration

definition BuildChatCompletion :: "string \<Rightarrow> string \<Rightarrow> int \<Rightarrow> Result \<Rightarrow> chat_completion" where
  "BuildChatCompletion cid model created r =
     \<lparr>cm_id = cid, cm_object = ''chat.completion'', cm_created = created, cm_model = model,
      cm_choices = [\<lparr>cc_Index = 0, cc_Role = ''assistant'', cc_Content = rs_Content r, cc_FinishReason = ''stop''\<rparr>],
      cm_usage = rs_Usage r, cm_trace = orch_trace r\<rparr>"

text \<open>A delta with an empty role or content leaves the field out, which reads back as empty.\<close>

record chunk_choice =
  kc_Index :: int
  kd_Role :: string
  kd_Content :: string
  kc_FinishReason :: "string option"

record chunk =
  ck_id :: string
  ck_object :: string
  ck_created :: int
  ck_model :: string
  ck_choices :: "chunk_choice list"
  ck_usage :: "Usage_block option"
  ck_trace :: "x_orchestration option"

definition base_chunk :: "string \<Rightarrow> string \<Rightarrow> int \<Rightarrow> chunk_choice list \<Rightarrow> chunk" where
  "base_chunk cid model created choices =
     \<lparr>ck_id = cid, ck_object = ''chat.completion.chunk'', ck_created = created, ck_model = model, ck_choices = choices,
      ck_usage = None, ck_trace = None\<rparr>"

definition content_chunk :: "string \<Rightarrow> string \<Rightarrow> int \<Rightarrow> Result \<Rightarrow> chunk" where
  "content_chunk cid model created r =
     base_chunk cid model created [\<lparr>kc_Index = 0, kd_Role = ''assistant'', kd_Content = rs_Content r, kc_FinishReason = None\<rparr>]"

definition final_chunk :: "string \<Rightarrow> string \<Rightarrow> int \<Rightarrow> Result \<Rightarrow> chunk" where
  "final_chunk cid model created r =
     (base_chunk cid model created [\<lparr>kc_Index = 0, kd_Role = [], kd_Content = [], kc_FinishReason = Some ''stop''\<rparr>])
       \<lparr>ck_usage := Some (rs_Usage r), ck_trace := Some (orch_trace r)\<rparr>"

section \<open>Responses\<close>

definition LF :: char where
  "LF = CHR 0x0A"

definition sse_event :: "string \<Rightarrow> string" where
  "sse_event payload = ''data: '' @ payload @ [LF, LF]"

record http_out =
  ho_Header :: http_Header
  ho_Status :: int
  ho_Body :: string

definition writeOrchestrationStream :: "(chunk \<Rightarrow> string) \<Rightarrow> string \<Rightarrow> string \<Rightarrow> int \<Rightarrow> Result \<Rightarrow> http_Header \<Rightarrow> http_out" where
  "writeOrchestrationStream marshal cid model created r hdr =
     \<lparr>ho_Header = hdr_Set ''Connection'' ''keep-alive'' (hdr_Set ''Cache-Control'' ''no-cache'' (hdr_Set ''Content-Type'' ''text/event-stream'' hdr)),
      ho_Status = 200,
      ho_Body = sse_event (marshal (content_chunk cid model created r)) @ sse_event (marshal (final_chunk cid model created r)) @ sse_event ''[DONE]''\<rparr>"

definition write_completion :: "(chat_completion \<Rightarrow> string) \<Rightarrow> string \<Rightarrow> string \<Rightarrow> int \<Rightarrow> Result \<Rightarrow> http_Header \<Rightarrow> http_out" where
  "write_completion marshal cid model created r hdr =
     (let body = marshal (BuildChatCompletion cid model created r)
      in \<lparr>ho_Header = hdr_Set ''Content-Length'' (Itoa (int (length body))) (hdr_Set ''Content-Type'' ''application/json'' hdr),
          ho_Status = 200, ho_Body = body\<rparr>)"

section \<open>A client of the stream\<close>

text \<open>
  A reference reader of server-sent events: the lines that start with \<open>data: \<close>, up to \<open>[DONE]\<close>.
  Its state collects the deltas the way OpenAI clients do.
\<close>

definition data_lines :: "string \<Rightarrow> string list" where
  "data_lines body = map (drop 6) (filter (\<lambda>l. HasPrefix l ''data: '') (Split body LF))"

fun read_chunks :: "(string \<Rightarrow> chunk option) \<Rightarrow> string list \<Rightarrow> chunk list option" where
  "read_chunks um [] = None"
| "read_chunks um (d # ds) =
     (if d = ''[DONE]'' then Some []
      else case um d of None \<Rightarrow> None | Some c \<Rightarrow> map_option (\<lambda>cs. c # cs) (read_chunks um ds))"

definition first_some :: "'a option list \<Rightarrow> 'a option" where
  "first_some xs = (case filter (\<lambda>x. x \<noteq> None) xs of [] \<Rightarrow> None | x # _ \<Rightarrow> x)"

definition assemble :: "chunk list \<Rightarrow> (string \<times> string \<times> string \<times> string option \<times> Usage_block option \<times> x_orchestration option)" where
  "assemble cs =
     (let chs = concat (map ck_choices cs)
      in (case cs of [] \<Rightarrow> [] | c # _ \<Rightarrow> ck_id c, concat (map kd_Role chs), concat (map kd_Content chs),
          first_some (map kc_FinishReason chs), first_some (map ck_usage cs), first_some (map ck_trace cs)))"

text \<open>The same view of a whole answer.\<close>

definition whole :: "chat_completion \<Rightarrow> (string \<times> string \<times> string \<times> string option \<times> Usage_block option \<times> x_orchestration option)" where
  "whole m = (cm_id m, concat (map cc_Role (cm_choices m)), concat (map cc_Content (cm_choices m)),
     first_some (map (Some \<circ> cc_FinishReason) (cm_choices m)), Some (cm_usage m), Some (cm_trace m))"

lemma data_lines_event:
  assumes "LF \<notin> set payload"
  shows "data_lines (sse_event payload @ rest) = payload # data_lines rest"
proof -
  have "LF \<notin> set (''data: '' @ payload)" using assms by (auto simp: LF_def)
  from Split_cons [OF this, of "LF # rest"]
  have "Split (sse_event payload @ rest) LF = (''data: '' @ payload) # [] # Split rest LF"
    by (simp add: sse_event_def)
  then show ?thesis by (simp add: data_lines_def HasPrefix_def)
qed

text \<open>What the client relies on: the encoding of an object is one line, is not the end mark, and decodes to the object.\<close>

definition encodes :: "(chunk \<Rightarrow> string) \<Rightarrow> (string \<Rightarrow> chunk option) \<Rightarrow> chunk \<Rightarrow> bool" where
  "encodes marshal um c \<longleftrightarrow> LF \<notin> set (marshal c) \<and> marshal c \<noteq> ''[DONE]'' \<and> um (marshal c) = Some c"

text \<open>
  C26. A streamed orchestration carries what the whole answer carries: an event-stream client that
  reads the body of \<open>writeOrchestrationStream\<close> gets complete events up to the end mark, and the chunks
  it decodes assemble to the id, the role, the content, the finish reason, the usage and the route
  trace of the object that \<open>BuildChatCompletion\<close> builds from the same result.
\<close>

theorem orchestration_stream_complete:
  assumes "encodes marshal um (content_chunk cid model created r)" and "encodes marshal um (final_chunk cid model created r)"
  shows "map_option assemble (read_chunks um (data_lines (ho_Body (writeOrchestrationStream marshal cid model created r hdr))))
       = Some (whole (BuildChatCompletion cid model created r))"
proof -
  let ?c = "content_chunk cid model created r" and ?f = "final_chunk cid model created r"
  have "LF \<notin> set ''[DONE]''" by (simp add: LF_def)
  then have "data_lines (ho_Body (writeOrchestrationStream marshal cid model created r hdr)) = [marshal ?c, marshal ?f, ''[DONE]''] @ data_lines []"
    using assms data_lines_event [of "''[DONE]''" "[]"] by (simp add: writeOrchestrationStream_def encodes_def data_lines_event)
  then have "read_chunks um (data_lines (ho_Body (writeOrchestrationStream marshal cid model created r hdr))) = Some [?c, ?f]"
    using assms by (simp add: encodes_def)
  moreover have "assemble [?c, ?f] = whole (BuildChatCompletion cid model created r)"
    by (simp add: assemble_def whole_def content_chunk_def final_chunk_def base_chunk_def BuildChatCompletion_def first_some_def Let_def)
  ultimately show ?thesis by simp
qed

definition sample_result :: Result where
  "sample_result = \<lparr>rs_Content = ''hi'', rs_Usage = zero_usage, rs_Tier = ''A'', rs_Task = ''chat'', rs_Confidence = 1, rs_Escalated = False, rs_Steps = []\<rparr>"

theorem orchestration_stream_complete_witness:
  "map_option assemble (read_chunks
      (\<lambda>s. if s = ''{1}'' then Some (content_chunk ''c'' ''m'' 5 sample_result) else Some (final_chunk ''c'' ''m'' 5 sample_result))
      (data_lines (ho_Body (writeOrchestrationStream (\<lambda>k. if ck_usage k = None then ''{1}'' else ''{2}'') ''c'' ''m'' 5 sample_result []))))
   = Some (whole (BuildChatCompletion ''c'' ''m'' 5 sample_result))"
  by (rule orchestration_stream_complete)
     (simp_all add: encodes_def LF_def content_chunk_def final_chunk_def base_chunk_def)

end
