(* ===== verification/Web_Model.thy ===== *)
theory Web_Model
  imports Proxy_Model
begin

text \<open>
  The dashboard, \<^verbatim>\<open>web/web.go\<close>: the redirects and the handler of the embedded files. \<open>path.Clean\<close> is
  modelled on rooted paths by its documented rules; the embedded file system and the MIME table are
  arguments.
\<close>

section \<open>Paths\<close>

fun join_segments :: "string list \<Rightarrow> char \<Rightarrow> string" where
  "join_segments [] c = []"
| "join_segments [s] c = s"
| "join_segments (s # t # ss) c = s @ c # join_segments (t # ss) c"

text \<open>
  The segments of a rooted path: an empty segment and \<open>.\<close> go, \<open>..\<close> takes the segment before it
  along, and at the root it goes by itself.
\<close>

fun clean_segments :: "string list \<Rightarrow> string list \<Rightarrow> string list" where
  "clean_segments acc [] = rev acc"
| "clean_segments acc (s # ss) =
     (if s = [] \<or> s = ''.'' then clean_segments acc ss
      else if s = ''..'' then clean_segments (case acc of [] \<Rightarrow> [] | _ # rest \<Rightarrow> rest) ss
      else clean_segments (s # acc) ss)"

definition Clean_rooted :: "string \<Rightarrow> string" where
  "Clean_rooted p = CHR ''/'' # join_segments (clean_segments [] (Split p (CHR ''/''))) (CHR ''/'')"

text \<open>\<open>path.Ext\<close>: the suffix from the last dot of the last segment.\<close>

definition Ext :: "string \<Rightarrow> string" where
  "Ext p =
     (let base = last (Split p (CHR ''/'')); ext = takeWhile (\<lambda>c. c \<noteq> CHR ''.'') (rev base)
      in if CHR ''.'' \<in> set base then CHR ''.'' # rev ext else [])"

section \<open>The handler\<close>

definition ui_file :: "string \<Rightarrow> string" where
  "ui_file path =
     (let p0 = TrimPrefix path ''/ui/'';
          p1 = (if p0 = [] \<or> \<not> Contains p0 ''.'' then ''index.html'' else p0);
          p2 = drop 1 (Clean_rooted (CHR ''/'' # p1))
      in if p2 = [] then ''index.html'' else p2)"

datatype ui_answer = UiNotFound | UiRedirect string int | UiContent http_Header string

definition ui_ServeHTTP :: "(string \<Rightarrow> string option) \<Rightarrow> (string \<Rightarrow> string) \<Rightarrow> http_Header \<Rightarrow> string \<Rightarrow> ui_answer" where
  "ui_ServeHTTP ReadFile mime hdr path =
     (let p = ui_file path in
      case ReadFile p of
        None \<Rightarrow> UiNotFound
      | Some data \<Rightarrow>
          let ct = mime (Ext p); h1 = (if ct \<noteq> [] then hdr_Set ''Content-Type'' ct hdr else hdr)
          in UiContent (hdr_Set ''Cache-Control'' ''no-store'' h1) data)"

text \<open>The patterns of \<open>Register\<close>; \<open>None\<close> when none of them matches.\<close>

definition ui_route :: "(string \<Rightarrow> string option) \<Rightarrow> (string \<Rightarrow> string) \<Rightarrow> string \<Rightarrow> string \<Rightarrow> ui_answer option" where
  "ui_route ReadFile mime meth path =
     (if meth \<noteq> ''GET'' \<and> meth \<noteq> ''HEAD'' then None
      else if path = ''/ui'' \<or> path = ''/'' then Some (UiRedirect ''/ui/'' 302)
      else if HasPrefix path ''/ui/'' then Some (ui_ServeHTTP ReadFile mime [] path)
      else None)"

section \<open>Confinement\<close>

text \<open>\<open>fs.ValidPath\<close>, without the special case of the root.\<close>

definition valid_path :: "string \<Rightarrow> bool" where
  "valid_path p \<longleftrightarrow> (\<forall>s \<in> set (Split p (CHR ''/'')). s \<noteq> [] \<and> s \<noteq> ''.'' \<and> s \<noteq> ''..'')"

definition good_segment :: "string \<Rightarrow> bool" where
  "good_segment s \<longleftrightarrow> s \<noteq> [] \<and> s \<noteq> ''.'' \<and> s \<noteq> ''..'' \<and> CHR ''/'' \<notin> set s"

lemma clean_segments_good:
  "list_all good_segment acc \<Longrightarrow> list_all (\<lambda>s. CHR ''/'' \<notin> set s) ss \<Longrightarrow> list_all good_segment (clean_segments acc ss)"
proof (induction acc ss rule: clean_segments.induct)
  case (2 acc s ss)
  have "list_all good_segment (case acc of [] \<Rightarrow> [] | _ # rest \<Rightarrow> rest)" using 2(4) by (cases acc) auto
  then show ?case using 2 by (auto simp: good_segment_def [of s])
qed (simp add: list_all_iff)

lemma Split_joined: "ss \<noteq> [] \<Longrightarrow> list_all (\<lambda>s. c \<notin> set s) ss \<Longrightarrow> Split (join_segments ss c) c = ss"
  by (induction ss c rule: join_segments.induct) (simp_all add: Split_no_sep Split_cons)

lemma clean_kept: "list_all good_segment ss \<Longrightarrow> clean_segments acc ss = rev acc @ ss"
  by (induction ss arbitrary: acc) (auto simp: good_segment_def)

lemma clean_good: "list_all good_segment (clean_segments [] (Split p (CHR ''/'')))"
  by (rule clean_segments_good) (auto simp: list_all_iff dest: Split_parts)

lemma valid_joined: "ss \<noteq> [] \<Longrightarrow> list_all good_segment ss \<Longrightarrow> valid_path (join_segments ss (CHR ''/''))"
  using Split_joined [of ss "CHR ''/''"] by (simp add: valid_path_def good_segment_def list_all_iff)

text \<open>
  The dashboard serves nothing outside its directory: whatever path a request names, with dot
  segments, repeated slashes or no extension, the file that the handler opens is a path of ordinary
  segments (never empty, \<open>.\<close> or \<open>..\<close>, so it is relative and stays below the embedded root), and a
  path that is already one, with a dot in it, is opened as it is.
\<close>

theorem ui_path_confined:
  "valid_path (ui_file path) \<and> (valid_path p \<and> Contains p ''.'' \<longrightarrow> ui_file (''/ui/'' @ p) = p)"
proof (intro conjI impI)
  have index: "valid_path ''index.html''" by (simp add: valid_path_def)
  show "valid_path (ui_file path)"
  proof -
    define segs where "segs q = clean_segments [] (Split (CHR ''/'' # q) (CHR ''/''))" for q
    have "valid_path (let p2 = drop 1 (Clean_rooted (CHR ''/'' # q)) in if p2 = [] then ''index.html'' else p2)" for q
    proof (cases "segs q = []")
      case True
      then show ?thesis using index by (simp add: Clean_rooted_def segs_def)
    next
      case False
      then show ?thesis
        using valid_joined [OF False] clean_good [of "CHR ''/'' # q"] index by (simp add: Clean_rooted_def segs_def Let_def)
    qed
    then show ?thesis by (simp add: ui_file_def Let_def)
  qed
  assume p: "valid_path p \<and> Contains p ''.''"
  have good: "list_all good_segment (Split p (CHR ''/''))"
    using p Split_parts by (fastforce simp: valid_path_def good_segment_def list_all_iff)
  have join: "join_segments (Split q c) c = q" for q c
  proof (induction q c rule: Split.induct)
    case (2 x xs c)
    then show ?case by (cases "Split xs c"; cases "tl (Split xs c)") auto
  qed simp
  have "Clean_rooted (CHR ''/'' # p) = CHR ''/'' # p"
    using good by (simp add: Clean_rooted_def clean_kept join)
  moreover have "p \<noteq> []" using p by (auto simp: Contains_def)
  ultimately show "ui_file (''/ui/'' @ p) = p" using p by (simp add: ui_file_def TrimPrefix_def HasPrefix_def)
qed

theorem ui_path_confined_witness:
  "valid_path (ui_file ''/ui/../../etc/passwd.txt'') \<and> ui_file ''/ui/app.js'' = ''app.js''"
  using ui_path_confined [of "''/ui/../../etc/passwd.txt''" "''app.js''"]
  by (simp add: valid_path_def Contains_def HasPrefix_def)

end
