(* ===== verification/Logging_Model.thy ===== *)
theory Logging_Model
  imports Log_Store Go_Strings
begin

text \<open>
  The text log, \<^verbatim>\<open>internal/logging/logging.go\<close>, and the access log that \<open>withRequestLogging\<close> of
  \<^verbatim>\<open>cmd/gateway/main.go\<close> writes with it. \<open>json.Marshal\<close> and the formatted time are arguments. A
  handler appears as the sequence of its calls on the response writer.
\<close>

section \<open>Levels\<close>

datatype Level = LevelDebug | LevelInfo | LevelWarn | LevelError

fun level_num :: "Level \<Rightarrow> nat" where
  "level_num LevelDebug = 0"
| "level_num LevelInfo = 1"
| "level_num LevelWarn = 2"
| "level_num LevelError = 3"

instantiation Level :: linorder
begin

definition less_eq_Level :: "Level \<Rightarrow> Level \<Rightarrow> bool" where
  "less_eq_Level a b \<longleftrightarrow> level_num a \<le> level_num b"

definition less_Level :: "Level \<Rightarrow> Level \<Rightarrow> bool" where
  "less_Level a b \<longleftrightarrow> level_num a < level_num b"

instance
proof
  fix a b :: Level
  show "a \<le> b \<Longrightarrow> b \<le> a \<Longrightarrow> a = b" by (cases a; cases b) (simp_all add: less_eq_Level_def)
qed (auto simp: less_eq_Level_def less_Level_def)

end

definition parseLevel :: "string \<Rightarrow> Level" where
  "parseLevel s =
     (let l = ToLower s in
      if l = ''debug'' then LevelDebug
      else if l = ''warn'' \<or> l = ''warning'' then LevelWarn
      else if l = ''error'' then LevelError
      else LevelInfo)"

fun levelString :: "Level \<Rightarrow> string" where
  "levelString LevelDebug = ''debug''"
| "levelString LevelInfo = ''info''"
| "levelString LevelWarn = ''warn''"
| "levelString LevelError = ''error''"

section \<open>The logger\<close>

record Logger =
  lo_level :: Level
  lo_out :: "string list"

definition logging_New :: "string \<Rightarrow> Logger" where
  "logging_New level = \<lparr>lo_level = parseLevel level, lo_out = []\<rparr>"

text \<open>Fields of the caller replace those of the record with the same name.\<close>

definition log_record :: "string \<Rightarrow> Level \<Rightarrow> string \<Rightarrow> json gomap \<Rightarrow> json gomap" where
  "log_record now lvl msg flds =
     fold (\<lambda>(k, v) m. AList.update k v m) flds
       [(''time'', JString now), (''level'', JString (levelString lvl)), (''msg'', JString msg)]"

definition logger_log :: "(json gomap \<Rightarrow> string + string) \<Rightarrow> string \<Rightarrow> Level \<Rightarrow> string \<Rightarrow> json gomap \<Rightarrow> Logger \<Rightarrow> Logger" where
  "logger_log marshal now lvl msg flds l =
     (if lvl < lo_level l then l
      else let b = (case marshal (log_record now lvl msg flds) of
                      Inr s \<Rightarrow> s
                    | Inl err \<Rightarrow> ''{\"level\":\"error\",\"msg\":\"failed to marshal log: '' @ err @ ''\"}'')
           in l\<lparr>lo_out := lo_out l @ [b]\<rparr>)"

text \<open>\<open>F\<close> pairs up its arguments; a pair whose key is no string is skipped, and so is a last key without a value.\<close>

fun F_pairs :: "json list \<Rightarrow> json gomap \<Rightarrow> json gomap" where
  "F_pairs (k # v # rest) m =
     F_pairs rest (case k of JString s \<Rightarrow> AList.update s v m | _ \<Rightarrow> m)"
| "F_pairs rest m = m"

definition F :: "json list \<Rightarrow> json gomap" where
  "F args = F_pairs args []"

section \<open>The access log\<close>

datatype writer_call = CallWriteHeader int | CallWrite string | CallFlush

record statusRecorder =
  sr_status :: int
  sr_wroteHeader :: bool
  sr_calls :: "writer_call list"

definition new_recorder :: statusRecorder where
  "new_recorder = \<lparr>sr_status = 200, sr_wroteHeader = False, sr_calls = []\<rparr>"

definition rec_WriteHeader :: "int \<Rightarrow> statusRecorder \<Rightarrow> statusRecorder" where
  "rec_WriteHeader code s =
     (let s1 = (if \<not> sr_wroteHeader s then s\<lparr>sr_status := code, sr_wroteHeader := True\<rparr> else s)
      in s1\<lparr>sr_calls := sr_calls s1 @ [CallWriteHeader code]\<rparr>)"

definition rec_Write :: "string \<Rightarrow> statusRecorder \<Rightarrow> statusRecorder" where
  "rec_Write b s =
     (let s1 = (if \<not> sr_wroteHeader s then s\<lparr>sr_status := 200, sr_wroteHeader := True\<rparr> else s)
      in s1\<lparr>sr_calls := sr_calls s1 @ [CallWrite b]\<rparr>)"

definition rec_Flush :: "statusRecorder \<Rightarrow> statusRecorder" where
  "rec_Flush s = s\<lparr>sr_calls := sr_calls s @ [CallFlush]\<rparr>"

fun rec_call :: "writer_call \<Rightarrow> statusRecorder \<Rightarrow> statusRecorder" where
  "rec_call (CallWriteHeader code) = rec_WriteHeader code"
| "rec_call (CallWrite b) = rec_Write b"
| "rec_call CallFlush = rec_Flush"

definition quiet_path :: "string \<Rightarrow> bool" where
  "quiet_path path \<longleftrightarrow> path = ''/healthz'' \<or> path = ''/readyz'' \<or> path = ''/metrics''"

definition withRequestLogging ::
    "(json gomap \<Rightarrow> string + string) \<Rightarrow> string \<Rightarrow> int \<Rightarrow> string \<Rightarrow> string \<Rightarrow> string \<Rightarrow> writer_call list \<Rightarrow> Logger \<Rightarrow> writer_call list \<times> Logger" where
  "withRequestLogging marshal now latencyMS meth path remote calls l =
     (let rw = fold rec_call calls new_recorder
      in (sr_calls rw,
          if quiet_path path then l
          else logger_log marshal now LevelDebug ''http request''
                 (F [JString ''method'', JString meth, JString ''path'', JString path, JString ''status'', JInt (sr_status rw),
                     JString ''latency_ms'', JInt latencyMS, JString ''remote_addr'', JString remote]) l))"

section \<open>What the logs hold\<close>

lemma log_filtered: "lo_out (logger_log marshal now lvl msg flds l) = lo_out l \<longleftrightarrow> lvl < lo_level l"
  by (simp add: logger_log_def Let_def)

text \<open>A level names itself, and an unknown name means info.\<close>

lemma parseLevel_string: "parseLevel (levelString lvl) = lvl"
proof -
  have "\<forall>l \<in> set [LevelDebug, LevelInfo, LevelWarn, LevelError]. parseLevel (levelString l) = l" by code_simp
  then show ?thesis by (cases lvl) simp_all
qed

text \<open>The status that the HTTP server sends: that of the first header, or 200 with the first byte.\<close>

fun sent_status :: "writer_call list \<Rightarrow> int" where
  "sent_status [] = 200"
| "sent_status (CallWriteHeader code # cs) = code"
| "sent_status (CallWrite b # cs) = 200"
| "sent_status (CallFlush # cs) = 200"

lemma recorder_fixed: "sr_wroteHeader s \<Longrightarrow> sr_status (fold rec_call cs s) = sr_status s"
proof (induction cs arbitrary: s)
  case (Cons c cs)
  then show ?case by (cases c) (simp_all add: rec_WriteHeader_def rec_Write_def rec_Flush_def)
qed simp

lemma recorder_transparent: "sr_calls (fold rec_call cs s) = sr_calls s @ cs"
proof (induction cs arbitrary: s)
  case (Cons c cs)
  then show ?case by (cases c) (simp_all add: rec_WriteHeader_def rec_Write_def rec_Flush_def Let_def)
qed simp

text \<open>
  The access log is transparent and tells the truth: the handler's calls reach the client
  unchanged, and the logged status is the one sent, unless a handler flushes before it sets a
  status (the flush sends 200, the recorder takes the later call).
\<close>

theorem request_logging_transparent:
  "fst (withRequestLogging marshal now lat meth path remote calls l) = calls
   \<and> (calls = [] \<or> hd calls \<noteq> CallFlush \<longrightarrow> sr_status (fold rec_call calls new_recorder) = sent_status calls)"
proof -
  have "sr_status (fold rec_call calls new_recorder) = sent_status calls" if "calls = [] \<or> hd calls \<noteq> CallFlush"
    using that
  proof (cases calls)
    case (Cons c cs)
    then show ?thesis using that
      by (cases c) (simp_all add: recorder_fixed new_recorder_def rec_WriteHeader_def rec_Write_def Let_def)
  qed (simp add: new_recorder_def)
  then show ?thesis by (simp add: withRequestLogging_def recorder_transparent new_recorder_def Let_def)
qed

end
