(* ===== verification/Gateway_Process.thy ===== *)
theory Gateway_Process
  imports Gateway_Main Sql_Schema Metrics_Model Admin_Secrets Orch_Render Web_Model Logging_Model
begin

text \<open>
  The life of the process, \<open>main\<close> of \<^verbatim>\<open>cmd/gateway/main.go\<close>: which configurations start to serve,
  the order of the checks and their exit codes, the routes outside the data plane, and what ends
  the process. Opening a Redis client, a database and a socket is the business of the environment.
\<close>

section \<open>Start\<close>

record process_env =
  pe_getenv :: environ
  pe_read :: "string \<Rightarrow> string option"
  pe_yaml :: "string \<Rightarrow> Config \<Rightarrow> Config option"
  pe_get :: "string \<Rightarrow> int option"
  pe_redis :: "string \<Rightarrow> bool"
  pe_sqlite :: "string \<Rightarrow> string + Schema"
  pe_postgres :: "string \<Rightarrow> string + Schema option"
  pe_ddl :: "ddl \<Rightarrow> string option"

datatype opened_log = OpenedMemory int | OpenedSQLite Schema | OpenedPostgres Schema

definition open_log :: "process_env \<Rightarrow> Config \<Rightarrow> string + opened_log" where
  "open_log pe cfg =
     (case log_driver_of (pe_getenv pe) cfg of
        MemoryLog n \<Rightarrow> Inr (OpenedMemory n)
      | SQLiteLog dsn \<Rightarrow> (case OpenSQLite (pe_sqlite pe) (pe_ddl pe) dsn of Inl err \<Rightarrow> Inl err | Inr s \<Rightarrow> Inr (OpenedSQLite s))
      | PostgresLog dsn \<Rightarrow>
          (case pe_postgres pe dsn of
             Inl err \<Rightarrow> Inl err
           | Inr db \<Rightarrow> (case OpenPostgres (pe_ddl pe) db of Inl err \<Rightarrow> Inl err | Inr s \<Rightarrow> Inr (OpenedPostgres s)))
      | UnsupportedLog d \<Rightarrow> Inl d)"

datatype started = ExitCode int | Serving Config limit_driver opened_log

text \<open>\<open>path\<close> is the value of the flag \<open>-config\<close>, if it is given, \<open>check\<close> that of \<open>-healthcheck\<close>.\<close>

definition gateway_main :: "('i, 'n) net_ops \<Rightarrow> process_env \<Rightarrow> string option \<Rightarrow> bool \<Rightarrow> started" where
  "gateway_main net pe path check =
     (let configPath = (case path of Some p \<Rightarrow> p | None \<Rightarrow> envOr (pe_getenv pe) ''LLMGATEWAY_CONFIG'' ''config/gateway.yaml'') in
      case Load (pe_read pe) (pe_yaml pe) configPath of
        Inl err \<Rightarrow> ExitCode 1
      | Inr cfg0 \<Rightarrow>
          let cfg = applyEnvOverrides net (pe_getenv pe) cfg0 in
          if check then ExitCode (runHealthCheck (pe_get pe) cfg)
          else let lim_drv = limit_driver_of cfg in
            if (case lim_drv of RedisLimit url prefix \<Rightarrow> \<not> pe_redis pe url | MemoryLimit \<Rightarrow> False) then ExitCode 1
            else (case open_log pe cfg of Inl err \<Rightarrow> ExitCode 1 | Inr ls \<Rightarrow> Serving cfg lim_drv ls))"

section \<open>Routes beside the data plane\<close>

datatype probe_page = Healthz | Readyz | Prometheus

definition metrics_path :: "Config \<Rightarrow> string" where
  "metrics_path cfg = (let p = mt_PrometheusPath (c_Metrics cfg) in if p = [] then ''/metrics'' else p)"

definition probe_route :: "Config \<Rightarrow> string \<Rightarrow> string \<Rightarrow> probe_page option" where
  "probe_route cfg meth path =
     (if meth \<noteq> ''GET'' \<and> meth \<noteq> ''HEAD'' then None
      else if path = ''/healthz'' then Some Healthz
      else if path = ''/readyz'' then Some Readyz
      else if mt_PrometheusEnabled (c_Metrics cfg) \<and> path = metrics_path cfg then Some Prometheus
      else None)"

definition probe_status :: "order \<Rightarrow> Store \<Rightarrow> probe_page \<Rightarrow> int" where
  "probe_status ord s pg = (case pg of Healthz \<Rightarrow> 200 | Readyz \<Rightarrow> readyz ord s | Prometheus \<Rightarrow> 200)"

definition dashboard_route :: "Config \<Rightarrow> (string \<Rightarrow> string option) \<Rightarrow> (string \<Rightarrow> string) \<Rightarrow> string \<Rightarrow> string \<Rightarrow> ui_answer option" where
  "dashboard_route cfg ReadFile mime meth path =
     (if db_Enabled (c_Dashboard cfg) then ui_route ReadFile mime meth path else None)"

section \<open>Stop\<close>

text \<open>What the select of \<open>main\<close> receives first, and the exit code.\<close>

datatype stop_event = ServerError "string option" | StopSignal

definition exit_code :: "stop_event \<Rightarrow> int" where
  "exit_code ev = (case ev of
       ServerError (Some err) \<Rightarrow> if err \<noteq> ''http: Server closed'' then 1 else 0
     | ServerError None \<Rightarrow> 0
     | StopSignal \<Rightarrow> 0)"

section \<open>What starts\<close>

text \<open>
  The gateway serves exactly when the configuration loads and validates, no health check was asked
  for, the Redis URL parses if the limiter is Redis, and the log store opens; every other outcome
  is an exit with a code. A store that was opened has the tables that its queries name.
\<close>

theorem gateway_serves_iff:
  "gateway_main net pe (Some path) check = Serving cfg drv ls \<longleftrightarrow>
     (\<exists>cfg0. Load (pe_read pe) (pe_yaml pe) path = Inr cfg0 \<and> cfg = applyEnvOverrides net (pe_getenv pe) cfg0)
   \<and> \<not> check \<and> drv = limit_driver_of cfg \<and> (\<forall>url prefix. drv = RedisLimit url prefix \<longrightarrow> pe_redis pe url) \<and> open_log pe cfg = Inr ls"
  by (auto simp: gateway_main_def Let_def split: sum.split limit_driver.split)

lemma sqlite_opened_current:
  assumes "OpenSQLite opener (\<lambda>_. None) path = Inr s" and "opener (sqlite_dsn path) = Inr s0" and "upgradable s0"
  shows "current s"
proof -
  obtain s' where "sqlite_migrate (\<lambda>_. None) sqlite_stmts s0 = (None, s')" "current s'"
    using migrate_current [OF assms(3)] by blast
  with assms(1,2) show ?thesis by (simp add: OpenSQLite_def)
qed

text \<open>The probes are the only pages without a key or a password besides the dashboard's files.\<close>

lemma probes_disjoint:
  assumes "v1_route meth path = Some h"
  shows "probe_route cfg meth path = None \<or> path = metrics_path cfg" and "dashboard_route cfg rf mime meth path = None"
proof -
  have p: "HasPrefix path ''/v1/''" using v1_route_prefix [OF assms] .
  then have "path \<noteq> ''/healthz''" "path \<noteq> ''/readyz''" "path \<noteq> ''/ui''" "path \<noteq> ''/''" "\<not> HasPrefix path ''/ui/''"
    by (auto simp: HasPrefix_def)
  then show "probe_route cfg meth path = None \<or> path = metrics_path cfg" "dashboard_route cfg rf mime meth path = None"
    by (simp_all add: probe_route_def dashboard_route_def ui_route_def)
qed

end
