(* ===== verification/Multipart_Model.thy ===== *)
theory Multipart_Model
  imports Gateway_Main
begin

text \<open>
  The multipart body of the audio endpoints: which field of the form the permission check reads
  (\<open>FormValue\<close>), and \<open>rebuildMultipart\<close> of \<^verbatim>\<open>internal/handlers/audio.go\<close>, which writes the parsed form
  again for the backend, with the writer of \<open>mime/multipart\<close> (Go 1.25) down to the bytes. A reader
  of such bodies stands for the backend. Field names are escaped on the way and come back, with
  line breaks as \<^verbatim>\<open>%0D\<close> and \<^verbatim>\<open>%0A\<close>. The names of file fields, the file names and the content types are
  not escaped: what the backend reads is the form provided that they hold no quote, backslash or
  line break and that the boundary is fresh, and a file name with a quote is read differently.
\<close>

section \<open>The form\<close>

text \<open>A file of the form; its content is what \<open>Open\<close> and \<open>io.Copy\<close> yield, or their error.\<close>

record file_header =
  fh_Filename :: string
  fh_ContentType :: string
  fh_Content :: "(string, string) sum"

text \<open>The values of the URL query, and the fields and files of the body.\<close>

record multipart_form =
  mf_Query :: "string list gomap"
  mf_Value :: "string list gomap"
  mf_File :: "file_header list gomap"

definition values_of :: "'v list gomap \<Rightarrow> string \<Rightarrow> 'v list" where
  "values_of m k = (case map_of m k of Some vs \<Rightarrow> vs | None \<Rightarrow> [])"

text \<open>\<open>ParseMultipartForm\<close> appends the fields of the body to those of the query.\<close>

definition FormValue :: "multipart_form \<Rightarrow> string \<Rightarrow> string" where
  "FormValue f k = (case values_of (mf_Query f) k @ values_of (mf_Value f) k of [] \<Rightarrow> [] | v # vs \<Rightarrow> v)"

section \<open>The writer\<close>

definition CR :: char where "CR = CHR 0x0D"
definition DQUOTE :: char where "DQUOTE = CHR 0x22"
definition BACKSLASH :: char where "BACKSLASH = CHR 0x5C"

record part =
  pt_Header :: "(string \<times> string) list"
  pt_Body :: string

definition escape_char :: "char \<Rightarrow> string" where
  "escape_char c =
     (if c = BACKSLASH \<or> c = DQUOTE then [BACKSLASH, c] else if c = CR then ''%0D'' else if c = CHR 0x0A then ''%0A'' else [c])"

definition escapeQuotes :: "string \<Rightarrow> string" where
  "escapeQuotes s = concat (map escape_char s)"

definition quoted :: "string \<Rightarrow> string" where
  "quoted s = DQUOTE # s @ [DQUOTE]"

text \<open>\<open>WriteField\<close>, and the part of a file, whose name and file name are not escaped.\<close>

definition field_part :: "string \<times> string \<Rightarrow> part" where
  "field_part kv = \<lparr>pt_Header = [(''Content-Disposition'', ''form-data; name='' @ quoted (escapeQuotes (fst kv)))], pt_Body = snd kv\<rparr>"

definition file_part :: "string \<Rightarrow> file_header \<Rightarrow> string \<Rightarrow> part" where
  "file_part key fh content =
     \<lparr>pt_Header = (''Content-Disposition'', ''form-data; name='' @ quoted key @ ''; filename='' @ quoted (fh_Filename fh))
        # (if fh_ContentType fh \<noteq> [] then [(''Content-Type'', fh_ContentType fh)] else []), pt_Body = content\<rparr>"

definition part_text :: "part \<Rightarrow> string" where
  "part_text p = concat (map (\<lambda>(k, v). k @ '': '' @ v @ crlf) (pt_Header p)) @ crlf @ pt_Body p"

fun write_parts :: "string \<Rightarrow> bool \<Rightarrow> part list \<Rightarrow> string" where
  "write_parts b first_part [] = crlf @ ''--'' @ b @ ''--'' @ crlf"
| "write_parts b first_part (p # ps) =
     (if first_part then [] else crlf) @ ''--'' @ b @ crlf @ part_text p @ write_parts b False ps"

section \<open>rebuildMultipart\<close>

definition entries_of :: "order \<Rightarrow> 'v list gomap \<Rightarrow> (string \<times> 'v) list" where
  "entries_of ord m = concat (map (\<lambda>k. map (Pair k) (values_of m k)) (ord (keys_of m)))"

fun file_parts :: "(string \<times> file_header) list \<Rightarrow> (string, part list) sum" where
  "file_parts [] = Inr []"
| "file_parts ((key, fh) # fs) =
     (case fh_Content fh of
        Inl err \<Rightarrow> Inl err
      | Inr content \<Rightarrow> (case file_parts fs of Inl err \<Rightarrow> Inl err | Inr ps \<Rightarrow> Inr (file_part key fh content # ps)))"

text \<open>The two loops visit maps, in the orders \<open>ordv\<close> and \<open>ordf\<close>; \<open>b\<close> is the random boundary.\<close>

definition rebuildMultipart :: "order \<Rightarrow> order \<Rightarrow> string \<Rightarrow> multipart_form option \<Rightarrow> (string, string \<times> string) sum" where
  "rebuildMultipart ordv ordf b form =
     (case form of
        None \<Rightarrow> Inl ''multipart not parsed''
      | Some f \<Rightarrow>
          (case file_parts (entries_of ordf (mf_File f)) of
             Inl err \<Rightarrow> Inl err
           | Inr files \<Rightarrow>
               Inr (write_parts b True (map field_part (entries_of ordv (mf_Value f)) @ files),
                    ''multipart/form-data; boundary='' @ b)))"

text \<open>What \<open>ForwardMultipart\<close> gets from a parsed request.\<close>

definition multipart_input :: "order \<Rightarrow> order \<Rightarrow> string \<Rightarrow> multipart_form \<Rightarrow> multipart_in" where
  "multipart_input ordv ordf b f =
     \<lparr>mi_form = Form (FormValue f ''model''), mi_rebuilt = rebuildMultipart ordv ordf b (Some f)\<rparr>"

section \<open>A reader of multipart bodies\<close>

definition Cut :: "string \<Rightarrow> string \<Rightarrow> (string \<times> string) option" where
  "Cut s sub = map_option (\<lambda>i. (take i s, drop (i + length sub) s)) (Index s sub)"

lemma cut_shrinks: "Cut s sub = Some (a, r) \<Longrightarrow> sub \<noteq> [] \<Longrightarrow> length r < length s"
  using Index_Some [of s sub] by (cases s; cases sub) (auto simp: Cut_def HasPrefix_def)

text \<open>A separator whose first character does not come back in it is found where it was put.\<close>

lemma cut_at:
  assumes "Index a (c # t) = None" and "c \<notin> set t"
  shows "Cut (a @ c # t @ r) (c # t) = Some (a, r)"
proof -
  have "Index (a @ c # t @ r) (c # t) = Some (length a)"
    using assms(1)
  proof (induction a)
    case Nil
    then show ?case by (simp add: HasPrefix_def)
  next
    case (Cons x a)
    have "\<not> HasPrefix ((x # a) @ c # t @ r) (c # t)"
    proof
      assume "HasPrefix ((x # a) @ c # t @ r) (c # t)"
      then have x: "x = c" and t: "take (length t) (a @ c # t @ r) = t" by (simp_all add: HasPrefix_def)
      show False
      proof (cases "length t \<le> length a")
        case True
        then show False using Cons.prems x t by (auto simp: HasPrefix_def)
      next
        case False
        then have "t ! length a = c" using t by (metis append_Cons append_Nil nth_append_length nth_take not_le)
        then show False using False assms(2) nth_mem [of "length a" t] by simp
      qed
    qed
    with Cons show ?case by (simp split: if_splits)
  qed
  then show ?thesis by (simp add: Cut_def)
qed

lemma Index_absent: "c \<notin> set a \<Longrightarrow> Index a (c # t) = None"
  by (induction a) (auto simp: HasPrefix_def)

function read_headers :: "string \<Rightarrow> ((string \<times> string) list \<times> string) option" where
  "read_headers s =
     (case Cut s crlf of
        None \<Rightarrow> None
      | Some (l, r) \<Rightarrow>
          if l = [] then Some ([], r)
          else (case Cut l '': '' of None \<Rightarrow> None | Some kv \<Rightarrow> map_option (\<lambda>(hs, body). (kv # hs, body)) (read_headers r)))"
  by pat_completeness auto
termination
  by (relation "measure length") (auto simp: crlf_def dest: cut_shrinks)

definition delim :: "string \<Rightarrow> string" where
  "delim b = crlf @ ''--'' @ b"

function read_parts :: "string \<Rightarrow> string \<Rightarrow> part list option" where
  "read_parts b s =
     (if HasPrefix s ''--'' then Some []
      else if \<not> HasPrefix s crlf then None
      else (case Cut (drop 2 s) (delim b) of
              None \<Rightarrow> None
            | Some (t, r) \<Rightarrow>
                (case read_headers t of
                   None \<Rightarrow> None
                 | Some (hs, body) \<Rightarrow> map_option (Cons \<lparr>pt_Header = hs, pt_Body = body\<rparr>) (read_parts b r))))"
  by pat_completeness auto
termination
  by (relation "measure (length \<circ> snd)") (auto simp: delim_def crlf_def dest: cut_shrinks)

definition read_multipart :: "string \<Rightarrow> string \<Rightarrow> part list option" where
  "read_multipart b s = (case Cut (crlf @ s) (delim b) of None \<Rightarrow> None | Some (preamble, r) \<Rightarrow> read_parts b r)"

declare read_headers.simps [simp del] read_parts.simps [simp del]

text \<open>The parameters of a disposition: quoted strings with backslash escapes.\<close>

fun unquote :: "string \<Rightarrow> (string \<times> string) option" where
  "unquote [] = None"
| "unquote (c # s) =
     (if c = DQUOTE then Some ([], s)
      else if c = BACKSLASH then (case s of [] \<Rightarrow> None | d # s' \<Rightarrow> map_option (\<lambda>(v, r). (d # v, r)) (unquote s'))
      else map_option (\<lambda>(v, r). (c # v, r)) (unquote s))"

lemma unquote_shrinks: "unquote s = Some (v, r) \<Longrightarrow> length r < length s"
  by (induction s arbitrary: v r rule: unquote.induct) (fastforce split: if_splits list.splits)+

function read_params :: "string \<Rightarrow> (string \<times> string) list option" where
  "read_params s =
     (if s = [] then Some []
      else if \<not> HasPrefix s ''; '' then None
      else (case Cut (drop 2 s) (CHR ''='' # [DQUOTE]) of
              None \<Rightarrow> None
            | Some (n, r) \<Rightarrow>
                (case unquote r of None \<Rightarrow> None | Some (v, r') \<Rightarrow> map_option (Cons (n, v)) (read_params r'))))"
  by pat_completeness auto
termination
  by (relation "measure length") (auto dest!: cut_shrinks unquote_shrinks)

declare read_params.simps [simp del]

record form_entry =
  en_name :: string
  en_filename :: "string option"
  en_type :: "string option"
  en_body :: string

definition read_entry :: "part \<Rightarrow> form_entry option" where
  "read_entry p =
     (case map_of (pt_Header p) ''Content-Disposition'' of
        None \<Rightarrow> None
      | Some v \<Rightarrow>
          if \<not> HasPrefix v ''form-data'' then None
          else (case read_params (drop 9 v) of
                  None \<Rightarrow> None
                | Some ps \<Rightarrow>
                    map_option (\<lambda>n. \<lparr>en_name = n, en_filename = map_of ps ''filename'',
                        en_type = map_of (pt_Header p) ''Content-Type'', en_body = pt_Body p\<rparr>) (map_of ps ''name'')))"

definition backend_reads :: "string \<Rightarrow> string \<Rightarrow> form_entry list option" where
  "backend_reads b body = (case read_multipart b body of None \<Rightarrow> None | Some ps \<Rightarrow> those (map read_entry ps))"

section \<open>What the reader gets from the writer\<close>

text \<open>A header that a line can hold.\<close>

definition header_ok :: "string \<times> string \<Rightarrow> bool" where
  "header_ok kv \<longleftrightarrow> CR \<notin> set (fst kv) \<and> CR \<notin> set (snd kv) \<and> CHR '':'' \<notin> set (fst kv)"

definition part_ok :: "string \<Rightarrow> part \<Rightarrow> bool" where
  "part_ok b p \<longleftrightarrow> list_all header_ok (pt_Header p) \<and> Index (part_text p) (delim b) = None"

lemma crlf_CR: "crlf = CR # [CHR 0x0A]"
  by (simp add: crlf_def CR_def)

lemma cut_line: "CR \<notin> set l \<Longrightarrow> Cut (l @ crlf @ r) crlf = Some (l, r)"
  using cut_at [of l CR "[CHR 0x0A]" r] by (simp add: crlf_CR Index_absent CR_def)

lemma cut_key: "CHR '':'' \<notin> set k \<Longrightarrow> Cut (k @ '': '' @ v) '': '' = Some (k, v)"
  using cut_at [of k "CHR '':''" "'' ''" v] by (simp add: Index_absent)

lemma read_headers_text: "list_all header_ok (pt_Header p) \<Longrightarrow> read_headers (part_text p) = Some (pt_Header p, pt_Body p)"
proof (cases p)
  case (fields hs body)
  have "list_all header_ok hs \<Longrightarrow> read_headers (concat (map (\<lambda>(k, v). k @ '': '' @ v @ crlf) hs) @ crlf @ body) = Some (hs, body)"
  proof (induction hs)
    case Nil
    show ?case using cut_line [of "[]" body] by (simp add: read_headers.simps)
  next
    case (Cons h hs)
    obtain k v where h: "h = (k, v)" by (rule prod.exhaust)
    let ?rest = "concat (map (\<lambda>(k, v). k @ '': '' @ v @ crlf) hs) @ crlf @ body"
    have "CR \<notin> set (k @ '': '' @ v)" "CHR '':'' \<notin> set k" using Cons.prems by (auto simp: h header_ok_def CR_def)
    from cut_line [OF this(1), of ?rest] cut_key [OF this(2), of v] show ?case using Cons by (subst read_headers.simps) (simp add: h)
  qed
  then show "list_all header_ok (pt_Header p) \<Longrightarrow> ?thesis" by (simp add: part_text_def fields)
qed

text \<open>The text after an opening delimiter.\<close>

fun after_delim :: "string \<Rightarrow> part list \<Rightarrow> string" where
  "after_delim b [] = ''--'' @ crlf"
| "after_delim b (p # ps) = crlf @ part_text p @ delim b @ after_delim b ps"

lemma write_parts_rest: "write_parts b False ps = delim b @ after_delim b ps"
  by (induction b ps rule: after_delim.induct) (simp_all add: delim_def)

lemma write_parts_first: "crlf @ write_parts b True (p # ps) = delim b @ after_delim b (p # ps)"
  by (simp add: write_parts_rest) (simp add: delim_def)

lemma cut_delim: "CR \<notin> set b \<Longrightarrow> Index a (delim b) = None \<Longrightarrow> Cut (a @ delim b @ r) (delim b) = Some (a, r)"
  using cut_at [of a CR "CHR 0x0A # ''--'' @ b" r] by (simp add: delim_def crlf_CR CR_def)

lemma read_after_delim: "CR \<notin> set b \<Longrightarrow> list_all (part_ok b) ps \<Longrightarrow> read_parts b (after_delim b ps) = Some ps"
proof (induction b ps rule: after_delim.induct)
  case (1 b)
  then show ?case by (simp add: read_parts.simps HasPrefix_def)
next
  case (2 b p ps)
  have "Cut (part_text p @ delim b @ after_delim b ps) (delim b) = Some (part_text p, after_delim b ps)"
    using 2 by (intro cut_delim) (simp_all add: part_ok_def)
  then show ?case using 2 by (subst read_parts.simps) (simp add: HasPrefix_def crlf_def part_ok_def read_headers_text)
qed

lemma read_written: "CR \<notin> set b \<Longrightarrow> list_all (part_ok b) ps \<Longrightarrow> read_multipart b (write_parts b True ps) = Some ps"
proof (cases ps)
  case Nil
  assume b: "CR \<notin> set b"
  have "Index crlf (delim b) = None" by (simp add: delim_def crlf_def HasPrefix_def)
  from cut_delim [OF b this, of "after_delim b []"] read_after_delim [OF b, of "[]"] show ?thesis
    by (simp add: read_multipart_def Nil) (simp add: delim_def)
next
  case (Cons p qs)
  assume b: "CR \<notin> set b" and ok: "list_all (part_ok b) ps"
  have "Cut (delim b @ after_delim b ps) (delim b) = Some ([], after_delim b ps)"
    using cut_delim [OF b, of "[]"] by (simp add: delim_def crlf_def)
  then show ?thesis using read_after_delim [OF b ok]
    by (simp only: read_multipart_def Cons write_parts_first) simp
qed

section \<open>Dispositions\<close>

definition plain :: "string \<Rightarrow> bool" where
  "plain s \<longleftrightarrow> DQUOTE \<notin> set s \<and> BACKSLASH \<notin> set s \<and> CR \<notin> set s \<and> CHR 0x0A \<notin> set s"

lemmas special_chars = CR_def DQUOTE_def BACKSLASH_def

text \<open>The name that comes back from an escaped one.\<close>

definition sent_name :: "string \<Rightarrow> string" where
  "sent_name s = concat (map (\<lambda>c. if c = CR then ''%0D'' else if c = CHR 0x0A then ''%0A'' else [c]) s)"

lemma sent_name_plain: "CR \<notin> set s \<Longrightarrow> CHR 0x0A \<notin> set s \<Longrightarrow> sent_name s = s"
  by (induction s) (auto simp: sent_name_def)

lemma sent_name_model: "sent_name s = ''model'' \<longleftrightarrow> s = ''model''"
proof
  assume m: "sent_name s = ''model''"
  then have "CHR ''%'' \<notin> set (sent_name s)" by simp
  then have "CR \<notin> set s" "CHR 0x0A \<notin> set s" by (auto simp: sent_name_def CR_def split: if_splits)
  with m show "s = ''model''" by (simp add: sent_name_plain)
qed (simp add: sent_name_plain CR_def)

lemma unquote_escape: "unquote (escapeQuotes s @ DQUOTE # r) = Some (sent_name s, r)"
  by (induction s) (auto simp: escapeQuotes_def escape_char_def sent_name_def special_chars)

lemma escape_no_CR: "CR \<notin> set (escapeQuotes s)"
  by (induction s) (auto simp: escapeQuotes_def escape_char_def special_chars)

lemma unquote_plain: "plain s \<Longrightarrow> unquote (s @ DQUOTE # r) = Some (s, r)"
  by (induction s) (auto simp: plain_def)

lemma read_param_quoted:
  assumes "unquote (v @ DQUOTE # r) = Some (v', r)" and "CHR ''='' \<notin> set n"
  shows "read_params (''; '' @ n @ ''='' @ quoted v @ r) = map_option (Cons (n, v')) (read_params r)"
proof -
  have "Cut (n @ ''='' @ quoted v @ r) (CHR ''='' # [DQUOTE]) = Some (n, v @ DQUOTE # r)"
    using cut_at [of n "CHR ''=''" "[DQUOTE]" "v @ DQUOTE # r"] assms(2) by (simp add: Index_absent quoted_def DQUOTE_def)
  then show ?thesis
    by (subst read_params.simps) (simp add: HasPrefix_def assms(1))
qed

lemmas read_param = read_param_quoted [OF unquote_plain]

lemma read_field_part: "read_entry (field_part kv) = Some \<lparr>en_name = sent_name (fst kv), en_filename = None, en_type = None, en_body = snd kv\<rparr>"
  using read_param_quoted [OF unquote_escape [of "fst kv" "[]"], of "''name''"]
  by (simp add: read_entry_def field_part_def HasPrefix_def read_params.simps [of "[]"])

definition type_of :: "file_header \<Rightarrow> string option" where
  "type_of fh = (if fh_ContentType fh = [] then None else Some (fh_ContentType fh))"

lemma read_file_part:
  "plain key \<Longrightarrow> plain (fh_Filename fh) \<Longrightarrow>
   read_entry (file_part key fh content) = Some \<lparr>en_name = key, en_filename = Some (fh_Filename fh), en_type = type_of fh, en_body = content\<rparr>"
  using read_param [of "fh_Filename fh" "''filename''" "[]"] read_param [of key "''name''" "''; filename='' @ quoted (fh_Filename fh)"]
  by (simp add: read_entry_def file_part_def type_of_def HasPrefix_def read_params.simps [of "[]"])

text \<open>A quote in a file name ends it: the rest is read as further parameters of the part.\<close>

lemma read_cut_name:
  assumes "plain key" and "plain a" and "plain v" and "CHR ''='' \<notin> set n" and "n \<noteq> ''name''" and "n \<noteq> ''filename''"
    and "fh_Filename fh = a @ [DQUOTE] @ ''; '' @ n @ ''='' @ [DQUOTE] @ v"
  shows "read_entry (file_part key fh content) = Some \<lparr>en_name = key, en_filename = Some a, en_type = type_of fh, en_body = content\<rparr>"
  using read_param [of key "''name''" "''; filename='' @ quoted a @ ''; '' @ n @ ''='' @ quoted v"]
    read_param [of a "''filename''" "''; '' @ n @ ''='' @ quoted v"] read_param [of v n "[]"] assms
  by (simp add: read_entry_def file_part_def type_of_def HasPrefix_def quoted_def read_params.simps [of "[]"])

section \<open>The round trip\<close>

definition fh_bytes :: "file_header \<Rightarrow> string" where
  "fh_bytes fh = (case fh_Content fh of Inl err \<Rightarrow> [] | Inr content \<Rightarrow> content)"

definition field_entry :: "string \<times> string \<Rightarrow> form_entry" where
  "field_entry kv = \<lparr>en_name = sent_name (fst kv), en_filename = None, en_type = None, en_body = snd kv\<rparr>"

definition file_entry :: "string \<times> file_header \<Rightarrow> form_entry" where
  "file_entry kf = \<lparr>en_name = fst kf, en_filename = Some (fh_Filename (snd kf)), en_type = type_of (snd kf), en_body = fh_bytes (snd kf)\<rparr>"

text \<open>The entries of a form and the parts written for it, in the order of the visit.\<close>

definition form_entries :: "order \<Rightarrow> order \<Rightarrow> multipart_form \<Rightarrow> form_entry list" where
  "form_entries ordv ordf f = map field_entry (entries_of ordv (mf_Value f)) @ map file_entry (entries_of ordf (mf_File f))"

definition form_parts :: "order \<Rightarrow> order \<Rightarrow> multipart_form \<Rightarrow> part list" where
  "form_parts ordv ordf f =
     map field_part (entries_of ordv (mf_Value f))
     @ map (\<lambda>kf. file_part (fst kf) (snd kf) (fh_bytes (snd kf))) (entries_of ordf (mf_File f))"

definition form_ok :: "multipart_form \<Rightarrow> bool" where
  "form_ok f \<longleftrightarrow>
     (\<forall>kf \<in> set (mf_File f). plain (fst kf) \<and> (\<forall>fh \<in> set (snd kf). plain (fh_Filename fh) \<and> CR \<notin> set (fh_ContentType fh)))"

text \<open>The boundary is random; it is fresh when the delimiter is in none of the parts.\<close>

definition fresh_boundary :: "string \<Rightarrow> part list \<Rightarrow> bool" where
  "fresh_boundary b ps \<longleftrightarrow> CR \<notin> set b \<and> list_all (\<lambda>p. \<not> Contains (part_text p) (delim b)) ps"

lemma entries_of_mem:
  assumes "kv \<in> set (entries_of ord m)"
  shows "\<exists>vs. map_of m (fst kv) = Some vs \<and> (fst kv, vs) \<in> set m \<and> snd kv \<in> set vs"
proof -
  obtain k v where kv: "kv = (k, v)" by (rule prod.exhaust)
  with assms have "v \<in> set (values_of m k)" by (auto simp: entries_of_def)
  then show ?thesis by (cases "map_of m k") (auto simp: kv values_of_def dest: map_of_SomeD)
qed

lemma file_parts_Inr: "file_parts fs = Inr ps \<Longrightarrow> ps = map (\<lambda>kf. file_part (fst kf) (snd kf) (fh_bytes (snd kf))) fs"
  by (induction fs arbitrary: ps rule: file_parts.induct) (auto simp: fh_bytes_def split: sum.splits)

lemma rebuilt:
  assumes "rebuildMultipart ordv ordf b (Some f) = Inr (body, ct)"
  shows "body = write_parts b True (form_parts ordv ordf f)" and "ct = ''multipart/form-data; boundary='' @ b"
  using assms by (auto simp: rebuildMultipart_def form_parts_def dest: file_parts_Inr split: sum.splits)

lemma entry_plain:
  assumes ok: "form_ok f" and kf: "kf \<in> set (entries_of ordf (mf_File f))"
  shows "plain (fst kf) \<and> plain (fh_Filename (snd kf)) \<and> CR \<notin> set (fh_ContentType (snd kf))"
  using entries_of_mem [OF kf] ok [unfolded form_ok_def, THEN bspec] by auto

lemma field_header_ok: "list_all header_ok (pt_Header (field_part kv))"
  using escape_no_CR [of "fst kv"] by (simp add: field_part_def header_ok_def quoted_def special_chars)

lemma file_header_ok:
  "plain key \<Longrightarrow> plain (fh_Filename fh) \<Longrightarrow> CR \<notin> set (fh_ContentType fh) \<Longrightarrow> list_all header_ok (pt_Header (file_part key fh content))"
  by (simp add: file_part_def header_ok_def quoted_def special_chars) (simp add: plain_def special_chars)

lemma form_headers_ok:
  assumes "form_ok f"
  shows "list_all (\<lambda>p. list_all header_ok (pt_Header p)) (form_parts ordv ordf f)"
  using entry_plain [OF assms] by (simp add: form_parts_def list_all_iff [of _ "map _ _"] field_header_ok file_header_ok)

lemma those_map_Some: "\<forall>x \<in> set xs. f x = Some (g x) \<Longrightarrow> those (map f xs) = Some (map g xs)"
  by (induction xs) auto

lemma those_append: "those (xs @ ys) = (case those xs of None \<Rightarrow> None | Some us \<Rightarrow> map_option (\<lambda>vs. us @ vs) (those ys))"
  by (induction xs; cases "those ys") (auto split: option.splits)

lemma form_read:
  assumes "form_ok f"
  shows "those (map read_entry (form_parts ordv ordf f)) = Some (form_entries ordv ordf f)"
proof -
  have "those (map (read_entry \<circ> field_part) (entries_of ordv (mf_Value f))) = Some (map field_entry (entries_of ordv (mf_Value f)))"
    by (rule those_map_Some) (simp add: read_field_part field_entry_def)
  moreover have "those (map (\<lambda>kf. read_entry (file_part (fst kf) (snd kf) (fh_bytes (snd kf)))) (entries_of ordf (mf_File f)))
      = Some (map file_entry (entries_of ordf (mf_File f)))"
    by (rule those_map_Some) (simp add: entry_plain [OF assms] read_file_part file_entry_def)
  ultimately show ?thesis by (simp add: form_parts_def form_entries_def those_append comp_def)
qed

lemma rebuilt_read:
  assumes "rebuildMultipart ordv ordf b (Some f) = Inr (body, ct)" and "form_ok f" and "fresh_boundary b (form_parts ordv ordf f)"
  shows "backend_reads b body = Some (form_entries ordv ordf f)"
proof -
  have "list_all (part_ok b) (form_parts ordv ordf f)" and b: "CR \<notin> set b"
    using assms(3) form_headers_ok [OF assms(2), of ordv ordf] by (auto simp: list_all_iff part_ok_def fresh_boundary_def Contains_def)
  from read_written [OF b this(1)] form_read [OF assms(2)] rebuilt(1) [OF assms(1)]
  show ?thesis by (simp add: backend_reads_def)
qed

lemma entries_perm:
  fixes m :: "'a list gomap"
  assumes "is_order ord"
  shows "mset (entries_of ord m) = mset (entries_of id m)"
proof -
  from assms
  have "mset (ord (keys_of m)) = mset (keys_of m)" by (simp add: is_order_def)
  then have "mset (map g (ord (keys_of m))) = mset (map g (keys_of m))" for g :: "string \<Rightarrow> (string \<times> 'a) multiset" by (metis mset_map)
  then have "sum_list (map g (ord (keys_of m))) = sum_list (map g (keys_of m))" for g :: "string \<Rightarrow> (string \<times> 'a) multiset"
    by (metis sum_mset_sum_list)
  then show ?thesis by (simp add: entries_of_def mset_concat comp_def)
qed

lemma form_entries_perm:
  "is_order ordv \<Longrightarrow> is_order ordf \<Longrightarrow> mset (form_entries ordv ordf f) = mset (form_entries id id f)"
  using entries_perm [of ordv "mf_Value f"] entries_perm [of ordf "mf_File f"] by (simp add: form_entries_def)

lemma is_order_single: "is_order ord \<Longrightarrow> ord [] = [] \<and> ord [k] = [k]"
  by (metis is_order_def mset_single_iff mset_single_iff_right mset_zero_iff)

lemma cut_name_read:
  assumes rb: "rebuildMultipart ordv ordf b (Some f) = Inr (body, ct)" and b: "fresh_boundary b (form_parts ordv ordf f)"
    and ord: "is_order ordv" "is_order ordf"
    and f: "mf_Value f = []" "mf_File f = [(key, [fh])]" "fh_ContentType fh = []" and p: "plain key" "plain a" "plain v"
    and n: "fh_Filename fh = a @ [DQUOTE] @ ''; x='' @ [DQUOTE] @ v"
  shows "backend_reads b body = Some [\<lparr>en_name = key, en_filename = Some a, en_type = None, en_body = fh_bytes fh\<rparr>]"
proof -
  let ?p = "file_part key fh (fh_bytes fh)"
  have "ordv [] = []" using is_order_single [OF ord(1)] by simp
  then have fp: "form_parts ordv ordf f = [?p]"
    using is_order_single [OF ord(2), of key] by (simp add: form_parts_def f entries_of_def values_of_def)
  have "list_all header_ok (pt_Header ?p)"
    using p by (simp add: file_part_def header_ok_def quoted_def f n special_chars) (simp add: plain_def special_chars)
  then have "part_ok b ?p" and "CR \<notin> set b" using b by (simp_all add: fp part_ok_def fresh_boundary_def Contains_def)
  then have "read_multipart b body = Some [?p]" using read_written [of b "[?p]"] rebuilt(1) [OF rb] by (simp add: fp)
  then show ?thesis using read_cut_name [OF p, of "''x''" fh "fh_bytes fh"] n by (simp add: backend_reads_def type_of_def f)
qed


definition sample_form :: multipart_form where
  "sample_form = \<lparr>mf_Query = [], mf_Value = [(''model'', [''m1''])],
     mf_File = [(''file'', [\<lparr>fh_Filename = ''a.wav'', fh_ContentType = [], fh_Content = Inr ''RIFF''\<rparr>])]\<rparr>"

lemma sample_parts:
  "form_parts id id sample_form = [field_part (''model'', ''m1''), file_part ''file'' \<lparr>fh_Filename = ''a.wav'', fh_ContentType = [], fh_Content = Inr ''RIFF''\<rparr> ''RIFF'']"
  by (simp add: form_parts_def sample_form_def entries_of_def values_of_def fh_bytes_def)

lemma Contains_subset: "Contains s sub \<Longrightarrow> set sub \<subseteq> set s"
  by (auto simp: Contains_iff HasPrefix_def dest: arg_cong [of _ _ set] set_take_subset [THEN subsetD] set_drop_subset [THEN subsetD])

lemma sample_ok: "form_ok sample_form" "fresh_boundary ''Z'' (form_parts id id sample_form)"
proof -
  show "form_ok sample_form" by (simp add: form_ok_def sample_form_def plain_def special_chars)
  show "fresh_boundary ''Z'' (form_parts id id sample_form)"
    unfolding sample_parts fresh_boundary_def
    by (auto simp: part_text_def field_part_def file_part_def quoted_def escapeQuotes_def escape_char_def special_chars crlf_def delim_def
        dest!: Contains_subset)
qed

text \<open>The form of a request, with a second field whose name holds a quote.\<close>

definition quoted_form :: multipart_form where
  "quoted_form = sample_form\<lparr>mf_Value := [(''model'', [''m1'']), ([DQUOTE], [''1''])]\<rparr>"

lemma quoted_fresh: "fresh_boundary ''Z'' (form_parts id id quoted_form)"
proof -
  have "form_parts id id quoted_form = field_part (''model'', ''m1'') # field_part ([DQUOTE], ''1'') # tl (form_parts id id sample_form)"
    unfolding sample_parts by (simp add: form_parts_def quoted_form_def sample_form_def entries_of_def values_of_def fh_bytes_def DQUOTE_def)
  then show ?thesis unfolding sample_parts fresh_boundary_def
    by (auto simp: part_text_def field_part_def file_part_def quoted_def escapeQuotes_def escape_char_def special_chars crlf_def delim_def
        dest!: Contains_subset)
qed


section \<open>The model that is checked and the model that is sent\<close>

definition model_fields :: "form_entry list \<Rightarrow> string set" where
  "model_fields es = {en_body en |en. en \<in> set es \<and> en_name en = ''model'' \<and> en_filename en = None}"

lemma model_fields_form: "is_order ordv \<Longrightarrow> model_fields (form_entries ordv ordf f) = set (values_of (mf_Value f) ''model'')"
proof -
  assume o: "is_order ordv"
  have "model_fields (form_entries ordv ordf f) = {v. (''model'', v) \<in> set (entries_of ordv (mf_Value f))}"
    by (force simp: model_fields_def form_entries_def field_entry_def file_entry_def sent_name_model)
  also have "\<dots> = set (values_of (mf_Value f) ''model'')"
  proof (intro set_eqI iffI)
    fix v
    assume v: "v \<in> set (values_of (mf_Value f) ''model'')"
    then have "''model'' \<in> set (keys_of (mf_Value f))"
      by (cases "map_of (mf_Value f) ''model''") (auto simp: values_of_def dest!: map_of_SomeD intro: rev_image_eqI)
    then obtain vs where "(''model'', vs) \<in> set (mf_Value f)" by auto
    with v show "v \<in> {v. (''model'', v) \<in> set (entries_of ordv (mf_Value f))}"
      by (auto simp: entries_of_def is_order_set [OF o] intro!: bexI [of _ "(''model'', vs)"])
  qed (auto simp: entries_of_def)
  finally show ?thesis .
qed

text \<open>The one path on which the request is sent, and what the body is used for on it.\<close>

lemma multipart_sent:
  assumes f: "ForwardMultipart e js r mi h = (ans, Some (p, opts), h')"
  obtains m im cands rel status h1 b x body ct h3
  where "multipart_check r mi (fe_order e) h = Inr (m, im, cands)"
    and "admit (fe_admit e) (hi_key r) im h = ((rel, [], status), h1)"
    and "filterRoutable (s_bheap (hd_store h1)) cands (rc_AllowDegradedBackends (c_Routing (hd_cfg h1))) \<noteq> []"
    and "Choose (s_bheap (hd_store h1)) (fe_rnd e 0) im (rc_DefaultPolicy (c_Routing (hd_cfg h1)))
        (filterRoutable (s_bheap (hd_store h1)) cands (rc_AllowDegradedBackends (c_Routing (hd_cfg h1))))
        \<lparr>hint_APIKeyID = apiKeyID (the_key h1 (hi_key r)), hint_User = []\<rparr> (hd_balancer h1) = (Some p, b)"
    and "AcquireSlot (s_bheap (fe_race e 0 (hd_store h1)) p) = (x, True)"
    and "mi_rebuilt mi = Inr (body, ct)"
    and "multipart_serve e js r m im body ct p (h1\<lparr>hd_balancer := b, hd_store := upd_backend p (\<lambda>_. x) (fe_race e 0 (hd_store h1))\<rparr>) = (ans, opts, h3)"
    and "h' = doRelease rel h3"
proof -
  obtain m im cands where c: "multipart_check r mi (fe_order e) h = Inr (m, im, cands)"
    using f by (auto simp: ForwardMultipart_def split: sum.splits)
  obtain rel code status h1 where a: "admit (fe_admit e) (hi_key r) im h = ((rel, code, status), h1)" by (rule admit_cases)
  note F = f [unfolded ForwardMultipart_def c sum.case prod.case a Let_def]
  let ?ready = "filterRoutable (s_bheap (hd_store h1)) cands (rc_AllowDegradedBackends (c_Routing (hd_cfg h1)))"
  have code: "code = []" and ready: "?ready \<noteq> []" using F by (auto split: if_splits)
  obtain pick b where ch: "Choose (s_bheap (hd_store h1)) (fe_rnd e 0) im (rc_DefaultPolicy (c_Routing (hd_cfg h1))) ?ready
      \<lparr>hint_APIKeyID = apiKeyID (the_key h1 (hi_key r)), hint_User = []\<rparr> (hd_balancer h1) = (pick, b)" by (rule prod.exhaust)
  note F = F [unfolded ch prod.case]
  obtain q where q: "pick = Some q" using F code ready by (cases pick) auto
  obtain x got where acq: "AcquireSlot (s_bheap (fe_race e 0 (hd_store h1)) q) = (x, got)" by (rule prod.exhaust)
  note F = F [unfolded q option.case acq prod.case]
  have got: "got" using F code ready by (cases got) auto
  obtain body ct where rb: "mi_rebuilt mi = Inr (body, ct)" using F code ready got by (cases "mi_rebuilt mi") auto
  obtain ans' opts' h3 where sv: "multipart_serve e js r m im body ct q
      (h1\<lparr>hd_balancer := b, hd_store := upd_backend q (\<lambda>_. x) (fe_race e 0 (hd_store h1))\<rparr>) = (ans', opts', h3)" by (rule prod_cases3)
  have "ans' = ans" "q = p" "opts' = opts" "h' = doRelease rel h3" using F code ready got rb sv by auto
  then show thesis using that c a code ready ch q acq got rb sv by simp
qed

lemma serve_body:
  assumes "multipart_serve e js r m im body ct p h = (ans, opts, h')"
  shows "fo_Body opts = body" and "multipart_serve e js r m im body' ct' p h = (ans, opts\<lparr>fo_Body := body', fo_ContentType := ct'\<rparr>, h')"
  using assms by (auto simp: multipart_serve_def multipart_options_def Let_def)

lemma multipart_body_unread:
  assumes "ForwardMultipart e js r mi h = (ans, Some (p, opts), h')" and "mi_form mi' = mi_form mi" and "mi_rebuilt mi' = Inr (body', ct')"
  shows "ForwardMultipart e js r mi' h = (ans, Some (p, opts\<lparr>fo_Body := body', fo_ContentType := ct'\<rparr>), h')"
  using assms(1)
proof (rule multipart_sent)
  fix m im cands rel status h1 b x body ct h3
  assume s: "multipart_check r mi (fe_order e) h = Inr (m, im, cands)" "admit (fe_admit e) (hi_key r) im h = ((rel, [], status), h1)"
    "filterRoutable (s_bheap (hd_store h1)) cands (rc_AllowDegradedBackends (c_Routing (hd_cfg h1))) \<noteq> []"
    "Choose (s_bheap (hd_store h1)) (fe_rnd e 0) im (rc_DefaultPolicy (c_Routing (hd_cfg h1)))
        (filterRoutable (s_bheap (hd_store h1)) cands (rc_AllowDegradedBackends (c_Routing (hd_cfg h1))))
        \<lparr>hint_APIKeyID = apiKeyID (the_key h1 (hi_key r)), hint_User = []\<rparr> (hd_balancer h1) = (Some p, b)"
    "AcquireSlot (s_bheap (fe_race e 0 (hd_store h1)) p) = (x, True)"
    "multipart_serve e js r m im body ct p (h1\<lparr>hd_balancer := b, hd_store := upd_backend p (\<lambda>_. x) (fe_race e 0 (hd_store h1))\<rparr>) = (ans, opts, h3)"
    "h' = doRelease rel h3"
  have "multipart_check r mi' (fe_order e) h = Inr (m, im, cands)" using s(1) by (simp only: multipart_check_def assms(2))
  then show ?thesis by (simp add: ForwardMultipart_def s assms(3) serve_body(2) [OF s(6)])
qed

text \<open>
  C4. The audio endpoints send the model they checked, as long as the URL names no model, the form
  at most one, the boundary is fresh, and the names of the file fields, the file names and the
  content types hold no quote, backslash or line break (they are written unescaped, so such a file
  name can bring a \<open>name\<close> of its own): then the backend reads exactly one \<open>model\<close> in the fields of the
  body, and the key may use that model and the one it resolves to.
\<close>

theorem audio_model_checked:
  assumes sent: "ForwardMultipart e js r (multipart_input ordv ordf b f) h = (ans, Some (p, opts), h')"
    and key: "the_key h (hi_key r) = Some k" and ord: "is_order ordv"
    and ok: "form_ok f" "fresh_boundary b (form_parts ordv ordf f)"
    and one: "values_of (mf_Query f) ''model'' = []" "length (values_of (mf_Value f) ''model'') \<le> 1"
  shows "\<exists>m es. backend_reads b (fo_Body opts) = Some es \<and> model_fields es = {m}
    \<and> ModelAllowedResolved k m (fst (ResolveAlias m (hd_store h)))"
  using sent
proof (rule multipart_sent)
  fix m im cands rel status h1 bal x body ct h3
  assume c: "multipart_check r (multipart_input ordv ordf b f) (fe_order e) h = Inr (m, im, cands)"
    and rb: "mi_rebuilt (multipart_input ordv ordf b f) = Inr (body, ct)"
    and sv: "multipart_serve e js r m im body ct p (h1\<lparr>hd_balancer := bal, hd_store := upd_backend p (\<lambda>_. x) (fe_race e 0 (hd_store h1))\<rparr>) = (ans, opts, h3)"
  have m: "m = FormValue f ''model''" "m \<noteq> []" "ModelAllowedResolved k m (fst (ResolveAlias m (hd_store h)))"
    using c key by (auto simp: multipart_check_def multipart_input_def Let_def split: if_splits)
  have "set (values_of (mf_Value f) ''model'') = {m}"
    using m(1,2) one by (cases "values_of (mf_Value f) ''model''") (auto simp: FormValue_def)
  then show ?thesis
    using m(3) rebuilt_read [OF _ ok] rb model_fields_form [OF ord] serve_body(1) [OF sv] by (auto simp: multipart_input_def)
qed

definition audio_request :: http_in where
  "audio_request = \<lparr>hi_path = ''/audio/transcriptions'', hi_header = [(''Content-Type'', [''multipart/form-data''])], hi_body = Body [],
     hi_key = Some 0, hi_clientIP = []\<rparr>"

lemma audio_sent:
  "\<exists>ans opts h'. ForwardMultipart example_fwd example_codecs audio_request (multipart_input id id ''Z'' sample_form) keyed_handler
     = (ans, Some (0, opts), h')"
proof -
  let ?k = "s_kheap example_keys 0" and ?mi = "multipart_input id id ''Z'' sample_form"
  obtain body ct where rb: "rebuildMultipart id id ''Z'' (Some sample_form) = Inr (body, ct)"
    by (simp add: rebuildMultipart_def sample_form_def entries_of_def values_of_def)
  have mi: "mi_form ?mi = Form ''m1''" "mi_rebuilt ?mi = Inr (body, ct)"
    by (simp_all add: multipart_input_def rb) (simp add: FormValue_def sample_form_def values_of_def)
  have ct: "hdr_Get ''Content-Type'' (hi_header audio_request) = ''multipart/form-data''"
    by (simp add: audio_request_def hdr_Get_def CanonicalMIMEHeaderKey_def upper_char_def lower_char_def Let_def)
  have al: "ResolveAlias ''m1'' (hd_store keyed_handler) = (''m1'', ''m1'')"
    by (simp add: ResolveAlias_def resolve_loop.simps [of "[]"] keyed_facts)
  have key: "the_key keyed_handler (hi_key audio_request) = Some ?k" by (simp add: the_key_def keyed_facts audio_request_def)
  have al_ok: "ModelAllowed ?k ''m1''" by (simp add: ModelAllowed_def keyed_key)
  have chk: "multipart_check audio_request ?mi id keyed_handler = Inr (''m1'', ''m1'', [0])"
    by (simp add: multipart_check_def ct mi al key al_ok Let_def HasPrefix_def)
      (simp add: keyed_facts registry_off_def store_Model_def BackendsForModel_def range_map_def map_filter_def SupportsModel_def example_backend_def)
  obtain rel h where adm: "admit example_admit (Some 0) ''m1'' keyed_handler = ((rel, [], 0), h)" "hd_store h = hd_store keyed_handler"
    "hd_cfg h = Default" using keyed_admitted by blast
  have env: "fe_admit example_fwd = example_admit" "fe_order example_fwd = id" "hi_key audio_request = Some 0" "fe_race example_fwd = (\<lambda>_. id)"
    by (simp_all add: example_fwd_def audio_request_def)
  obtain b where ch: "Choose (s_bheap (hd_store h)) (fe_rnd example_fwd 0) ''m1'' (rc_DefaultPolicy (c_Routing Default)) [0]
      \<lparr>hint_APIKeyID = apiKeyID (the_key h (Some 0)), hint_User = []\<rparr> (hd_balancer h) = (Some 0, b)"
    by (simp add: Choose_def elem_at_def Default_def)
  have rt: "filterRoutable (s_bheap (hd_store h)) [0] (rc_AllowDegradedBackends (c_Routing Default)) = [0]"
    by (simp add: filterRoutable_def FilterRoutable_filter adm keyed_facts routable_def example_backend_def)
  obtain x where acq: "AcquireSlot (s_bheap (hd_store h) 0) = (x, True)" by (simp add: adm keyed_facts AcquireSlot_def example_backend_def)
  obtain ans opts h3 where sv: "multipart_serve example_fwd example_codecs audio_request ''m1'' ''m1'' body ct 0
      (h\<lparr>hd_balancer := b, hd_store := upd_backend 0 (\<lambda>_. x) (hd_store h)\<rparr>) = (ans, opts, h3)" by (rule prod_cases3)
  show ?thesis by (simp add: ForwardMultipart_def chk env adm(1,3) rt ch acq mi(2) sv Let_def)
qed

theorem audio_model_checked_witness:
  "\<exists>ans opts h' m es. ForwardMultipart example_fwd example_codecs audio_request (multipart_input id id ''Z'' sample_form) keyed_handler
       = (ans, Some (0, opts), h')
     \<and> backend_reads ''Z'' (fo_Body opts) = Some es \<and> model_fields es = {m}"
proof -
  obtain ans opts h' where s: "ForwardMultipart example_fwd example_codecs audio_request (multipart_input id id ''Z'' sample_form) keyed_handler
     = (ans, Some (0, opts), h')" using audio_sent by blast
  have key: "the_key keyed_handler (hi_key audio_request) = Some (s_kheap example_keys 0)" by (simp add: the_key_def keyed_facts audio_request_def)
  have "values_of (mf_Query sample_form) ''model'' = []" "length (values_of (mf_Value sample_form) ''model'') \<le> 1"
    by (simp_all add: sample_form_def values_of_def)
  from audio_model_checked [OF s key is_order_id sample_ok this] s show ?thesis by blast
qed

text \<open>
  Without the condition on the URL this fails: the answer, the backend and the new state are the
  same whatever fields the form holds, as long as the URL names a model, while the backend reads
  the model of the form.
\<close>

theorem audio_model_masked:
  assumes sent: "ForwardMultipart e js r (multipart_input ordv ordf b f) h = (ans, Some (p, opts), h')" and ord: "is_order ordv"
    and q: "values_of (mf_Query f) ''model'' \<noteq> []" and f': "f' = f\<lparr>mf_Value := vs\<rparr>"
    and ok: "form_ok f'" "fresh_boundary b (form_parts ordv ordf f')"
  shows "\<exists>opts' es. ForwardMultipart e js r (multipart_input ordv ordf b f') h = (ans, Some (p, opts'), h')
    \<and> backend_reads b (fo_Body opts') = Some es \<and> model_fields es = set (values_of vs ''model'')"
  using sent
proof (rule multipart_sent)
  fix body ct
  assume "mi_rebuilt (multipart_input ordv ordf b f) = Inr (body, ct)"
  then obtain body' ct' where rb: "rebuildMultipart ordv ordf b (Some f') = Inr (body', ct')"
    by (auto simp: multipart_input_def rebuildMultipart_def f' split: sum.splits)
  have "FormValue f' ''model'' = FormValue f ''model''" using q by (cases "values_of (mf_Query f) ''model''") (auto simp: FormValue_def f')
  then have "ForwardMultipart e js r (multipart_input ordv ordf b f') h = (ans, Some (p, opts\<lparr>fo_Body := body', fo_ContentType := ct'\<rparr>), h')"
    using rb by (intro multipart_body_unread [OF sent]) (simp_all add: multipart_input_def)
  then show ?thesis using rebuilt_read [OF rb ok] model_fields_form [OF ord, of ordf f'] by (auto simp: f')
qed

text \<open>What looks like a second name of the part may follow the quote.\<close>

lemma file_name_injects:
  assumes "plain a" and "plain b"
  shows "map_option (filter (\<lambda>kv. fst kv = ''name''))
     (read_params (drop 9 (snd (hd (pt_Header (file_part ''file'' (fh\<lparr>fh_Filename := a @ [DQUOTE] @ ''; name='' @ [DQUOTE] @ b\<rparr>) c))))))
     = Some [(''name'', ''file''), (''name'', b)]"
  using read_param [of "''file''" "''name''" "''; filename='' @ quoted a @ ''; name='' @ quoted b"]
    read_param [of a "''filename''" "''; name='' @ quoted b"] read_param [of b "''name''" "[]"] assms
  by (simp add: file_part_def quoted_def read_params.simps [of "[]"]) (simp add: plain_def special_chars)

end
